(* ===== verification/Prelude.thy ===== *)
theory Prelude
  imports Main "HOL-Library.Word" "HOL-Library.List_Lexorder" "HOL-Library.Char_ord"
begin

text \<open>
  The vocabulary the components share: fallible state-passing computations (the async
  methods of the services, with \<open>?\<close> as \<open>m_bind\<close>), the string functions of Rust's
  standard library that the code calls (byte strings, exact on ASCII), time as
  nanoseconds, slice chunking, stable descending sort, and primary-key tables.
\<close>

named_theorems keeps_intros "introduction rules for preserved state predicates"

section \<open>Fallible computations over a state\<close>

text \<open>
  A method that may fail and may change the state. An error keeps the state reached so
  far: \<open>?\<close> returns early and undoes nothing.
\<close>

type_synonym ('s, 'e, 'a) sm = "'s \<Rightarrow> ('e + 'a) \<times> 's"

definition m_ret :: "'a \<Rightarrow> ('s, 'e, 'a) sm" where
  "m_ret a = (\<lambda>s. (Inr a, s))"

definition m_fail :: "'e \<Rightarrow> ('s, 'e, 'a) sm" where
  "m_fail e = (\<lambda>s. (Inl e, s))"

definition m_bind :: "('s, 'e, 'a) sm \<Rightarrow> ('a \<Rightarrow> ('s, 'e, 'b) sm) \<Rightarrow> ('s, 'e, 'b) sm" where
  "m_bind m f = (\<lambda>s. case m s of (Inl e, t) \<Rightarrow> (Inl e, t) | (Inr a, t) \<Rightarrow> f a t)"

definition m_then :: "('s, 'e, 'a) sm \<Rightarrow> ('s, 'e, 'b) sm \<Rightarrow> ('s, 'e, 'b) sm" where
  "m_then m k = m_bind m (\<lambda>_. k)"

definition m_gets :: "('s \<Rightarrow> 'a) \<Rightarrow> ('s, 'e, 'a) sm" where
  "m_gets f = (\<lambda>s. (Inr (f s), s))"

definition m_modify :: "('s \<Rightarrow> 's) \<Rightarrow> ('s, 'e, unit) sm" where
  "m_modify f = (\<lambda>s. (Inr (), f s))"

text \<open>A result computed without touching the state, and one that is only logged on error.\<close>

definition m_of :: "'e + 'a \<Rightarrow> ('s, 'e, 'a) sm" where
  "m_of r = (\<lambda>s. (r, s))"

definition m_warn :: "('s, 'e, unit) sm \<Rightarrow> ('s, 'e, unit) sm" where
  "m_warn m = (\<lambda>s. (Inr (), snd (m s)))"

fun m_seq :: "('s, 'e, unit) sm list \<Rightarrow> ('s, 'e, unit) sm" where
  "m_seq [] = m_ret ()"
| "m_seq (m # ms) = m_then m (m_seq ms)"

fun m_each :: "('a \<Rightarrow> ('s, 'e, 'b) sm) \<Rightarrow> 'a list \<Rightarrow> ('s, 'e, 'b list) sm" where
  "m_each f [] = m_ret []"
| "m_each f (x # xs) = m_bind (f x) (\<lambda>y. m_bind (m_each f xs) (\<lambda>ys. m_ret (y # ys)))"

fun m_fold :: "('b \<Rightarrow> 'a \<Rightarrow> ('s, 'e, 'b) sm) \<Rightarrow> 'b \<Rightarrow> 'a list \<Rightarrow> ('s, 'e, 'b) sm" where
  "m_fold f b [] = m_ret b"
| "m_fold f b (x # xs) = m_bind (f b x) (\<lambda>b'. m_fold f b' xs)"

text \<open>A computation on a component of the state, and one whose error type is wrapped.\<close>

definition m_zoom :: "('t \<Rightarrow> 's) \<Rightarrow> ('s \<Rightarrow> 't \<Rightarrow> 't) \<Rightarrow> ('e \<Rightarrow> 'f) \<Rightarrow>
    ('s, 'e, 'a) sm \<Rightarrow> ('t, 'f, 'a) sm" where
  "m_zoom get put conv m = (\<lambda>t. case m (get t) of
     (Inl e, s) \<Rightarrow> (Inl (conv e), put s t)
   | (Inr a, s) \<Rightarrow> (Inr a, put s t))"

text \<open>A transaction: an error rolls the state back.\<close>

definition m_tx :: "('s, 'e, 'a) sm \<Rightarrow> ('s, 'e, 'a) sm" where
  "m_tx m = (\<lambda>s. case m s of (Inl e, _) \<Rightarrow> (Inl e, s) | (Inr a, t) \<Rightarrow> (Inr a, t))"

lemmas m_defs = m_ret_def m_fail_def m_bind_def m_then_def m_gets_def m_modify_def m_of_def
  m_warn_def m_tx_def m_zoom_def

lemma m_ret_run [simp]: "m_ret a s = (Inr a, s)"
  by (simp add: m_ret_def)

lemma m_fail_run [simp]: "m_fail e s = (Inl e, s)"
  by (simp add: m_fail_def)

lemma m_gets_run [simp]: "m_gets f s = (Inr (f s), s)"
  by (simp add: m_gets_def)

lemma m_modify_run [simp]: "m_modify f s = (Inr (), f s)"
  by (simp add: m_modify_def)

lemma m_of_run [simp]: "m_of r s = (r, s)"
  by (simp add: m_of_def)

lemma m_bind_Inr: "m s = (Inr a, t) \<Longrightarrow> m_bind m f s = f a t"
  by (simp add: m_bind_def)

lemma m_bind_Inl: "m s = (Inl e, t) \<Longrightarrow> m_bind m f s = (Inl e, t)"
  by (simp add: m_bind_def)

lemma m_bind_ok_iff:
  "m_bind m f s = (Inr b, u) \<longleftrightarrow> (\<exists>a t. m s = (Inr a, t) \<and> f a t = (Inr b, u))"
  by (auto simp: m_bind_def split: prod.splits sum.splits)

lemma m_then_ok_iff:
  "m_then m k s = (Inr b, u) \<longleftrightarrow> (\<exists>a t. m s = (Inr a, t) \<and> k t = (Inr b, u))"
  by (simp add: m_then_def m_bind_ok_iff)

lemma m_bind_err_iff:
  "m_bind m f s = (Inl e, u) \<longleftrightarrow>
     m s = (Inl e, u) \<or> (\<exists>a t. m s = (Inr a, t) \<and> f a t = (Inl e, u))"
  by (auto simp: m_bind_def split: prod.splits sum.splits)

lemma m_tx_err: "m_tx m s = (Inl e, t) \<Longrightarrow> t = s"
  by (auto simp: m_tx_def split: prod.splits sum.splits)

lemma m_tx_ok_iff: "m_tx m s = (Inr a, t) \<longleftrightarrow> m s = (Inr a, t)"
  by (auto simp: m_tx_def split: prod.splits sum.splits)

lemma m_seq_take_cases:
  assumes "m_seq (take (Suc k) (m # ms)) s = (r, t)"
  obtains (stopped) e where "m s = (Inl e, t)" "r = Inl e"
    | (went_on) u where "m s = (Inr (), u)" "m_seq (take k ms) u = (r, t)"
  using assms by (cases "m s", cases "fst (m s)") (auto simp: m_then_def m_bind_def)

lemma m_seq_take_error:
  "m_seq (take k ms) s = (Inl e, t) \<Longrightarrow>
     \<exists>j u. j < k \<and> j < length ms \<and> m_seq (take j ms) s = (Inr (), u) \<and> (ms ! j) u = (Inl e, t)"
proof (induction ms arbitrary: k s)
  case Nil
  then show ?case by simp
next
  case (Cons m ms)
  then obtain k' where k: "k = Suc k'" by (cases k) auto
  from Cons.prems [unfolded k] show ?case
  proof (cases rule: m_seq_take_cases)
    case (stopped e')
    with k show ?thesis by (intro exI [of _ 0] exI [of _ s]) simp
  next
    case (went_on u)
    from Cons.IH [OF went_on(2)] obtain j v where "j < k'" "j < length ms" "m_seq (take j ms) u = (Inr (), v)"
        "(ms ! j) v = (Inl e, t)" by blast
    with went_on(1) k show ?thesis by (intro exI [of _ "Suc j"] exI [of _ v]) (simp add: m_then_def m_bind_def)
  qed
qed

subsection \<open>State predicates a computation keeps, whether it fails or not\<close>

definition keeps :: "('s \<Rightarrow> bool) \<Rightarrow> ('s, 'e, 'a) sm \<Rightarrow> bool" where
  "keeps P m \<longleftrightarrow> (\<forall>s. P s \<longrightarrow> P (snd (m s)))"

lemma keepsI: "(\<And>s. P s \<Longrightarrow> P (snd (m s))) \<Longrightarrow> keeps P m"
  by (simp add: keeps_def)

lemma keepsD: "keeps P m \<Longrightarrow> P s \<Longrightarrow> P (snd (m s))"
  by (simp add: keeps_def)

lemma keepsD_run: "keeps P m \<Longrightarrow> P s \<Longrightarrow> m s = (r, t) \<Longrightarrow> P t"
  by (metis keepsD snd_conv)

lemma keeps_ret [keeps_intros]: "keeps P (m_ret a)"
  by (simp add: keeps_def)

lemma keeps_fail [keeps_intros]: "keeps P (m_fail e)"
  by (simp add: keeps_def)

lemma keeps_gets [keeps_intros]: "keeps P (m_gets f)"
  by (simp add: keeps_def)

lemma keeps_of [keeps_intros]: "keeps P (m_of r)"
  by (simp add: keeps_def)

lemma keeps_modify: "(\<And>s. P s \<Longrightarrow> P (f s)) \<Longrightarrow> keeps P (m_modify f)"
  by (simp add: keeps_def)

lemma keeps_bind [keeps_intros]: "keeps P m \<Longrightarrow> (\<And>a. keeps P (f a)) \<Longrightarrow> keeps P (m_bind m f)"
  unfolding keeps_def m_bind_def by (fastforce split: prod.splits sum.splits)

lemma keeps_then [keeps_intros]: "keeps P m \<Longrightarrow> keeps P k \<Longrightarrow> keeps P (m_then m k)"
  unfolding m_then_def by (rule keeps_bind)

lemma keeps_warn [keeps_intros]: "keeps P m \<Longrightarrow> keeps P (m_warn m)"
  by (simp add: keeps_def m_warn_def)

lemma keeps_tx [keeps_intros]: "keeps P m \<Longrightarrow> keeps P (m_tx m)"
  unfolding keeps_def m_tx_def by (fastforce split: prod.splits sum.splits)

lemma keeps_if [keeps_intros]: "(b \<Longrightarrow> keeps P m) \<Longrightarrow> (\<not> b \<Longrightarrow> keeps P k) \<Longrightarrow> keeps P (if b then m else k)"
  by simp

lemma keeps_option [keeps_intros]:
  "(x = None \<Longrightarrow> keeps P m) \<Longrightarrow> (\<And>a. x = Some a \<Longrightarrow> keeps P (f a)) \<Longrightarrow>
     keeps P (case x of None \<Rightarrow> m | Some a \<Rightarrow> f a)"
  by (cases x) simp_all

lemma keeps_seq: "(\<And>m. m \<in> set ms \<Longrightarrow> keeps P m) \<Longrightarrow> keeps P (m_seq ms)"
  by (induction ms) (auto intro: keeps_intros)

lemma keeps_each [keeps_intros]: "(\<And>x. keeps P (f x)) \<Longrightarrow> keeps P (m_each f xs)"
  by (induction xs) (auto intro!: keeps_intros)

lemma keeps_fold [keeps_intros]: "(\<And>b x. keeps P (f b x)) \<Longrightarrow> keeps P (m_fold f b xs)"
  by (induction xs arbitrary: b) (auto intro!: keeps_intros)

lemma keeps_zoom:
  assumes "keeps Q m" and "\<And>s t. P t \<Longrightarrow> Q (get t)" and "\<And>s t. P t \<Longrightarrow> Q s \<Longrightarrow> P (put s t)"
  shows "keeps P (m_zoom get put conv m)"
  unfolding m_zoom_def keeps_def
proof (intro allI impI)
  fix t assume "P t"
  then have "Q (snd (m (get t)))" using assms(1,2) by (auto simp: keeps_def)
  with \<open>P t\<close> show "P (snd (case m (get t) of (Inl e, s) \<Rightarrow> (Inl (conv e), put s t)
      | (Inr a, s) \<Rightarrow> (Inr a, put s t)))"
    by (auto split: prod.splits sum.splits simp: assms(3))
qed

subsection \<open>Computations that never fail\<close>

definition completes :: "('s, 'e, 'a) sm \<Rightarrow> bool" where
  "completes m \<longleftrightarrow> (\<forall>s. \<exists>a t. m s = (Inr a, t))"

named_theorems completes_intros "introduction rules for computations that never fail"

lemma completes_simple [completes_intros]:
  "completes (m_ret a)" "completes (m_gets f)" "completes (m_modify g)" "completes (m_warn m)"
  by (simp_all add: completes_def m_warn_def)

lemma completes_bind [completes_intros]: "completes m \<Longrightarrow> (\<And>a. completes (f a)) \<Longrightarrow> completes (m_bind m f)"
  unfolding completes_def m_bind_ok_iff by blast

lemma completes_then [completes_intros]: "completes m \<Longrightarrow> completes k \<Longrightarrow> completes (m_then m k)"
  unfolding m_then_def by (rule completes_bind)

lemma completes_if [completes_intros]:
  "(b \<Longrightarrow> completes m) \<Longrightarrow> (\<not> b \<Longrightarrow> completes k) \<Longrightarrow> completes (if b then m else k)"
  by simp

lemma completes_option [completes_intros]:
  "(x = None \<Longrightarrow> completes m) \<Longrightarrow> (\<And>a. x = Some a \<Longrightarrow> completes (f a)) \<Longrightarrow>
     completes (case x of None \<Rightarrow> m | Some a \<Rightarrow> f a)"
  by (cases x) simp_all

lemma completes_not_err: "completes m \<Longrightarrow> m s \<noteq> (Inl e, t)"
  unfolding completes_def by (metis Pair_inject sum.distinct(1))

lemma completes_fold: "(\<And>b x. x \<in> set xs \<Longrightarrow> completes (f b x)) \<Longrightarrow> completes (m_fold f b xs)"
  by (induction xs arbitrary: b) (auto intro!: completes_intros)

section \<open>Strings\<close>

text \<open>
  Rust strings are UTF-8; here they are their bytes, so \<open>length\<close> is \<open>str::len\<close>.
  \<open>trim\<close>, \<open>to_lowercase\<close> and \<open>split_whitespace\<close> act on ASCII white space and letters;
  other bytes are left alone.
\<close>

definition is_ws :: "char \<Rightarrow> bool" where
  "is_ws c \<longleftrightarrow> (let n = of_char c :: nat in (9 \<le> n \<and> n \<le> 13) \<or> n = 32)"

definition lower_char :: "char \<Rightarrow> char" where
  "lower_char c = (let n = of_char c :: nat in if 65 \<le> n \<and> n \<le> 90 then char_of (n + 32) else c)"

definition to_lowercase :: "string \<Rightarrow> string" where
  "to_lowercase s = map lower_char s"

definition trim_start :: "string \<Rightarrow> string" where
  "trim_start s = dropWhile is_ws s"

definition trim :: "string \<Rightarrow> string" where
  "trim s = rev (trim_start (rev (trim_start s)))"

function split_whitespace :: "string \<Rightarrow> string list" where
  "split_whitespace [] = []"
| "split_whitespace (c # cs) =
     (if is_ws c then split_whitespace cs
      else (c # takeWhile (\<lambda>d. \<not> is_ws d) cs) # split_whitespace (dropWhile (\<lambda>d. \<not> is_ws d) cs))"
  by pat_completeness auto
termination
  by (relation "measure length") (auto simp: le_imp_less_Suc length_dropWhile_le)

fun join :: "string \<Rightarrow> string list \<Rightarrow> string" where
  "join sep [] = []"
| "join sep [w] = w"
| "join sep (w # ws) = w @ sep @ join sep ws"

text \<open>\<open>{}\<close> of \<open>format!\<close> on an unsigned and a signed integer.\<close>

fun show_nat :: "nat \<Rightarrow> string" where
  "show_nat n = (if n < 10 then [char_of (48 + n)] else show_nat (n div 10) @ [char_of (48 + n mod 10)])"

declare show_nat.simps [simp del]

definition show_int :: "int \<Rightarrow> string" where
  "show_int i = (if i < 0 then CHR ''-'' # show_nat (nat (- i)) else show_nat (nat i))"

text \<open>\<open>str::split\<close> on one separator character: always at least one piece.\<close>

fun split_on :: "char \<Rightarrow> string \<Rightarrow> string list" where
  "split_on c [] = [[]]"
| "split_on c (d # ds) =
     (if d = c then [] # split_on c ds
      else case split_on c ds of [] \<Rightarrow> [[d]] | w # ws \<Rightarrow> (d # w) # ws)"

lemma split_on_nonempty [simp]: "split_on c s \<noteq> []"
  by (induction s) (auto split: list.splits)

lemma split_on_word: "c \<notin> set w \<Longrightarrow> split_on c w = [w]"
  by (induction w) auto

lemma split_on_append: "c \<notin> set w \<Longrightarrow> split_on c (w @ c # s) = w # split_on c s"
  by (induction w) auto

lemma split_on_join:
  assumes "ws \<noteq> []" and "\<forall>w\<in>set ws. c \<notin> set w"
  shows "split_on c (join [c] ws) = ws"
  using assms
proof (induction "[c]" ws rule: join.induct)
  case 1
  then show ?case by simp
next
  case (2 w)
  then show ?case by (simp add: split_on_word)
next
  case (3 w v va)
  then show ?case by (simp add: split_on_append)
qed

lemma set_trim_subset: "set (trim s) \<subseteq> set s"
  unfolding trim_def trim_start_def by (auto dest!: set_dropWhileD)

lemma lower_char_idem [simp]: "lower_char (lower_char c) = lower_char c"
proof -
  have "of_char (char_of (n + 32) :: char) = n + 32" if "65 \<le> n" "n \<le> 90" for n :: nat
    using that by (simp add: of_char_of)
  then show ?thesis by (simp add: lower_char_def Let_def)
qed

lemma lowercase_idem [simp]: "to_lowercase (to_lowercase s) = to_lowercase s"
  by (simp add: to_lowercase_def)

lemma is_ws_lower [simp]: "is_ws (lower_char c) = is_ws c"
proof -
  have "of_char (char_of (n + 32) :: char) = n + 32" if "65 \<le> n" "n \<le> 90" for n :: nat
    using that by (simp add: of_char_of)
  then show ?thesis by (auto simp: is_ws_def lower_char_def Let_def)
qed

lemma lowercase_trim: "to_lowercase (trim s) = trim (to_lowercase s)"
  by (simp add: to_lowercase_def trim_def trim_start_def dropWhile_map comp_def rev_map)

subsection \<open>Words of a string\<close>

abbreviation word_chars :: "string \<Rightarrow> bool" where
  "word_chars w \<equiv> w \<noteq> [] \<and> (\<forall>c\<in>set w. \<not> is_ws c)"

lemma split_whitespace_words: "w \<in> set (split_whitespace s) \<Longrightarrow> word_chars w"
proof (induction s rule: split_whitespace.induct)
  case 1
  then show ?case by simp
next
  case (2 c cs)
  have tw: "\<forall>d\<in>set (takeWhile (\<lambda>d. \<not> is_ws d) cs). \<not> is_ws d"
    using set_takeWhileD by fastforce
  show ?case
  proof (cases "is_ws c")
    case True
    with 2 show ?thesis by simp
  next
    case False
    with 2(3) consider "w = c # takeWhile (\<lambda>d. \<not> is_ws d) cs"
      | "w \<in> set (split_whitespace (dropWhile (\<lambda>d. \<not> is_ws d) cs))" by auto
    then show ?thesis
    proof cases
      case 1
      with tw False show ?thesis by simp
    next
      case 2
      with False show ?thesis by (rule "2.IH"(2))
    qed
  qed
qed

lemma split_whitespace_chars: "w \<in> set (split_whitespace s) \<Longrightarrow> set w \<subseteq> set s"
proof (induction s rule: split_whitespace.induct)
  case 1
  then show ?case by simp
next
  case (2 c cs)
  have sub: "set (takeWhile (\<lambda>d. \<not> is_ws d) cs) \<subseteq> set cs" "set (dropWhile (\<lambda>d. \<not> is_ws d) cs) \<subseteq> set cs"
    by (auto dest: set_takeWhileD set_dropWhileD)
  show ?case
  proof (cases "is_ws c")
    case True
    with 2 show ?thesis by (simp add: subset_insertI2)
  next
    case False
    with 2(3) consider "w = c # takeWhile (\<lambda>d. \<not> is_ws d) cs"
      | "w \<in> set (split_whitespace (dropWhile (\<lambda>d. \<not> is_ws d) cs))" by auto
    then show ?thesis
    proof cases
      case 1
      with sub(1) show ?thesis by (simp add: subset_insertI2)
    next
      case 2
      then have "set w \<subseteq> set (dropWhile (\<lambda>d. \<not> is_ws d) cs)" by (rule "2.IH"(2) [OF False])
      with sub(2) show ?thesis by (simp add: subset_insertI2 subset_trans)
    qed
  qed
qed

lemma split_whitespace_ws: "\<forall>c\<in>set s. is_ws c \<Longrightarrow> split_whitespace s = []"
  by (induction s) auto

lemma split_whitespace_word_then:
  "word_chars w \<Longrightarrow> split_whitespace (w @ s) =
     (w @ takeWhile (\<lambda>d. \<not> is_ws d) s) # split_whitespace (dropWhile (\<lambda>d. \<not> is_ws d) s)"
  by (cases w) (auto simp: takeWhile_append2 dropWhile_append2)

lemma split_whitespace_join:
  "\<forall>w\<in>set ws. word_chars w \<Longrightarrow> split_whitespace (join '' '' ws) = ws"
proof (induction "'' ''" ws rule: join.induct)
  case 1
  then show ?case by simp
next
  case (2 w)
  then show ?case using split_whitespace_word_then [of w "[]"] by simp
next
  case (3 w v va)
  have "is_ws (CHR '' '')" by (simp add: is_ws_def)
  with 3 show ?case
    using split_whitespace_word_then [of w "CHR '' '' # join '' '' (v # va)"] by simp
qed

lemma split_whitespace_trim_start: "split_whitespace (trim_start s) = split_whitespace s"
  unfolding trim_start_def by (induction s) auto

lemma split_whitespace_append_ws:
  "\<forall>c\<in>set u. is_ws c \<Longrightarrow> split_whitespace (s @ u) = split_whitespace s"
proof (induction s rule: split_whitespace.induct)
  case 1
  then show ?case by (simp add: split_whitespace_ws)
next
  case (2 c cs)
  let ?nw = "\<lambda>d. \<not> is_ws d"
  have tu: "takeWhile ?nw u = []" and du: "dropWhile ?nw u = u"
    using 2(3) by (cases u; simp)+
  have t: "takeWhile ?nw (cs @ u) = takeWhile ?nw cs"
    using tu by (induction cs) auto
  have d: "dropWhile ?nw (cs @ u) = dropWhile ?nw cs @ u"
    using du by (induction cs) auto
  show ?case
    using 2 by (auto simp: t d)
qed

lemma trim_decomp: "\<exists>u v. s = u @ trim s @ v \<and> (\<forall>c\<in>set u \<union> set v. is_ws c)"
proof -
  let ?t = "dropWhile is_ws s" and ?r = "dropWhile is_ws (rev (dropWhile is_ws s))"
  have 1: "s = takeWhile is_ws s @ ?t" by simp
  have "rev ?t = takeWhile is_ws (rev ?t) @ ?r" by simp
  then have 2: "?t = rev ?r @ rev (takeWhile is_ws (rev ?t))" by (metis rev_append rev_rev_ident)
  have "s = takeWhile is_ws s @ rev ?r @ rev (takeWhile is_ws (rev ?t))"
    using 1 2 by simp
  moreover have "\<forall>c\<in>set (takeWhile is_ws s) \<union> set (rev (takeWhile is_ws (rev ?t))). is_ws c"
    by (auto dest: set_takeWhileD)
  ultimately show ?thesis unfolding trim_def trim_start_def by blast
qed

lemma split_whitespace_ws_prefix:
  "\<forall>c\<in>set u. is_ws c \<Longrightarrow> split_whitespace (u @ s) = split_whitespace s"
  by (induction u) auto

lemma split_whitespace_trim: "split_whitespace (trim s) = split_whitespace s"
proof -
  obtain u v where s: "s = u @ trim s @ v" "\<forall>c\<in>set u \<union> set v. is_ws c"
    using trim_decomp by blast
  have "split_whitespace s = split_whitespace (u @ trim s @ v)" using s(1) by simp
  also have "\<dots> = split_whitespace (trim s)"
    using s(2) by (simp add: split_whitespace_ws_prefix split_whitespace_append_ws)
  finally show ?thesis by simp
qed

section \<open>Time\<close>

text \<open>
  A \<open>DateTime<Utc>\<close> is its number of nanoseconds since the Unix epoch, a duration is a
  difference of two. \<open>num_seconds\<close> and \<open>num_days\<close> truncate towards zero.
\<close>

type_synonym time = int

definition nanos_per_second :: int where
  "nanos_per_second = 1000000000"

definition duration_days :: "int \<Rightarrow> int" where
  "duration_days d = d * (86400 * nanos_per_second)"

definition trunc_div :: "int \<Rightarrow> int \<Rightarrow> int" where
  "trunc_div a b = (if 0 \<le> a then a div b else - ((- a) div b))"

definition num_seconds :: "int \<Rightarrow> int" where
  "num_seconds d = trunc_div d nanos_per_second"

definition num_days :: "int \<Rightarrow> int" where
  "num_days d = trunc_div (num_seconds d) 86400"

definition num_milliseconds :: "int \<Rightarrow> int" where
  "num_milliseconds d = trunc_div d 1000000"

section \<open>Slices, sorting\<close>

text \<open>\<open>slice::chunks\<close> (which panics on a zero size; the callers pass a constant).\<close>

function chunks :: "nat \<Rightarrow> 'a list \<Rightarrow> 'a list list" where
  "chunks n xs = (if n = 0 \<or> xs = [] then [] else take n xs # chunks n (drop n xs))"
  by pat_completeness auto
termination
  by (relation "measure (\<lambda>(n, xs). length xs)") auto

declare chunks.simps [simp del]

lemma chunks_Nil [simp]: "chunks n [] = []"
  by (simp add: chunks.simps)

lemma concat_chunks: "0 < n \<Longrightarrow> concat (chunks n xs) = xs"
proof (induction n xs rule: chunks.induct)
  case (1 n xs)
  then show ?case by (cases "xs = []") (simp_all add: chunks.simps [of n xs])
qed

lemma chunks_length: "c \<in> set (chunks n xs) \<Longrightarrow> length c \<le> n"
proof (induction n xs rule: chunks.induct)
  case (1 n xs)
  then show ?case by (cases "n = 0 \<or> xs = []") (auto simp: chunks.simps [of n xs])
qed

lemma chunks_short: "0 < n \<Longrightarrow> xs \<noteq> [] \<Longrightarrow> length xs \<le> n \<Longrightarrow> chunks n xs = [xs]"
  by (simp add: chunks.simps [of n xs])

text \<open>A stable sort by a key, largest first (\<open>sort_by\<close> with the operands swapped).\<close>

definition sort_desc :: "('a \<Rightarrow> 'k::{linorder, ab_group_add}) \<Rightarrow> 'a list \<Rightarrow> 'a list" where
  "sort_desc f xs = sort_key (\<lambda>x. - f x) xs"

lemma set_sort_desc [simp]: "set (sort_desc f xs) = set xs"
  by (simp add: sort_desc_def)

lemma length_sort_desc [simp]: "length (sort_desc f xs) = length xs"
  by (simp add: sort_desc_def)

lemma distinct_sort_desc [simp]: "distinct (map g (sort_desc f xs)) = distinct (map g xs)"
  unfolding sort_desc_def by (simp add: distinct_map)

lemma sort_desc_sorted:
  fixes f :: "'a \<Rightarrow> 'k::{linorder, ordered_ab_group_add}"
  shows "sorted_wrt (\<lambda>x y. f y \<le> f x) (sort_desc f xs)"
proof -
  have "sorted (map (\<lambda>x. - f x) (sort_desc f xs))"
    by (simp add: sort_desc_def)
  then show ?thesis by (simp add: sorted_map)
qed

lemma sorted_wrt_take: "sorted_wrt P xs \<Longrightarrow> sorted_wrt P (take n xs)"
  by (metis append_take_drop_id sorted_wrt_append)

text \<open>Rows that are cut off by \<open>LIMIT\<close> do not come before the ones kept.\<close>

lemma sorted_wrt_take_drop:
  "sorted_wrt P xs \<Longrightarrow> x \<in> set (take n xs) \<Longrightarrow> y \<in> set (drop n xs) \<Longrightarrow> P x y"
  by (metis append_take_drop_id sorted_wrt_append)

lemma set_map_filter: "set (List.map_filter f xs) = {y. \<exists>x\<in>set xs. f x = Some y}"
  by (induction xs) (auto split: option.splits)

lemma find_append: "find p (xs @ ys) = (case find p xs of None \<Rightarrow> find p ys | Some a \<Rightarrow> Some a)"
  by (induction xs) auto

section \<open>Primary-key tables\<close>

text \<open>
  A table is the list of its rows in insertion order. \<open>INSERT\<close> refuses a primary key
  that is taken, \<open>INSERT OR REPLACE\<close> removes the old row first.
\<close>

definition rows_get :: "('r \<Rightarrow> 'k) \<Rightarrow> 'k \<Rightarrow> 'r list \<Rightarrow> 'r option" where
  "rows_get key k rows = find (\<lambda>r. key r = k) rows"

definition rows_del :: "('r \<Rightarrow> 'k) \<Rightarrow> 'k list \<Rightarrow> 'r list \<Rightarrow> 'r list" where
  "rows_del key ks rows = filter (\<lambda>r. key r \<notin> set ks) rows"

definition rows_put :: "('r \<Rightarrow> 'k) \<Rightarrow> 'r \<Rightarrow> 'r list \<Rightarrow> 'r list" where
  "rows_put key r rows = rows_del key [key r] rows @ [r]"

definition rows_upd :: "('r \<Rightarrow> bool) \<Rightarrow> ('r \<Rightarrow> 'r) \<Rightarrow> 'r list \<Rightarrow> 'r list" where
  "rows_upd p f rows = map (\<lambda>r. if p r then f r else r) rows"

definition row_keys :: "('r \<Rightarrow> 'k) \<Rightarrow> 'r list \<Rightarrow> 'k set" where
  "row_keys key rows = key ` set rows"

lemma rows_get_Some: "rows_get key k rows = Some r \<Longrightarrow> r \<in> set rows \<and> key r = k"
  unfolding rows_get_def by (auto simp: find_Some_iff)

lemma rows_get_None: "rows_get key k rows = None \<longleftrightarrow> k \<notin> row_keys key rows"
  unfolding rows_get_def row_keys_def by (auto simp: find_None_iff)

lemma rows_get_in: "distinct (map key rows) \<Longrightarrow> r \<in> set rows \<Longrightarrow> rows_get key (key r) rows = Some r"
  unfolding rows_get_def by (induction rows) (auto simp: image_iff)

lemma rows_get_append:
  "rows_get key k (xs @ ys) = (case rows_get key k xs of None \<Rightarrow> rows_get key k ys | Some r \<Rightarrow> Some r)"
  unfolding rows_get_def by (induction xs) auto

lemma rows_get_single [simp]: "rows_get key k [r] = (if key r = k then Some r else None)"
  by (simp add: rows_get_def)

lemma rows_get_Nil [simp]: "rows_get key k [] = None"
  by (simp add: rows_get_def)

lemma rows_get_del:
  "rows_get key k (rows_del key ks rows) = (if k \<in> set ks then None else rows_get key k rows)"
  unfolding rows_get_def rows_del_def by (induction rows) auto

lemma rows_get_upd:
  "(\<And>r. key (f r) = key r) \<Longrightarrow>
     rows_get key k (rows_upd p f rows) = map_option (\<lambda>r. if p r then f r else r) (rows_get key k rows)"
  unfolding rows_get_def rows_upd_def by (induction rows) auto

lemma set_rows_del [simp]: "set (rows_del key ks rows) = {r \<in> set rows. key r \<notin> set ks}"
  by (simp add: rows_del_def)

lemma map_key_upd: "(\<And>r. g (f r) = g r) \<Longrightarrow> map g (rows_upd p f rows) = map g rows"
  unfolding rows_upd_def by (induction rows) auto

lemma row_keys_upd: "(\<And>r. key (f r) = key r) \<Longrightarrow> row_keys key (rows_upd p f rows) = row_keys key rows"
  unfolding row_keys_def using map_key_upd [of key f p rows] by (metis image_set)

lemma row_keys_append [simp]: "row_keys key (xs @ ys) = row_keys key xs \<union> row_keys key ys"
  by (auto simp: row_keys_def)

lemma row_keys_del [simp]: "row_keys key (rows_del key ks rows) = row_keys key rows - set ks"
  by (auto simp: row_keys_def)

lemma row_keys_single [simp]: "row_keys key [r] = {key r}"
  by (simp add: row_keys_def)

lemma distinct_rows_del: "distinct (map g rows) \<Longrightarrow> distinct (map g (rows_del key ks rows))"
  unfolding rows_del_def by (rule distinct_map_filter)

lemma rows_del_fresh: "k \<notin> row_keys key rows \<Longrightarrow> rows_del key [k] rows = rows"
  unfolding rows_del_def row_keys_def by (induction rows) auto

lemma rows_del_append [simp]: "rows_del key ks (xs @ ys) = rows_del key ks xs @ rows_del key ks ys"
  by (simp add: rows_del_def)

lemma rows_del_Nil [simp]: "rows_del key ks [] = []"
  by (simp add: rows_del_def)

lemma rows_del_single [simp]: "rows_del key ks [r] = (if key r \<in> set ks then [] else [r])"
  by (simp add: rows_del_def)

lemma rows_del_del: "rows_del key ks (rows_del key ls rows) = rows_del key (ls @ ks) rows"
  by (simp add: rows_del_def conj_commute)

text \<open>
  The contract between a table's client and the operations that implement it: an insert
  that refuses a taken key and otherwise appends, and a delete by key.
\<close>

locale pk_table =
  fixes rows :: "'d \<Rightarrow> 'r list"
    and key :: "'r \<Rightarrow> 'k"
    and row_of :: "'x \<Rightarrow> 'r"
    and ins :: "'x \<Rightarrow> ('d, 'e, unit) sm"
    and del :: "'k \<Rightarrow> 'd \<Rightarrow> 'd"
  assumes ins_ok: "key (row_of x) \<notin> row_keys key (rows d) \<Longrightarrow>
      \<exists>d'. ins x d = (Inr (), d') \<and> rows d' = rows d @ [row_of x]"
    and ins_taken: "key (row_of x) \<in> row_keys key (rows d) \<Longrightarrow> \<exists>e. ins x d = (Inl e, d)"
    and rows_delete: "rows (del k d) = rows_del key [k] (rows d)"
begin

lemma insert_succeeds_iff: "(\<exists>d'. ins x d = (Inr (), d')) \<longleftrightarrow> key (row_of x) \<notin> row_keys key (rows d)"
  using ins_ok [of x d] ins_taken [of x d] by (cases "key (row_of x) \<in> row_keys key (rows d)") auto

lemma insert_rows:
  "ins x d = (Inr u, d') \<Longrightarrow> rows d' = rows d @ [row_of x] \<and> key (row_of x) \<notin> row_keys key (rows d)"
  using ins_ok [of x d] ins_taken [of x d] by (cases "key (row_of x) \<in> row_keys key (rows d)") auto

lemma insert_failure_unchanged: "ins x d = (Inl e, d') \<Longrightarrow> d' = d"
  using ins_ok [of x d] ins_taken [of x d] by (cases "key (row_of x) \<in> row_keys key (rows d)") auto

lemma keys_distinct_insert:
  "distinct (map key (rows d)) \<Longrightarrow> distinct (map key (rows (snd (ins x d))))"
  using ins_ok [of x d] ins_taken [of x d]
  by (cases "key (row_of x) \<in> row_keys key (rows d)") (auto simp: row_keys_def)

lemma keys_distinct_delete: "distinct (map key (rows d)) \<Longrightarrow> distinct (map key (rows (del k d)))"
  by (simp add: rows_delete distinct_rows_del)

lemma get_after_insert:
  assumes "ins x d = (Inr u, d')"
  shows "rows_get key k (rows d') = (if k = key (row_of x) then Some (row_of x) else rows_get key k (rows d))"
proof -
  have r: "rows d' = rows d @ [row_of x]" "rows_get key (key (row_of x)) (rows d) = None"
    using insert_rows [OF assms] by (auto simp: rows_get_None)
  show ?thesis
    unfolding r(1) rows_get_append using r(2) by (auto split: option.splits)
qed

lemma get_after_delete:
  "rows_get key k (rows (del j d)) = (if k = j then None else rows_get key k (rows d))"
  by (simp add: rows_delete rows_get_del)

lemma insert_delete: "ins x d = (Inr u, d') \<Longrightarrow> rows (del (key (row_of x)) d') = rows d"
  using insert_rows [of x d u d'] by (simp add: rows_delete rows_del_fresh)

end

end
