(* ===== verification/StoreTypes.thy ===== *)
theory StoreTypes
  imports Prelude Complex_Main
begin

text \<open>
  The data of the store crate (\<open>crates/store/src/lib.rs\<close>, \<open>journal.rs\<close>, \<open>error.rs\<close>):
  memory types, memories, entities, the operation journal's records and the error type.
  JSON values are a datatype whose numbers are kept as their text.
\<close>

datatype json =
    JNull
  | JBool bool
  | JNum string
  | JStr string
  | JArr "json list"
  | JObj "(string \<times> json) list"

datatype store_error =
    SqliteErr string
  | QdrantErr string
  | PoolErr string
  | SidecarErr string
  | NotFoundErr string
  | SerializationErr string
  | TaskJoinErr string

section \<open>Memory types\<close>

datatype memory_type = Episodic | Semantic | Procedural

fun mt_as_str :: "memory_type \<Rightarrow> string" where
  "mt_as_str Episodic = ''episodic''"
| "mt_as_str Semantic = ''semantic''"
| "mt_as_str Procedural = ''procedural''"

definition mt_from_str :: "string \<Rightarrow> string + memory_type" where
  "mt_from_str s =
     (let l = to_lowercase s in
      if l = ''episodic'' then Inr Episodic
      else if l = ''semantic'' then Inr Semantic
      else if l = ''procedural'' then Inr Procedural
      else Inl (''unknown memory type: '' @ s))"

section \<open>Memories and entities\<close>

record memory =
  mem_id :: string
  mem_namespace :: string
  mem_type :: memory_type
  mem_content :: "string option"
  mem_subject :: "string option"
  mem_predicate :: "string option"
  mem_object :: "string option"
  mem_confidence :: real
  mem_source :: "string option"
  mem_context :: "json option"
  mem_entities :: "string list"
  mem_created_at :: time
  mem_updated_at :: time
  mem_t_valid :: "time option"
  mem_t_invalid :: "time option"
  mem_last_accessed :: time
  mem_last_validated :: "time option"
  mem_access_count :: "64 word"
  mem_normalized_predicate :: "string option"

definition searchable_text :: "memory \<Rightarrow> string" where
  "searchable_text m =
     (case mem_type m of
        Semantic \<Rightarrow> join '' '' (List.map_filter id [mem_subject m, mem_predicate m, mem_object m])
      | _ \<Rightarrow> (case mem_content m of Some c \<Rightarrow> c | None \<Rightarrow> []))"

record entity =
  ent_id :: string
  ent_name :: string
  ent_aliases :: "string list"
  ent_type :: "string option"
  ent_created_at :: time
  ent_updated_at :: time

section \<open>The journal of pending operations\<close>

datatype op_kind = OpStore | OpForget | OpSupersede

fun kind_as_str :: "op_kind \<Rightarrow> string" where
  "kind_as_str OpStore = ''store''"
| "kind_as_str OpForget = ''forget''"
| "kind_as_str OpSupersede = ''supersede''"

definition kind_parse :: "string \<Rightarrow> op_kind option" where
  "kind_parse s =
     (if s = ''store'' then Some OpStore
      else if s = ''forget'' then Some OpForget
      else if s = ''supersede'' then Some OpSupersede
      else None)"

record pending_op =
  po_op_id :: string
  po_kind :: op_kind
  po_memory_id :: string
  po_namespace :: string
  po_target_id :: "string option"
  po_qdrant_written :: bool
  po_started_at :: time

record completed_op =
  co_op_id :: string
  co_kind :: op_kind
  co_memory_id :: string
  co_namespace :: string
  co_started_at :: time
  co_completed_at :: time
  co_duration_ms :: int
  co_outcome :: string

definition into_completed :: "pending_op \<Rightarrow> string \<Rightarrow> string \<Rightarrow> time \<Rightarrow> completed_op" where
  "into_completed op memory_id namespace completed_at =
     \<lparr> co_op_id = po_op_id op, co_kind = po_kind op, co_memory_id = memory_id,
       co_namespace = namespace, co_started_at = po_started_at op,
       co_completed_at = completed_at,
       co_duration_ms = num_milliseconds (completed_at - po_started_at op),
       co_outcome = ''ok'' \<rparr>"

section \<open>Printing and parsing agree\<close>

lemma lower_as_str [simp]: "to_lowercase (mt_as_str t) = mt_as_str t"
  by (cases t) (simp_all add: to_lowercase_def lower_char_def)

lemma mt_as_str_inj [simp]: "mt_as_str s = mt_as_str t \<longleftrightarrow> s = t"
  by (cases s; cases t) simp_all

lemma mt_round_trip [simp]: "mt_from_str (mt_as_str t) = Inr t"
  unfolding mt_from_str_def lower_as_str Let_def by (cases t) simp_all

lemma mt_from_str_Inr: "mt_from_str s = Inr t \<longleftrightarrow> to_lowercase s = mt_as_str t"
  by (cases t) (auto simp: mt_from_str_def Let_def)

lemma kind_parse_Some: "kind_parse s = Some k \<longleftrightarrow> s = kind_as_str k"
  by (cases k) (auto simp: kind_parse_def)

lemma kind_round_trip [simp]: "kind_parse (kind_as_str k) = Some k"
  by (simp add: kind_parse_Some)

text \<open>
  The names of memory types and journal operation kinds round-trip, and the memory type
  parser accepts exactly the names of the three types, in any letter case.
\<close>

theorem names_round_trip:
  "mt_from_str (mt_as_str t) = Inr t \<and> kind_parse (kind_as_str k) = Some k
   \<and> (mt_from_str s = Inr t \<longleftrightarrow> to_lowercase s = mt_as_str t)
   \<and> (kind_parse s = Some k \<longleftrightarrow> s = kind_as_str k)"
  using mt_from_str_Inr kind_parse_Some by simp

end
