(* ===== verification/Scoring.thy ===== *)
theory Scoring
  imports StoreTypes
begin

text \<open>
  Staleness (\<open>crates/core/src/staleness.rs\<close>) and the recency boost
  (\<open>crates/core/src/retrieval.rs\<close>). \<open>f64\<close> and \<open>f32\<close> values are reals: rounding is not
  modelled, and the values that reach these functions are finite. A missing entry of
  \<open>type_config\<close>, where the code panics, is \<open>None\<close>.
\<close>

definition WEIGHT_AGE :: real where "WEIGHT_AGE = 0.40"
definition WEIGHT_ACCESS :: real where "WEIGHT_ACCESS = 0.25"
definition WEIGHT_VALIDATED :: real where "WEIGHT_VALIDATED = 0.25"
definition WEIGHT_COUNT :: real where "WEIGHT_COUNT = 0.10"
definition EPISODIC_HALF_LIFE :: real where "EPISODIC_HALF_LIFE = 30"
definition SEMANTIC_HALF_LIFE :: real where "SEMANTIC_HALF_LIFE = 180"
definition PROCEDURAL_HALF_LIFE :: real where "PROCEDURAL_HALF_LIFE = 365"
definition SECONDS_PER_DAY :: real where "SECONDS_PER_DAY = 86400"
definition FRESH_THRESHOLD_RATIO :: real where "FRESH_THRESHOLD_RATIO = 0.5"
definition EPISODIC_STALE_THRESHOLD :: real where "EPISODIC_STALE_THRESHOLD = 0.70"
definition SEMANTIC_STALE_THRESHOLD :: real where "SEMANTIC_STALE_THRESHOLD = 0.80"
definition PROCEDURAL_STALE_THRESHOLD :: real where "PROCEDURAL_STALE_THRESHOLD = 0.90"
definition COUNT_SCALE :: real where "COUNT_SCALE = 10"

lemmas staleness_consts = WEIGHT_AGE_def WEIGHT_ACCESS_def WEIGHT_VALIDATED_def WEIGHT_COUNT_def
  EPISODIC_HALF_LIFE_def SEMANTIC_HALF_LIFE_def PROCEDURAL_HALF_LIFE_def SECONDS_PER_DAY_def
  FRESH_THRESHOLD_RATIO_def EPISODIC_STALE_THRESHOLD_def SEMANTIC_STALE_THRESHOLD_def
  PROCEDURAL_STALE_THRESHOLD_def COUNT_SCALE_def

record staleness_weights =
  sw_age :: real
  sw_access :: real
  sw_validated :: real
  sw_count :: real

record type_staleness_config =
  half_life_days :: real
  stale_threshold :: real

record staleness_config =
  sc_weights :: staleness_weights
  sc_count_scale :: real
  sc_type_config :: "memory_type \<rightharpoonup> type_staleness_config"

datatype freshness_label = Fresh | Aging | Stale

definition default_staleness_config :: staleness_config where
  "default_staleness_config =
     \<lparr> sc_weights = \<lparr> sw_age = WEIGHT_AGE, sw_access = WEIGHT_ACCESS,
         sw_validated = WEIGHT_VALIDATED, sw_count = WEIGHT_COUNT \<rparr>,
       sc_count_scale = COUNT_SCALE,
       sc_type_config =
         [Episodic \<mapsto> \<lparr> half_life_days = EPISODIC_HALF_LIFE, stale_threshold = EPISODIC_STALE_THRESHOLD \<rparr>,
          Semantic \<mapsto> \<lparr> half_life_days = SEMANTIC_HALF_LIFE, stale_threshold = SEMANTIC_STALE_THRESHOLD \<rparr>,
          Procedural \<mapsto> \<lparr> half_life_days = PROCEDURAL_HALF_LIFE, stale_threshold = PROCEDURAL_STALE_THRESHOLD \<rparr>] \<rparr>"

text \<open>The fold over the map's values starts at infinity, which is \<open>None\<close> here.\<close>

definition min_half_life_days :: "staleness_config \<Rightarrow> real option" where
  "min_half_life_days cfg =
     fold (\<lambda>v acc. Some (case acc of None \<Rightarrow> v | Some a \<Rightarrow> min a v))
       (map half_life_days (List.map_filter (sc_type_config cfg) [Episodic, Semantic, Procedural])) None"

definition to_days :: "int \<Rightarrow> real" where
  "to_days secs = real_of_int (max secs 0) / SECONDS_PER_DAY"

definition decay :: "real \<Rightarrow> real \<Rightarrow> real" where
  "decay days half_life = 1 - exp (- ln 2 * days / half_life)"

definition clamp :: "real \<Rightarrow> real \<Rightarrow> real \<Rightarrow> real" where
  "clamp lo hi x = (if x < lo then lo else if hi < x then hi else x)"

definition staleness_score :: "memory \<Rightarrow> time \<Rightarrow> staleness_config \<Rightarrow> real option" where
  "staleness_score m now cfg =
     (case sc_type_config cfg (mem_type m) of
        None \<Rightarrow> None
      | Some type_cfg \<Rightarrow>
         let half_life = half_life_days type_cfg;
             days_since_created = to_days (num_seconds (now - mem_created_at m));
             days_since_accessed = to_days (num_seconds (now - mem_last_accessed m));
             days_since_validated = (case mem_last_validated m of None \<Rightarrow> days_since_created
               | Some v \<Rightarrow> to_days (num_seconds (now - v)));
             age_decay = decay days_since_created half_life;
             access_decay = decay days_since_accessed half_life;
             validation_decay = decay days_since_validated half_life;
             count_freshness = 1 / (1 + real (unat (mem_access_count m)) / sc_count_scale cfg);
             w = sc_weights cfg
         in Some (clamp 0 1 (sw_age w * age_decay + sw_access w * access_decay
              + sw_validated w * validation_decay + sw_count w * count_freshness)))"

definition label_of_score :: "real \<Rightarrow> real \<Rightarrow> freshness_label" where
  "label_of_score score threshold =
     (if score < threshold * FRESH_THRESHOLD_RATIO then Fresh
      else if score < threshold then Aging
      else Stale)"

definition threshold_for_type :: "staleness_config \<Rightarrow> memory_type \<Rightarrow> real option" where
  "threshold_for_type cfg t = map_option stale_threshold (sc_type_config cfg t)"

section \<open>Recency boost\<close>

definition EPISODIC_BOOST_WEIGHT :: real where "EPISODIC_BOOST_WEIGHT = 0.3"
definition EPISODIC_HALF_LIFE_DAYS :: real where "EPISODIC_HALF_LIFE_DAYS = 30"
definition SEMANTIC_BOOST_WEIGHT :: real where "SEMANTIC_BOOST_WEIGHT = 0.15"
definition SEMANTIC_HALF_LIFE_DAYS :: real where "SEMANTIC_HALF_LIFE_DAYS = 180"

lemmas boost_consts = EPISODIC_BOOST_WEIGHT_def EPISODIC_HALF_LIFE_DAYS_def
  SEMANTIC_BOOST_WEIGHT_def SEMANTIC_HALF_LIFE_DAYS_def

definition compute_recency_boost :: "memory_type \<Rightarrow> real \<Rightarrow> real" where
  "compute_recency_boost t age =
     (let age_days = max age 0 in
      case t of
        Episodic \<Rightarrow> EPISODIC_BOOST_WEIGHT * 2 powr (- age_days / EPISODIC_HALF_LIFE_DAYS) + 1
      | Semantic \<Rightarrow> SEMANTIC_BOOST_WEIGHT * 2 powr (- age_days / SEMANTIC_HALF_LIFE_DAYS) + 1
      | Procedural \<Rightarrow> 1)"

section \<open>Decay is a half-life\<close>

lemma decay_powr: "decay d h = 1 - 2 powr (- (d / h))"
  by (simp add: decay_def powr_def mult.commute)

lemma to_days_nonneg [simp]: "0 \<le> to_days s"
  by (simp add: to_days_def SECONDS_PER_DAY_def)

lemma to_days_mono: "s \<le> t \<Longrightarrow> to_days s \<le> to_days t"
  by (simp add: to_days_def SECONDS_PER_DAY_def divide_right_mono)

lemma decay_mono: "0 < h \<Longrightarrow> d \<le> e \<Longrightarrow> decay d h \<le> decay e h"
  by (simp add: decay_powr divide_right_mono)

lemma decay_bounds: "0 < h \<Longrightarrow> 0 \<le> d \<Longrightarrow> 0 \<le> decay d h \<and> decay d h < 1"
  using powr_mono [of "- (d / h)" 0 2] by (simp add: decay_powr)

lemma decay_half_life: "0 < h \<Longrightarrow> decay h h = 1 / 2"
  by (simp add: decay_powr powr_minus_divide)

lemma decay_zero [simp]: "decay 0 h = 0"
  by (simp add: decay_powr)

lemma clamp_mono: "x \<le> y \<Longrightarrow> lo \<le> hi \<Longrightarrow> clamp lo hi x \<le> clamp lo hi y"
  by (simp add: clamp_def)

lemma clamp_bounds: "lo \<le> hi \<Longrightarrow> lo \<le> clamp lo hi x \<and> clamp lo hi x \<le> hi"
  by (simp add: clamp_def)

lemma trunc_div_mono: "0 < b \<Longrightarrow> x \<le> y \<Longrightarrow> trunc_div x b \<le> trunc_div y b"
  unfolding trunc_div_def
  by (auto simp: zdiv_mono1 pos_imp_zdiv_nonneg_iff intro: order_trans [of _ 0])

lemma num_seconds_mono: "x \<le> y \<Longrightarrow> num_seconds x \<le> num_seconds y"
  unfolding num_seconds_def nanos_per_second_def by (rule trunc_div_mono) simp_all

lemma elapsed_decay_mono: "0 < h \<Longrightarrow> x \<le> y \<Longrightarrow> decay (to_days (num_seconds x)) h \<le> decay (to_days (num_seconds y)) h"
  by (intro decay_mono to_days_mono num_seconds_mono)

section \<open>The score orders memories by age and use\<close>

definition weights_nonneg :: "staleness_config \<Rightarrow> bool" where
  "weights_nonneg cfg \<longleftrightarrow> (let w = sc_weights cfg in
     0 \<le> sw_age w \<and> 0 \<le> sw_access w \<and> 0 \<le> sw_validated w \<and> 0 \<le> sw_count w) \<and> 0 < sc_count_scale cfg"

text \<open>The instant the validation term counts from.\<close>

definition validated_from :: "memory \<Rightarrow> time" where
  "validated_from m = (case mem_last_validated m of None \<Rightarrow> mem_created_at m | Some v \<Rightarrow> v)"

lemma staleness_score_eq:
  "sc_type_config cfg (mem_type m) = Some tc \<Longrightarrow>
   staleness_score m now cfg = Some (clamp 0 1
     (sw_age (sc_weights cfg) * decay (to_days (num_seconds (now - mem_created_at m))) (half_life_days tc)
    + sw_access (sc_weights cfg) * decay (to_days (num_seconds (now - mem_last_accessed m))) (half_life_days tc)
    + sw_validated (sc_weights cfg) * decay (to_days (num_seconds (now - validated_from m))) (half_life_days tc)
    + sw_count (sc_weights cfg) * (1 / (1 + real (unat (mem_access_count m)) / sc_count_scale cfg))))"
  by (simp add: staleness_score_def Let_def validated_from_def split: option.splits)

lemma count_freshness_mono:
  fixes c :: real and j k :: nat
  assumes "0 < c" and "j \<le> k"
  shows "1 / (1 + real k / c) \<le> 1 / (1 + real j / c)"
  using assms by (intro divide_left_mono add_left_mono divide_right_mono mult_pos_pos add_pos_nonneg) auto

text \<open>
  Staleness never decreases along any of the axes it measures: for the same type, a
  memory that is seen later, was created earlier, was last read earlier, was last validated
  earlier or was read less often has at least the staleness score, as long as the weights
  are not negative and the half-life is positive (which the configuration loader checks).
\<close>

theorem staleness_monotone:
  assumes "weights_nonneg cfg" and "sc_type_config cfg (mem_type m) = Some tc" and "0 < half_life_days tc"
    and "mem_type m' = mem_type m"
    and "now - mem_created_at m \<le> now' - mem_created_at m'"
    and "now - mem_last_accessed m \<le> now' - mem_last_accessed m'"
    and "now - validated_from m \<le> now' - validated_from m'"
    and "unat (mem_access_count m') \<le> unat (mem_access_count m)"
  shows "\<exists>s s'. staleness_score m now cfg = Some s \<and> staleness_score m' now' cfg = Some s'
           \<and> 0 \<le> s \<and> s \<le> s' \<and> s' \<le> 1"
proof -
  let ?c = "sc_count_scale cfg"
  have c: "0 < ?c" using assms(1) by (simp add: weights_nonneg_def)
  have cnt: "1 / (1 + real (unat (mem_access_count m)) / ?c) \<le> 1 / (1 + real (unat (mem_access_count m')) / ?c)"
    by (rule count_freshness_mono [OF c assms(8)])
  have "0 \<le> sw_count (sc_weights cfg)" using assms(1) by (simp add: weights_nonneg_def Let_def)
  note cnt = mult_left_mono [OF cnt this]
  show ?thesis
    using assms cnt
    by (auto simp: staleness_score_eq [OF assms(2)] staleness_score_eq [of cfg m' tc] clamp_bounds weights_nonneg_def Let_def
        intro!: clamp_mono add_mono mult_left_mono elapsed_decay_mono)
qed

definition sample_memory :: memory where
  "sample_memory = \<lparr> mem_id = ''m'', mem_namespace = ''default'', mem_type = Episodic,
     mem_content = Some ''hello'', mem_subject = None, mem_predicate = None, mem_object = None,
     mem_confidence = 1, mem_source = None, mem_context = None, mem_entities = [],
     mem_created_at = 0, mem_updated_at = 0, mem_t_valid = None, mem_t_invalid = None,
     mem_last_accessed = 0, mem_last_validated = None, mem_access_count = 0,
     mem_normalized_predicate = None \<rparr>"

lemma default_weights_nonneg: "weights_nonneg default_staleness_config"
  by (simp add: weights_nonneg_def default_staleness_config_def staleness_consts Let_def)

lemma default_type_config [simp]:
  "sc_type_config default_staleness_config Episodic = Some \<lparr> half_life_days = 30, stale_threshold = 0.70 \<rparr>"
  "sc_type_config default_staleness_config Semantic = Some \<lparr> half_life_days = 180, stale_threshold = 0.80 \<rparr>"
  "sc_type_config default_staleness_config Procedural = Some \<lparr> half_life_days = 365, stale_threshold = 0.90 \<rparr>"
  by (simp_all add: default_staleness_config_def staleness_consts)

theorem staleness_monotone_witness:
  "\<exists>s s'. staleness_score sample_memory 0 default_staleness_config = Some s
      \<and> staleness_score sample_memory (duration_days 30) default_staleness_config = Some s'
      \<and> 0 \<le> s \<and> s \<le> s' \<and> s' \<le> 1"
  by (rule staleness_monotone [OF default_weights_nonneg,
        where tc = "\<lparr> half_life_days = 30, stale_threshold = 0.70 \<rparr>"])
     (simp_all add: sample_memory_def duration_days_def nanos_per_second_def)

text \<open>
  The recency boost is at most 1.3 and never lowers a relevance score: it starts at
  1.3 for an episodic and 1.15 for a semantic memory, halves its excess over 1 after 30 and
  180 days, falls with age, and is always 1 for a procedural memory; a memory dated in the
  future is boosted like a new one.
\<close>

theorem recency_boost_shape:
  "1 \<le> compute_recency_boost t age \<and> compute_recency_boost t age \<le> 1.3
   \<and> compute_recency_boost t (max age 0) = compute_recency_boost t age
   \<and> compute_recency_boost t (age + \<bar>d\<bar>) \<le> compute_recency_boost t age
   \<and> compute_recency_boost Procedural age = 1
   \<and> compute_recency_boost Episodic 0 = 1.3 \<and> compute_recency_boost Episodic 30 = 1.15
   \<and> compute_recency_boost Semantic 0 = 1.15 \<and> compute_recency_boost Semantic 180 = 1.075"
proof -
  have le1: "2 powr (- max x 0 / c) \<le> (1::real)" if "0 < c" for x c :: real
    using that powr_mono [of "- max x 0 / c" 0 2] by simp
  have mono: "2 powr (- max (x + \<bar>d\<bar>) 0 / c) \<le> 2 powr (- max x 0 / c)" if "0 < c" for x c :: real
    using that by (intro powr_mono divide_right_mono) auto
  have bounds: "1 \<le> compute_recency_boost t age \<and> compute_recency_boost t age \<le> 1.3"
    using le1 [of 30 age] le1 [of 180 age]
    by (cases t) (simp_all add: compute_recency_boost_def boost_consts)
  have falls: "compute_recency_boost t (age + \<bar>d\<bar>) \<le> compute_recency_boost t age"
    using mono [of 30 age] mono [of 180 age]
    by (cases t) (simp_all add: compute_recency_boost_def boost_consts)
  have vals: "compute_recency_boost Episodic 30 = 1.15" "compute_recency_boost Semantic 180 = 1.075"
    by (simp_all add: compute_recency_boost_def boost_consts powr_minus_divide)
  show ?thesis
    using bounds falls vals by (simp add: compute_recency_boost_def boost_consts)
qed

end
