(* ===== verification/CoreTypes.thy ===== *)
theory CoreTypes
  imports Scoring
begin

text \<open>
  The configuration, request, response and error types of the core crate
  (\<open>crates/core/src/types.rs\<close>, \<open>error.rs\<close>). Counters (\<open>usize\<close>, \<open>u64\<close>, \<open>u32\<close>) that only
  count are naturals. \<open>Panicked\<close> is not a variant of the code's error enum: it is the value
  the model gives to an \<open>expect\<close> that fails.
\<close>

section \<open>Errors\<close>

datatype core_error =
    EmbedError string
  | StoreError store_error
  | ConfigError string
  | Validation string
  | Duplicate (dup_existing_id: string) (dup_similarity: real)
  | ConflictAmbiguous string real
  | MultiMatchConflict "string list"
  | Panicked string

section \<open>Configuration\<close>

record dedup_config =
  dc_threshold :: real

definition default_dedup_config :: dedup_config where
  "default_dedup_config = \<lparr> dc_threshold = 0.95 \<rparr>"

record conflict_config =
  object_fuzzy_duplicate :: real
  object_fuzzy_update :: real

definition default_conflict_config :: conflict_config where
  "default_conflict_config = \<lparr> object_fuzzy_duplicate = 0.95, object_fuzzy_update = 0.50 \<rparr>"

text \<open>A \<open>HashMap<String, Vec<String>>\<close>; the entries are listed in key order where iterated.\<close>

type_synonym groups = "(string \<times> string list) list"

record predicates_config =
  pc_groups :: groups
  pc_namespaces :: "(string \<times> groups) list"

record reconciliation_config =
  audit_interval_hours :: "nat option"
  audit_fix_limit :: nat

definition default_reconciliation_config :: reconciliation_config where
  "default_reconciliation_config = \<lparr> audit_interval_hours = None, audit_fix_limit = 1000 \<rparr>"

record cache_config =
  embedding_capacity :: nat
  result_capacity :: nat

definition default_cache_config :: cache_config where
  "default_cache_config = \<lparr> embedding_capacity = 256, result_capacity = 128 \<rparr>"

text \<open>The fields of \<open>FerrexConfig\<close> that the modelled operations read.\<close>

record ferrex_config =
  cfg_qdrant_url :: "string option"
  cfg_qdrant_port :: nat
  cfg_model_name :: string
  cfg_namespace :: string
  cfg_db_path :: string
  cfg_deduplication :: dedup_config
  cfg_conflict :: conflict_config
  cfg_predicates :: predicates_config
  cfg_reconciliation :: reconciliation_config
  cfg_staleness :: staleness_config
  cfg_cache :: cache_config

section \<open>Requests\<close>

record store_request =
  sr_content :: "string option"
  sr_memory_type :: "memory_type option"
  sr_subject :: "string option"
  sr_predicate :: "string option"
  sr_object :: "string option"
  sr_confidence :: "real option"
  sr_source :: "string option"
  sr_context :: "json option"
  sr_entities :: "string list"
  sr_namespace :: "string option"
  sr_supersedes :: "string option"

record time_range =
  tr_start :: "time option"
  tr_end :: "time option"

record recall_request =
  rr_query :: string
  rr_types :: "memory_type list option"
  rr_entities :: "string list option"
  rr_namespace :: "string option"
  rr_limit :: "nat option"
  rr_include_stale :: "bool option"
  rr_include_invalidated :: "bool option"
  rr_time_range :: "time_range option"
  rr_as_of :: "time option"
  rr_validate_ids :: "string list option"
  rr_explain :: bool

record forget_request =
  fr_ids :: "string list"
  fr_cascade :: "bool option"

record reflect_request =
  rf_namespace :: string
  rf_limit :: "nat option"
  rf_include_contradictions :: bool
  rf_include_stale :: bool

record stats_request =
  st_namespace :: string
  st_detailed :: "bool option"
  st_diagnostics :: "bool option"

record timeline_request =
  tl_entity :: string
  tl_namespace :: "string option"
  tl_limit :: "nat option"
  tl_types :: "memory_type list option"
  tl_include_invalidated :: "bool option"

record taxonomy_request =
  tx_namespace :: "string option"
  tx_limit :: "nat option"
  tx_default_namespace :: "string option"

section \<open>Responses\<close>

record timeline_entry =
  te_memory :: memory
  te_occurred_at :: time

record timeline_response =
  tlr_entity :: string
  tlr_resolved_entity_id :: "string option"
  tlr_entries :: "timeline_entry list"

record taxonomy_response =
  txr_namespace :: string
  txr_total_memories :: nat
  txr_by_type :: "memory_type \<rightharpoonup> nat"
  txr_top_entities :: "(string \<times> nat) list"
  txr_top_predicates :: "(string \<times> nat) list"
  txr_all_namespaces :: "string list option"

record store_response =
  srs_id :: string
  srs_memory_type :: string
  srs_superseded :: "string list"

record forget_response =
  frs_message :: string
  frs_deleted :: "string list"
  frs_not_found :: "string list"

record stale_candidate =
  stc_memory :: memory
  stc_staleness_score :: real
  stc_freshness_label :: freshness_label
  stc_eviction_rank :: nat
  stc_reason :: string

datatype match_type = ExactPredicate | FuzzyPredicate | SimilarSubject

record contradiction_pair =
  cp_a :: memory
  cp_b :: memory
  cp_match_type :: match_type
  cp_similarity :: real

record reflect_summary =
  rs_total_scanned :: nat
  rs_stale_count :: nat
  rs_contradiction_count :: nat

record reflect_response =
  rfr_stale :: "stale_candidate list"
  rfr_contradictions :: "contradiction_pair list"
  rfr_summary :: reflect_summary

record needs_attention =
  na_stale_count :: nat
  na_conflict_count :: nat
  na_unvalidated_count :: nat

record type_stats =
  ts_count :: nat
  ts_stale_count :: nat
  ts_avg_staleness :: real
  ts_avg_access_count :: real
  ts_oldest :: "time option"
  ts_newest :: "time option"

record staleness_distribution =
  sd_fresh :: nat
  sd_aging :: nat
  sd_stale :: nat

record stats_details =
  sdt_by_type :: "string \<rightharpoonup> type_stats"
  sdt_storage_size_bytes :: nat
  sdt_entity_count :: nat
  sdt_distribution :: staleness_distribution

record scoring_breakdown =
  sb_rrf_rank :: nat
  sb_rrf_score :: real
  sb_rerank_score :: real
  sb_recency_boost :: real
  sb_boosted_score :: real
  sb_staleness :: real
  sb_staleness_label :: freshness_label
  sb_final_rank :: nat

record recall_result =
  rcr_memory :: memory
  rcr_relevance_score :: real
  rcr_staleness_score :: real
  rcr_freshness_label :: freshness_label
  rcr_scoring :: "scoring_breakdown option"

record cache_stats =
  cs_embedding_hits :: nat
  cs_embedding_misses :: nat
  cs_result_hits :: nat
  cs_result_misses :: nat

record op_record =
  opr_kind :: string
  opr_detail :: string
  opr_duration_ms :: nat
  opr_outcome :: string
  opr_timestamp :: time

record diagnostics_report =
  dr_embedding_model :: string
  dr_qdrant_url :: string
  dr_collection :: string
  dr_sqlite_path :: string
  dr_sqlite_size_bytes :: nat
  dr_memory_count :: nat
  dr_entity_count :: nat
  dr_pending_ops :: nat
  dr_cache :: cache_stats
  dr_recent_ops :: "op_record list"

record stats_response =
  ssr_total_memories :: nat
  ssr_recent_memories :: "memory list"
  ssr_needs_attention :: needs_attention
  ssr_details :: "stats_details option"
  ssr_diagnostics :: "diagnostics_report option"

end
