(* ===== verification/Tables.thy ===== *)
theory Tables
  imports CoreTypes
begin

text \<open>
  The SQLite database: the tables and constraints of \<open>crates/store/src/schema.rs\<close> and the
  statements of \<open>crates/store/src/metadata.rs\<close> that several operations share. A table is the
  list of its rows in rowid order, which is the order a query without \<open>ORDER BY\<close> returns here;
  SQL leaves that order open, and no property rests on it. Timestamps are stored as RFC 3339
  UTC text, whose byte order is time order; the model stores the instant. A statement fails
  only for a violated constraint, and then changes nothing.
\<close>

section \<open>Rows\<close>

record mem_row =
  r_id :: string
  r_namespace :: string
  r_memory_type :: string
  r_content :: "string option"
  r_subject :: "string option"
  r_predicate :: "string option"
  r_object :: "string option"
  r_confidence :: real
  r_source :: "string option"
  r_context :: "json option"
  r_created_at :: time
  r_updated_at :: time
  r_t_valid :: "time option"
  r_t_invalid :: "time option"
  r_last_accessed :: time
  r_last_validated :: "time option"
  r_access_count :: int
  r_normalized_predicate :: "string option"

text \<open>
  The \<open>aliases\<close> column is a JSON array in text; \<open>None\<close> is a text that does not parse.
\<close>

record ent_row =
  er_id :: string
  er_name :: string
  er_aliases_json :: "string list option"
  er_type :: "string option"
  er_created_at :: time
  er_updated_at :: time

record pend_row =
  pr_op_id :: string
  pr_kind :: string
  pr_memory_id :: string
  pr_namespace :: string
  pr_target_id :: "string option"
  pr_qdrant_written :: int
  pr_started_at :: time

record comp_row =
  cr_op_id :: string
  cr_kind :: string
  cr_memory_id :: string
  cr_namespace :: string
  cr_started_at :: time
  cr_completed_at :: time
  cr_duration_ms :: int
  cr_outcome :: string

record db =
  memories :: "mem_row list"
  entities :: "ent_row list"
  memory_entities :: "(string \<times> string) list"
  entity_aliases :: "(string \<times> string) list"
  metadata :: "(string \<times> string) list"
  pending_ops :: "pend_row list"
  completed_ops :: "comp_row list"

definition empty_db :: db where
  "empty_db = \<lparr> memories = [], entities = [], memory_entities = [], entity_aliases = [],
     metadata = [], pending_ops = [], completed_ops = [] \<rparr>"

text \<open>Reading and writing a memory row.\<close>

definition row_to_memory :: "mem_row \<Rightarrow> string list \<Rightarrow> memory" where
  "row_to_memory r ents =
     \<lparr> mem_id = r_id r, mem_namespace = r_namespace r,
       mem_type = (case mt_from_str (r_memory_type r) of Inl _ \<Rightarrow> Episodic | Inr t \<Rightarrow> t),
       mem_content = r_content r, mem_subject = r_subject r, mem_predicate = r_predicate r,
       mem_object = r_object r, mem_confidence = r_confidence r, mem_source = r_source r,
       mem_context = r_context r, mem_entities = ents, mem_created_at = r_created_at r,
       mem_updated_at = r_updated_at r, mem_t_valid = r_t_valid r, mem_t_invalid = r_t_invalid r,
       mem_last_accessed = r_last_accessed r, mem_last_validated = r_last_validated r,
       mem_access_count = word_of_int (r_access_count r),
       mem_normalized_predicate = r_normalized_predicate r \<rparr>"

definition memory_row :: "memory \<Rightarrow> mem_row" where
  "memory_row m =
     \<lparr> r_id = mem_id m, r_namespace = mem_namespace m, r_memory_type = mt_as_str (mem_type m),
       r_content = mem_content m, r_subject = mem_subject m, r_predicate = mem_predicate m,
       r_object = mem_object m, r_confidence = mem_confidence m, r_source = mem_source m,
       r_context = mem_context m, r_created_at = mem_created_at m, r_updated_at = mem_updated_at m,
       r_t_valid = mem_t_valid m, r_t_invalid = mem_t_invalid m,
       r_last_accessed = mem_last_accessed m, r_last_validated = mem_last_validated m,
       r_access_count = sint (mem_access_count m),
       r_normalized_predicate = mem_normalized_predicate m \<rparr>"

definition row_to_entity_without_aliases :: "ent_row \<Rightarrow> entity" where
  "row_to_entity_without_aliases r =
     \<lparr> ent_id = er_id r, ent_name = er_name r, ent_aliases = [], ent_type = er_type r,
       ent_created_at = er_created_at r, ent_updated_at = er_updated_at r \<rparr>"

definition pend_row_of :: "pending_op \<Rightarrow> pend_row" where
  "pend_row_of op =
     \<lparr> pr_op_id = po_op_id op, pr_kind = kind_as_str (po_kind op), pr_memory_id = po_memory_id op,
       pr_namespace = po_namespace op, pr_target_id = po_target_id op,
       pr_qdrant_written = (if po_qdrant_written op then 1 else 0), pr_started_at = po_started_at op \<rparr>"

definition comp_row_of :: "completed_op \<Rightarrow> comp_row" where
  "comp_row_of op =
     \<lparr> cr_op_id = co_op_id op, cr_kind = kind_as_str (co_kind op), cr_memory_id = co_memory_id op,
       cr_namespace = co_namespace op, cr_started_at = co_started_at op,
       cr_completed_at = co_completed_at op, cr_duration_ms = co_duration_ms op,
       cr_outcome = co_outcome op \<rparr>"

section \<open>Statements\<close>

definition unique_failed :: "string \<Rightarrow> store_error" where
  "unique_failed col = SqliteErr (''UNIQUE constraint failed: '' @ col)"

definition fk_failed :: store_error where
  "fk_failed = SqliteErr ''FOREIGN KEY constraint failed''"

type_synonym 'a db_op = "(db, store_error, 'a) sm"

definition insert_memory_in :: "memory \<Rightarrow> unit db_op" where
  "insert_memory_in m = (\<lambda>d.
     if mem_id m \<in> row_keys r_id (memories d) then (Inl (unique_failed ''memories.id''), d)
     else (Inr (), d\<lparr>memories := memories d @ [memory_row m]\<rparr>))"

text \<open>\<open>OR IGNORE\<close> skips a pair that is present; a missing parent row still fails.\<close>

definition link_memory_entity_in :: "string \<Rightarrow> string \<Rightarrow> unit db_op" where
  "link_memory_entity_in memory_id entity_id = (\<lambda>d.
     if (memory_id, entity_id) \<in> set (memory_entities d) then (Inr (), d)
     else if memory_id \<notin> row_keys r_id (memories d) \<or> entity_id \<notin> row_keys er_id (entities d)
       then (Inl fk_failed, d)
     else (Inr (), d\<lparr>memory_entities := memory_entities d @ [(memory_id, entity_id)]\<rparr>))"

definition invalidate_memory_in :: "string \<Rightarrow> time \<Rightarrow> unit db_op" where
  "invalidate_memory_in i t =
     m_modify (\<lambda>d. d\<lparr>memories := rows_upd (\<lambda>r. r_id r = i)
       (\<lambda>r. r\<lparr>r_t_invalid := Some t, r_updated_at := t\<rparr>) (memories d)\<rparr>)"

definition complete_op_in :: "completed_op \<Rightarrow> unit db_op" where
  "complete_op_in op =
     m_modify (\<lambda>d. d\<lparr>completed_ops := rows_put cr_op_id (comp_row_of op) (completed_ops d),
                     pending_ops := rows_del pr_op_id [co_op_id op] (pending_ops d)\<rparr>)"

definition insert_alias_in :: "string \<Rightarrow> string \<Rightarrow> unit db_op" where
  "insert_alias_in entity_id alias = (\<lambda>d.
     if (entity_id, alias) \<in> set (entity_aliases d) then (Inr (), d)
     else if entity_id \<notin> row_keys er_id (entities d) then (Inl fk_failed, d)
     else (Inr (), d\<lparr>entity_aliases := entity_aliases d @ [(entity_id, alias)]\<rparr>))"

section \<open>Migration of the legacy alias column\<close>

text \<open>
  The part of \<open>migrate_schema\<close> that changes data: an entity with no row in
  \<open>entity_aliases\<close> and a non-empty JSON list gets one row per alias; a list that does not
  parse is skipped.
\<close>

definition legacy_alias_rows :: "db \<Rightarrow> (string \<times> string list) list" where
  "legacy_alias_rows d =
     List.map_filter (\<lambda>e. map_option (\<lambda>as. (er_id e, as)) (er_aliases_json e))
       (filter (\<lambda>e. (\<forall>p\<in>set (entity_aliases d). fst p \<noteq> er_id e) \<and> er_aliases_json e \<noteq> Some [])
          (entities d))"

definition migrate_aliases :: "unit db_op" where
  "migrate_aliases = (\<lambda>d. m_tx (m_bind (m_gets legacy_alias_rows)
     (m_fold (\<lambda>_ (i, as). m_fold (\<lambda>_ a. insert_alias_in i a) () as) ())) d)"

section \<open>Integrity\<close>

text \<open>The constraints the schema declares: primary keys, unique names, foreign keys.\<close>

definition db_ok :: "db \<Rightarrow> bool" where
  "db_ok d \<longleftrightarrow>
     distinct (map r_id (memories d)) \<and>
     distinct (map er_id (entities d)) \<and> distinct (map er_name (entities d)) \<and>
     distinct (memory_entities d) \<and>
     (\<forall>(m, e)\<in>set (memory_entities d). m \<in> row_keys r_id (memories d) \<and> e \<in> row_keys er_id (entities d)) \<and>
     distinct (entity_aliases d) \<and>
     (\<forall>(e, a)\<in>set (entity_aliases d). e \<in> row_keys er_id (entities d)) \<and>
     distinct (map fst (metadata d)) \<and>
     distinct (map pr_op_id (pending_ops d)) \<and>
     distinct (map cr_op_id (completed_ops d))"

lemma empty_db_ok: "db_ok empty_db"
  by (simp add: db_ok_def empty_db_def)

lemma row_to_memory_id [simp]: "mem_id (row_to_memory r es) = r_id r"
  by (simp add: row_to_memory_def)

lemma memory_row_id [simp]: "r_id (memory_row m) = mem_id m"
  by (simp add: memory_row_def)

lemma pend_row_of_id [simp]: "pr_op_id (pend_row_of op) = po_op_id op"
  by (simp add: pend_row_of_def)

lemma comp_row_of_id [simp]: "cr_op_id (comp_row_of op) = co_op_id op"
  by (simp add: comp_row_of_def)

lemma word_sint [simp]: "word_of_int (sint (w :: 64 word)) = w"
  by simp

text \<open>
  Writing a memory to its row and reading it back gives the same memory, entity names
  included: the stored type name parses back, and the access counter survives the cast to a
  signed column and back.
\<close>

theorem memory_row_round_trip: "row_to_memory (memory_row m) (mem_entities m) = m"
  by (simp add: row_to_memory_def memory_row_def)

lemma keeps_insert_memory: "keeps db_ok (insert_memory_in m)"
  by (rule keepsI) (auto simp: insert_memory_in_def db_ok_def row_keys_def)

lemma keeps_link: "keeps db_ok (link_memory_entity_in m e)"
  by (rule keepsI) (auto simp: link_memory_entity_in_def db_ok_def)

lemma keeps_invalidate: "keeps db_ok (invalidate_memory_in i t)"
  unfolding invalidate_memory_in_def
  by (rule keeps_modify) (simp add: db_ok_def map_key_upd row_keys_upd)

lemma distinct_rows_put: "distinct (map key rows) \<Longrightarrow> distinct (map key (rows_put key r rows))"
  by (auto simp: rows_put_def distinct_rows_del)

lemma keeps_complete_op: "keeps db_ok (complete_op_in op)"
  unfolding complete_op_in_def
  by (rule keeps_modify) (simp add: db_ok_def distinct_rows_put distinct_rows_del)

lemma keeps_insert_alias: "keeps db_ok (insert_alias_in e a)"
  by (rule keepsI) (auto simp: insert_alias_in_def db_ok_def)

lemmas keeps_statements = keeps_insert_memory keeps_link keeps_invalidate keeps_complete_op keeps_insert_alias

subsection \<open>The migration\<close>

text \<open>Adding a list of aliases to an entity that exists cannot fail, and only adds rows.\<close>

definition alias_grown :: "db \<Rightarrow> db \<Rightarrow> bool" where
  "alias_grown d d' \<longleftrightarrow> d' = d\<lparr>entity_aliases := entity_aliases d'\<rparr> \<and>
     set (entity_aliases d) \<subseteq> set (entity_aliases d')"

lemma alias_grown_refl: "alias_grown d d"
  by (simp add: alias_grown_def)

lemma alias_grown_entities: "alias_grown d d' \<Longrightarrow> entities d' = entities d"
  unfolding alias_grown_def by (metis db.select_convs(2) db.surjective db.update_convs(4))

lemma alias_grown_trans: "alias_grown d d' \<Longrightarrow> alias_grown d' d'' \<Longrightarrow> alias_grown d d''"
  unfolding alias_grown_def
  by (metis (no_types, lifting) db.surjective db.update_convs(4) order_trans)

lemma insert_alias_ok:
  assumes "i \<in> row_keys er_id (entities d)"
  shows "\<exists>d'. insert_alias_in i a d = (Inr (), d') \<and> alias_grown d d' \<and> (i, a) \<in> set (entity_aliases d')"
  using assms by (auto simp: insert_alias_in_def alias_grown_def)

lemma insert_aliases_ok:
  assumes "i \<in> row_keys er_id (entities d)"
  shows "\<exists>d'. m_fold (\<lambda>_ a. insert_alias_in i a) () as d = (Inr (), d') \<and> alias_grown d d'
      \<and> (\<forall>a\<in>set as. (i, a) \<in> set (entity_aliases d'))"
  using assms
proof (induction as arbitrary: d)
  case Nil
  then show ?case by (simp add: alias_grown_refl)
next
  case (Cons a as)
  obtain d1 where d1: "insert_alias_in i a d = (Inr (), d1)" "alias_grown d d1" "(i, a) \<in> set (entity_aliases d1)"
    using insert_alias_ok [OF Cons.prems] by blast
  obtain d2 where d2: "m_fold (\<lambda>_ a. insert_alias_in i a) () as d1 = (Inr (), d2)" "alias_grown d1 d2"
      "\<forall>a\<in>set as. (i, a) \<in> set (entity_aliases d2)"
    using Cons.IH [of d1] Cons.prems d1(2) by (auto simp: alias_grown_entities)
  have "(i, a) \<in> set (entity_aliases d2)" using d1(3) d2(2) by (auto simp: alias_grown_def)
  with d1 d2 show ?case
    by (auto simp: m_bind_Inr intro: alias_grown_trans)
qed

lemma migrate_rows_ok:
  assumes "\<forall>(i, as)\<in>set xs. i \<in> row_keys er_id (entities d)"
  shows "\<exists>d'. m_fold (\<lambda>_ (i, as). m_fold (\<lambda>_ a. insert_alias_in i a) () as) () xs d = (Inr (), d')
      \<and> alias_grown d d' \<and> (\<forall>(i, as)\<in>set xs. \<forall>a\<in>set as. (i, a) \<in> set (entity_aliases d'))"
  using assms
proof (induction xs arbitrary: d)
  case Nil
  then show ?case by (simp add: alias_grown_refl)
next
  case (Cons x xs)
  obtain i as where x: "x = (i, as)" by (cases x)
  obtain d1 where d1: "m_fold (\<lambda>_ a. insert_alias_in i a) () as d = (Inr (), d1)" "alias_grown d d1"
      "\<forall>a\<in>set as. (i, a) \<in> set (entity_aliases d1)"
    using insert_aliases_ok [of i d as] Cons.prems x by auto
  obtain d2 where d2: "m_fold (\<lambda>_ (i, as). m_fold (\<lambda>_ a. insert_alias_in i a) () as) () xs d1 = (Inr (), d2)"
      "alias_grown d1 d2" "\<forall>(i, as)\<in>set xs. \<forall>a\<in>set as. (i, a) \<in> set (entity_aliases d2)"
    using Cons.IH [of d1] Cons.prems d1(2) by (auto simp: alias_grown_entities)
  have "\<forall>a\<in>set as. (i, a) \<in> set (entity_aliases d2)" using d1(3) d2(2) by (auto simp: alias_grown_def)
  with d1 d2 x show ?case
    by (auto simp: m_bind_Inr intro: alias_grown_trans)
qed

lemma legacy_rows_entities: "(i, as) \<in> set (legacy_alias_rows d) \<Longrightarrow> i \<in> row_keys er_id (entities d)"
  by (auto simp: legacy_alias_rows_def row_keys_def List.map_filter_def)

lemma legacy_rows_Nil_iff:
  "legacy_alias_rows d = [] \<longleftrightarrow>
   (\<forall>e\<in>set (entities d). (\<exists>p\<in>set (entity_aliases d). fst p = er_id e) \<or> er_aliases_json e = Some [] \<or> er_aliases_json e = None)"
  by (auto simp: legacy_alias_rows_def List.map_filter_def filter_empty_conv)

text \<open>
  The alias backfill of the schema migration always succeeds, adds rows to
  \<open>entity_aliases\<close> and changes nothing else, leaves no entity with an unmigrated non-empty
  alias list, and is idempotent: opening the database again changes nothing.
\<close>

theorem migrate_aliases_idempotent:
  "\<exists>d'. migrate_aliases d = (Inr (), d') \<and> d' = d\<lparr>entity_aliases := entity_aliases d'\<rparr>
     \<and> set (entity_aliases d) \<subseteq> set (entity_aliases d')
     \<and> legacy_alias_rows d' = [] \<and> migrate_aliases d' = (Inr (), d')"
proof -
  let ?loop = "m_fold (\<lambda>_ (i, as). m_fold (\<lambda>_ a. insert_alias_in i a) () as) ()"
  obtain d' where d': "?loop (legacy_alias_rows d) d = (Inr (), d')" "alias_grown d d'"
      "\<forall>(i, as)\<in>set (legacy_alias_rows d). \<forall>a\<in>set as. (i, a) \<in> set (entity_aliases d')"
    using migrate_rows_ok [of "legacy_alias_rows d" d] legacy_rows_entities by blast
  have ents: "entities d' = entities d" using d'(2) by (rule alias_grown_entities)
  have none: "legacy_alias_rows d' = []"
    unfolding legacy_rows_Nil_iff ents
  proof
    fix e assume e: "e \<in> set (entities d)"
    show "(\<exists>p\<in>set (entity_aliases d'). fst p = er_id e) \<or> er_aliases_json e = Some [] \<or> er_aliases_json e = None"
    proof (cases "\<exists>p\<in>set (entity_aliases d). fst p = er_id e")
      case True
      then show ?thesis using d'(2) by (auto simp: alias_grown_def)
    next
      case False
      show ?thesis
      proof (cases "er_aliases_json e")
        case (Some as)
        show ?thesis
        proof (cases as)
          case (Cons a bs)
          have "(er_id e, as) \<in> set (legacy_alias_rows d)"
            using e False Some Cons by (force simp: legacy_alias_rows_def List.map_filter_def)
          then have "(er_id e, a) \<in> set (entity_aliases d')" using d'(3) Cons by auto
          then show ?thesis by force
        qed (simp add: Some)
      qed simp
    qed
  qed
  have run: "migrate_aliases d = (Inr (), d')"
    using d'(1) by (simp add: migrate_aliases_def m_tx_ok_iff m_bind_def)
  have "migrate_aliases d' = (Inr (), d')"
    by (simp add: migrate_aliases_def m_tx_ok_iff m_bind_def none)
  with run none d'(2) show ?thesis by (auto simp: alias_grown_def)
qed

lemma keeps_migrate: "keeps db_ok migrate_aliases"
  unfolding migrate_aliases_def
  by (auto intro!: keeps_intros keeps_insert_alias split: prod.splits)

end
