(* ===== verification/SqliteStore.thy ===== *)
theory SqliteStore
  imports Tables
begin

text \<open>
  The \<open>MetadataStore\<close> operations of \<open>SqliteStore\<close> (\<open>crates/store/src/metadata.rs\<close>). A read is a
  function of the database, a write a computation on it; both run on a connection that the
  pool or the writer lock hands out, and a failing pool, disk or thread is not modelled. A
  clock reading of the code is an argument.
\<close>

definition IN_CLAUSE_BATCH_SIZE :: nat where
  "IN_CLAUSE_BATCH_SIZE = 500"

section \<open>Memories\<close>

definition unit_separator :: char where
  "unit_separator = char_of (31 :: nat)"

text \<open>The names of the entities linked to a memory.\<close>

definition linked_names :: "db \<Rightarrow> string \<Rightarrow> string list" where
  "linked_names d memory_id =
     List.map_filter (\<lambda>(m, e). if m = memory_id then map_option er_name (rows_get er_id e (entities d)) else None)
       (memory_entities d)"

definition get_entity_names_for_memory :: "string \<Rightarrow> db \<Rightarrow> string list" where
  "get_entity_names_for_memory memory_id d = linked_names d memory_id"

text \<open>\<open>GROUP_CONCAT(e.name, '\u{1f}')\<close>, \<open>NULL\<close> for an empty group, and its split in Rust.\<close>

definition group_concat :: "string list \<Rightarrow> string option" where
  "group_concat names = (if names = [] then None else Some (join [unit_separator] names))"

definition split_names :: "string option \<Rightarrow> string list" where
  "split_names s = (case s of None \<Rightarrow> [] | Some t \<Rightarrow> split_on unit_separator t)"

definition row_with_entities :: "db \<Rightarrow> mem_row \<Rightarrow> memory" where
  "row_with_entities d r = row_to_memory r (split_names (group_concat (linked_names d (r_id r))))"

definition insert_memory :: "memory \<Rightarrow> unit db_op" where
  "insert_memory m = insert_memory_in m"

definition get_memory :: "string \<Rightarrow> db \<Rightarrow> memory option" where
  "get_memory i d =
     map_option (\<lambda>r. row_to_memory r (get_entity_names_for_memory i d)) (rows_get r_id i (memories d))"

definition get_memories_by_ids :: "string list \<Rightarrow> db \<Rightarrow> memory list" where
  "get_memories_by_ids ids d =
     (if ids = [] then []
      else concat (map (\<lambda>chunk. map (row_with_entities d) (filter (\<lambda>r. r_id r \<in> set chunk) (memories d)))
             (chunks IN_CLAUSE_BATCH_SIZE ids)))"

definition touch_rows :: "time \<Rightarrow> string list \<Rightarrow> mem_row list \<Rightarrow> mem_row list" where
  "touch_rows now chunk rows =
     rows_upd (\<lambda>r. r_id r \<in> set chunk)
       (\<lambda>r. r\<lparr>r_last_accessed := now, r_access_count := r_access_count r + 1\<rparr>) rows"

definition update_last_accessed :: "string list \<Rightarrow> time \<Rightarrow> unit db_op" where
  "update_last_accessed ids now =
     m_modify (\<lambda>d. d\<lparr>memories := fold (touch_rows now) (chunks IN_CLAUSE_BATCH_SIZE ids) (memories d)\<rparr>)"

definition update_last_validated :: "string list \<Rightarrow> time \<Rightarrow> unit db_op" where
  "update_last_validated ids now =
     m_modify (\<lambda>d. d\<lparr>memories := fold (\<lambda>chunk. rows_upd (\<lambda>r. r_id r \<in> set chunk) (\<lambda>r. r\<lparr>r_last_validated := Some now\<rparr>))
       (chunks IN_CLAUSE_BATCH_SIZE ids) (memories d)\<rparr>)"

text \<open>\<open>DELETE\<close> cascades to the links of the rows it removes; the result is the row count.\<close>

definition delete_chunk :: "string list \<Rightarrow> db \<Rightarrow> nat \<times> db" where
  "delete_chunk chunk d =
     (length (filter (\<lambda>r. r_id r \<in> set chunk) (memories d)),
      d\<lparr>memories := rows_del r_id chunk (memories d),
        memory_entities := filter (\<lambda>(m, e). m \<notin> set chunk) (memory_entities d)\<rparr>)"

fun delete_chunks :: "string list list \<Rightarrow> nat \<Rightarrow> db \<Rightarrow> nat \<times> db" where
  "delete_chunks [] acc d = (acc, d)"
| "delete_chunks (c # cs) acc d = (let (n, d') = delete_chunk c d in delete_chunks cs (acc + n) d')"

definition delete_memories :: "string list \<Rightarrow> nat db_op" where
  "delete_memories ids = (\<lambda>d.
     if ids = [] then (Inr 0, d)
     else let (n, d') = delete_chunks (chunks IN_CLAUSE_BATCH_SIZE ids) 0 d in (Inr n, d'))"

definition get_memories_by_subject_predicate :: "string \<Rightarrow> string \<Rightarrow> db \<Rightarrow> memory list" where
  "get_memories_by_subject_predicate subject predicate d =
     map (row_with_entities d)
       (filter (\<lambda>r. r_subject r = Some subject \<and> r_normalized_predicate r = Some predicate
                  \<and> r_memory_type r = ''semantic'' \<and> r_t_invalid r = None) (memories d))"

definition invalidate_memory :: "string \<Rightarrow> time \<Rightarrow> unit db_op" where
  "invalidate_memory i t = invalidate_memory_in i t"

definition set_normalized_predicate :: "string \<Rightarrow> string \<Rightarrow> time \<Rightarrow> unit db_op" where
  "set_normalized_predicate i normalized now =
     m_modify (\<lambda>d. d\<lparr>memories := rows_upd (\<lambda>r. r_id r = i)
       (\<lambda>r. r\<lparr>r_normalized_predicate := Some normalized, r_updated_at := now\<rparr>) (memories d)\<rparr>)"

definition semantic_rows_missing_normalized_predicate :: "string option \<Rightarrow> db \<Rightarrow> memory list" where
  "semantic_rows_missing_normalized_predicate ns d =
     map (\<lambda>r. row_to_memory r [])
       (filter (\<lambda>r. r_memory_type r = ''semantic'' \<and> r_normalized_predicate r = None
                  \<and> (case ns of None \<Rightarrow> True | Some n \<Rightarrow> r_namespace r = n)) (memories d))"

definition list_vectored_memory_ids :: "string \<Rightarrow> db \<Rightarrow> string list" where
  "list_vectored_memory_ids ns d = map r_id (filter (\<lambda>r. r_namespace r = ns) (memories d))"

definition list_all_memory_ids :: "string \<Rightarrow> db \<Rightarrow> string list" where
  "list_all_memory_ids ns d =
     map r_id (filter (\<lambda>r. r_namespace r = ns \<and> r_t_invalid r = None) (memories d))"

definition get_stale_candidates :: "string \<Rightarrow> time \<Rightarrow> db \<Rightarrow> memory list" where
  "get_stale_candidates ns before d =
     map (\<lambda>r. row_to_memory r [])
       (filter (\<lambda>r. r_t_invalid r = None \<and> r_namespace r = ns \<and> r_last_accessed r < before) (memories d))"

definition get_unvalidated_memories :: "string \<Rightarrow> db \<Rightarrow> memory list" where
  "get_unvalidated_memories ns d =
     map (\<lambda>r. row_to_memory r [])
       (filter (\<lambda>r. r_last_validated r = None \<and> r_t_invalid r = None \<and> r_namespace r = ns) (memories d))"

definition get_low_access_memories :: "string \<Rightarrow> int \<Rightarrow> db \<Rightarrow> memory list" where
  "get_low_access_memories ns max_count d =
     map (\<lambda>r. row_to_memory r [])
       (filter (\<lambda>r. r_access_count r \<le> max_count \<and> r_t_invalid r = None \<and> r_namespace r = ns) (memories d))"

definition memory_count :: "db \<Rightarrow> nat" where
  "memory_count d = length (memories d)"

definition recent_memories :: "string \<Rightarrow> nat \<Rightarrow> db \<Rightarrow> memory list" where
  "recent_memories ns limit d =
     map (row_with_entities d)
       (take limit (sort_desc r_created_at
          (filter (\<lambda>r. r_t_invalid r = None \<and> r_namespace r = ns) (memories d))))"

text \<open>One group per stored type name; a name that does not parse is dropped.\<close>

definition memory_count_by_type :: "string \<Rightarrow> db \<Rightarrow> (memory_type \<rightharpoonup> nat)" where
  "memory_count_by_type ns d =
     (let live = filter (\<lambda>r. r_namespace r = ns \<and> r_t_invalid r = None) (memories d);
          groups = remdups (map r_memory_type live)
      in fold (\<lambda>raw m. case mt_from_str raw of
                 Inr t \<Rightarrow> m(t \<mapsto> length (filter (\<lambda>r. r_memory_type r = raw) live))
               | Inl _ \<Rightarrow> m) groups Map.empty)"

definition timeline_by_entity ::
    "string \<Rightarrow> string \<Rightarrow> nat \<Rightarrow> bool \<Rightarrow> memory_type list option \<Rightarrow> db \<Rightarrow> memory list" where
  "timeline_by_entity entity_id ns limit include_invalidated types d =
     (let type_strs = map mt_as_str (case types of None \<Rightarrow> [] | Some ts \<Rightarrow> ts)
      in map (row_with_entities d)
           (take limit (sort_desc (\<lambda>r. case r_t_valid r of None \<Rightarrow> r_created_at r | Some t \<Rightarrow> t)
              (filter (\<lambda>r. (r_id r, entity_id) \<in> set (memory_entities d) \<and> r_namespace r = ns
                         \<and> (include_invalidated \<or> r_t_invalid r = None)
                         \<and> (type_strs = [] \<or> r_memory_type r \<in> set type_strs)) (memories d)))))"

definition list_namespaces :: "db \<Rightarrow> string list" where
  "list_namespaces d = sort (remdups (map r_namespace (filter (\<lambda>r. r_t_invalid r = None) (memories d))))"

definition top_predicates :: "string \<Rightarrow> nat \<Rightarrow> db \<Rightarrow> (string \<times> nat) list" where
  "top_predicates ns limit d =
     (let preds = List.map_filter (\<lambda>r. case r_normalized_predicate r of None \<Rightarrow> r_predicate r | Some p \<Rightarrow> Some p)
                    (filter (\<lambda>r. r_namespace r = ns \<and> r_memory_type r = ''semantic'' \<and> r_t_invalid r = None)
                       (memories d))
      in take limit (sort_desc (\<lambda>(p, n). int n) (map (\<lambda>p. (p, count_list preds p)) (remdups preds))))"

section \<open>Entities\<close>

definition insert_entity :: "entity \<Rightarrow> unit db_op" where
  "insert_entity e = m_tx (m_then
     (\<lambda>d. if ent_id e \<in> row_keys er_id (entities d) then (Inl (unique_failed ''entities.id''), d)
          else if ent_name e \<in> row_keys er_name (entities d) then (Inl (unique_failed ''entities.name''), d)
          else (Inr (), d\<lparr>entities := entities d @ [\<lparr> er_id = ent_id e, er_name = ent_name e,
                 er_aliases_json = Some (ent_aliases e), er_type = ent_type e,
                 er_created_at = ent_created_at e, er_updated_at = ent_updated_at e \<rparr>]\<rparr>))
     (m_fold (\<lambda>_ a. insert_alias_in (ent_id e) a) () (ent_aliases e)))"

definition aliases_of :: "db \<Rightarrow> string \<Rightarrow> string list" where
  "aliases_of d i = map snd (filter (\<lambda>(e, a). e = i) (entity_aliases d))"

definition find_entity_row :: "string \<Rightarrow> db \<Rightarrow> ent_row option" where
  "find_entity_row name d =
     (case find (\<lambda>r. er_name r = name) (entities d) of
        Some r \<Rightarrow> Some r
      | None \<Rightarrow> (case find (\<lambda>(e, a). a = name \<and> e \<in> row_keys er_id (entities d)) (entity_aliases d) of
           None \<Rightarrow> None
         | Some (e, _) \<Rightarrow> rows_get er_id e (entities d)))"

definition get_entity_by_name :: "string \<Rightarrow> db \<Rightarrow> entity option" where
  "get_entity_by_name name d =
     map_option (\<lambda>r. (row_to_entity_without_aliases r)\<lparr>ent_aliases := aliases_of d (er_id r)\<rparr>)
       (find_entity_row name d)"

definition get_all_entities :: "db \<Rightarrow> entity list" where
  "get_all_entities d =
     map (\<lambda>r. (row_to_entity_without_aliases r)\<lparr>ent_aliases := split_names (group_concat (aliases_of d (er_id r)))\<rparr>)
       (entities d)"

definition add_entity_alias :: "string \<Rightarrow> string \<Rightarrow> time \<Rightarrow> unit db_op" where
  "add_entity_alias i alias now = m_tx (m_then (insert_alias_in i alias)
     (m_modify (\<lambda>d. d\<lparr>entities := rows_upd (\<lambda>r. er_id r = i) (\<lambda>r. r\<lparr>er_updated_at := now\<rparr>) (entities d)\<rparr>)))"

definition link_memory_entity :: "string \<Rightarrow> string \<Rightarrow> unit db_op" where
  "link_memory_entity memory_id entity_id = link_memory_entity_in memory_id entity_id"

definition entity_count :: "string \<Rightarrow> db \<Rightarrow> nat" where
  "entity_count ns d =
     length (filter (\<lambda>e. \<exists>(m, e')\<in>set (memory_entities d). e' = er_id e
                        \<and> (\<exists>r\<in>set (memories d). r_id r = m \<and> r_namespace r = ns)) (entities d))"

definition top_entities :: "string \<Rightarrow> nat \<Rightarrow> db \<Rightarrow> (string \<times> nat) list" where
  "top_entities ns limit d =
     (let cnt = (\<lambda>e. length (filter (\<lambda>(m, e'). e' = er_id e
                  \<and> (\<exists>r\<in>set (memories d). r_id r = m \<and> r_namespace r = ns \<and> r_t_invalid r = None))
                  (memory_entities d)))
      in take limit (sort_desc (\<lambda>(name, n). int n)
           (map (\<lambda>e. (er_name e, cnt e)) (filter (\<lambda>e. 0 < cnt e) (entities d)))))"

section \<open>Key-value metadata\<close>

definition get_metadata :: "string \<Rightarrow> db \<Rightarrow> string option" where
  "get_metadata k d = map_option snd (rows_get fst k (metadata d))"

definition set_metadata :: "string \<Rightarrow> string \<Rightarrow> unit db_op" where
  "set_metadata k v = m_modify (\<lambda>d. d\<lparr>metadata := rows_put fst (k, v) (metadata d)\<rparr>)"

section \<open>The operation journal\<close>

definition insert_pending_op :: "pending_op \<Rightarrow> unit db_op" where
  "insert_pending_op op = (\<lambda>d.
     if po_op_id op \<in> row_keys pr_op_id (pending_ops d) then (Inl (unique_failed ''pending_ops.op_id''), d)
     else (Inr (), d\<lparr>pending_ops := pending_ops d @ [pend_row_of op]\<rparr>))"

definition mark_pending_op_qdrant_written :: "string \<Rightarrow> unit db_op" where
  "mark_pending_op_qdrant_written op_id =
     m_modify (\<lambda>d. d\<lparr>pending_ops := rows_upd (\<lambda>r. pr_op_id r = op_id) (\<lambda>r. r\<lparr>pr_qdrant_written := 1\<rparr>) (pending_ops d)\<rparr>)"

definition clear_pending_op :: "string \<Rightarrow> unit db_op" where
  "clear_pending_op op_id = m_modify (\<lambda>d. d\<lparr>pending_ops := rows_del pr_op_id [op_id] (pending_ops d)\<rparr>)"

definition pending_op_of :: "pend_row \<Rightarrow> pending_op option" where
  "pending_op_of r =
     (case kind_parse (pr_kind r) of
        None \<Rightarrow> None
      | Some k \<Rightarrow> Some \<lparr> po_op_id = pr_op_id r, po_kind = k, po_memory_id = pr_memory_id r,
          po_namespace = pr_namespace r, po_target_id = pr_target_id r,
          po_qdrant_written = (pr_qdrant_written r \<noteq> 0), po_started_at = pr_started_at r \<rparr>)"

definition list_pending_ops :: "db \<Rightarrow> pending_op list" where
  "list_pending_ops d = List.map_filter pending_op_of (sort_key pr_started_at (pending_ops d))"

definition count_pending_ops_older_than :: "int \<Rightarrow> time \<Rightarrow> db \<Rightarrow> nat" where
  "count_pending_ops_older_than age now d =
     length (filter (\<lambda>r. pr_started_at r < now - age) (pending_ops d))"

definition complete_op :: "completed_op \<Rightarrow> unit db_op" where
  "complete_op op = m_tx (complete_op_in op)"

definition is_op_completed :: "string \<Rightarrow> db \<Rightarrow> bool" where
  "is_op_completed op_id d \<longleftrightarrow> op_id \<in> row_keys cr_op_id (completed_ops d)"

definition completed_op_of :: "comp_row \<Rightarrow> completed_op" where
  "completed_op_of r =
     \<lparr> co_op_id = cr_op_id r, co_kind = (case kind_parse (cr_kind r) of None \<Rightarrow> OpStore | Some k \<Rightarrow> k),
       co_memory_id = cr_memory_id r, co_namespace = cr_namespace r, co_started_at = cr_started_at r,
       co_completed_at = cr_completed_at r, co_duration_ms = cr_duration_ms r, co_outcome = cr_outcome r \<rparr>"

definition list_completed_ops :: "string option \<Rightarrow> nat \<Rightarrow> time option \<Rightarrow> db \<Rightarrow> completed_op list" where
  "list_completed_ops status limit since d =
     map completed_op_of (take limit (sort_desc cr_completed_at
       (filter (\<lambda>r. (status = Some ''failed'' \<longrightarrow> cr_outcome r \<noteq> ''ok'')
                  \<and> (status = Some ''completed'' \<longrightarrow> cr_outcome r = ''ok'')
                  \<and> (case since of None \<Rightarrow> True | Some s \<Rightarrow> s \<le> cr_completed_at r)) (completed_ops d))))"

definition prune_completed_ops :: "nat \<Rightarrow> int \<Rightarrow> time \<Rightarrow> nat db_op" where
  "prune_completed_ops max_count max_age now = (\<lambda>d.
     let recent = filter (\<lambda>r. now - max_age \<le> cr_completed_at r) (completed_ops d);
         top = map cr_op_id (take max_count (sort_desc cr_completed_at recent));
         kept = filter (\<lambda>r. cr_op_id r \<in> set top) recent
     in (Inr (length (completed_ops d) - length kept), d\<lparr>completed_ops := kept\<rparr>))"

definition commit_memory_write ::
    "memory \<Rightarrow> string list \<Rightarrow> string list \<Rightarrow> time \<Rightarrow> completed_op \<Rightarrow> unit db_op" where
  "commit_memory_write m entity_ids invalidate_ids t completed =
     m_tx (m_then (insert_memory_in m)
          (m_then (m_fold (\<lambda>_ e. link_memory_entity_in (mem_id m) e) () entity_ids)
          (m_then (m_fold (\<lambda>_ i. invalidate_memory_in i t) () invalidate_ids)
             (complete_op_in completed))))"

section \<open>Opening a database\<close>

definition find_sub :: "string \<Rightarrow> string \<Rightarrow> bool" where
  "find_sub pat s \<longleftrightarrow> (\<exists>i\<in>set [0..<Suc (length s)]. take (length pat) (drop i s) = pat)"

definition is_memory_path :: "string \<Rightarrow> bool" where
  "is_memory_path path \<longleftrightarrow> path = '':memory:'' \<or> find_sub ''mode=memory'' path"

end
