(* ===== verification/SqliteLaws.thy ===== *)
theory SqliteLaws
  imports SqliteStore
begin

text \<open>
  What the SQLite operations guarantee: every write keeps the schema's constraints, chunked
  statements are equal to one statement over the whole list, the entity names of a memory
  survive their concatenation, and the transactions are atomic.
\<close>

section \<open>Deleting by id\<close>

lemma delete_chunks_eq:
  "delete_chunks cs n d =
     (n + length (filter (\<lambda>r. r_id r \<in> set (concat cs)) (memories d)),
      d\<lparr>memories := rows_del r_id (concat cs) (memories d),
        memory_entities := filter (\<lambda>(m, e). m \<notin> set (concat cs)) (memory_entities d)\<rparr>)"
proof (induction cs arbitrary: n d)
  case Nil
  then show ?case by (simp add: rows_del_def case_prod_unfold)
next
  case (Cons c cs)
  have split: "length (filter (\<lambda>r. r_id r \<in> set c) xs)
      + length (filter (\<lambda>r. r_id r \<in> set (concat cs)) (rows_del r_id c xs))
      = length (filter (\<lambda>r. r_id r \<in> set (concat (c # cs))) xs)" for xs :: "mem_row list"
    by (induction xs) (auto simp: rows_del_def)
  show ?case
    using split [of "memories d"]
    by (simp add: delete_chunk_def Cons.IH rows_del_del case_prod_unfold)
qed

lemma delete_memories_run:
  "delete_memories ids d =
     (Inr (length (filter (\<lambda>r. r_id r \<in> set ids) (memories d))),
      d\<lparr>memories := rows_del r_id ids (memories d),
        memory_entities := filter (\<lambda>(m, e). m \<notin> set ids) (memory_entities d)\<rparr>)"
  by (simp add: delete_memories_def delete_chunks_eq concat_chunks IN_CLAUSE_BATCH_SIZE_def rows_del_def
      case_prod_unfold)

interpretation mem_table: pk_table memories r_id memory_row insert_memory
    "\<lambda>i d. snd (delete_memories [i] d)"
  by unfold_locales (auto simp: insert_memory_def insert_memory_in_def delete_memories_run)

interpretation pend_table: pk_table pending_ops pr_op_id pend_row_of insert_pending_op
    "\<lambda>i d. snd (clear_pending_op i d)"
  by unfold_locales (auto simp: insert_pending_op_def clear_pending_op_def)

section \<open>Touching rows\<close>

lemma rows_upd_upd:
  assumes "\<And>r. p (f r) = p r" "\<And>r. q (f r) = q r" "\<And>r. p r \<Longrightarrow> \<not> q r"
  shows "rows_upd q f (rows_upd p f rows) = rows_upd (\<lambda>r. p r \<or> q r) f rows"
  unfolding rows_upd_def using assms by (induction rows) auto

lemma fold_touch:
  assumes "distinct (concat cs)"
  shows "fold (touch_rows now) cs rows = touch_rows now (concat cs) rows"
  using assms
proof (induction cs arbitrary: rows)
  case Nil
  then show ?case by (simp add: touch_rows_def rows_upd_def)
next
  case (Cons c cs)
  have "touch_rows now (concat cs) (touch_rows now c rows) = touch_rows now (c @ concat cs) rows"
    unfolding touch_rows_def using Cons.prems by (subst rows_upd_upd) auto
  with Cons show ?case by simp
qed

lemma update_last_accessed_run:
  "distinct ids \<Longrightarrow> update_last_accessed ids now d = (Inr (), d\<lparr>memories := touch_rows now ids (memories d)\<rparr>)"
  by (simp add: update_last_accessed_def fold_touch concat_chunks IN_CLAUSE_BATCH_SIZE_def)

lemma touch_rows_same:
  "(\<And>r. g (r\<lparr>r_last_accessed := now, r_access_count := r_access_count r + 1\<rparr>) = g r) \<Longrightarrow>
     map g (touch_rows now ids rows) = map g rows"
  unfolding touch_rows_def by (rule map_key_upd)

lemma fold_touch_ids: "map r_id (fold (touch_rows now) cs rows) = map r_id rows"
  by (induction cs arbitrary: rows) (simp_all add: touch_rows_same)

lemma fold_upd_map:
  assumes "\<And>c rows. map g (f c rows) = map g rows"
  shows "map g (fold f cs rows) = map g rows"
  using assms by (induction cs arbitrary: rows) simp_all

text \<open>
  Flushing accesses marks exactly the listed memories, in one clock instant and once each:
  their access count grows by one and their last access becomes the flush time, however the
  list is cut into batches of 500; every other row and every other field stay as they were.
\<close>

theorem update_last_accessed_once:
  assumes "distinct ids"
  shows "fst (update_last_accessed ids now d) = Inr ()
    \<and> rows_get r_id i (memories (snd (update_last_accessed ids now d))) =
       map_option (\<lambda>r. if i \<in> set ids then r\<lparr>r_last_accessed := now, r_access_count := r_access_count r + 1\<rparr> else r)
         (rows_get r_id i (memories d))
    \<and> (snd (update_last_accessed ids now d))\<lparr>memories := memories d\<rparr> = d"
proof -
  have "rows_get r_id i (touch_rows now ids (memories d)) =
      map_option (\<lambda>r. if r_id r \<in> set ids then r\<lparr>r_last_accessed := now, r_access_count := r_access_count r + 1\<rparr> else r)
        (rows_get r_id i (memories d))"
    unfolding touch_rows_def by (rule rows_get_upd) simp
  also have "\<dots> = map_option (\<lambda>r. if i \<in> set ids then r\<lparr>r_last_accessed := now, r_access_count := r_access_count r + 1\<rparr> else r)
        (rows_get r_id i (memories d))"
    by (rule option.map_cong) (auto dest: rows_get_Some)
  finally show ?thesis
    using assms by (simp add: update_last_accessed_run)
qed

theorem update_last_accessed_once_witness:
  "rows_get r_id ''m'' (memories (snd (update_last_accessed [''m''] 7
      (empty_db\<lparr>memories := [memory_row sample_memory]\<rparr>)))) =
    Some ((memory_row sample_memory)\<lparr>r_last_accessed := 7, r_access_count := 1\<rparr>)"
  using update_last_accessed_once [of "[''m'']" 7 "empty_db\<lparr>memories := [memory_row sample_memory]\<rparr>" "''m''"]
  by (simp add: memory_row_def sample_memory_def)

section \<open>Entity names of a memory\<close>

lemma split_group_concat:
  "\<forall>n\<in>set names. unit_separator \<notin> set n \<Longrightarrow> split_names (group_concat names) = names"
  by (simp add: split_names_def group_concat_def split_on_join)

definition names_clean :: "db \<Rightarrow> bool" where
  "names_clean d \<longleftrightarrow> (\<forall>e\<in>set (entities d). unit_separator \<notin> set (er_name e))"

lemma linked_names_clean: "names_clean d \<Longrightarrow> n \<in> set (linked_names d i) \<Longrightarrow> unit_separator \<notin> set n"
  by (auto simp: linked_names_def names_clean_def List.map_filter_def split: if_splits dest!: rows_get_Some)

lemma row_with_entities_clean:
  "names_clean d \<Longrightarrow> row_with_entities d r = row_to_memory r (linked_names d (r_id r))"
  unfolding row_with_entities_def using linked_names_clean by (subst split_group_concat) blast+

lemma get_memories_by_ids_set:
  "set (get_memories_by_ids ids d) = row_with_entities d ` {r \<in> set (memories d). r_id r \<in> set ids}"
proof -
  have "set (get_memories_by_ids ids d) =
      row_with_entities d ` {r \<in> set (memories d). \<exists>c\<in>set (chunks IN_CLAUSE_BATCH_SIZE ids). r_id r \<in> set c}"
    unfolding get_memories_by_ids_def by (cases "ids = []") auto
  moreover have "(\<exists>c\<in>set (chunks IN_CLAUSE_BATCH_SIZE ids). i \<in> set c) \<longleftrightarrow> i \<in> set ids" for i
    using concat_chunks [of IN_CLAUSE_BATCH_SIZE ids] by (metis IN_CLAUSE_BATCH_SIZE_def UN_iff set_concat zero_less_numeral)
  ultimately show ?thesis by simp
qed

text \<open>
  Reading memories in bulk agrees with reading them one by one: with distinct row ids and
  entity names free of the separator byte, a batch read of any id list returns exactly the
  memories that the single-row lookup returns for those ids, entity names included.
\<close>

theorem batch_read_agrees:
  assumes "db_ok d" and "names_clean d"
  shows "m \<in> set (get_memories_by_ids ids d) \<longleftrightarrow> (\<exists>i\<in>set ids. get_memory i d = Some m)"
proof -
  have rows: "distinct (map r_id (memories d))" using assms(1) by (simp add: db_ok_def)
  have one: "get_memory i d = Some m \<longleftrightarrow> (\<exists>r\<in>set (memories d). r_id r = i \<and> m = row_with_entities d r)" for i
    using rows rows_get_in [of r_id "memories d"]
    by (auto simp: get_memory_def get_entity_names_for_memory_def row_with_entities_clean [OF assms(2)]
        dest!: rows_get_Some)
  show ?thesis
    unfolding get_memories_by_ids_set one by auto
qed

theorem batch_read_agrees_witness:
  "sample_memory \<in> set (get_memories_by_ids [''x'', ''m''] (empty_db\<lparr>memories := [memory_row sample_memory]\<rparr>))"
proof -
  let ?d = "empty_db\<lparr>memories := [memory_row sample_memory]\<rparr>"
  have "db_ok ?d" "names_clean ?d"
    by (simp_all add: db_ok_def empty_db_def names_clean_def)
  moreover have "mt_from_str ''episodic'' = Inr Episodic" using mt_round_trip [of Episodic] by simp
  then have "get_memory ''m'' ?d = Some sample_memory"
    by (simp add: get_memory_def get_entity_names_for_memory_def linked_names_def empty_db_def sample_memory_def
        List.map_filter_def row_to_memory_def memory_row_def)
  ultimately show ?thesis
    by (subst batch_read_agrees) auto
qed

section \<open>The write transaction\<close>

definition invalidated :: "time \<Rightarrow> string list \<Rightarrow> mem_row list \<Rightarrow> mem_row list" where
  "invalidated t ids rows =
     rows_upd (\<lambda>r. r_id r \<in> set ids) (\<lambda>r. r\<lparr>r_t_invalid := Some t, r_updated_at := t\<rparr>) rows"

lemma rows_upd_idem_upd:
  assumes "\<And>r. f (f r) = f r" "\<And>r. p (f r) = p r" "\<And>r. q (f r) = q r"
  shows "rows_upd q f (rows_upd p f rows) = rows_upd (\<lambda>r. p r \<or> q r) f rows"
  unfolding rows_upd_def using assms by (induction rows) auto

lemma invalidate_fold:
  "m_fold (\<lambda>_ i. invalidate_memory_in i t) () ids d = (Inr (), d\<lparr>memories := invalidated t ids (memories d)\<rparr>)"
proof (induction ids arbitrary: d)
  case Nil
  then show ?case by (simp add: invalidated_def rows_upd_def)
next
  case (Cons i ids)
  have "invalidated t ids (rows_upd (\<lambda>r. r_id r = i) (\<lambda>r. r\<lparr>r_t_invalid := Some t, r_updated_at := t\<rparr>) (memories d))
      = invalidated t (i # ids) (memories d)"
    unfolding invalidated_def by (subst rows_upd_idem_upd) auto
  moreover have "invalidate_memory_in i t d = (Inr (), d\<lparr>memories := rows_upd (\<lambda>r. r_id r = i)
      (\<lambda>r. r\<lparr>r_t_invalid := Some t, r_updated_at := t\<rparr>) (memories d)\<rparr>)"
    by (simp add: invalidate_memory_in_def)
  ultimately show ?case using Cons.IH by (simp add: m_bind_Inr)
qed

lemma invalidated_ids [simp]: "map r_id (invalidated t ids rows) = map r_id rows"
  by (simp add: invalidated_def map_key_upd)

lemma link_fold_ok:
  assumes "memory_id \<in> row_keys r_id (memories d)" and "set es \<subseteq> row_keys er_id (entities d)"
  shows "\<exists>L. m_fold (\<lambda>_ e. link_memory_entity_in memory_id e) () es d = (Inr (), d\<lparr>memory_entities := L\<rparr>)
     \<and> set L = set (memory_entities d) \<union> Pair memory_id ` set es"
  using assms
proof (induction es arbitrary: d)
  case Nil
  then show ?case by (auto intro!: exI [of _ "memory_entities d"])
next
  case (Cons e es)
  obtain L1 where L1: "link_memory_entity_in memory_id e d = (Inr (), d\<lparr>memory_entities := L1\<rparr>)"
      "set L1 = insert (memory_id, e) (set (memory_entities d))"
    using Cons.prems
    by (cases "(memory_id, e) \<in> set (memory_entities d)")
       (force simp: link_memory_entity_in_def intro: that [of "memory_entities d"] that [of "memory_entities d @ [(memory_id, e)]"])+
  obtain L where "m_fold (\<lambda>_ e. link_memory_entity_in memory_id e) () es (d\<lparr>memory_entities := L1\<rparr>) = (Inr (), d\<lparr>memory_entities := L\<rparr>)"
      "set L = set L1 \<union> Pair memory_id ` set es"
    using Cons.IH [of "d\<lparr>memory_entities := L1\<rparr>"] Cons.prems by auto
  with L1 show ?case by (auto simp: m_bind_Inr)
qed

lemma link_fold_missing:
  assumes "\<forall>p\<in>set (memory_entities d). fst p \<noteq> memory_id" and "\<not> set es \<subseteq> row_keys er_id (entities d)"
  shows "\<exists>err d'. m_fold (\<lambda>_ e. link_memory_entity_in memory_id e) () es d = (Inl err, d')"
proof -
  have "\<exists>err d'. m_fold (\<lambda>_ e. link_memory_entity_in memory_id e) () es d = (Inl err, d')"
    if "\<forall>(m, e)\<in>set (memory_entities d). m = memory_id \<longrightarrow> e \<in> row_keys er_id (entities d)"
      and "\<not> set es \<subseteq> row_keys er_id (entities d)" for d
    using that
  proof (induction es arbitrary: d)
    case Nil
    then show ?case by simp
  next
    case (Cons e es)
    show ?case
    proof (cases "e \<in> row_keys er_id (entities d)")
      case True
      then consider (ok) d1 where "link_memory_entity_in memory_id e d = (Inr (), d1)"
        | (refused) err where "link_memory_entity_in memory_id e d = (Inl err, d)"
        by (metis link_memory_entity_in_def)
      then show ?thesis
      proof cases
        case ok
        then have "entities d1 = entities d" "set (memory_entities d1) = insert (memory_id, e) (set (memory_entities d))"
          by (auto simp: link_memory_entity_in_def split: if_splits)
        with Cons.prems True have "\<exists>err d'. m_fold (\<lambda>_ e. link_memory_entity_in memory_id e) () es d1 = (Inl err, d')"
          by (intro Cons.IH) auto
        with ok show ?thesis by (auto simp: m_bind_Inr)
      next
        case refused
        then show ?thesis by (auto simp: m_bind_Inl)
      qed
    next
      case False
      with Cons.prems have "\<exists>err. link_memory_entity_in memory_id e d = (Inl err, d)"
        by (auto simp: link_memory_entity_in_def)
      then show ?thesis by (auto simp: m_bind_Inl)
    qed
  qed
  then show ?thesis using assms by fastforce
qed

text \<open>The database after a committed write.\<close>

definition committed :: "memory \<Rightarrow> string list \<Rightarrow> string list \<Rightarrow> time \<Rightarrow> completed_op \<Rightarrow> db \<Rightarrow> db \<Rightarrow> bool" where
  "committed m entity_ids invalidate_ids t completed d d' \<longleftrightarrow>
     (\<exists>L. d' = d\<lparr>memories := invalidated t invalidate_ids (memories d @ [memory_row m]),
                 memory_entities := L,
                 completed_ops := rows_put cr_op_id (comp_row_of completed) (completed_ops d),
                 pending_ops := rows_del pr_op_id [co_op_id completed] (pending_ops d)\<rparr>
         \<and> set L = set (memory_entities d) \<union> Pair (mem_id m) ` set entity_ids)"

lemma commit_ok:
  assumes "mem_id m \<notin> row_keys r_id (memories d)" and "set es \<subseteq> row_keys er_id (entities d)"
  shows "\<exists>d'. commit_memory_write m es ivs t completed d = (Inr (), d') \<and> committed m es ivs t completed d d'"
proof -
  let ?d1 = "d\<lparr>memories := memories d @ [memory_row m]\<rparr>"
  have ins: "insert_memory_in m d = (Inr (), ?d1)" using assms(1) by (simp add: insert_memory_in_def)
  obtain L where L: "m_fold (\<lambda>_ e. link_memory_entity_in (mem_id m) e) () es ?d1 = (Inr (), ?d1\<lparr>memory_entities := L\<rparr>)"
      "set L = set (memory_entities d) \<union> Pair (mem_id m) ` set es"
    using link_fold_ok [of "mem_id m" ?d1 es] assms(2) by auto
  show ?thesis
    by (auto simp: commit_memory_write_def m_tx_ok_iff m_then_ok_iff ins L invalidate_fold complete_op_in_def
        committed_def intro!: exI [of _ L])
qed

lemma commit_refused:
  assumes "db_ok d" and "mem_id m \<in> row_keys r_id (memories d) \<or> \<not> set es \<subseteq> row_keys er_id (entities d)"
  shows "\<exists>err. commit_memory_write m es ivs t completed d = (Inl err, d)"
proof (cases "mem_id m \<in> row_keys r_id (memories d)")
  case True
  then show ?thesis
    by (simp add: commit_memory_write_def m_tx_def m_then_def m_bind_def insert_memory_in_def)
next
  case False
  let ?d1 = "d\<lparr>memories := memories d @ [memory_row m]\<rparr>"
  have ins: "insert_memory_in m d = (Inr (), ?d1)" using False by (simp add: insert_memory_in_def)
  have "\<forall>p\<in>set (memory_entities ?d1). fst p \<noteq> mem_id m"
    using assms(1) False by (auto simp: db_ok_def)
  moreover have "\<not> set es \<subseteq> row_keys er_id (entities ?d1)" using assms(2) False by simp
  ultimately obtain err d' where "m_fold (\<lambda>_ e. link_memory_entity_in (mem_id m) e) () es ?d1 = (Inl err, d')"
    using link_fold_missing [of ?d1 "mem_id m" es] by blast
  with ins show ?thesis
    by (auto simp: commit_memory_write_def m_tx_def m_then_def m_bind_def)
qed

text \<open>
  The write transaction is all or nothing. It commits exactly when the memory's id is new
  and every entity id exists, and then the row, its links, the invalidations and the move of
  the journal entry to \<open>completed_ops\<close> happen together; otherwise it returns an error and the
  database is unchanged.
\<close>

theorem commit_memory_write_atomic:
  assumes "db_ok d"
  shows "(if mem_id m \<notin> row_keys r_id (memories d) \<and> set es \<subseteq> row_keys er_id (entities d)
          then \<exists>d'. commit_memory_write m es ivs t completed d = (Inr (), d')
                 \<and> committed m es ivs t completed d d' \<and> db_ok d'
          else \<exists>err. commit_memory_write m es ivs t completed d = (Inl err, d))"
proof -
  have "keeps db_ok (commit_memory_write m es ivs t completed)"
    unfolding commit_memory_write_def by (intro keeps_intros keeps_statements)
  then have "commit_memory_write m es ivs t completed d = (Inr (), d') \<Longrightarrow> db_ok d'" for d'
    using assms by (rule keepsD_run)
  then show ?thesis
    using commit_ok [of m d es ivs t completed] commit_refused [OF assms, of m es ivs t completed] by auto
qed

definition sample_completed :: completed_op where
  "sample_completed = \<lparr> co_op_id = ''op'', co_kind = OpStore, co_memory_id = ''m'', co_namespace = ''default'',
     co_started_at = 0, co_completed_at = 5, co_duration_ms = 0, co_outcome = ''ok'' \<rparr>"

theorem commit_memory_write_atomic_witness:
  "\<exists>d'. commit_memory_write sample_memory [] [] 5 sample_completed empty_db = (Inr (), d')
     \<and> committed sample_memory [] [] 5 sample_completed empty_db d' \<and> db_ok d'"
  using commit_memory_write_atomic [OF empty_db_ok, of sample_memory "[]" "[]" 5 sample_completed]
  by (simp add: empty_db_def row_keys_def)

section \<open>Every write keeps the constraints\<close>

lemma keeps_update_last_accessed: "keeps db_ok (update_last_accessed ids now)"
  unfolding update_last_accessed_def
  by (rule keeps_modify) (simp add: db_ok_def fold_touch_ids row_keys_def flip: set_map list.set_map)

lemma keeps_update_last_validated: "keeps db_ok (update_last_validated ids now)"
proof -
  have ids: "map r_id (fold (\<lambda>chunk. rows_upd (\<lambda>r. r_id r \<in> set chunk) (\<lambda>r. r\<lparr>r_last_validated := Some now\<rparr>)) cs rows)
      = map r_id rows" for cs rows
    by (rule fold_upd_map) (simp add: map_key_upd)
  show ?thesis
    unfolding update_last_validated_def
    by (rule keeps_modify) (simp add: db_ok_def ids row_keys_def flip: set_map list.set_map)
qed

lemma keeps_set_normalized: "keeps db_ok (set_normalized_predicate i n now)"
  unfolding set_normalized_predicate_def
  by (rule keeps_modify) (simp add: db_ok_def map_key_upd row_keys_upd)

lemma keeps_delete_memories: "keeps db_ok (delete_memories ids)"
  by (rule keepsI) (auto simp: delete_memories_run db_ok_def distinct_rows_del)

lemma keeps_insert_entity: "keeps db_ok (insert_entity e)"
  unfolding insert_entity_def
  by (intro keeps_intros keeps_insert_alias, rule keepsI) (auto simp: db_ok_def row_keys_def)

lemma keeps_add_alias: "keeps db_ok (add_entity_alias i a now)"
  unfolding add_entity_alias_def
  by (intro keeps_intros keeps_insert_alias keeps_modify) (simp add: db_ok_def map_key_upd row_keys_upd)

lemma keeps_set_metadata: "keeps db_ok (set_metadata k v)"
  unfolding set_metadata_def by (rule keeps_modify) (simp add: db_ok_def distinct_rows_put)

lemma keeps_insert_pending: "keeps db_ok (insert_pending_op op)"
  by (rule keepsI) (auto simp: insert_pending_op_def db_ok_def row_keys_def)

lemma keeps_mark: "keeps db_ok (mark_pending_op_qdrant_written i)"
  unfolding mark_pending_op_qdrant_written_def by (rule keeps_modify) (simp add: db_ok_def map_key_upd)

lemma keeps_clear_pending: "keeps db_ok (clear_pending_op i)"
  unfolding clear_pending_op_def by (rule keeps_modify) (simp add: db_ok_def distinct_rows_del)

lemma keeps_prune: "keeps db_ok (prune_completed_ops n age now)"
  by (rule keepsI) (simp add: prune_completed_ops_def db_ok_def Let_def distinct_map_filter)

lemma keeps_commit: "keeps db_ok (commit_memory_write m es ivs t completed)"
  unfolding commit_memory_write_def by (intro keeps_intros keeps_statements)

lemma keeps_complete: "keeps db_ok (complete_op op)"
  unfolding complete_op_def by (intro keeps_intros keeps_statements)

section \<open>Journal pruning, timelines, taxonomies\<close>

lemma prune_run:
  "prune_completed_ops n age now d =
     (Inr (length (completed_ops d) - length (completed_ops (snd (prune_completed_ops n age now d)))),
      snd (prune_completed_ops n age now d))"
  by (simp add: prune_completed_ops_def Let_def)

lemma filter_distinct_length_le:
  assumes "distinct (map key xs)"
  shows "length (filter (\<lambda>r. key r \<in> set ks) xs) \<le> length ks"
proof -
  have "length (filter (\<lambda>r. key r \<in> set ks) xs) = card (key ` set (filter (\<lambda>r. key r \<in> set ks) xs))"
    using distinct_card [of "map key (filter (\<lambda>r. key r \<in> set ks) xs)"] assms
    by (simp add: distinct_map_filter)
  also have "\<dots> \<le> card (set ks)" by (rule card_mono) auto
  also have "\<dots> \<le> length ks" by (rule card_length)
  finally show ?thesis .
qed

text \<open>
  Pruning the journal keeps at most the given number of completed operations, none older
  than the given age, never drops one that is young enough while it keeps an older one, and
  touches no other table; the count it returns is the number of rows removed.
\<close>

theorem prune_bounds:
  assumes "db_ok d" and "prune_completed_ops max_count max_age now d = (Inr removed, d')"
  shows "length (completed_ops d') \<le> max_count
    \<and> (\<forall>r\<in>set (completed_ops d'). r \<in> set (completed_ops d) \<and> now - max_age \<le> cr_completed_at r)
    \<and> (\<forall>r\<in>set (completed_ops d) - set (completed_ops d'). now - max_age \<le> cr_completed_at r \<longrightarrow>
          length (completed_ops d') = max_count \<and> (\<forall>k\<in>set (completed_ops d'). cr_completed_at r \<le> cr_completed_at k))
    \<and> removed + length (completed_ops d') = length (completed_ops d)
    \<and> d'\<lparr>completed_ops := completed_ops d\<rparr> = d"
proof -
  let ?recent = "filter (\<lambda>r. now - max_age \<le> cr_completed_at r) (completed_ops d)"
  let ?sorted = "sort_desc cr_completed_at ?recent"
  let ?top = "take max_count ?sorted"
  let ?kept = "filter (\<lambda>r. cr_op_id r \<in> set (map cr_op_id ?top)) ?recent"
  have keys: "distinct (map cr_op_id (completed_ops d))" using assms(1) by (simp add: db_ok_def)
  then have keysr: "distinct (map cr_op_id ?recent)" by (rule distinct_map_filter)
  have d': "completed_ops d' = ?kept" "d'\<lparr>completed_ops := completed_ops d\<rparr> = d"
      "removed = length (completed_ops d) - length ?kept"
    using assms(2) by (auto simp: prune_completed_ops_def Let_def)
  have topsub: "set ?top \<subseteq> set ?recent" using set_take_subset [of max_count ?sorted] by simp
  have kept_set: "set ?kept = set ?top"
  proof
    show "set ?kept \<subseteq> set ?top"
    proof
      fix r assume r: "r \<in> set ?kept"
      then obtain q where q: "q \<in> set ?top" "cr_op_id q = cr_op_id r" by auto
      with topsub have "q \<in> set ?recent" by blast
      with r q(2) keysr have "q = r" by (auto simp: distinct_map inj_on_def)
      with q show "r \<in> set ?top" by simp
    qed
    show "set ?top \<subseteq> set ?kept" using topsub by auto
  qed
  have len: "length ?kept = length ?top"
  proof -
    have "distinct ?recent" using keysr by (simp add: distinct_map)
    then have "distinct ?kept" by (rule distinct_filter)
    moreover have "distinct ?top"
      using keysr distinct_sort_desc [of cr_op_id cr_completed_at ?recent]
      by (auto simp: distinct_map intro!: distinct_take)
    ultimately have "distinct ?kept" "distinct ?top" .
    then show ?thesis using kept_set distinct_card by metis
  qed
  have le: "length ?kept \<le> max_count" using len by simp
  have dropped: "length ?kept = max_count \<and> (\<forall>k\<in>set ?kept. cr_completed_at r \<le> cr_completed_at k)"
    if r: "r \<in> set (completed_ops d)" "r \<notin> set ?kept" "now - max_age \<le> cr_completed_at r" for r
  proof -
    have "r \<in> set ?sorted" "r \<notin> set ?top" using r kept_set by auto
    then have drop: "r \<in> set (drop max_count ?sorted)"
      by (metis Un_iff append_take_drop_id set_append)
    then have "drop max_count ?sorted \<noteq> []" by auto
    then have "length ?top = max_count" by simp
    moreover have "\<forall>k\<in>set ?top. cr_completed_at r \<le> cr_completed_at k"
      using sorted_wrt_take_drop [OF sort_desc_sorted, of _ max_count cr_completed_at ?recent] drop by blast
    ultimately show ?thesis using len kept_set by auto
  qed
  have sublen: "length ?kept \<le> length (completed_ops d)"
    by (meson length_filter_le order_trans)
  show ?thesis
    using le dropped d' sublen by auto
qed

theorem prune_bounds_witness:
  "length (completed_ops (snd (prune_completed_ops 1 10 6 (empty_db\<lparr>completed_ops := [comp_row_of sample_completed]\<rparr>)))) \<le> 1"
proof -
  let ?d = "empty_db\<lparr>completed_ops := [comp_row_of sample_completed]\<rparr>"
  have "db_ok ?d" by (simp add: db_ok_def empty_db_def)
  from prune_bounds [OF this prune_run] show ?thesis by blast
qed

definition occurred_at :: "memory \<Rightarrow> time" where
  "occurred_at m = (case mem_t_valid m of None \<Rightarrow> mem_created_at m | Some t \<Rightarrow> t)"

definition in_timeline :: "string \<Rightarrow> string \<Rightarrow> bool \<Rightarrow> memory_type list option \<Rightarrow> db \<Rightarrow> mem_row \<Rightarrow> bool" where
  "in_timeline entity_id ns include_invalidated types d r \<longleftrightarrow>
     r \<in> set (memories d) \<and> (r_id r, entity_id) \<in> set (memory_entities d) \<and> r_namespace r = ns
     \<and> (include_invalidated \<or> r_t_invalid r = None)
     \<and> (case types of None \<Rightarrow> True | Some [] \<Rightarrow> True | Some ts \<Rightarrow> \<exists>t\<in>set ts. r_memory_type r = mt_as_str t)"

lemma occurred_at_row:
  "occurred_at (row_with_entities d r) = (case r_t_valid r of None \<Rightarrow> r_created_at r | Some t \<Rightarrow> t)"
  by (simp add: occurred_at_def row_with_entities_def row_to_memory_def split: option.splits)

lemma in_timeline_set:
  "{r. in_timeline entity_id ns inval types d r} =
   set (filter (\<lambda>r. (r_id r, entity_id) \<in> set (memory_entities d) \<and> r_namespace r = ns
        \<and> (inval \<or> r_t_invalid r = None)
        \<and> (map mt_as_str (case types of None \<Rightarrow> [] | Some ts \<Rightarrow> ts) = []
            \<or> r_memory_type r \<in> set (map mt_as_str (case types of None \<Rightarrow> [] | Some ts \<Rightarrow> ts)))) (memories d))"
proof (cases types)
  case None
  then show ?thesis by (auto simp: in_timeline_def)
next
  case (Some ts)
  then show ?thesis by (cases ts) (auto simp: in_timeline_def)
qed

text \<open>
  A timeline lists only memories of the requested namespace that are linked to the entity,
  live unless invalidated ones are asked for and of a requested type; it holds at most
  \<open>limit\<close> entries, newest first by \<open>t_valid\<close> or else \<open>created_at\<close>, and leaves out a matching
  memory only when the limit is reached and every listed one is at least as new.
\<close>

theorem timeline_ordered_and_complete:
  "let ms = timeline_by_entity entity_id ns limit inval types d in
     length ms \<le> limit
     \<and> (\<forall>m\<in>set ms. \<exists>r. in_timeline entity_id ns inval types d r \<and> m = row_with_entities d r)
     \<and> sorted_wrt (\<lambda>x y. occurred_at y \<le> occurred_at x) ms
     \<and> (\<forall>r. in_timeline entity_id ns inval types d r \<longrightarrow> row_with_entities d r \<in> set ms
          \<or> (length ms = limit \<and> (\<forall>m\<in>set ms. occurred_at (row_with_entities d r) \<le> occurred_at m)))"
proof -
  let ?occ = "\<lambda>r. case r_t_valid r of None \<Rightarrow> r_created_at r | Some t \<Rightarrow> t"
  obtain rows where rows: "set rows = {r. in_timeline entity_id ns inval types d r}"
    and eq: "timeline_by_entity entity_id ns limit inval types d =
       map (row_with_entities d) (take limit (sort_desc ?occ rows))"
    using in_timeline_set [of entity_id ns inval types d] unfolding timeline_by_entity_def Let_def by metis
  have sorted: "sorted_wrt (\<lambda>x y. ?occ y \<le> ?occ x) (sort_desc ?occ rows)" by (rule sort_desc_sorted)
  have "row_with_entities d r \<in> set (timeline_by_entity entity_id ns limit inval types d)
          \<or> (length (timeline_by_entity entity_id ns limit inval types d) = limit
             \<and> (\<forall>m\<in>set (timeline_by_entity entity_id ns limit inval types d). occurred_at (row_with_entities d r) \<le> occurred_at m))"
    if "in_timeline entity_id ns inval types d r" for r
  proof -
    have "r \<in> set (sort_desc ?occ rows)" using that rows by auto
    then consider "r \<in> set (take limit (sort_desc ?occ rows))" | "r \<in> set (drop limit (sort_desc ?occ rows))"
      by (metis Un_iff append_take_drop_id set_append)
    then show ?thesis
    proof cases
      case 1
      then show ?thesis by (simp add: eq)
    next
      case 2
      then have "drop limit (sort_desc ?occ rows) \<noteq> []" by auto
      with 2 sorted_wrt_take_drop [OF sorted, of _ limit r] show ?thesis
        by (auto simp: eq occurred_at_row)
    qed
  qed
  moreover have "\<forall>r\<in>set (take limit (sort_desc ?occ rows)). in_timeline entity_id ns inval types d r"
    using set_take_subset [of limit "sort_desc ?occ rows"] rows by auto
  moreover have "sorted_wrt (\<lambda>x y. occurred_at y \<le> occurred_at x) (timeline_by_entity entity_id ns limit inval types d)"
    unfolding eq sorted_wrt_map occurred_at_row by (rule sorted_wrt_take [OF sorted])
  ultimately show ?thesis unfolding Let_def by (auto simp: eq)
qed

definition linked_db :: db where
  "linked_db = empty_db\<lparr>memories := [memory_row sample_memory],
     entities := [\<lparr> er_id = ''e'', er_name = ''ann'', er_aliases_json = Some [], er_type = None,
       er_created_at = 0, er_updated_at = 0 \<rparr>], memory_entities := [(''m'', ''e'')]\<rparr>"

theorem timeline_ordered_and_complete_witness:
  "row_with_entities linked_db (memory_row sample_memory)
     \<in> set (timeline_by_entity ''e'' ''default'' 5 False None linked_db)"
proof -
  have "in_timeline ''e'' ''default'' False None linked_db (memory_row sample_memory)"
    by (simp add: in_timeline_def linked_db_def empty_db_def memory_row_def sample_memory_def)
  moreover have "length (timeline_by_entity ''e'' ''default'' 5 False None linked_db) \<le> 1"
    by (simp add: timeline_by_entity_def linked_db_def empty_db_def sort_desc_def)
  ultimately show ?thesis
    using timeline_ordered_and_complete [of "''e''" "''default''" 5 False None linked_db]
    by (auto simp: Let_def)
qed

end
