(* ===== verification/External.thy ===== *)
theory External
  imports SqliteLaws
begin

text \<open>
  Everything the core calls that is not code of the repository: the Qdrant client, the
  embedding and reranking models, the LRU cache, the string similarity, UUIDs, hashing and
  the clock. Each is a field of one record of functions; the definitions take the record as
  their argument, and what a property relies on is a named hypothesis about it.
\<close>

section \<open>What is sent to Qdrant\<close>

datatype condition =
    MatchKeyword string string
  | MatchAnyKeyword string "string list"
  | DatetimeGte string time
  | DatetimeLte string time

record qfilter =
  qf_must :: "condition list"
  qf_should :: "condition list"

datatype point_id = PtUuid string | PtNum nat

record point =
  pt_id :: string
  pt_dense :: "real list"
  pt_text :: "string option"
  pt_payload :: "(string \<times> json) list"

type_synonym hit = "point_id option \<times> real"

record hybrid_query =
  hq_dense :: "real list"
  hq_text :: string
  hq_prefetch_limit :: nat
  hq_filter :: "qfilter option"
  hq_limit :: nat

datatype field_type = Keyword | Datetime

text \<open>\<open>ci_vectors\<close> is \<open>None\<close> for a collection with a single unnamed vector.\<close>

record collection_info =
  ci_vectors :: "(string \<times> nat) list option"
  ci_indexed :: "string list"

section \<open>Cached values\<close>

record cached_results =
  cr_generation :: nat
  cr_results :: "recall_result list"

record cache_key_input =
  ki_embedding :: "real list"
  ki_types :: "string list option"
  ki_entities :: "string list option"
  ki_namespace :: string
  ki_limit :: nat
  ki_include_stale :: "bool option"
  ki_include_invalidated :: "bool option"
  ki_time_range_hash :: "64 word option"
  ki_as_of_nanos :: "int option"
  ki_explain :: bool

section \<open>The external functions\<close>

text \<open>
  \<open>'q\<close> is the state of the Qdrant server, \<open>'e\<close> and \<open>'r\<close> those of the two LRU caches.
  The clock and the UUID generator give the value of their n-th call; \<open>x_elapsed_ms\<close> is the
  monotonic duration a timed operation reads at that moment. \<open>x_days_before\<close> is chrono's
  subtraction of a number of days, \<open>None\<close> where it panics; the two orders are those in which
  hash maps yield their keys.
\<close>

record ('q, 'e, 'r) ext =
  x_now :: "nat \<Rightarrow> time"
  x_elapsed_ms :: "nat \<Rightarrow> nat"
  x_rfc3339 :: "time \<Rightarrow> string"
  x_days_before :: "int \<Rightarrow> time \<Rightarrow> time option"
  x_group_order :: "(string \<times> string) list \<Rightarrow> (string \<times> string) list"
  x_subject_order :: "string list \<Rightarrow> string list"
  x_uuid :: "nat \<Rightarrow> string"
  x_parse_uuid :: "string \<Rightarrow> string option"
  x_jaro_winkler :: "string \<Rightarrow> string \<Rightarrow> real"
  x_embed :: "string \<Rightarrow> string + real list"
  x_dimension :: nat
  x_rerank :: "string \<Rightarrow> string list \<Rightarrow> nat \<Rightarrow> string + (nat \<times> real) list"
  x_storage_bytes :: "db \<Rightarrow> nat"
  x_hash_query :: "string \<Rightarrow> 64 word"
  x_hash_range :: "time_range \<Rightarrow> 64 word"
  x_hash_key :: "cache_key_input \<Rightarrow> 64 word"
  x_emb_peek :: "64 word \<Rightarrow> 'e \<Rightarrow> real list option"
  x_emb_put :: "64 word \<Rightarrow> real list \<Rightarrow> 'e \<Rightarrow> 'e"
  x_res_peek :: "64 word \<Rightarrow> 'r \<Rightarrow> cached_results option"
  x_res_put :: "64 word \<Rightarrow> cached_results \<Rightarrow> 'r \<Rightarrow> 'r"
  x_collection_exists :: "string \<Rightarrow> ('q, string, bool) sm"
  x_create_collection :: "string \<Rightarrow> nat \<Rightarrow> ('q, string, unit) sm"
  x_collection_info :: "string \<Rightarrow> ('q, string, collection_info option) sm"
  x_create_field_index :: "string \<Rightarrow> string \<Rightarrow> field_type \<Rightarrow> ('q, string, unit) sm"
  x_upsert_points :: "string \<Rightarrow> point list \<Rightarrow> ('q, string, unit) sm"
  x_delete_points :: "string \<Rightarrow> string list \<Rightarrow> ('q, string, unit) sm"
  x_query_hybrid :: "string \<Rightarrow> hybrid_query \<Rightarrow> ('q, string, hit list) sm"
  x_query_dense :: "string \<Rightarrow> real list \<Rightarrow> nat \<Rightarrow> qfilter option \<Rightarrow> ('q, string, hit list) sm"
  x_scroll :: "string \<Rightarrow> qfilter \<Rightarrow> nat \<Rightarrow> point_id option \<Rightarrow> ('q, string, point_id option list \<times> point_id option) sm"
  x_delete_collection :: "string \<Rightarrow> ('q, string, unit) sm"

end
