(* ===== verification/Wire.thy ===== *)
theory Wire
  imports StoreTypes
begin

text \<open>
  What the server crate uses of \<open>serde_json\<close> and of Rust's number parsing: the parser and the
  printer of JSON values are parameters, with the round trip a property may rely on as a named
  hypothesis; the reading of members, numbers and shapes is modelled.
\<close>

section \<open>JSON text\<close>

record json_lib =
  j_parse :: "string \<Rightarrow> json option"
  j_print :: "json \<Rightarrow> string"
  j_error_text :: "string \<Rightarrow> string"
  j_drain :: "json list \<Rightarrow> json list"

definition newline :: string where "newline = [CHR 0x0A]"

text \<open>A value whose text parses back to it and carries no surrounding white space.\<close>

definition faithful :: "json_lib \<Rightarrow> json \<Rightarrow> bool" where
  "faithful x v \<longleftrightarrow> j_parse x (j_print x v) = Some v \<and> trim (j_print x v @ newline) = j_print x v"

definition encode_line :: "json_lib \<Rightarrow> json \<Rightarrow> string" where
  "encode_line x v = j_print x v @ newline"

text \<open>In a parsed object the last of several members of a name counts.\<close>

definition get_member :: "string \<Rightarrow> json \<Rightarrow> json option" where
  "get_member name v = (case v of JObj ms \<Rightarrow> map_of (rev ms) name | _ \<Rightarrow> None)"

text \<open>A derived \<open>Deserialize\<close> refuses a known member that occurs twice.\<close>

definition repeated :: "(string \<times> json) list \<Rightarrow> string \<Rightarrow> bool" where
  "repeated ms name \<longleftrightarrow> 1 < length (filter (\<lambda>m. fst m = name) ms)"

section \<open>Numbers\<close>

definition is_digit :: "char \<Rightarrow> bool" where
  "is_digit c \<longleftrightarrow> (let n = of_char c :: nat in 48 \<le> n \<and> n \<le> 57)"

definition digit_value :: "char \<Rightarrow> nat" where
  "digit_value c = of_char c - 48"

definition digits_value :: "string \<Rightarrow> nat" where
  "digits_value s = fold (\<lambda>c n. n * 10 + digit_value c) s 0"

text \<open>\<open>str::parse::<u64>\<close>: an optional plus sign, at least one digit, no overflow.\<close>

definition parse_u64 :: "string \<Rightarrow> nat option" where
  "parse_u64 s =
     (let ds = (case s of c # cs \<Rightarrow> if c = CHR ''+'' then cs else s | [] \<Rightarrow> [])
      in if ds = [] \<or> \<not> list_all is_digit ds \<or> 2 ^ 64 \<le> digits_value ds then None else Some (digits_value ds))"

text \<open>\<open>Value::as_u64\<close>: an integer in range.\<close>

definition as_u64 :: "json \<Rightarrow> nat option" where
  "as_u64 v = (case v of JNum s \<Rightarrow> if s \<noteq> [] \<and> list_all is_digit s \<and> digits_value s < 2 ^ 64
     then Some (digits_value s) else None | _ \<Rightarrow> None)"

definition as_string :: "json \<Rightarrow> string option" where
  "as_string v = (case v of JStr s \<Rightarrow> Some s | _ \<Rightarrow> None)"

lemma digits_value_append: "digits_value (s @ [c]) = digits_value s * 10 + digit_value c"
  by (simp add: digits_value_def)

lemma digit_char: "n < 10 \<Longrightarrow> is_digit (char_of (48 + n)) \<and> digit_value (char_of (48 + n)) = n"
  by (simp add: is_digit_def digit_value_def of_char_of)

lemma show_nat_digits: "show_nat n \<noteq> [] \<and> list_all is_digit (show_nat n) \<and> digits_value (show_nat n) = n"
proof (induction n rule: less_induct)
  case (less n)
  show ?case
  proof (cases "n < 10")
    case True
    then show ?thesis using digit_char [of n]
      by (simp add: show_nat.simps [of n] digits_value_def)
  next
    case False
    then have sm: "n div 10 < n" by simp
    from False less [OF sm] digit_char [of "n mod 10"] show ?thesis
      by (simp add: show_nat.simps [of n] digits_value_append)
  qed
qed

lemma as_u64_show: "n < 2 ^ 64 \<Longrightarrow> as_u64 (JNum (show_nat n)) = Some n"
  using show_nat_digits [of n] by (simp add: as_u64_def)

lemma parse_u64_show: "n < 2 ^ 64 \<Longrightarrow> parse_u64 (show_nat n) = Some n"
proof -
  assume n: "n < 2 ^ 64"
  obtain c cs where c: "show_nat n = c # cs" "is_digit c"
    using show_nat_digits [of n] by (cases "show_nat n") auto
  then have "c \<noteq> CHR ''+''" by (auto simp: is_digit_def)
  with c n show_nat_digits [of n] show ?thesis by (simp add: parse_u64_def)
qed

section \<open>Debug output of a string\<close>

definition hex_digit :: "nat \<Rightarrow> char" where
  "hex_digit n = (if n < 10 then char_of (48 + n) else char_of (87 + n))"

definition debug_char :: "char \<Rightarrow> string" where
  "debug_char c =
     (if c = CHR 0x22 then [CHR 0x5C, CHR 0x22]
      else if c = CHR 0x5C then [CHR 0x5C, CHR 0x5C]
      else if c = CHR 0x0A then [CHR 0x5C, CHR ''n'']
      else if c = CHR 0x0D then [CHR 0x5C, CHR ''r'']
      else if c = CHR 0x09 then [CHR 0x5C, CHR ''t'']
      else if c = CHR 0x00 then [CHR 0x5C, CHR ''0'']
      else let n = of_char c :: nat in
        if n < 32 \<or> n = 127
        then CHR 0x5C # ''u{'' @ (if n < 16 then [hex_digit n] else [hex_digit (n div 16), hex_digit (n mod 16)]) @ ''}''
        else [c])"

definition debug_string :: "string \<Rightarrow> string" where
  "debug_string s = CHR 0x22 # concat (map debug_char s) @ [CHR 0x22]"

end
