(* ===== verification/VectorStore.thy ===== *)
theory VectorStore
  imports External Wire
begin

text \<open>
  The Qdrant client wrapper (\<open>crates/store/src/vector.rs\<close>, \<open>collections.rs\<close>): namespace
  validation, the once-per-process collection check, upsert, search, delete and scroll. The
  state is the server's and the set of collections already checked.
\<close>

record 'q vstore =
  vs_q :: 'q
  vs_ensured :: "string list"

type_synonym ('q, 'a) vec_op = "('q vstore, store_error, 'a) sm"

definition DENSE_VECTOR :: string where "DENSE_VECTOR = ''dense''"
definition MIN_PREFETCH_LIMIT :: nat where "MIN_PREFETCH_LIMIT = 20"
definition SCROLL_PAGE_SIZE :: nat where "SCROLL_PAGE_SIZE = 1024"

definition INDEXED_FIELDS :: "(string \<times> field_type) list" where
  "INDEXED_FIELDS = [(''memory_type'', Keyword), (''namespace'', Keyword), (''entities'', Keyword),
     (''point_type'', Keyword), (''agent_id'', Keyword), (''created_at'', Datetime)]"

definition qcall :: "('q, string, 'a) sm \<Rightarrow> ('q, 'a) vec_op" where
  "qcall m = m_zoom vs_q (\<lambda>q v. v\<lparr>vs_q := q\<rparr>) QdrantErr m"

definition is_ascii_alphanumeric :: "char \<Rightarrow> bool" where
  "is_ascii_alphanumeric c \<longleftrightarrow> (let n = of_char c :: nat in
     (48 \<le> n \<and> n \<le> 57) \<or> (65 \<le> n \<and> n \<le> 90) \<or> (97 \<le> n \<and> n \<le> 122))"

definition validate_namespace :: "string \<Rightarrow> string + unit" where
  "validate_namespace ns =
     (if ns = [] \<or> \<not> (\<forall>c\<in>set ns. is_ascii_alphanumeric c \<or> c = CHR ''_'' \<or> c = CHR ''-'')
      then Inl (''invalid namespace: '' @ debug_string ns @ '' (only alphanumeric, underscore, hyphen allowed)'')
      else Inr ())"

definition collection_name :: "string \<Rightarrow> store_error + string" where
  "collection_name ns =
     (case validate_namespace ns of Inl e \<Rightarrow> Inl (QdrantErr e) | Inr _ \<Rightarrow> Inr (''ferrex_'' @ ns))"

section \<open>Collections\<close>

definition create_hybrid_collection :: "('q, 'e, 'r) ext \<Rightarrow> string \<Rightarrow> ('q, unit) vec_op" where
  "create_hybrid_collection x name = (\<lambda>v.
     case x_create_collection x name (x_dimension x) (vs_q v) of
       (Inr _, q) \<Rightarrow> (Inr (), v\<lparr>vs_q := q\<rparr>)
     | (Inl e, q) \<Rightarrow> (if find_sub ''already exists'' e then Inr () else Inl (QdrantErr e), v\<lparr>vs_q := q\<rparr>))"

definition validate_collection_schema :: "('q, 'e, 'r) ext \<Rightarrow> string \<Rightarrow> ('q, string list) vec_op" where
  "validate_collection_schema x name =
     m_bind (qcall (x_collection_info x name)) (\<lambda>info. m_of
       (case info of
          None \<Rightarrow> Inl (QdrantErr (''collection '' @ name @ '' returned no info''))
        | Some ci \<Rightarrow> (case ci_vectors ci of
            None \<Rightarrow> Inl (QdrantErr (''collection '' @ name @ '' uses an incompatible schema (single vector)''))
          | Some vs \<Rightarrow> (if map_of vs DENSE_VECTOR \<noteq> Some (x_dimension x)
              then Inl (QdrantErr (''collection '' @ name @ '' has another dense dimension''))
              else Inr (ci_indexed ci)))))"

definition create_or_validate :: "('q, 'e, 'r) ext \<Rightarrow> string \<Rightarrow> ('q, unit) vec_op" where
  "create_or_validate x name =
     m_bind (qcall (x_collection_exists x name)) (\<lambda>exists.
     m_then (if exists then m_ret () else create_hybrid_collection x name)
    (m_bind (validate_collection_schema x name) (\<lambda>indexed.
     m_fold (\<lambda>_ (field, ty). if field \<in> set indexed then m_ret ()
                else qcall (x_create_field_index x name field ty)) () INDEXED_FIELDS)))"

text \<open>The cell of a collection is initialised only when the check succeeds.\<close>

definition ensure_collection :: "('q, 'e, 'r) ext \<Rightarrow> string \<Rightarrow> ('q, unit) vec_op" where
  "ensure_collection x ns =
     m_bind (m_of (collection_name ns)) (\<lambda>name.
     m_bind (m_gets (\<lambda>v. name \<in> set (vs_ensured v))) (\<lambda>done.
     if done then m_ret ()
     else m_then (create_or_validate x name)
            (m_modify (\<lambda>v. v\<lparr>vs_ensured := vs_ensured v @ [name]\<rparr>))))"

definition forget_ensured :: "string \<Rightarrow> ('q, unit) vec_op" where
  "forget_ensured name = m_modify (\<lambda>v. v\<lparr>vs_ensured := removeAll name (vs_ensured v)\<rparr>)"

section \<open>Points\<close>

definition v_upsert ::
    "('q, 'e, 'r) ext \<Rightarrow> string \<Rightarrow> string \<Rightarrow> real list \<Rightarrow> string \<Rightarrow> (string \<times> json) list \<Rightarrow> ('q, unit) vec_op" where
  "v_upsert x ns i vector content_text payload =
     m_bind (m_of (collection_name ns)) (\<lambda>name.
       qcall (x_upsert_points x name
         [\<lparr> pt_id = i, pt_dense = vector, pt_text = Some content_text, pt_payload = payload \<rparr>]))"

definition upsert_batch_hybrid :: "('q, 'e, 'r) ext \<Rightarrow> string \<Rightarrow> point list \<Rightarrow> ('q, unit) vec_op" where
  "upsert_batch_hybrid x ns points =
     (if points = [] then m_ret ()
      else m_bind (m_of (collection_name ns)) (\<lambda>name. qcall (x_upsert_points x name points)))"

text \<open>A hit without an id is dropped, a numeric id is printed.\<close>

definition hit_of :: "hit \<Rightarrow> (string \<times> real) option" where
  "hit_of h = (case h of (None, _) \<Rightarrow> None
     | (Some (PtUuid s), score) \<Rightarrow> Some (s, score)
     | (Some (PtNum n), score) \<Rightarrow> Some (show_nat n, score))"

definition v_search ::
    "('q, 'e, 'r) ext \<Rightarrow> string \<Rightarrow> real list \<Rightarrow> string \<Rightarrow> nat \<Rightarrow> qfilter option \<Rightarrow> ('q, (string \<times> real) list) vec_op" where
  "v_search x ns vector query_text limit filt =
     m_bind (m_of (collection_name ns)) (\<lambda>name.
     m_bind (qcall (x_query_hybrid x name
         \<lparr> hq_dense = vector, hq_text = query_text, hq_prefetch_limit = max limit MIN_PREFETCH_LIMIT,
           hq_filter = filt, hq_limit = limit \<rparr>)) (\<lambda>hits.
     m_ret (List.map_filter hit_of hits)))"

definition v_search_dense ::
    "('q, 'e, 'r) ext \<Rightarrow> string \<Rightarrow> real list \<Rightarrow> nat \<Rightarrow> qfilter option \<Rightarrow> ('q, (string \<times> real) list) vec_op" where
  "v_search_dense x ns vector limit filt =
     m_bind (m_of (collection_name ns)) (\<lambda>name.
     m_bind (qcall (x_query_dense x name vector limit filt)) (\<lambda>hits.
     m_ret (List.map_filter hit_of hits)))"

definition v_delete :: "('q, 'e, 'r) ext \<Rightarrow> string \<Rightarrow> string \<Rightarrow> ('q, unit) vec_op" where
  "v_delete x ns i = m_bind (m_of (collection_name ns)) (\<lambda>name. qcall (x_delete_points x name [i]))"

definition v_delete_by_ids :: "('q, 'e, 'r) ext \<Rightarrow> string \<Rightarrow> string list \<Rightarrow> ('q, unit) vec_op" where
  "v_delete_by_ids x ns ids =
     (if ids = [] then m_ret ()
      else m_bind (m_of (collection_name ns)) (\<lambda>name. qcall (x_delete_points x name ids)))"

definition memories_only :: qfilter where
  "memories_only = \<lparr> qf_must = [MatchKeyword ''point_type'' ''memory''], qf_should = [] \<rparr>"

definition scrolled_id :: "('q, 'e, 'r) ext \<Rightarrow> point_id option \<Rightarrow> string option" where
  "scrolled_id x p = (case p of Some (PtUuid s) \<Rightarrow> x_parse_uuid x s | _ \<Rightarrow> None)"

text \<open>
  The scroll loop follows the server's page offsets until there is none; nothing on the
  client bounds the number of pages, so the loop has fuel and \<open>None\<close> is running out of it.
\<close>

fun scroll_loop :: "('q, 'e, 'r) ext \<Rightarrow> string \<Rightarrow> nat \<Rightarrow> point_id option \<Rightarrow> string list \<Rightarrow> ('q, string list option) vec_op" where
  "scroll_loop x name 0 offset ids = m_ret None"
| "scroll_loop x name (Suc fuel) offset ids =
     m_bind (qcall (x_scroll x name memories_only SCROLL_PAGE_SIZE offset)) (\<lambda>(points, next_offset).
       let ids' = ids @ List.map_filter (scrolled_id x) points in
       case next_offset of
         Some o' \<Rightarrow> scroll_loop x name fuel (Some o') ids'
       | None \<Rightarrow> m_ret (Some ids'))"

definition scroll_memory_ids :: "('q, 'e, 'r) ext \<Rightarrow> nat \<Rightarrow> string \<Rightarrow> ('q, string list option) vec_op" where
  "scroll_memory_ids x fuel ns =
     m_bind (m_of (collection_name ns)) (\<lambda>name. scroll_loop x name fuel None [])"

definition delete_collection :: "('q, 'e, 'r) ext \<Rightarrow> string \<Rightarrow> ('q, unit) vec_op" where
  "delete_collection x name = m_then (qcall (x_delete_collection x name)) (forget_ensured name)"

section \<open>Namespaces name their collections\<close>

lemma collection_name_Inr:
  "collection_name ns = Inr c \<longleftrightarrow> c = ''ferrex_'' @ ns \<and> ns \<noteq> [] \<and>
     (\<forall>a\<in>set ns. is_ascii_alphanumeric a \<or> a = CHR ''_'' \<or> a = CHR ''-'')"
  by (auto simp: collection_name_def validate_namespace_def)

text \<open>
  A namespace is an isolation boundary for vectors: two namespaces have the same Qdrant
  collection only if they are the same, every valid one has a collection, and a namespace
  with a character outside letters, digits, underscore and hyphen (or an empty one) is
  refused by every point operation before Qdrant is called.
\<close>

theorem collections_isolate_namespaces:
  "(collection_name a = Inr c \<and> collection_name b = Inr c \<longrightarrow> a = b)
   \<and> ((\<exists>c'. collection_name a = Inr c') \<longleftrightarrow>
        a \<noteq> [] \<and> (\<forall>ch\<in>set a. is_ascii_alphanumeric ch \<or> ch = CHR ''_'' \<or> ch = CHR ''-''))
   \<and> ((\<nexists>c'. collection_name a = Inr c') \<longrightarrow>
        (\<exists>e. ensure_collection x a v = (Inl e, v) \<and> v_upsert x a i vec text payload v = (Inl e, v)
           \<and> v_search x a vec text n f v = (Inl e, v) \<and> v_search_dense x a vec n f v = (Inl e, v)
           \<and> v_delete x a i v = (Inl e, v) \<and> scroll_memory_ids x fuel a v = (Inl e, v)))"
proof -
  have "\<exists>e. ensure_collection x a v = (Inl e, v) \<and> v_upsert x a i vec text payload v = (Inl e, v)
           \<and> v_search x a vec text n f v = (Inl e, v) \<and> v_search_dense x a vec n f v = (Inl e, v)
           \<and> v_delete x a i v = (Inl e, v) \<and> scroll_memory_ids x fuel a v = (Inl e, v)"
    if none: "\<nexists>c'. collection_name a = Inr c'"
  proof -
    obtain e where e: "collection_name a = Inl e" using none by (cases "collection_name a") auto
    show ?thesis
      by (simp add: e ensure_collection_def v_upsert_def v_search_def v_search_dense_def
          v_delete_def scroll_memory_ids_def m_bind_def)
  qed
  moreover have "(\<exists>c'. collection_name a = Inr c') \<longleftrightarrow>
        a \<noteq> [] \<and> (\<forall>ch\<in>set a. is_ascii_alphanumeric ch \<or> ch = CHR ''_'' \<or> ch = CHR ''-'')"
    by (simp add: collection_name_Inr)
  moreover have "collection_name a = Inr c \<and> collection_name b = Inr c \<longrightarrow> a = b"
    by (auto simp: collection_name_Inr)
  ultimately show ?thesis by blast
qed

theorem collections_isolate_namespaces_witness:
  "collection_name ''default'' = Inr ''ferrex_default'' \<and> collection_name ''a b'' \<noteq> Inr ''ferrex_a b''"
proof -
  have v: "collection_name ''default'' = Inr ''ferrex_default''"
    by (simp add: collection_name_Inr is_ascii_alphanumeric_def)
  have "\<not> (\<exists>c'. collection_name ''a b'' = Inr c')"
  proof -
    have "(\<exists>c'. collection_name ''a b'' = Inr c') \<longleftrightarrow>
        ''a b'' \<noteq> [] \<and> (\<forall>ch\<in>set ''a b''. is_ascii_alphanumeric ch \<or> ch = CHR ''_'' \<or> ch = CHR ''-'')"
      using collections_isolate_namespaces by blast
    then show ?thesis by (simp add: is_ascii_alphanumeric_def)
  qed
  with v show ?thesis by blast
qed

end
