(* ===== verification/Predicates.thy ===== *)
theory Predicates
  imports CoreTypes
begin

text \<open>
  Predicate normalisation (\<open>crates/core/src/predicate.rs\<close>), entity-name normalisation
  (\<open>normalize\<close> of \<open>crates/core/src/entity.rs\<close>, the same text function) and the merge of namespace
  groups (\<open>resolve_namespace_groups\<close> of \<open>config.rs\<close>). The Jaro-Winkler similarity is a
  parameter \<open>jw\<close>.
\<close>

definition FUZZY_THRESHOLD :: real where "FUZZY_THRESHOLD = 0.85"

record normalizer =
  pn_synonyms :: "(string \<times> string) list"
  pn_lookup :: "string \<rightharpoonup> string"

definition replace_separators :: "string \<Rightarrow> string" where
  "replace_separators s = map (\<lambda>c. if c \<in> {CHR ''-'', CHR ''_'', CHR ''/''} then CHR '' '' else c) s"

definition text_normalize :: "string \<Rightarrow> string" where
  "text_normalize s = join '' '' (split_whitespace (replace_separators (to_lowercase (trim s))))"

definition normalize_name :: "string \<Rightarrow> string" where
  "normalize_name s = join '' '' (split_whitespace (replace_separators (to_lowercase (trim s))))"

text \<open>One normalised member of a group: kept unless an earlier group has it.\<close>

definition add_member :: "string \<Rightarrow> string \<Rightarrow> normalizer \<Rightarrow> normalizer" where
  "add_member canonical nm p =
     (if pn_lookup p nm \<noteq> None then p
      else p\<lparr>pn_lookup := (pn_lookup p)(nm \<mapsto> canonical), pn_synonyms := pn_synonyms p @ [(nm, canonical)]\<rparr>)"

definition add_group :: "string \<times> string list \<Rightarrow> normalizer \<Rightarrow> normalizer" where
  "add_group g p = fold (add_member (fst g)) (map text_normalize (fst g # snd g)) p"

definition normalizer_new :: "groups \<Rightarrow> normalizer" where
  "normalizer_new gs = fold add_group (sort_key fst gs) \<lparr> pn_synonyms = [], pn_lookup = Map.empty \<rparr>"

fun best_synonym :: "(string \<Rightarrow> string \<Rightarrow> real) \<Rightarrow> string \<Rightarrow> (string \<times> string) list \<Rightarrow> (string \<times> real) option \<Rightarrow> (string \<times> real) option" where
  "best_synonym jw text [] best = best"
| "best_synonym jw text ((member, canonical) # es) best =
     (let score = jw text member in
      if FUZZY_THRESHOLD < score \<and> (case best of None \<Rightarrow> True | Some (_, s) \<Rightarrow> s < score)
      then best_synonym jw text es (Some (canonical, score))
      else best_synonym jw text es best)"

definition normalize_predicate :: "(string \<Rightarrow> string \<Rightarrow> real) \<Rightarrow> normalizer \<Rightarrow> string \<Rightarrow> string" where
  "normalize_predicate jw p input =
     (let text = text_normalize input in
      if text = [] then text
      else case pn_lookup p text of
        Some canonical \<Rightarrow> canonical
      | None \<Rightarrow> (case best_synonym jw text (pn_synonyms p) None of
          Some (canonical, _) \<Rightarrow> canonical
        | None \<Rightarrow> text))"

definition resolve_namespace_groups :: "predicates_config \<Rightarrow> string \<Rightarrow> groups" where
  "resolve_namespace_groups cfg ns =
     (case map_of (pc_namespaces cfg) ns of
        None \<Rightarrow> pc_groups cfg
      | Some gs \<Rightarrow> fold (\<lambda>(key, members) merged.
          let others = filter (\<lambda>g. fst g \<noteq> key) merged
          in if members = [] then others else others @ [(key, members)]) gs (pc_groups cfg))"

section \<open>Text normalisation is idempotent\<close>

definition stable_char :: "char \<Rightarrow> bool" where
  "stable_char c \<longleftrightarrow> lower_char c = c \<and> c \<notin> {CHR ''-'', CHR ''_'', CHR ''/''}"

lemma lower_char_not_ws: "is_ws (lower_char c) \<longleftrightarrow> is_ws c"
proof -
  have "of_char (char_of (n + 32) :: char) = n + 32" if "65 \<le> n" "n \<le> 90" for n :: nat
    using that by (simp add: of_char_of)
  then show ?thesis by (auto simp: lower_char_def is_ws_def Let_def)
qed

lemma replaced_lower_stable: "c \<in> set (replace_separators (to_lowercase s)) \<Longrightarrow> stable_char c"
proof -
  have "lower_char (CHR '' '') = CHR '' ''" by (simp add: lower_char_def)
  then show "c \<in> set (replace_separators (to_lowercase s)) \<Longrightarrow> stable_char c"
    by (auto simp: replace_separators_def to_lowercase_def stable_char_def)
qed

lemma stable_fixed: "\<forall>c\<in>set s. stable_char c \<Longrightarrow> replace_separators (to_lowercase s) = s"
  unfolding replace_separators_def to_lowercase_def stable_char_def by (induction s) auto

lemma set_join: "set (join sep ws) \<subseteq> set sep \<union> (\<Union>w\<in>set ws. set w)"
  by (induction sep ws rule: join.induct) auto

lemma text_normalize_stable: "\<forall>c\<in>set (text_normalize s). stable_char c"
proof -
  let ?t = "replace_separators (to_lowercase (trim s))"
  have "set (text_normalize s) \<subseteq> {CHR '' ''} \<union> set ?t"
    unfolding text_normalize_def
    using set_join [of "'' ''" "split_whitespace ?t"] split_whitespace_chars by fastforce
  moreover have "stable_char (CHR '' '')" by (simp add: stable_char_def lower_char_def)
  ultimately show ?thesis using replaced_lower_stable by blast
qed

lemma text_normalize_idem [simp]: "text_normalize (text_normalize s) = text_normalize s"
proof -
  let ?ws = "split_whitespace (replace_separators (to_lowercase (trim s)))"
  have words: "\<forall>w\<in>set ?ws. word_chars w" using split_whitespace_words by blast
  have "\<forall>c\<in>set (trim (text_normalize s)). stable_char c"
    using text_normalize_stable set_trim_subset by blast
  then have "text_normalize (text_normalize s) = join '' '' (split_whitespace (trim (text_normalize s)))"
    by (simp add: text_normalize_def stable_fixed)
  also have "\<dots> = join '' '' (split_whitespace (join '' '' ?ws))"
    by (simp add: split_whitespace_trim text_normalize_def)
  also have "\<dots> = text_normalize s"
    by (simp only: split_whitespace_join [OF words] text_normalize_def)
  finally show ?thesis .
qed

lemma normalize_name_eq: "normalize_name s = text_normalize s"
  by (simp add: normalize_name_def text_normalize_def)

section \<open>The lookup table\<close>

lemma add_members_lookup:
  "pn_lookup (fold (add_member c) nms p) k =
     (case pn_lookup p k of Some v \<Rightarrow> Some v | None \<Rightarrow> if k \<in> set nms then Some c else None)"
  by (induction nms arbitrary: p) (auto simp: add_member_def split: option.splits)

lemma add_members_synonyms:
  "set (pn_synonyms p) = {(nm, c). pn_lookup p nm = Some c} \<Longrightarrow>
   set (pn_synonyms (fold (add_member c) nms p)) = {(nm, c'). pn_lookup (fold (add_member c) nms p) nm = Some c'}"
proof (induction nms arbitrary: p)
  case Nil
  then show ?case by simp
next
  case (Cons nm nms)
  have "set (pn_synonyms (add_member c nm p)) = {(nm', c'). pn_lookup (add_member c nm p) nm' = Some c'}"
    using Cons.prems by (auto simp: add_member_def split: if_splits)
  then show ?case using Cons.IH by simp
qed

definition group_has :: "string \<Rightarrow> string \<times> string list \<Rightarrow> bool" where
  "group_has nm g \<longleftrightarrow> nm \<in> set (map text_normalize (fst g # snd g))"

lemma add_groups_lookup:
  "pn_lookup (fold add_group gs p) k =
     (case pn_lookup p k of Some v \<Rightarrow> Some v | None \<Rightarrow> map_option fst (find (group_has k) gs))"
proof (induction gs arbitrary: p)
  case Nil
  then show ?case by (simp split: option.splits)
next
  case (Cons g gs)
  have "pn_lookup (add_group g p) k =
      (case pn_lookup p k of Some v \<Rightarrow> Some v | None \<Rightarrow> if group_has k g then Some (fst g) else None)"
    unfolding add_group_def group_has_def by (rule add_members_lookup)
  then show ?case by (simp add: Cons.IH split: option.splits)
qed

lemma add_groups_synonyms:
  "set (pn_synonyms p) = {(nm, c). pn_lookup p nm = Some c} \<Longrightarrow>
   set (pn_synonyms (fold add_group gs p)) = {(nm, c). pn_lookup (fold add_group gs p) nm = Some c}"
proof (induction gs arbitrary: p)
  case Nil
  then show ?case by simp
next
  case (Cons g gs)
  have "set (pn_synonyms (add_group g p)) = {(nm, c). pn_lookup (add_group g p) nm = Some c}"
    unfolding add_group_def by (rule add_members_synonyms [OF Cons.prems])
  then show ?case using Cons.IH by simp
qed

lemma normalizer_lookup: "pn_lookup (normalizer_new gs) k = map_option fst (find (group_has k) (sort_key fst gs))"
  by (simp add: normalizer_new_def add_groups_lookup)

lemma normalizer_synonyms:
  "set (pn_synonyms (normalizer_new gs)) = {(nm, c). pn_lookup (normalizer_new gs) nm = Some c}"
  unfolding normalizer_new_def by (rule add_groups_synonyms) simp

lemma best_synonym_mem:
  "best_synonym jw text es best = Some (c, s) \<Longrightarrow>
     best = Some (c, s) \<or> (\<exists>nm. (nm, c) \<in> set es \<and> s = jw text nm \<and> FUZZY_THRESHOLD < s)"
  by (induction jw "text" es best rule: best_synonym.induct) (fastforce simp: Let_def split: if_splits option.splits)+

lemma best_synonym_max:
  "(nm, c) \<in> set es \<Longrightarrow> FUZZY_THRESHOLD < jw text nm \<Longrightarrow>
     \<exists>c' s. best_synonym jw text es best = Some (c', s) \<and> jw text nm \<le> s"
proof (induction jw "text" es best rule: best_synonym.induct)
  case (1 jw t best)
  then show ?case by simp
next
  case (2 jw t member canonical es best)
  have keep: "\<exists>c' s'. best_synonym jw t es (Some (b, s)) = Some (c', s') \<and> s \<le> s'" for b s
  proof (induction es arbitrary: b s)
    case Nil
    then show ?case by simp
  next
    case (Cons e es)
    obtain m k where e: "e = (m, k)" by (cases e)
    show ?case
      using Cons.IH [of k "jw t m"] Cons.IH [of b s] by (auto simp: e Let_def)
  qed
  show ?case
    using 2 keep by (fastforce simp: Let_def split: option.splits prod.splits if_splits)
qed

text \<open>The configuration is unambiguous when no normalised member is in two groups.\<close>

definition unambiguous :: "groups \<Rightarrow> bool" where
  "unambiguous gs \<longleftrightarrow> (\<forall>g\<in>set gs. \<forall>h\<in>set gs. \<forall>nm. group_has nm g \<longrightarrow> group_has nm h \<longrightarrow> fst g = fst h)"

lemma unambiguous_lookup:
  assumes "unambiguous gs" and "g \<in> set gs" and "group_has k g"
  shows "pn_lookup (normalizer_new gs) k = Some (fst g)"
proof -
  have "find (group_has k) (sort_key fst gs) \<noteq> None"
    using assms(2,3) by (metis find_None_iff set_sort)
  then obtain h where h: "find (group_has k) (sort_key fst gs) = Some h" by auto
  then have "h \<in> set gs" "group_has k h"
    by (auto simp: find_Some_iff) (metis nth_mem set_sort length_sort)+
  then have "fst h = fst g" using assms unfolding unambiguous_def by blast
  with h show ?thesis by (simp add: normalizer_lookup)
qed

text \<open>
  The lookup table of a normalizer maps a normalised text to the first group, in the byte
  order of the group names, that has it among its name and members, and to nothing if no
  group has it; the fuzzy candidates are exactly the entries of that table.
\<close>

theorem normalizer_first_group:
  "pn_lookup (normalizer_new gs) k = map_option fst (find (group_has k) (sort_key fst gs))
   \<and> set (pn_synonyms (normalizer_new gs)) = {(nm, c). pn_lookup (normalizer_new gs) nm = Some c}
   \<and> (pn_lookup (normalizer_new gs) k = None \<longleftrightarrow> (\<forall>g\<in>set gs. \<not> group_has k g))"
  using normalizer_lookup normalizer_synonyms by (auto simp: find_None_iff)

theorem normalizer_first_group_witness:
  "pn_lookup (normalizer_new [(''depends_on'', [''uses''])]) ''uses'' = Some ''depends_on''"
proof -
  have "text_normalize ''uses'' = ''uses''" by code_simp
  then show ?thesis
    using normalizer_first_group [of "[(''depends_on'', [''uses''])]" "''uses''"] by (simp add: group_has_def)
qed

text \<open>
  Normalising a predicate never invents a name: the result is a canonical group name, when
  the text is a member of the group or its best fuzzy match above 0.85, or else the
  normalised text itself; no candidate scores higher than the match that is used.
\<close>

theorem normalize_predicate_result:
  assumes "text_normalize input \<noteq> []"
  shows "(case pn_lookup (normalizer_new gs) (text_normalize input) of
            Some c \<Rightarrow> normalize_predicate jw (normalizer_new gs) input = c \<and> c \<in> fst ` set gs
          | None \<Rightarrow>
             (\<exists>nm c. pn_lookup (normalizer_new gs) nm = Some c \<and> FUZZY_THRESHOLD < jw (text_normalize input) nm
                \<and> (\<forall>nm'. pn_lookup (normalizer_new gs) nm' \<noteq> None \<longrightarrow>
                     jw (text_normalize input) nm' \<le> jw (text_normalize input) nm)
                \<and> normalize_predicate jw (normalizer_new gs) input = c)
             \<or> ((\<forall>nm. pn_lookup (normalizer_new gs) nm \<noteq> None \<longrightarrow> jw (text_normalize input) nm \<le> FUZZY_THRESHOLD)
                \<and> normalize_predicate jw (normalizer_new gs) input = text_normalize input))"
proof (cases "pn_lookup (normalizer_new gs) (text_normalize input)")
  case (Some c)
  then obtain g where "find (group_has (text_normalize input)) (sort_key fst gs) = Some g" "c = fst g"
    by (auto simp: normalizer_lookup)
  then have "g \<in> set gs" by (metis find_Some_iff nth_mem set_sort)
  with Some \<open>c = fst g\<close> assms show ?thesis by (simp add: normalize_predicate_def Let_def)
next
  case None
  let ?t = "text_normalize input" and ?p = "normalizer_new gs"
  have syn: "(nm, c) \<in> set (pn_synonyms ?p) \<longleftrightarrow> pn_lookup ?p nm = Some c" for nm c
    by (simp add: normalizer_synonyms)
  show ?thesis
  proof (cases "best_synonym jw ?t (pn_synonyms ?p) None")
    case best: (Some cs)
    obtain c s where cs: "cs = (c, s)" by (cases cs)
    obtain nm where nm: "pn_lookup ?p nm = Some c" "s = jw ?t nm" "FUZZY_THRESHOLD < jw ?t nm"
      using best_synonym_mem [OF best [unfolded cs]] syn by auto
    have "jw ?t nm' \<le> jw ?t nm" if "pn_lookup ?p nm' \<noteq> None" for nm'
    proof (cases "FUZZY_THRESHOLD < jw ?t nm'")
      case True
      obtain c' where "(nm', c') \<in> set (pn_synonyms ?p)" using \<open>pn_lookup ?p nm' \<noteq> None\<close> syn by auto
      from best_synonym_max [of nm' c' "pn_synonyms ?p" jw ?t None] this True best cs nm show ?thesis by auto
    qed (use nm in simp)
    with nm best cs assms None show ?thesis
      by (auto simp: normalize_predicate_def Let_def)
  next
    case best: None
    have "jw ?t nm \<le> FUZZY_THRESHOLD" if "pn_lookup ?p nm \<noteq> None" for nm
    proof (rule ccontr)
      assume "\<not> jw ?t nm \<le> FUZZY_THRESHOLD"
      moreover obtain c' where "(nm, c') \<in> set (pn_synonyms ?p)" using \<open>pn_lookup ?p nm \<noteq> None\<close> syn by auto
      ultimately show False using best_synonym_max [of nm c' "pn_synonyms ?p" jw ?t None] best by auto
    qed
    with best assms None show ?thesis by (simp add: normalize_predicate_def Let_def)
  qed
qed

theorem normalize_predicate_result_witness:
  "normalize_predicate (\<lambda>a b. 0) (normalizer_new [(''depends_on'', [''uses''])]) ''Uses'' = ''depends_on''"
proof -
  have t: "text_normalize ''Uses'' = ''uses''" "text_normalize ''uses'' = ''uses''"
      "text_normalize ''depends_on'' = ''depends on''"
    by code_simp+
  have "pn_lookup (normalizer_new [(''depends_on'', [''uses''])]) (text_normalize ''Uses'') = Some ''depends_on''"
    by (simp add: normalizer_lookup group_has_def t)
  with normalize_predicate_result [of "''Uses''" "[(''depends_on'', [''uses''])]" "\<lambda>a b. 0"] show ?thesis
    by (simp add: t(1))
qed

text \<open>
  With an unambiguous configuration whose group names are not blank, normalising is
  idempotent: a normalised predicate normalises to itself, so a fact stored with the
  canonical name meets one stored with a synonym.
\<close>

theorem normalize_predicate_idempotent:
  assumes "unambiguous gs" and "\<forall>g\<in>set gs. text_normalize (fst g) \<noteq> []"
  shows "normalize_predicate jw (normalizer_new gs) (normalize_predicate jw (normalizer_new gs) input)
       = normalize_predicate jw (normalizer_new gs) input"
proof -
  let ?p = "normalizer_new gs"
  have canon: "normalize_predicate jw ?p c = c" if c: "pn_lookup ?p nm = Some c" for nm c
  proof -
    obtain g where g: "find (group_has nm) (sort_key fst gs) = Some g" "c = fst g"
      using c by (auto simp: normalizer_lookup)
    then have mem: "g \<in> set gs" by (metis find_Some_iff nth_mem set_sort)
    have "group_has (text_normalize (fst g)) g" by (simp add: group_has_def)
    from unambiguous_lookup [OF assms(1) mem this] assms(2) mem g show ?thesis
      by (simp add: normalize_predicate_def Let_def)
  qed
  show ?thesis
  proof (cases "text_normalize input = []")
    case True
    then show ?thesis by (simp add: normalize_predicate_def text_normalize_def [of "[]"] trim_def trim_start_def
          to_lowercase_def replace_separators_def)
  next
    case False
    show ?thesis
    proof (cases "pn_lookup ?p (text_normalize input)")
      case (Some c)
      then have "normalize_predicate jw ?p input = c" using False by (simp add: normalize_predicate_def Let_def)
      with canon [OF Some] show ?thesis by simp
    next
      case None
      show ?thesis
      proof (cases "best_synonym jw (text_normalize input) (pn_synonyms ?p) None")
        case best: (Some cs)
        obtain c s where cs: "cs = (c, s)" by (cases cs)
        obtain nm where "pn_lookup ?p nm = Some c"
          using best_synonym_mem [OF best [unfolded cs]] by (auto simp: normalizer_synonyms)
        moreover have "normalize_predicate jw ?p input = c"
          using False None best cs by (simp add: normalize_predicate_def Let_def)
        ultimately show ?thesis using canon by simp
      next
        case best: None
        then have "normalize_predicate jw ?p input = text_normalize input"
          using False None by (simp add: normalize_predicate_def Let_def)
        with False None best show ?thesis by (simp add: normalize_predicate_def Let_def)
      qed
    qed
  qed
qed

theorem normalize_predicate_idempotent_witness:
  "normalize_predicate (\<lambda>a b. 0) (normalizer_new [(''is_a'', [''kind-of''])])
     (normalize_predicate (\<lambda>a b. 0) (normalizer_new [(''is_a'', [''kind-of''])]) ''kind of'')
   = normalize_predicate (\<lambda>a b. 0) (normalizer_new [(''is_a'', [''kind-of''])]) ''kind of''"
proof (rule normalize_predicate_idempotent)
  show "unambiguous [(''is_a'', [''kind-of''])]" by (simp add: unambiguous_def)
  have "text_normalize ''is_a'' \<noteq> []" by code_simp
  then show "\<forall>g\<in>set [(''is_a'', [''kind-of''])]. text_normalize (fst g) \<noteq> []" by simp
qed

text \<open>
  A namespace's groups override the global ones by name: its non-empty groups replace or
  extend, an empty one removes, and every other global group passes through unchanged.
\<close>

theorem namespace_groups_override:
  assumes "map_of (pc_namespaces cfg) ns = Some gs" and "distinct (map fst gs)"
    and "distinct (map fst (pc_groups cfg))"
  shows "map_of (resolve_namespace_groups cfg ns) key =
     (case map_of gs key of Some [] \<Rightarrow> None | Some ms \<Rightarrow> Some ms | None \<Rightarrow> map_of (pc_groups cfg) key)
   \<and> distinct (map fst (resolve_namespace_groups cfg ns))"
proof -
  let ?step = "\<lambda>(k, members) merged.
      let others = filter (\<lambda>g. fst g \<noteq> k) merged in if members = [] then others else others @ [(k, members)]"
  have others: "map_of (filter (\<lambda>g. fst g \<noteq> k) m) j = (if j = k then None else map_of m j)"
    for k j and m :: "(string \<times> string list) list"
    by (induction m) auto
  have step: "map_of (?step (k, ms) m) j = (if j = k then (if ms = [] then None else Some ms) else map_of m j)
      \<and> (distinct (map fst m) \<longrightarrow> distinct (map fst (?step (k, ms) m)))" for k ms j and m :: groups
    using others [of k m] by (auto simp: Let_def map_add_def distinct_map_filter split: option.splits)
  have "map_of (fold ?step gs m) key =
     (case map_of gs key of Some [] \<Rightarrow> None | Some ms \<Rightarrow> Some ms | None \<Rightarrow> map_of m key)
   \<and> (distinct (map fst m) \<longrightarrow> distinct (map fst (fold ?step gs m)))" for m
    using assms(2)
  proof (induction gs arbitrary: m)
    case Nil
    then show ?case by simp
  next
    case (Cons g gs)
    obtain k ms where g: "g = (k, ms)" by (cases g)
    have "map_of gs k = None" using Cons.prems g by (auto simp: map_of_eq_None_iff)
    with Cons.IH [of "?step (k, ms) m"] Cons.prems step [of k ms m key] show ?case
      by (auto simp: g split: list.splits option.splits)
  qed
  then show ?thesis using assms(1,3) by (simp add: resolve_namespace_groups_def)
qed

theorem namespace_groups_override_witness:
  "map_of (resolve_namespace_groups \<lparr> pc_groups = [(''runs_on'', [''hosted-on''])],
      pc_namespaces = [(''legal'', [(''runs_on'', []), (''cites'', [''quotes''])])] \<rparr> ''legal'') ''runs_on'' = None"
  using namespace_groups_override [of "\<lparr> pc_groups = [(''runs_on'', [''hosted-on''])],
      pc_namespaces = [(''legal'', [(''runs_on'', []), (''cites'', [''quotes''])])] \<rparr>" "''legal''"
      "[(''runs_on'', []), (''cites'', [''quotes''])]" "''runs_on''"]
  by simp

end
