(* ===== verification/Demo.thy ===== *)
theory Demo
  imports External
begin

text \<open>
  A small concrete instance of the external functions, for the witnesses only: Qdrant as an
  association list of collections, unbounded caches, a clock and a UUID generator that count,
  a text embedding of one component and an exact-match string similarity. No definition of
  the model refers to it.
\<close>

type_synonym demo_q = "(string \<times> point list) list"

definition demo_points :: "string \<Rightarrow> demo_q \<Rightarrow> point list" where
  "demo_points name q = (case map_of q name of None \<Rightarrow> [] | Some ps \<Rightarrow> ps)"

definition demo_set :: "string \<Rightarrow> point list \<Rightarrow> demo_q \<Rightarrow> demo_q" where
  "demo_set name ps q = (name, ps) # filter (\<lambda>(n, _). n \<noteq> name) q"

definition demo_hits :: "string \<Rightarrow> nat \<Rightarrow> demo_q \<Rightarrow> hit list" where
  "demo_hits name n q = map (\<lambda>p. (Some (PtUuid (pt_id p)), 1 / 2)) (take n (demo_points name q))"

definition demo_ext :: "(demo_q, 64 word \<Rightarrow> real list option, 64 word \<Rightarrow> cached_results option) ext" where
  "demo_ext = \<lparr>
     x_now = (\<lambda>n. int n), x_elapsed_ms = (\<lambda>_. 0), x_rfc3339 = show_int,
     x_days_before = (\<lambda>d t. if 100000000 < \<bar>d\<bar> then None else Some (t - duration_days d)),
     x_group_order = id, x_subject_order = id,
     x_uuid = (\<lambda>n. CHR ''u'' # show_nat n), x_parse_uuid = Some,
     x_jaro_winkler = (\<lambda>a b. if a = b then 1 else 0),
     x_embed = (\<lambda>s. Inr [real (length s)]), x_dimension = 1,
     x_rerank = (\<lambda>_ docs k. Inr (map (\<lambda>i. (i, 1)) [0..<min k (length docs)])),
     x_storage_bytes = (\<lambda>_. 4096),
     x_hash_query = (\<lambda>s. of_nat (length s)), x_hash_range = (\<lambda>_. 0), x_hash_key = (\<lambda>_. 0),
     x_emb_peek = (\<lambda>k l. l k), x_emb_put = (\<lambda>k v l. l(k \<mapsto> v)),
     x_res_peek = (\<lambda>k l. l k), x_res_put = (\<lambda>k v l. l(k \<mapsto> v)),
     x_collection_exists = (\<lambda>name. m_gets (\<lambda>q. map_of q name \<noteq> None)),
     x_create_collection = (\<lambda>name _. m_modify (\<lambda>q. (name, []) # q)),
     x_collection_info = (\<lambda>_. m_ret (Some \<lparr> ci_vectors = Some [(''dense'', 1)], ci_indexed = [] \<rparr>)),
     x_create_field_index = (\<lambda>_ _ _. m_ret ()),
     x_upsert_points = (\<lambda>name ps. m_modify (\<lambda>q. demo_set name
        (filter (\<lambda>p. pt_id p \<notin> pt_id ` set ps) (demo_points name q) @ ps) q)),
     x_delete_points = (\<lambda>name ids. m_modify (\<lambda>q. demo_set name
        (filter (\<lambda>p. pt_id p \<notin> set ids) (demo_points name q)) q)),
     x_query_hybrid = (\<lambda>name h. m_gets (demo_hits name (hq_limit h))),
     x_query_dense = (\<lambda>name _ n _. m_gets (demo_hits name n)),
     x_scroll = (\<lambda>name _ _ _. m_gets (\<lambda>q. (map (\<lambda>p. Some (PtUuid (pt_id p))) (demo_points name q), None))),
     x_delete_collection = (\<lambda>name. m_modify (filter (\<lambda>(n, _). n \<noteq> name))) \<rparr>"

end
