(* ===== verification/Buffers.thy ===== *)
theory Buffers
  imports External Demo
begin

text \<open>
  The in-memory components of the service: the recall cache with its per-namespace
  generations (\<open>crates/core/src/cache.rs\<close>), the access tracker (\<open>access_tracker.rs\<close>) and the ring
  of recent operations (\<open>ops_buffer.rs\<close>). A method that takes one lock is one step. A lookup of
  cached results takes two, one after the other: it reads the generation and then the entry, and
  other tasks may run in between; \<open>get_results\<close> is the lookup nobody interrupts.
\<close>

section \<open>The recall cache\<close>

record ('e, 'r) recall_cache =
  rc_embeddings :: 'e
  rc_results :: 'r
  rc_generations :: "string \<rightharpoonup> nat"
  rc_embedding_hits :: nat
  rc_embedding_misses :: nat
  rc_result_hits :: nat
  rc_result_misses :: nat

definition cache_new :: "'e \<Rightarrow> 'r \<Rightarrow> cache_config \<Rightarrow> ('e, 'r) recall_cache option" where
  "cache_new e r cfg =
     (if embedding_capacity cfg = 0 \<or> result_capacity cfg = 0 then None
      else Some \<lparr> rc_embeddings = e, rc_results = r, rc_generations = Map.empty,
             rc_embedding_hits = 0, rc_embedding_misses = 0, rc_result_hits = 0, rc_result_misses = 0 \<rparr>)"

definition result_cache_key :: "('q, 'e, 'r) ext \<Rightarrow> cache_key_input \<Rightarrow> 64 word" where
  "result_cache_key x input = x_hash_key x input"

definition get_embedding ::
    "('q, 'e, 'r) ext \<Rightarrow> string \<Rightarrow> ('e, 'r) recall_cache \<Rightarrow> real list option \<times> ('e, 'r) recall_cache" where
  "get_embedding x query c =
     (let result = x_emb_peek x (x_hash_query x query) (rc_embeddings c) in
      (result, if result \<noteq> None then c\<lparr>rc_embedding_hits := rc_embedding_hits c + 1\<rparr>
               else c\<lparr>rc_embedding_misses := rc_embedding_misses c + 1\<rparr>))"

definition put_embedding ::
    "('q, 'e, 'r) ext \<Rightarrow> string \<Rightarrow> real list \<Rightarrow> ('e, 'r) recall_cache \<Rightarrow> ('e, 'r) recall_cache" where
  "put_embedding x query embedding c =
     c\<lparr>rc_embeddings := x_emb_put x (x_hash_query x query) embedding (rc_embeddings c)\<rparr>"

definition generation :: "string \<Rightarrow> ('e, 'r) recall_cache \<Rightarrow> nat" where
  "generation ns c = (case rc_generations c ns of None \<Rightarrow> 0 | Some g \<Rightarrow> g)"

definition lookup_results ::
    "('q, 'e, 'r) ext \<Rightarrow> 64 word \<Rightarrow> nat \<Rightarrow> ('e, 'r) recall_cache \<Rightarrow> recall_result list option \<times> ('e, 'r) recall_cache" where
  "lookup_results x key current c =
     (case x_res_peek x key (rc_results c) of
        Some e \<Rightarrow>
          if cr_generation e = current
          then (Some (cr_results e), c\<lparr>rc_result_hits := rc_result_hits c + 1\<rparr>)
          else (None, c\<lparr>rc_result_misses := rc_result_misses c + 1\<rparr>)
      | None \<Rightarrow> (None, c\<lparr>rc_result_misses := rc_result_misses c + 1\<rparr>))"

definition get_results ::
    "('q, 'e, 'r) ext \<Rightarrow> 64 word \<Rightarrow> string \<Rightarrow> ('e, 'r) recall_cache \<Rightarrow> recall_result list option \<times> ('e, 'r) recall_cache" where
  "get_results x key ns c = lookup_results x key (generation ns c) c"

definition put_results ::
    "('q, 'e, 'r) ext \<Rightarrow> 64 word \<Rightarrow> recall_result list \<Rightarrow> nat \<Rightarrow> ('e, 'r) recall_cache \<Rightarrow> ('e, 'r) recall_cache" where
  "put_results x key results g c =
     c\<lparr>rc_results := x_res_put x key \<lparr> cr_generation = g, cr_results = results \<rparr> (rc_results c)\<rparr>"

text \<open>The source counts generations in 64 bits; here they do not wrap.\<close>

definition bump_generation :: "string \<Rightarrow> ('e, 'r) recall_cache \<Rightarrow> ('e, 'r) recall_cache" where
  "bump_generation ns c = c\<lparr>rc_generations := (rc_generations c)(ns \<mapsto> generation ns c + 1)\<rparr>"

definition stats_of_cache :: "('e, 'r) recall_cache \<Rightarrow> cache_stats" where
  "stats_of_cache c =
     \<lparr> cs_embedding_hits = rc_embedding_hits c, cs_embedding_misses = rc_embedding_misses c,
       cs_result_hits = rc_result_hits c, cs_result_misses = rc_result_misses c \<rparr>"

text \<open>The operations that recalls and writes perform on the cache, in the order they take effect.\<close>

datatype cache_op =
    CacheGetEmbedding string
  | CachePutEmbedding string "real list"
  | CacheLookup "64 word" nat
  | CachePut "64 word" "recall_result list" nat
  | CacheBump string

fun cache_op_run :: "('q, 'e, 'r) ext \<Rightarrow> cache_op \<Rightarrow> ('e, 'r) recall_cache \<Rightarrow> ('e, 'r) recall_cache" where
  "cache_op_run x (CacheGetEmbedding query) c = snd (get_embedding x query c)"
| "cache_op_run x (CachePutEmbedding query e) c = put_embedding x query e c"
| "cache_op_run x (CacheLookup key current) c = snd (lookup_results x key current c)"
| "cache_op_run x (CachePut key rs g) c = put_results x key rs g c"
| "cache_op_run x (CacheBump ns) c = bump_generation ns c"

definition cache_run :: "('q, 'e, 'r) ext \<Rightarrow> cache_op list \<Rightarrow> ('e, 'r) recall_cache \<Rightarrow> ('e, 'r) recall_cache" where
  "cache_run x ops c = fold (cache_op_run x) ops c"

text \<open>Of an LRU cache is used: a lookup finds what was put last under the key, or nothing.\<close>

definition lru_finds_last :: "('q, 'e, 'r) ext \<Rightarrow> bool" where
  "lru_finds_last x \<longleftrightarrow>
     (\<forall>k k' v l e. x_res_peek x k (x_res_put x k' v l) = Some e \<longrightarrow> (if k = k' then e = v else x_res_peek x k l = Some e))"

text \<open>
  What a recall does: the generation it puts its results under was read at some earlier moment.
  Only recalls of \<open>ns\<close> put under \<open>key\<close>, because the namespace is hashed into it.
\<close>

definition reads_generation_first ::
    "('q, 'e, 'r) ext \<Rightarrow> string \<Rightarrow> 64 word \<Rightarrow> cache_op list \<Rightarrow> ('e, 'r) recall_cache \<Rightarrow> bool" where
  "reads_generation_first x ns key ops c \<longleftrightarrow>
     (\<forall>pre rs g post. ops = pre @ CachePut key rs g # post \<longrightarrow>
        (\<exists>early late. pre = early @ late \<and> g = generation ns (cache_run x early c)))"

lemma generation_bump [simp]: "generation a (bump_generation b c) = (if a = b then generation a c + 1 else generation a c)"
  by (simp add: generation_def bump_generation_def)

lemmas results_defs = get_results_def lookup_results_def put_results_def

lemma generation_steps [simp]:
  "generation ns (snd (get_embedding x query c)) = generation ns c"
  "generation ns (put_embedding x query e c) = generation ns c"
  "generation ns (snd (lookup_results x key g c)) = generation ns c"
  "generation ns (snd (get_results x key ns' c)) = generation ns c"
  "generation ns (put_results x key rs g c) = generation ns c"
  by (simp_all add: generation_def get_embedding_def put_embedding_def results_defs Let_def split: option.splits)

lemma cache_run_simps [simp]:
  "cache_run x [] c = c" "cache_run x (op # ops) c = cache_run x ops (cache_op_run x op c)"
  "cache_run x (ops @ ops') c = cache_run x ops' (cache_run x ops c)"
  by (simp_all add: cache_run_def)

lemma cache_run_generation: "generation ns (cache_run x ops c) = generation ns c + count_list ops (CacheBump ns)"
proof (induction ops arbitrary: c)
  case (Cons op ops)
  have "generation ns (cache_op_run x op c) = generation ns c + (if op = CacheBump ns then 1 else 0)"
    by (cases op) auto
  with Cons show ?case by simp
qed simp

lemma lookup_Some:
  "fst (lookup_results x key g c) = Some rs \<Longrightarrow> x_res_peek x key (rc_results c) = Some \<lparr> cr_generation = g, cr_results = rs \<rparr>"
  by (auto simp: lookup_results_def split: option.splits if_splits)

lemma get_results_Some:
  "fst (get_results x key ns c) = Some rs \<Longrightarrow>
     \<exists>e. x_res_peek x key (rc_results c) = Some e \<and> cr_generation e = generation ns c \<and> cr_results e = rs"
  unfolding get_results_def by (drule lookup_Some) simp

text \<open>An entry of the cache was put there.\<close>

lemma entry_was_put:
  assumes "lru_finds_last x" and "x_res_peek x key (rc_results c) = None"
    and "x_res_peek x key (rc_results (cache_run x ops c)) = Some e"
  shows "\<exists>pre post. ops = pre @ CachePut key (cr_results e) (cr_generation e) # post"
  using assms(3)
proof (induction ops rule: rev_induct)
  case Nil
  with assms(2) show ?case by simp
next
  case (snoc op ops)
  let ?d = "cache_run x ops c"
  show ?case
  proof (cases "\<exists>rs g. op = CachePut key rs g \<and> e = \<lparr> cr_generation = g, cr_results = rs \<rparr>")
    case True
    then show ?thesis by (intro exI [of _ ops] exI [of _ "[]"]) auto
  next
    case False
    have "x_res_peek x key (rc_results ?d) = Some e"
    proof (cases op)
      case (CachePut k rs g)
      with snoc.prems have put: "x_res_peek x key (x_res_put x k \<lparr> cr_generation = g, cr_results = rs \<rparr> (rc_results ?d)) = Some e"
        by (simp add: put_results_def)
      have law: "if key = k then e = \<lparr> cr_generation = g, cr_results = rs \<rparr> else x_res_peek x key (rc_results ?d) = Some e"
        using assms(1) put unfolding lru_finds_last_def by blast
      with False CachePut show ?thesis by (auto split: if_splits)
    qed (use snoc.prems in \<open>auto simp: get_embedding_def put_embedding_def lookup_results_def bump_generation_def Let_def
        split: option.splits if_splits\<close>)
    with snoc.IH obtain pre post where "ops = pre @ CachePut key (cr_results e) (cr_generation e) # post" by blast
    then show ?thesis by (intro exI [of _ pre] exI [of _ "post @ [op]"]) simp
  qed
qed

text \<open>
  C40. Results computed before a write are never served after it. A lookup reads the generation when
  \<open>before\<close> has happened and finds its entry when \<open>meanwhile\<close> has happened too. If it serves
  results, they were put under the key by a recall that had read the generation at a moment when
  exactly as many writes to the namespace had taken effect as when the lookup began: no write that
  was over before the lookup is missing from what the recall could see.
\<close>

theorem write_invalidates_running_recall:
  assumes "lru_finds_last x" and "x_res_peek x key (rc_results c) = None"
    and "reads_generation_first x ns key (before @ meanwhile) c"
    and "fst (lookup_results x key (generation ns (cache_run x before c)) (cache_run x (before @ meanwhile) c)) = Some rs"
  shows "\<exists>early late g post. before @ meanwhile = early @ late @ CachePut key rs g # post
    \<and> g = generation ns (cache_run x early c)
    \<and> count_list early (CacheBump ns) = count_list before (CacheBump ns)"
proof -
  let ?g = "generation ns (cache_run x before c)"
  from entry_was_put [OF assms(1,2) lookup_Some [OF assms(4)]]
  obtain pre post where put: "before @ meanwhile = pre @ CachePut key rs ?g # post" by auto
  with assms(3) obtain early late where "pre = early @ late" "?g = generation ns (cache_run x early c)"
    unfolding reads_generation_first_def by blast
  with put show ?thesis
    by (intro exI [of _ early] exI [of _ late] exI [of _ ?g] exI [of _ post]) (simp add: cache_run_generation)
qed

definition demo_cache :: "(64 word \<Rightarrow> real list option, 64 word \<Rightarrow> cached_results option) recall_cache" where
  "demo_cache = \<lparr> rc_embeddings = Map.empty, rc_results = Map.empty, rc_generations = Map.empty,
     rc_embedding_hits = 0, rc_embedding_misses = 0, rc_result_hits = 0, rc_result_misses = 0 \<rparr>"

lemma demo_generation [simp]: "generation ns demo_cache = 0"
  by (simp add: generation_def demo_cache_def)

text \<open>
  One recall puts its results after a write it did not see, another one after it: the lookup serves
  the second's. Uninterrupted lookups of the first's results miss.
\<close>

definition demo_ops :: "cache_op list" where
  "demo_ops = [CacheBump ''a'', CachePut 0 [] 0, CachePut 0 [] 1]"

theorem write_invalidates_running_recall_witness:
  "fst (get_results demo_ext 0 ''a'' (cache_run demo_ext (take 2 demo_ops) demo_cache)) = None
   \<and> (\<exists>early late g post. demo_ops = early @ late @ CachePut 0 [] g # post
    \<and> g = generation ''a'' (cache_run demo_ext early demo_cache) \<and> count_list early (CacheBump ''a'') = 1)"
proof -
  have "lru_finds_last demo_ext" by (auto simp: lru_finds_last_def demo_ext_def split: if_splits)
  moreover have "x_res_peek demo_ext 0 (rc_results demo_cache) = None" by (simp add: demo_ext_def demo_cache_def)
  moreover have "reads_generation_first demo_ext ''a'' 0 (demo_ops @ []) demo_cache"
    unfolding reads_generation_first_def
  proof (intro allI impI)
    fix pre rs g post
    assume "demo_ops @ [] = pre @ CachePut 0 rs g # post"
    then have "pre = take 1 demo_ops \<and> g = 0 \<or> pre = take 2 demo_ops \<and> g = 1"
      by (auto simp: demo_ops_def append_eq_Cons_conv Cons_eq_append_conv)
    then show "\<exists>early late. pre = early @ late \<and> g = generation ''a'' (cache_run demo_ext early demo_cache)"
    proof
      assume "pre = take 1 demo_ops \<and> g = 0"
      then show ?thesis by (intro exI [of _ "[]"] exI [of _ pre]) simp
    next
      assume "pre = take 2 demo_ops \<and> g = 1"
      then show ?thesis
        by (intro exI [of _ "take 1 demo_ops"] exI [of _ "drop 1 pre"]) (simp add: demo_ops_def)
    qed
  qed
  moreover have "fst (lookup_results demo_ext 0 (generation ''a'' (cache_run demo_ext demo_ops demo_cache))
      (cache_run demo_ext (demo_ops @ []) demo_cache)) = Some []"
    by (simp add: demo_ops_def lookup_results_def put_results_def bump_generation_def generation_def demo_ext_def demo_cache_def)
  ultimately have "\<exists>early late g post. demo_ops @ [] = early @ late @ CachePut 0 [] g # post
    \<and> g = generation ''a'' (cache_run demo_ext early demo_cache)
    \<and> count_list early (CacheBump ''a'') = count_list demo_ops (CacheBump ''a'')"
    by (rule write_invalidates_running_recall)
  moreover have "count_list demo_ops (CacheBump ''a'') = 1" by (simp add: demo_ops_def)
  moreover have "fst (get_results demo_ext 0 ''a'' (cache_run demo_ext (take 2 demo_ops) demo_cache)) = None"
    by (simp add: demo_ops_def get_results_def lookup_results_def put_results_def bump_generation_def generation_def demo_ext_def demo_cache_def)
  ultimately show ?thesis by simp
qed

section \<open>The access tracker\<close>

definition DEFAULT_FLUSH_THRESHOLD :: nat where "DEFAULT_FLUSH_THRESHOLD = 50"

definition tracker_record :: "string list \<Rightarrow> string list \<Rightarrow> string list" where
  "tracker_record ids buf = buf @ ids"

text \<open>The filter keeps an id when the set of seen ids did not have it.\<close>

fun dedup_filter :: "string set \<Rightarrow> string list \<Rightarrow> string list" where
  "dedup_filter seen [] = []"
| "dedup_filter seen (i # is) =
     (if i \<in> seen then dedup_filter seen is else i # dedup_filter (insert i seen) is)"

definition dedup_drain :: "string list \<Rightarrow> string list \<times> string list" where
  "dedup_drain buf = (dedup_filter {} buf, [])"

definition drain_if_full :: "string list \<Rightarrow> string list option \<times> string list" where
  "drain_if_full buf =
     (if length buf < DEFAULT_FLUSH_THRESHOLD then (None, buf)
      else (Some (fst (dedup_drain buf)), snd (dedup_drain buf)))"

definition tracker_drain :: "string list \<Rightarrow> string list \<times> string list" where
  "tracker_drain buf = dedup_drain buf"

lemma dedup_filter_set: "set (dedup_filter seen is) = set is - seen"
  by (induction seen "is" rule: dedup_filter.induct) auto

lemma dedup_filter_distinct: "distinct (dedup_filter seen is)"
  by (induction seen "is" rule: dedup_filter.induct) (auto simp: dedup_filter_set)

text \<open>
  No recorded access is lost and none is counted twice in one flush: whatever was recorded
  is either still buffered or in the drained list, which has no duplicates, and a drain that
  waits for a full buffer leaves fewer than 50 ids behind.
\<close>

theorem access_tracker_lossless:
  "(let (out, buf') = drain_if_full (tracker_record ids buf) in
      set (case out of None \<Rightarrow> [] | Some f \<Rightarrow> f) \<union> set buf' = set buf \<union> set ids
      \<and> distinct (case out of None \<Rightarrow> [] | Some f \<Rightarrow> f) \<and> length buf' < DEFAULT_FLUSH_THRESHOLD)
   \<and> set (fst (tracker_drain buf)) = set buf \<and> distinct (fst (tracker_drain buf)) \<and> snd (tracker_drain buf) = []"
  by (auto simp: drain_if_full_def tracker_record_def tracker_drain_def dedup_drain_def dedup_filter_set
      dedup_filter_distinct DEFAULT_FLUSH_THRESHOLD_def)

section \<open>The ring of recent operations\<close>

definition OPS_BUFFER_CAPACITY :: nat where "OPS_BUFFER_CAPACITY = 100"
definition MAX_DETAIL_LEN :: nat where "MAX_DETAIL_LEN = 120"

text \<open>A byte offset is a character boundary unless a UTF-8 continuation byte starts there.\<close>

definition is_char_boundary :: "string \<Rightarrow> nat \<Rightarrow> bool" where
  "is_char_boundary s i \<longleftrightarrow> i = 0 \<or> i = length s
     \<or> (i < length s \<and> \<not> (let n = of_char (s ! i) :: nat in 128 \<le> n \<and> n < 192))"

fun floor_char_boundary :: "string \<Rightarrow> nat \<Rightarrow> nat" where
  "floor_char_boundary s 0 = 0"
| "floor_char_boundary s (Suc i) =
     (if length s \<le> Suc i then length s
      else if is_char_boundary s (Suc i) then Suc i
      else floor_char_boundary s i)"

definition ops_record :: "string \<Rightarrow> string \<Rightarrow> nat \<Rightarrow> string \<Rightarrow> time \<Rightarrow> op_record list \<Rightarrow> op_record list" where
  "ops_record kind detail duration_ms outcome now ops =
     (let detail' = (if MAX_DETAIL_LEN < length detail
            then take (floor_char_boundary detail MAX_DETAIL_LEN) detail else detail);
          ops' = (if length ops = OPS_BUFFER_CAPACITY then tl ops else ops)
      in ops' @ [\<lparr> opr_kind = kind, opr_detail = detail', opr_duration_ms = duration_ms,
                    opr_outcome = outcome, opr_timestamp = now \<rparr>])"

definition ops_recent :: "nat \<Rightarrow> op_record list \<Rightarrow> op_record list" where
  "ops_recent n ops = take n (rev ops)"

lemma floor_char_boundary_props:
  "floor_char_boundary s i \<le> i \<and> floor_char_boundary s i \<le> length s \<and> is_char_boundary s (floor_char_boundary s i)"
  by (induction s i rule: floor_char_boundary.induct) (auto simp: is_char_boundary_def)

text \<open>
  The ring of recent operations never holds more than 100 entries; recording one more keeps
  the newest entries in order, and the stored detail is a prefix of at most 120 bytes cut at
  a character boundary (so the slice the code takes never panics).
\<close>

theorem ops_buffer_bounded:
  assumes "length ops \<le> OPS_BUFFER_CAPACITY"
    and "ops' = ops_record kind detail ms outcome now ops"
  shows "length ops' \<le> OPS_BUFFER_CAPACITY
    \<and> ops_recent OPS_BUFFER_CAPACITY ops' = last ops' # take (OPS_BUFFER_CAPACITY - 1) (rev ops)
    \<and> (\<exists>n. opr_detail (last ops') = take n detail \<and> is_char_boundary detail n)
    \<and> length (opr_detail (last ops')) \<le> MAX_DETAIL_LEN"
proof -
  let ?n = "if MAX_DETAIL_LEN < length detail then floor_char_boundary detail MAX_DETAIL_LEN else length detail"
  have det: "opr_detail (last ops') = take ?n detail"
    by (simp add: assms(2) ops_record_def Let_def)
  have n: "is_char_boundary detail ?n" "?n \<le> MAX_DETAIL_LEN"
    using floor_char_boundary_props [of detail MAX_DETAIL_LEN] by (auto simp: is_char_boundary_def)
  have len: "length ops' \<le> OPS_BUFFER_CAPACITY"
    using assms(1) by (auto simp: assms(2) ops_record_def Let_def OPS_BUFFER_CAPACITY_def)
  have tl: "rev ops' = last ops' # rev (if length ops = OPS_BUFFER_CAPACITY then tl ops else ops)"
    by (simp add: assms(2) ops_record_def Let_def)
  have "take (OPS_BUFFER_CAPACITY - 1) (rev (if length ops = OPS_BUFFER_CAPACITY then tl ops else ops)) =
      take (OPS_BUFFER_CAPACITY - 1) (rev ops)"
    using assms(1) by (cases ops) (auto simp: OPS_BUFFER_CAPACITY_def)
  then have "ops_recent OPS_BUFFER_CAPACITY ops' = last ops' # take (OPS_BUFFER_CAPACITY - 1) (rev ops)"
    unfolding ops_recent_def tl by (simp add: take_Cons' OPS_BUFFER_CAPACITY_def)
  moreover have "length (opr_detail (last ops')) \<le> MAX_DETAIL_LEN" using det n(2) by simp
  ultimately show ?thesis using len det n(1) by blast
qed

theorem ops_buffer_bounded_witness:
  "length (ops_record ''store'' ''episodic'' 3 ''ok'' 0 []) \<le> OPS_BUFFER_CAPACITY"
  using ops_buffer_bounded [OF _ refl, of "[]" "''store''" "''episodic''" 3 "''ok''" 0] by simp

end
