(* ===== verification/Config.thy ===== *)
theory Config
  imports Predicates Buffers
begin

text \<open>
  The configuration file (\<open>crates/core/src/config.rs\<close>): what the TOML file may say, how it is
  completed with defaults and validated. Parsing TOML is a parameter; floating-point values
  are reals, so the finiteness half of the half-life check always holds here.
\<close>

record conflict_file =
  cff_object_fuzzy_duplicate :: "real option"
  cff_object_fuzzy_update :: "real option"

record cache_file =
  caf_embedding_capacity :: "nat option"
  caf_result_capacity :: "nat option"

record reconciliation_file =
  rcf_audit_interval_hours :: "nat option"
  rcf_audit_fix_limit :: "nat option"
  rcf_reader_pool_size :: "nat option"

record type_staleness_file =
  tsf_half_life_days :: "real option"
  tsf_stale_threshold :: "real option"

record staleness_file =
  sf_weight_age :: "real option"
  sf_weight_access :: "real option"
  sf_weight_validated :: "real option"
  sf_weight_count :: "real option"
  sf_count_scale :: "real option"
  sf_episodic :: "type_staleness_file option"
  sf_semantic :: "type_staleness_file option"
  sf_procedural :: "type_staleness_file option"

record file_config =
  fc_dedup_threshold :: "real option"
  fc_conflict :: conflict_file
  fc_groups :: groups
  fc_namespaces :: "(string \<times> groups) list"
  fc_reconciliation :: reconciliation_file
  fc_staleness :: staleness_file
  fc_reader_pool_size :: "nat option"
  fc_cache :: cache_file

record loaded_config =
  lc_deduplication :: dedup_config
  lc_conflict :: conflict_config
  lc_predicates :: predicates_config
  lc_reconciliation :: reconciliation_config
  lc_staleness :: staleness_config
  lc_reader_pool_size :: nat
  lc_cache :: cache_config

datatype config_error = ConfigIo string | ConfigParse string | ConfigInvalid string

definition DEFAULT_READER_POOL_SIZE :: nat where
  "DEFAULT_READER_POOL_SIZE = 4"

abbreviation (input) unwrap_or :: "'a option \<Rightarrow> 'a \<Rightarrow> 'a" where
  "unwrap_or x d \<equiv> (case x of None \<Rightarrow> d | Some v \<Rightarrow> v)"

definition apply_type_override :: "type_staleness_file \<Rightarrow> type_staleness_config \<Rightarrow> type_staleness_config" where
  "apply_type_override ovr entry =
     \<lparr> half_life_days = unwrap_or (tsf_half_life_days ovr) (half_life_days entry),
       stale_threshold = unwrap_or (tsf_stale_threshold ovr) (stale_threshold entry) \<rparr>"

text \<open>\<open>None\<close> is the panic of \<open>expect\<close> on a default without an entry for the type.\<close>

fun apply_overrides :: "(memory_type \<times> type_staleness_file option) list \<Rightarrow>
    (memory_type \<rightharpoonup> type_staleness_config) \<Rightarrow> (memory_type \<rightharpoonup> type_staleness_config) option" where
  "apply_overrides [] tc = Some tc"
| "apply_overrides ((t, None) # ovrs) tc = apply_overrides ovrs tc"
| "apply_overrides ((t, Some ovr) # ovrs) tc =
     (case tc t of None \<Rightarrow> None
      | Some entry \<Rightarrow> apply_overrides ovrs (tc(t \<mapsto> apply_type_override ovr entry)))"

definition resolve_staleness :: "staleness_file \<Rightarrow> staleness_config \<Rightarrow> staleness_config option" where
  "resolve_staleness f defaults =
     (let weights = \<lparr> sw_age = unwrap_or (sf_weight_age f) (sw_age (sc_weights defaults)),
            sw_access = unwrap_or (sf_weight_access f) (sw_access (sc_weights defaults)),
            sw_validated = unwrap_or (sf_weight_validated f) (sw_validated (sc_weights defaults)),
            sw_count = unwrap_or (sf_weight_count f) (sw_count (sc_weights defaults)) \<rparr>;
          count_scale = unwrap_or (sf_count_scale f) (sc_count_scale defaults)
      in map_option (\<lambda>tc. \<lparr> sc_weights = weights, sc_count_scale = count_scale, sc_type_config = tc \<rparr>)
           (apply_overrides [(Episodic, sf_episodic f), (Semantic, sf_semantic f), (Procedural, sf_procedural f)]
              (sc_type_config defaults)))"

definition resolve :: "file_config \<Rightarrow> loaded_config option" where
  "resolve f =
     map_option (\<lambda>staleness.
       \<lparr> lc_deduplication = \<lparr> dc_threshold = unwrap_or (fc_dedup_threshold f) 0.95 \<rparr>,
         lc_conflict = \<lparr> object_fuzzy_duplicate = unwrap_or (cff_object_fuzzy_duplicate (fc_conflict f)) 0.95,
           object_fuzzy_update = unwrap_or (cff_object_fuzzy_update (fc_conflict f)) 0.50 \<rparr>,
         lc_predicates = \<lparr> pc_groups = fc_groups f, pc_namespaces = fc_namespaces f \<rparr>,
         lc_reconciliation = \<lparr> audit_interval_hours = rcf_audit_interval_hours (fc_reconciliation f),
           audit_fix_limit = unwrap_or (rcf_audit_fix_limit (fc_reconciliation f)) 1000 \<rparr>,
         lc_staleness = staleness,
         lc_reader_pool_size = (case fc_reader_pool_size f of Some n \<Rightarrow> n
           | None \<Rightarrow> unwrap_or (rcf_reader_pool_size (fc_reconciliation f)) DEFAULT_READER_POOL_SIZE),
         lc_cache = \<lparr> embedding_capacity = unwrap_or (caf_embedding_capacity (fc_cache f)) 256,
           result_capacity = unwrap_or (caf_result_capacity (fc_cache f)) 128 \<rparr> \<rparr>)
       (resolve_staleness (fc_staleness f) default_staleness_config)"

fun check_half_lives :: "memory_type list \<Rightarrow> (memory_type \<rightharpoonup> type_staleness_config) \<Rightarrow> config_error + unit" where
  "check_half_lives [] tc = Inr ()"
| "check_half_lives (t # ts) tc =
     (case tc t of None \<Rightarrow> check_half_lives ts tc
      | Some c \<Rightarrow>
          if 0 < half_life_days c then check_half_lives ts tc
          else Inl (ConfigInvalid (''staleness.'' @ mt_as_str t @ ''.half_life_days must be a positive number'')))"

text \<open>The map's iteration order decides which type is reported first; here it is the enum's.\<close>

definition validate_config :: "loaded_config \<Rightarrow> config_error + unit" where
  "validate_config cfg =
     (if embedding_capacity (lc_cache cfg) = 0
      then Inl (ConfigInvalid ''cache.embedding_capacity must be at least 1'')
      else if result_capacity (lc_cache cfg) = 0
      then Inl (ConfigInvalid ''cache.result_capacity must be at least 1'')
      else check_half_lives [Episodic, Semantic, Procedural] (sc_type_config (lc_staleness cfg)))"

text \<open>
  Reading the file, with the outcomes of the file-system calls as arguments; the second
  component is the text the call writes. \<open>None\<close> is the panic inside \<open>resolve\<close>.
\<close>

datatype read_outcome = Contents string | FileNotFound | ReadError string

definition load_or_init ::
    "(string \<Rightarrow> string + file_config) \<Rightarrow> read_outcome \<Rightarrow> string + unit \<Rightarrow> string + unit \<Rightarrow> string \<Rightarrow>
     (config_error + loaded_config) option \<times> string option" where
  "load_or_init parse_toml r mkdir wr baseline =
     (let finish = (\<lambda>raw. case parse_toml raw of Inl e \<Rightarrow> Some (Inl (ConfigParse e))
          | Inr f \<Rightarrow> map_option (\<lambda>loaded. case validate_config loaded of Inl e \<Rightarrow> Inl e | Inr _ \<Rightarrow> Inr loaded)
                       (resolve f))
      in case r of
        Contents raw \<Rightarrow> (finish raw, None)
      | ReadError e \<Rightarrow> (Some (Inl (ConfigIo e)), None)
      | FileNotFound \<Rightarrow> (case mkdir of Inl e \<Rightarrow> (Some (Inl (ConfigIo e)), None)
          | Inr _ \<Rightarrow> (case wr of Inl e \<Rightarrow> (Some (Inl (ConfigIo e)), None)
              | Inr _ \<Rightarrow> (finish baseline, Some baseline))))"

section \<open>A configuration that loads can be run\<close>

definition types_configured :: "staleness_config \<Rightarrow> bool" where
  "types_configured cfg \<longleftrightarrow> (\<forall>t. sc_type_config cfg t \<noteq> None)"

lemma apply_overrides_total:
  "\<forall>t. tc t \<noteq> None \<Longrightarrow> \<exists>tc'. apply_overrides ovrs tc = Some tc' \<and> (\<forall>t. tc' t \<noteq> None)"
  by (induction ovrs tc rule: apply_overrides.induct) (auto split: option.splits)

lemma default_types_configured: "sc_type_config default_staleness_config t \<noteq> None"
  by (cases t) simp_all

lemma resolve_total: "\<exists>cfg. resolve f = Some cfg \<and> types_configured (lc_staleness cfg)"
proof -
  obtain tc where "apply_overrides [(Episodic, sf_episodic (fc_staleness f)), (Semantic, sf_semantic (fc_staleness f)),
      (Procedural, sf_procedural (fc_staleness f))] (sc_type_config default_staleness_config) = Some tc"
      "\<forall>t. tc t \<noteq> None"
    using apply_overrides_total default_types_configured by blast
  then show ?thesis
    unfolding resolve_def resolve_staleness_def Let_def types_configured_def by simp
qed

lemma check_half_lives_ok:
  "check_half_lives ts tc = Inr () \<longleftrightarrow> (\<forall>t\<in>set ts. \<forall>c. tc t = Some c \<longrightarrow> 0 < half_life_days c)"
  by (induction ts tc rule: check_half_lives.induct) (auto split: option.splits)

lemma check_half_lives_err:
  "check_half_lives ts tc = Inr () \<or> (\<exists>msg. check_half_lives ts tc = Inl (ConfigInvalid msg))"
  by (induction ts tc rule: check_half_lives.induct) (auto split: option.splits)

declare check_half_lives.simps [simp del]

lemma validate_config_ok:
  "validate_config cfg = Inr () \<longleftrightarrow> 0 < embedding_capacity (lc_cache cfg) \<and> 0 < result_capacity (lc_cache cfg)
     \<and> (\<forall>t c. sc_type_config (lc_staleness cfg) t = Some c \<longrightarrow> 0 < half_life_days c)"
proof -
  have "t \<in> set [Episodic, Semantic, Procedural]" for t by (cases t) simp_all
  then show ?thesis by (auto simp: validate_config_def check_half_lives_ok simp del: list.set)
qed

lemma min_half_life_pos:
  assumes "types_configured cfg" and "\<forall>t c. sc_type_config cfg t = Some c \<longrightarrow> 0 < half_life_days c"
  shows "\<exists>h. min_half_life_days cfg = Some h \<and> 0 < h \<and> (\<forall>t c. sc_type_config cfg t = Some c \<longrightarrow> h \<le> half_life_days c)"
proof -
  obtain e s p where c: "sc_type_config cfg Episodic = Some e" "sc_type_config cfg Semantic = Some s"
      "sc_type_config cfg Procedural = Some p"
    using assms(1) unfolding types_configured_def by blast
  let ?h = "min (min (half_life_days e) (half_life_days s)) (half_life_days p)"
  have "?h \<le> half_life_days c'" if "sc_type_config cfg t = Some c'" for t c'
    using that c by (cases t) auto
  moreover have "0 < ?h" using assms(2) c by auto
  moreover have "min_half_life_days cfg = Some ?h"
    by (simp add: min_half_life_days_def List.map_filter_def c)
  ultimately show ?thesis by blast
qed

text \<open>
  Loading never panics, and a configuration it accepts is complete: the caches can be
  built, every memory type has a half-life and a threshold, every staleness score exists and
  lies between 0 and 1, and the reflect window is a positive number of days that no type's
  half-life undercuts. It is rejected exactly when a capacity is 0 or a
  half-life is not positive.
\<close>

theorem loaded_config_runs:
  assumes "load_or_init parse_toml (Contents raw) mkdir wr baseline = (res, written)"
    and "parse_toml raw = Inr f"
  shows "\<exists>cfg. resolve f = Some cfg \<and> written = None
    \<and> (res = Some (Inr cfg) \<longleftrightarrow> 0 < embedding_capacity (lc_cache cfg) \<and> 0 < result_capacity (lc_cache cfg)
         \<and> (\<forall>t c. sc_type_config (lc_staleness cfg) t = Some c \<longrightarrow> 0 < half_life_days c))
    \<and> (res = Some (Inr cfg) \<or> (\<exists>msg. res = Some (Inl (ConfigInvalid msg))))
    \<and> (res = Some (Inr cfg) \<longrightarrow>
         cache_new e r (lc_cache cfg) \<noteq> None
         \<and> (\<forall>m now. \<exists>s. staleness_score m now (lc_staleness cfg) = Some s \<and> 0 \<le> s \<and> s \<le> 1)
         \<and> (\<forall>t. threshold_for_type (lc_staleness cfg) t \<noteq> None)
         \<and> (\<exists>h. min_half_life_days (lc_staleness cfg) = Some h \<and> 0 < h
              \<and> (\<forall>t c. sc_type_config (lc_staleness cfg) t = Some c \<longrightarrow> h \<le> half_life_days c)))"
proof -
  obtain cfg where cfg: "resolve f = Some cfg" "types_configured (lc_staleness cfg)"
    using resolve_total by blast
  have res: "res = Some (case validate_config cfg of Inl e \<Rightarrow> Inl e | Inr _ \<Rightarrow> Inr cfg)" "written = None"
    using assms cfg by (simp_all add: load_or_init_def)
  have ok: "res = Some (Inr cfg) \<longleftrightarrow> validate_config cfg = Inr ()"
    unfolding res by (cases "validate_config cfg") simp_all
  have inval: "validate_config cfg = Inr () \<or> (\<exists>msg. validate_config cfg = Inl (ConfigInvalid msg))"
    unfolding validate_config_def by (simp add: check_half_lives_err)
  have inval': "res = Some (Inr cfg) \<or> (\<exists>msg. res = Some (Inl (ConfigInvalid msg)))"
    unfolding res by (rule disjE [OF inval]) auto
  have score: "\<exists>s. staleness_score m now (lc_staleness cfg) = Some s \<and> 0 \<le> s \<and> s \<le> 1" for m now
  proof -
    obtain c where "sc_type_config (lc_staleness cfg) (mem_type m) = Some c"
      using cfg(2) unfolding types_configured_def by blast
    moreover have "0 \<le> clamp 0 1 y \<and> clamp 0 1 y \<le> 1" for y by (simp add: clamp_def)
    ultimately show ?thesis by (simp add: staleness_score_def Let_def)
  qed
  have thr: "threshold_for_type (lc_staleness cfg) t \<noteq> None" for t
    using cfg(2) unfolding types_configured_def threshold_for_type_def by (metis option.map_disc_iff)
  have cache: "cache_new e r (lc_cache cfg) \<noteq> None" if "validate_config cfg = Inr ()"
    using that by (simp add: validate_config_ok cache_new_def)
  note h = min_half_life_pos [OF cfg(2)]
  show ?thesis
    by (rule exI [of _ cfg], intro conjI impI allI)
      (use cfg(1) res(2) inval' score thr cache h in \<open>simp_all add: ok validate_config_ok\<close>)
qed

definition empty_file_config :: file_config where
  "empty_file_config = \<lparr> fc_dedup_threshold = None,
     fc_conflict = \<lparr> cff_object_fuzzy_duplicate = None, cff_object_fuzzy_update = None \<rparr>,
     fc_groups = [], fc_namespaces = [],
     fc_reconciliation = \<lparr> rcf_audit_interval_hours = None, rcf_audit_fix_limit = None, rcf_reader_pool_size = None \<rparr>,
     fc_staleness = \<lparr> sf_weight_age = None, sf_weight_access = None, sf_weight_validated = None,
       sf_weight_count = None, sf_count_scale = None, sf_episodic = None, sf_semantic = None,
       sf_procedural = Some \<lparr> tsf_half_life_days = Some 400, tsf_stale_threshold = None \<rparr> \<rparr>,
     fc_reader_pool_size = None,
     fc_cache = \<lparr> caf_embedding_capacity = None, caf_result_capacity = Some 0 \<rparr> \<rparr>"

theorem loaded_config_runs_witness:
  "\<exists>msg. fst (load_or_init (\<lambda>_. Inr empty_file_config) (Contents []) (Inr ()) (Inr ()) [])
     = Some (Inl (ConfigInvalid msg))"
proof -
  let ?l = "load_or_init (\<lambda>_. Inr empty_file_config) (Contents []) (Inr ()) (Inr ()) []"
  have cap: "result_capacity (lc_cache cfg) = 0" if "resolve empty_file_config = Some cfg" for cfg
    using that by (auto simp: resolve_def empty_file_config_def)
  have "?l = (fst ?l, snd ?l)" by simp
  from loaded_config_runs [OF this refl, of "()" "()"] obtain cfg where "resolve empty_file_config = Some cfg"
      "fst ?l = Some (Inr cfg) \<longrightarrow> 0 < result_capacity (lc_cache cfg)"
      "fst ?l = Some (Inr cfg) \<or> (\<exists>msg. fst ?l = Some (Inl (ConfigInvalid msg)))"
    by blast
  with cap [of cfg] show ?thesis by fastforce
qed

end
