(* ===== verification/World.thy ===== *)
theory World
  imports VectorStore Config
begin

text \<open>
  The state of a running \<open>MemoryService\<close> (\<open>crates/core/src/service.rs\<close>): the configuration and
  the normalizers are fixed at start; the database, the Qdrant client, the cache, the access
  tracker, the ring of operations, and how often the clock and the UUID generator were read
  change. An operation is a fallible computation on it.
\<close>

record service =
  svc_config :: ferrex_config
  svc_normalizers :: "string \<rightharpoonup> normalizer"
  svc_default_normalizer :: normalizer

definition service_new :: "ferrex_config \<Rightarrow> service" where
  "service_new cfg =
     \<lparr> svc_config = cfg,
       svc_normalizers = (\<lambda>ns. if ns \<in> fst ` set (pc_namespaces (cfg_predicates cfg))
          then Some (normalizer_new (resolve_namespace_groups (cfg_predicates cfg) ns)) else None),
       svc_default_normalizer = normalizer_new (pc_groups (cfg_predicates cfg)) \<rparr>"

definition normalizer_for :: "service \<Rightarrow> string \<Rightarrow> normalizer" where
  "normalizer_for svc ns = (case svc_normalizers svc ns of None \<Rightarrow> svc_default_normalizer svc | Some n \<Rightarrow> n)"

record ('q, 'e, 'r) world =
  w_db :: db
  w_vs :: "'q vstore"
  w_cache :: "('e, 'r) recall_cache"
  w_tracker :: "string list"
  w_ops :: "op_record list"
  w_clock :: nat
  w_uuids :: nat

type_synonym ('q, 'e, 'r, 'a) op = "(('q, 'e, 'r) world, core_error, 'a) sm"

section \<open>The calls of the components\<close>

definition on_db :: "'a db_op \<Rightarrow> ('q, 'e, 'r, 'a) op" where
  "on_db m = m_zoom w_db (\<lambda>d w. w\<lparr>w_db := d\<rparr>) StoreError m"

definition from_db :: "(db \<Rightarrow> 'a) \<Rightarrow> ('q, 'e, 'r, 'a) op" where
  "from_db f = m_gets (\<lambda>w. f (w_db w))"

definition on_vs :: "('q, 'a) vec_op \<Rightarrow> ('q, 'e, 'r, 'a) op" where
  "on_vs m = m_zoom w_vs (\<lambda>v w. w\<lparr>w_vs := v\<rparr>) StoreError m"

definition on_cache :: "(('e, 'r) recall_cache \<Rightarrow> 'a \<times> ('e, 'r) recall_cache) \<Rightarrow> ('q, 'e, 'r, 'a) op" where
  "on_cache f = (\<lambda>w. let (a, c) = f (w_cache w) in (Inr a, w\<lparr>w_cache := c\<rparr>))"

definition bump :: "string \<Rightarrow> ('q, 'e, 'r, unit) op" where
  "bump ns = on_cache (\<lambda>c. ((), bump_generation ns c))"

definition now_op :: "('q, 'e, 'r) ext \<Rightarrow> ('q, 'e, 'r, time) op" where
  "now_op x = (\<lambda>w. (Inr (x_now x (w_clock w)), w\<lparr>w_clock := w_clock w + 1\<rparr>))"

definition new_uuid :: "('q, 'e, 'r) ext \<Rightarrow> ('q, 'e, 'r, string) op" where
  "new_uuid x = (\<lambda>w. (Inr (x_uuid x (w_uuids w)), w\<lparr>w_uuids := w_uuids w + 1\<rparr>))"

definition record_op :: "('q, 'e, 'r) ext \<Rightarrow> string \<Rightarrow> string \<Rightarrow> string \<Rightarrow> ('q, 'e, 'r, unit) op" where
  "record_op x kind detail outcome = m_bind (now_op x) (\<lambda>now.
     m_modify (\<lambda>w. w\<lparr>w_ops := ops_record kind detail (x_elapsed_ms x (w_clock w)) outcome now (w_ops w)\<rparr>))"

definition embed_op :: "('q, 'e, 'r) ext \<Rightarrow> string \<Rightarrow> ('q, 'e, 'r, real list) op" where
  "embed_op x s = m_of (case x_embed x s of Inl e \<Rightarrow> Inl (EmbedError e) | Inr v \<Rightarrow> Inr v)"

lemma on_db_run:
  "on_db m w = (case fst (m (w_db w)) of Inl e \<Rightarrow> Inl (StoreError e) | Inr a \<Rightarrow> Inr a,
     w\<lparr>w_db := snd (m (w_db w))\<rparr>)"
  by (simp add: on_db_def m_zoom_def split: prod.splits sum.splits)

lemma on_db_ok_iff: "on_db m w = (Inr a, w') \<longleftrightarrow> (\<exists>d. m (w_db w) = (Inr a, d) \<and> w' = w\<lparr>w_db := d\<rparr>)"
  by (auto simp: on_db_def m_zoom_def split: prod.splits sum.splits)

lemma on_db_err_iff:
  "on_db m w = (Inl e, w') \<longleftrightarrow> (\<exists>e' d. m (w_db w) = (Inl e', d) \<and> e = StoreError e' \<and> w' = w\<lparr>w_db := d\<rparr>)"
  by (auto simp: on_db_def m_zoom_def split: prod.splits sum.splits)

lemma on_vs_ok_iff: "on_vs m w = (Inr a, w') \<longleftrightarrow> (\<exists>v. m (w_vs w) = (Inr a, v) \<and> w' = w\<lparr>w_vs := v\<rparr>)"
  by (auto simp: on_vs_def m_zoom_def split: prod.splits sum.splits)

lemma on_vs_err_iff:
  "on_vs m w = (Inl e, w') \<longleftrightarrow> (\<exists>e' v. m (w_vs w) = (Inl e', v) \<and> e = StoreError e' \<and> w' = w\<lparr>w_vs := v\<rparr>)"
  by (auto simp: on_vs_def m_zoom_def split: prod.splits sum.splits)

lemmas run_iffs = m_bind_ok_iff m_then_ok_iff on_db_ok_iff on_vs_ok_iff

lemma from_db_run [simp]: "from_db f w = (Inr (f (w_db w)), w)"
  by (simp add: from_db_def)

lemma now_op_run [simp]: "now_op x w = (Inr (x_now x (w_clock w)), w\<lparr>w_clock := w_clock w + 1\<rparr>)"
  by (simp add: now_op_def)

lemma new_uuid_run [simp]: "new_uuid x w = (Inr (x_uuid x (w_uuids w)), w\<lparr>w_uuids := w_uuids w + 1\<rparr>)"
  by (simp add: new_uuid_def)

lemma on_vs_db: "w_db (snd (on_vs m w)) = w_db w"
  by (simp add: on_vs_def m_zoom_def split: prod.splits sum.splits)

lemma on_vs_cache: "w_cache (snd (on_vs m w)) = w_cache w"
  by (simp add: on_vs_def m_zoom_def split: prod.splits sum.splits)

lemma bump_run [simp]: "bump ns w = (Inr (), w\<lparr>w_cache := bump_generation ns (w_cache w)\<rparr>)"
  by (simp add: bump_def on_cache_def)

lemma record_op_run:
  "record_op x k d out w = (Inr (), w\<lparr>w_clock := w_clock w + 1,
     w_ops := ops_record k d (x_elapsed_ms x (w_clock w + 1)) out (x_now x (w_clock w)) (w_ops w)\<rparr>)"
  by (simp add: record_op_def m_bind_def)

lemma completes_on_db: "completes m \<Longrightarrow> completes (on_db m)"
  unfolding completes_def on_db_ok_iff by blast

lemma completes_on_vs: "completes m \<Longrightarrow> completes (on_vs m)"
  unfolding completes_def on_vs_ok_iff by blast

lemma completes_calls [completes_intros]:
  "completes (from_db f)" "completes (now_op x)" "completes (new_uuid x)" "completes (bump ns)"
  "completes (record_op x k d out)"
  by (simp_all add: completes_def record_op_run)

subsection \<open>What the calls keep of the database\<close>

abbreviation db_keeps :: "(db \<Rightarrow> bool) \<Rightarrow> ('q, 'e, 'r, 'a) op \<Rightarrow> bool" where
  "db_keeps P m \<equiv> keeps (\<lambda>w. P (w_db w)) m"

lemma db_keeps_on_db: "keeps P m \<Longrightarrow> db_keeps P (on_db m)"
  by (simp add: keeps_def on_db_run)

lemma db_keeps_from_db [keeps_intros]: "db_keeps P (from_db f)"
  by (simp add: keeps_def)

lemma db_keeps_on_vs [keeps_intros]: "db_keeps P (on_vs m)"
  by (simp add: keeps_def on_vs_db)

lemma db_keeps_on_cache [keeps_intros]: "db_keeps P (on_cache f)"
  by (simp add: keeps_def on_cache_def split: prod.splits)

lemma db_keeps_bump [keeps_intros]: "db_keeps P (bump ns)"
  by (simp add: keeps_def)

lemma db_keeps_now [keeps_intros]: "db_keeps P (now_op x)"
  by (simp add: keeps_def)

lemma db_keeps_uuid [keeps_intros]: "db_keeps P (new_uuid x)"
  by (simp add: keeps_def)

lemma db_keeps_record [keeps_intros]: "db_keeps P (record_op x k d out)"
  by (simp add: keeps_def record_op_run)

lemma db_keeps_embed [keeps_intros]: "db_keeps P (embed_op x s)"
  unfolding embed_op_def by (rule keeps_of)

lemma db_keeps_modify: "(\<And>w. w_db (f w) = w_db w) \<Longrightarrow> db_keeps P (m_modify f)"
  by (simp add: keeps_def)

section \<open>The contract of the database\<close>

text \<open>
  A predicate of the database that every write except a delete keeps, and one that deletes
  keep too. The services' lemmas are proved once under these contracts.
\<close>

locale entity_writes =
  fixes P :: "db \<Rightarrow> bool"
  assumes w_new_entity: "keeps P (insert_entity e)"
    and w_alias: "keeps P (add_entity_alias i a now)"
begin

lemmas lifted_entity = w_new_entity [THEN db_keeps_on_db] w_alias [THEN db_keeps_on_db]

end

locale db_writes = entity_writes +
  assumes w_touch: "keeps P (update_last_accessed ids now)"
    and w_check: "keeps P (update_last_validated ids now)"
    and w_normalized: "keeps P (set_normalized_predicate i n now)"
    and w_set_meta: "keeps P (set_metadata k v)"
    and w_pending: "keeps P (insert_pending_op op)"
    and w_mark: "keeps P (mark_pending_op_qdrant_written oid)"
    and w_clear: "keeps P (clear_pending_op oid)"
    and w_commit: "keeps P (commit_memory_write m es ivs t completed)"
    and w_complete: "keeps P (complete_op completed)"
    and w_prune: "keeps P (prune_completed_ops n' age now)"
begin

lemmas write_laws = w_touch w_check w_normalized w_set_meta w_pending w_mark w_clear w_commit w_complete w_prune

lemmas lifted = write_laws [THEN db_keeps_on_db] lifted_entity

end

locale db_all_writes = db_writes +
  assumes w_delete: "keeps P (delete_memories ids)"
begin

lemmas lifted_delete = w_delete [THEN db_keeps_on_db]

end

interpretation ok: db_all_writes db_ok
  by unfold_locales
    (rule keeps_update_last_accessed keeps_update_last_validated keeps_set_normalized keeps_insert_entity
      keeps_add_alias keeps_set_metadata keeps_insert_pending keeps_mark keeps_clear_pending keeps_commit
      keeps_complete keeps_prune keeps_delete_memories)+

section \<open>Facts that no write takes back\<close>

text \<open>
  A property of a stored row that the updates of the code keep: they touch the access and
  validation columns, the normalised predicate and the invalidation date, nothing else.
\<close>

definition some_row :: "(mem_row \<Rightarrow> bool) \<Rightarrow> db \<Rightarrow> bool" where
  "some_row Q d \<longleftrightarrow> (\<exists>r\<in>set (memories d). Q r)"

lemma some_row_upd: "(\<And>r. Q r \<Longrightarrow> Q (f r)) \<Longrightarrow> \<exists>r\<in>set rows. Q r \<Longrightarrow> \<exists>r\<in>set (rows_upd p f rows). Q r"
  by (auto simp: rows_upd_def)

lemma some_row_fold:
  "(\<And>c rows. \<exists>r\<in>set rows. Q r \<Longrightarrow> \<exists>r\<in>set (g c rows). Q r) \<Longrightarrow> \<exists>r\<in>set rows. Q r \<Longrightarrow>
     \<exists>r\<in>set (fold g cs rows). Q r"
  by (induction cs arbitrary: rows) auto

locale row_fact =
  fixes Q :: "mem_row \<Rightarrow> bool"
  assumes q_touch: "Q r \<Longrightarrow> Q (r\<lparr>r_last_accessed := t, r_access_count := n\<rparr>)"
    and q_check: "Q r \<Longrightarrow> Q (r\<lparr>r_last_validated := v\<rparr>)"
    and q_normalized: "Q r \<Longrightarrow> Q (r\<lparr>r_normalized_predicate := p, r_updated_at := t\<rparr>)"
    and q_invalidate: "Q r \<Longrightarrow> Q (r\<lparr>r_t_invalid := Some t, r_updated_at := t\<rparr>)"
begin

lemma row_statements:
  "keeps (some_row Q) (insert_memory_in m)" "keeps (some_row Q) (link_memory_entity_in i e)"
  "keeps (some_row Q) (invalidate_memory_in i t)" "keeps (some_row Q) (complete_op_in c)"
  "keeps (some_row Q) (insert_alias_in e a)"
proof -
  show "keeps (some_row Q) (insert_memory_in m)" "keeps (some_row Q) (link_memory_entity_in i e)"
    "keeps (some_row Q) (insert_alias_in e a)"
    by (auto intro!: keepsI simp: some_row_def insert_memory_in_def link_memory_entity_in_def insert_alias_in_def)
  show "keeps (some_row Q) (invalidate_memory_in i t)"
    unfolding invalidate_memory_in_def by (rule keeps_modify) (simp add: some_row_def some_row_upd q_invalidate)
  show "keeps (some_row Q) (complete_op_in c)"
    unfolding complete_op_in_def by (rule keeps_modify) (simp add: some_row_def)
qed

lemma row_updates:
  "keeps (some_row Q) (update_last_accessed ids now)" "keeps (some_row Q) (update_last_validated ids now)"
  "keeps (some_row Q) (set_normalized_predicate i p now)"
proof -
  have "\<exists>r\<in>set rows. Q r \<Longrightarrow> \<exists>r\<in>set (touch_rows now c rows). Q r" for c rows
    unfolding touch_rows_def by (rule some_row_upd) (rule q_touch)
  then show "keeps (some_row Q) (update_last_accessed ids now)"
    unfolding update_last_accessed_def by (intro keeps_modify) (simp add: some_row_def some_row_fold)
  have "\<exists>r\<in>set rows. Q r \<Longrightarrow>
      \<exists>r\<in>set (rows_upd (\<lambda>r. r_id r \<in> set c) (\<lambda>r. r\<lparr>r_last_validated := Some now\<rparr>) rows). Q r" for c rows
    by (rule some_row_upd) (rule q_check)
  then show "keeps (some_row Q) (update_last_validated ids now)"
    unfolding update_last_validated_def by (intro keeps_modify) (simp add: some_row_def some_row_fold)
  show "keeps (some_row Q) (set_normalized_predicate i p now)"
    unfolding set_normalized_predicate_def by (rule keeps_modify) (simp add: some_row_def some_row_upd q_normalized)
qed

lemma row_other:
  "keeps (some_row Q) (insert_entity e)" "keeps (some_row Q) (add_entity_alias i a now)"
  "keeps (some_row Q) (commit_memory_write m es ivs t c)" "keeps (some_row Q) (complete_op c)"
proof -
  show "keeps (some_row Q) (insert_entity e)"
    unfolding insert_entity_def
    by (intro keeps_intros row_statements, rule keepsI) (auto simp: some_row_def)
  show "keeps (some_row Q) (add_entity_alias i a now)"
    unfolding add_entity_alias_def by (intro keeps_intros row_statements keeps_modify) (simp add: some_row_def)
  show "keeps (some_row Q) (commit_memory_write m es ivs t c)"
    unfolding commit_memory_write_def by (intro keeps_intros row_statements)
  show "keeps (some_row Q) (complete_op c)"
    unfolding complete_op_def by (intro keeps_intros row_statements)
qed

end

sublocale row_fact \<subseteq> db_writes "some_row Q"
  by unfold_locales (rule row_updates row_other
    | (auto intro!: keepsI simp: some_row_def set_metadata_def insert_pending_op_def
        mark_pending_op_qdrant_written_def clear_pending_op_def prune_completed_ops_def Let_def)[1])+

text \<open>The immutable part of a row, and a row that is no longer live.\<close>

definition fact_of :: "mem_row \<Rightarrow> mem_row" where
  "fact_of r = r\<lparr>r_last_accessed := 0, r_access_count := 0, r_last_validated := None,
     r_normalized_predicate := None, r_t_invalid := None, r_updated_at := 0\<rparr>"

interpretation fact: row_fact "\<lambda>r. fact_of r = fact_of r0" for r0
  by unfold_locales (simp_all add: fact_of_def)

interpretation retired: row_fact "\<lambda>r. r_id r = i \<and> r_t_invalid r \<noteq> None" for i
  by unfold_locales simp_all

definition entity_known :: "string \<Rightarrow> db \<Rightarrow> bool" where
  "entity_known i d \<longleftrightarrow> i \<in> row_keys er_id (entities d)"

lemma entity_statements:
  "keeps (entity_known i) (insert_memory_in m)" "keeps (entity_known i) (link_memory_entity_in j e)"
  "keeps (entity_known i) (invalidate_memory_in j t)" "keeps (entity_known i) (complete_op_in c)"
  "keeps (entity_known i) (insert_alias_in e a)"
  by (auto intro!: keepsI simp: entity_known_def insert_memory_in_def link_memory_entity_in_def insert_alias_in_def
      invalidate_memory_in_def complete_op_in_def)

interpretation known: db_all_writes "entity_known i" for i
proof unfold_locales
  show "keeps (entity_known i) (insert_entity e)" for e
    unfolding insert_entity_def
    by (intro keeps_intros entity_statements, rule keepsI) (auto simp: entity_known_def)
  show "keeps (entity_known i) (add_entity_alias j a now)" for j a now
    unfolding add_entity_alias_def
    by (intro keeps_intros entity_statements keeps_modify) (simp add: entity_known_def row_keys_upd)
  show "keeps (entity_known i) (commit_memory_write m es ivs t c)" for m es ivs t c
    unfolding commit_memory_write_def by (intro keeps_intros entity_statements)
  show "keeps (entity_known i) (complete_op c)" for c
    unfolding complete_op_def by (intro keeps_intros entity_statements)
  show "keeps (entity_known i) (delete_memories ids)" for ids
    by (rule keepsI) (simp add: delete_memories_run entity_known_def)
qed (auto intro!: keepsI simp: entity_known_def update_last_accessed_def update_last_validated_def
      set_normalized_predicate_def set_metadata_def insert_pending_op_def mark_pending_op_qdrant_written_def
      clear_pending_op_def prune_completed_ops_def Let_def)

text \<open>Entity resolution writes only the two entity tables.\<close>

definition other_tables :: "db \<Rightarrow> db" where
  "other_tables d = d\<lparr>entities := [], entity_aliases := []\<rparr>"

interpretation frame: entity_writes "\<lambda>d. other_tables d = c" for c
proof unfold_locales
  have ali: "keeps (\<lambda>d. other_tables d = c) (insert_alias_in i a)" for i a
    by (auto intro!: keepsI simp: insert_alias_in_def other_tables_def)
  show "keeps (\<lambda>d. other_tables d = c) (insert_entity e)" for e
    unfolding insert_entity_def
    by (intro keeps_intros ali, rule keepsI) (auto simp: other_tables_def)
  show "keeps (\<lambda>d. other_tables d = c) (add_entity_alias i a now)" for i a now
    unfolding add_entity_alias_def by (intro keeps_intros ali keeps_modify) (simp add: other_tables_def)
qed

lemma other_tables_eq:
  "other_tables d = other_tables d' \<Longrightarrow> memories d = memories d' \<and> memory_entities d = memory_entities d'
     \<and> metadata d = metadata d' \<and> pending_ops d = pending_ops d' \<and> completed_ops d = completed_ops d'"
  unfolding other_tables_def by (cases d, cases d') simp

subsection \<open>What the calls keep of the cache\<close>

abbreviation cache_keeps :: "(('e, 'r) recall_cache \<Rightarrow> bool) \<Rightarrow> ('q, 'e, 'r, 'a) op \<Rightarrow> bool" where
  "cache_keeps P m \<equiv> keeps (\<lambda>w. P (w_cache w)) m"

lemma cache_keeps_calls [keeps_intros]:
  "cache_keeps P (on_db m)" "cache_keeps P (from_db f)" "cache_keeps P (on_vs v)" "cache_keeps P (now_op x)"
  "cache_keeps P (new_uuid x)" "cache_keeps P (record_op x k d out)" "cache_keeps P (embed_op x s)"
  by (auto simp: keeps_def on_db_run on_vs_def m_zoom_def record_op_run embed_op_def split: prod.splits sum.splits)

section \<open>A concrete service state, for witnesses\<close>

definition demo_world :: "db \<Rightarrow> (demo_q, 64 word \<Rightarrow> real list option, 64 word \<Rightarrow> cached_results option) world" where
  "demo_world d = \<lparr> w_db = d, w_vs = \<lparr> vs_q = [(''ferrex_default'', [])], vs_ensured = [''ferrex_default''] \<rparr>,
     w_cache = demo_cache, w_tracker = [], w_ops = [], w_clock = 0, w_uuids = 0 \<rparr>"

lemma demo_world_db [simp]: "w_db (demo_world d) = d"
  by (simp add: demo_world_def)

definition demo_config :: ferrex_config where
  "demo_config = \<lparr> cfg_qdrant_url = None, cfg_qdrant_port = 6334, cfg_model_name = ''small'', cfg_namespace = ''default'',
     cfg_db_path = '':memory:'', cfg_deduplication = default_dedup_config, cfg_conflict = default_conflict_config,
     cfg_predicates = \<lparr> pc_groups = [], pc_namespaces = [] \<rparr>, cfg_reconciliation = default_reconciliation_config,
     cfg_staleness = default_staleness_config, cfg_cache = default_cache_config \<rparr>"

definition demo_service :: service where
  "demo_service = service_new demo_config"

definition note_request :: "string \<Rightarrow> store_request" where
  "note_request s = \<lparr> sr_content = Some s, sr_memory_type = None, sr_subject = None, sr_predicate = None,
     sr_object = None, sr_confidence = None, sr_source = None, sr_context = None, sr_entities = [],
     sr_namespace = None, sr_supersedes = None \<rparr>"

definition fact_request :: "string \<Rightarrow> string \<Rightarrow> string \<Rightarrow> string \<Rightarrow> store_request" where
  "fact_request ns s p ob = \<lparr> sr_content = None, sr_memory_type = None, sr_subject = Some s, sr_predicate = Some p,
     sr_object = Some ob, sr_confidence = None, sr_source = None, sr_context = None, sr_entities = [],
     sr_namespace = Some ns, sr_supersedes = None \<rparr>"

end
