(* ===== verification/Entity.thy ===== *)
theory Entity
  imports World
begin

text \<open>
  Entity resolution (\<open>crates/core/src/entity.rs\<close>, \<open>pipeline/resolve_entities.rs\<close>): an entity
  name is matched by its normalised text against names and aliases, then fuzzily against the
  known entities, then by embedding, and otherwise a new entity is made.
\<close>

definition FUZZY_MATCH_THRESHOLD :: real where "FUZZY_MATCH_THRESHOLD = 0.85"
definition EMBEDDING_MATCH_THRESHOLD :: real where "EMBEDDING_MATCH_THRESHOLD = 0.92"

text \<open>\<open>Iterator::max_by\<close> returns the last of several maxima.\<close>

fun last_max :: "('a \<times> real) option \<Rightarrow> ('a \<times> real) list \<Rightarrow> ('a \<times> real) option" where
  "last_max best [] = best"
| "last_max None (c # cs) = last_max (Some c) cs"
| "last_max (Some b) (c # cs) = last_max (Some (if snd c < snd b then b else c)) cs"

definition fuzzy_candidates :: "(string \<Rightarrow> string \<Rightarrow> real) \<Rightarrow> string \<Rightarrow> entity list \<Rightarrow> (entity \<times> real) list" where
  "fuzzy_candidates jw name es =
     concat (map (\<lambda>e. map (\<lambda>candidate. (e, jw candidate name)) (ent_name e # ent_aliases e)) es)"

definition best_fuzzy_match ::
    "(string \<Rightarrow> string \<Rightarrow> real) \<Rightarrow> string \<Rightarrow> entity list \<Rightarrow> real \<Rightarrow> (entity \<times> real) option" where
  "best_fuzzy_match jw name es threshold =
     last_max None (filter (\<lambda>(e, score). threshold < score) (fuzzy_candidates jw name es))"

definition find_entity_by_point_id :: "entity list \<Rightarrow> string \<Rightarrow> entity option" where
  "find_entity_by_point_id es point_id = find (\<lambda>e. ent_id e = point_id) es"

definition match_exact :: "string \<Rightarrow> ('q, 'e, 'r, entity option) op" where
  "match_exact normalized = from_db (get_entity_by_name normalized)"

definition add_alias_op :: "('q, 'e, 'r) ext \<Rightarrow> string \<Rightarrow> string \<Rightarrow> ('q, 'e, 'r, unit) op" where
  "add_alias_op x i normalized = m_bind (now_op x) (\<lambda>now. on_db (add_entity_alias i normalized now))"

definition match_fuzzy :: "('q, 'e, 'r) ext \<Rightarrow> string \<Rightarrow> entity list \<Rightarrow> ('q, 'e, 'r, entity option) op" where
  "match_fuzzy x normalized all_entities =
     (case best_fuzzy_match (x_jaro_winkler x) normalized all_entities FUZZY_MATCH_THRESHOLD of
        None \<Rightarrow> m_ret None
      | Some (e, _) \<Rightarrow> m_then (add_alias_op x (ent_id e) normalized) (m_ret (Some e)))"

definition create_entity :: "('q, 'e, 'r) ext \<Rightarrow> string \<Rightarrow> ('q, 'e, 'r, entity) op" where
  "create_entity x name =
     m_bind (now_op x) (\<lambda>now. m_bind (new_uuid x) (\<lambda>i.
       let e = \<lparr> ent_id = i, ent_name = name, ent_aliases = [], ent_type = None,
                 ent_created_at = now, ent_updated_at = now \<rparr>
       in m_then (on_db (insert_entity e)) (m_ret e)))"

definition upsert_entity_point ::
    "('q, 'e, 'r) ext \<Rightarrow> entity \<Rightarrow> string \<Rightarrow> real list \<Rightarrow> ('q, 'e, 'r, unit) op" where
  "upsert_entity_point x e ns embedding =
     (case x_parse_uuid x (ent_id e) of
        None \<Rightarrow> m_fail (Validation ''invalid entity UUID'')
      | Some i \<Rightarrow> on_vs (v_upsert x ns i embedding (ent_name e)
          [(''entity_id'', JStr (ent_id e)), (''name'', JStr (ent_name e)),
           (''point_type'', JStr ''entity''), (''namespace'', JStr ns)]))"

definition match_embedding_or_create ::
    "('q, 'e, 'r) ext \<Rightarrow> string \<Rightarrow> string \<Rightarrow> entity list \<Rightarrow> ('q, 'e, 'r, entity) op" where
  "match_embedding_or_create x normalized ns all_entities =
     m_bind (embed_op x normalized) (\<lambda>embedding.
     m_bind (on_vs (v_search_dense x ns embedding 1
        (Some \<lparr> qf_must = [MatchKeyword ''point_type'' ''entity''], qf_should = [] \<rparr>))) (\<lambda>results.
     let create = m_bind (create_entity x normalized) (\<lambda>e.
           m_then (upsert_entity_point x e ns embedding) (m_ret e))
     in case results of
          [] \<Rightarrow> create
        | (point_id, score) # _ \<Rightarrow>
            if EMBEDDING_MATCH_THRESHOLD < score then
              (case find_entity_by_point_id all_entities point_id of
                 Some e \<Rightarrow> m_then (add_alias_op x (ent_id e) normalized) (m_ret e)
               | None \<Rightarrow> create)
            else create))"

definition resolve_single ::
    "('q, 'e, 'r) ext \<Rightarrow> string \<Rightarrow> string \<Rightarrow> entity list \<Rightarrow> ('q, 'e, 'r, entity) op" where
  "resolve_single x name ns all_entities =
     (let normalized = normalize_name name in
      if normalized = [] then m_fail (Validation ''empty entity name'')
      else m_bind (match_exact normalized) (\<lambda>ex.
        case ex of Some e \<Rightarrow> m_ret e
        | None \<Rightarrow> m_bind (match_fuzzy x normalized all_entities) (\<lambda>fz.
            case fz of Some e \<Rightarrow> m_ret e
            | None \<Rightarrow> match_embedding_or_create x normalized ns all_entities)))"

fun resolve_names :: "('q, 'e, 'r) ext \<Rightarrow> string \<Rightarrow> entity list \<Rightarrow> string list \<Rightarrow> ('q, 'e, 'r, entity list) op" where
  "resolve_names x ns all_entities [] = m_ret []"
| "resolve_names x ns all_entities (name # names) =
     m_bind (resolve_single x name ns all_entities) (\<lambda>e.
     m_bind (resolve_names x ns
        (if ent_id e \<in> ent_id ` set all_entities then all_entities else all_entities @ [e]) names) (\<lambda>es.
     m_ret (e # es)))"

definition resolve_entities :: "('q, 'e, 'r) ext \<Rightarrow> string \<Rightarrow> string list \<Rightarrow> ('q, 'e, 'r, entity list) op" where
  "resolve_entities x ns names =
     m_bind (from_db get_all_entities) (\<lambda>all. resolve_names x ns all names)"

section \<open>What resolution keeps\<close>

context entity_writes begin

lemma add_alias_keeps: "db_keeps P (add_alias_op x i n)"
  unfolding add_alias_op_def by (intro keeps_intros lifted_entity)

lemma match_fuzzy_keeps: "db_keeps P (match_fuzzy x n es)"
  unfolding match_fuzzy_def by (auto intro!: keeps_intros add_alias_keeps split: option.splits prod.splits)

lemma create_entity_keeps: "db_keeps P (create_entity x n)"
  unfolding create_entity_def Let_def by (intro keeps_intros lifted_entity)

lemma upsert_entity_keeps: "db_keeps P (upsert_entity_point x e ns v)"
  unfolding upsert_entity_point_def by (auto intro!: keeps_intros split: option.splits)

lemma match_embedding_keeps: "db_keeps P (match_embedding_or_create x n ns es)"
  unfolding match_embedding_or_create_def Let_def
  by (auto intro!: keeps_intros add_alias_keeps create_entity_keeps upsert_entity_keeps split: list.splits option.splits)

lemma resolve_single_keeps: "db_keeps P (resolve_single x n ns es)"
  unfolding resolve_single_def Let_def match_exact_def
  by (auto intro!: keeps_intros match_fuzzy_keeps match_embedding_keeps split: option.splits)

lemma resolve_names_keeps: "db_keeps P (resolve_names x ns es ns')"
  by (induction ns' arbitrary: es) (auto intro!: keeps_intros resolve_single_keeps)

lemma resolve_entities_keeps: "db_keeps P (resolve_entities x ns names)"
  unfolding resolve_entities_def by (intro keeps_intros resolve_names_keeps)

end

lemma resolve_entities_cache: "cache_keeps P (resolve_entities x ns names)"
proof -
  have ali: "cache_keeps P (add_alias_op x i n)" for i n
    unfolding add_alias_op_def by (intro keeps_intros)
  have single: "cache_keeps P (resolve_single x n ns es)" for n es
    unfolding resolve_single_def Let_def match_exact_def match_fuzzy_def match_embedding_or_create_def
      create_entity_def upsert_entity_point_def
    by (auto intro!: keeps_intros ali split: option.splits prod.splits list.splits)
  have "cache_keeps P (resolve_names x ns es names)" for es
    by (induction names arbitrary: es) (auto intro!: keeps_intros single)
  then show ?thesis unfolding resolve_entities_def by (intro keeps_intros)
qed

section \<open>What resolution returns\<close>

lemma find_entity_row_None:
  "find_entity_row n d = None \<longleftrightarrow>
     (\<forall>r\<in>set (entities d). er_name r \<noteq> n) \<and> (\<forall>(e, a)\<in>set (entity_aliases d). a = n \<longrightarrow> e \<notin> row_keys er_id (entities d))"
  by (auto simp: find_entity_row_def find_None_iff rows_get_None split: option.splits)
    (fastforce simp: find_Some_iff dest: nth_mem)+

lemma find_entity_row_known: "find_entity_row n d = Some r \<Longrightarrow> entity_known (er_id r) d"
  by (auto simp: find_entity_row_def entity_known_def row_keys_def find_Some_iff split: option.splits
      dest!: rows_get_Some)

lemma add_alias_ok:
  assumes "add_entity_alias i n now d = (Inr u, d')"
  shows "entity_known i d \<and> entities d' = rows_upd (\<lambda>r. er_id r = i) (\<lambda>r. r\<lparr>er_updated_at := now\<rparr>) (entities d)
    \<and> (entity_aliases d' = entity_aliases d @ [(i, n)] \<or> (i, n) \<in> set (entity_aliases d) \<and> entity_aliases d' = entity_aliases d)
    \<or> (i, n) \<in> set (entity_aliases d)"
  using assms
  by (auto simp: add_entity_alias_def m_tx_ok_iff m_then_ok_iff insert_alias_in_def entity_known_def split: if_splits)

lemma add_alias_found:
  assumes none: "find_entity_row n d = None" and known: "entity_known i d"
    and run: "add_entity_alias i n now d = (Inr u, d')"
  shows "\<exists>r. find_entity_row n d' = Some r \<and> er_id r = i"
proof -
  have free: "(i, n) \<notin> set (entity_aliases d)"
    using none known unfolding find_entity_row_None entity_known_def by auto
  then have d': "entities d' = rows_upd (\<lambda>r. er_id r = i) (\<lambda>r. r\<lparr>er_updated_at := now\<rparr>) (entities d)"
      "entity_aliases d' = entity_aliases d @ [(i, n)]"
    using add_alias_ok [OF run] by auto
  have keys: "row_keys er_id (entities d') = row_keys er_id (entities d)"
    unfolding d' by (rule row_keys_upd) simp
  have "\<forall>r\<in>set (entities d'). er_name r \<noteq> n"
    using none by (auto simp: d' rows_upd_def find_entity_row_None)
  then have 1: "find (\<lambda>r. er_name r = n) (entities d') = None" by (simp add: find_None_iff)
  have "find (\<lambda>(e, a). a = n \<and> e \<in> row_keys er_id (entities d')) (entity_aliases d) = None"
    using none unfolding keys find_entity_row_None by (fastforce simp: find_None_iff)
  then have "find (\<lambda>(e, a). a = n \<and> e \<in> row_keys er_id (entities d')) (entity_aliases d @ [(i, n)]) = Some (i, n)"
    using known unfolding keys entity_known_def find_append by simp
  moreover obtain r where "rows_get er_id i (entities d') = Some r"
    using known keys rows_get_None [of er_id i "entities d'"] unfolding entity_known_def by auto
  ultimately show ?thesis
    using 1 rows_get_Some [of er_id i "entities d'" r] by (simp add: find_entity_row_def d'(2))
qed

lemma insert_entity_found:
  assumes none: "find_entity_row (ent_name e) d = None" and run: "insert_entity e d = (Inr u, d')" and "ent_aliases e = []"
  shows "\<exists>r. find_entity_row (ent_name e) d' = Some r \<and> er_id r = ent_id e"
proof -
  have d': "entities d' = entities d @ [\<lparr> er_id = ent_id e, er_name = ent_name e, er_aliases_json = Some (ent_aliases e),
      er_type = ent_type e, er_created_at = ent_created_at e, er_updated_at = ent_updated_at e \<rparr>]"
    using run assms(3) by (auto simp: insert_entity_def m_tx_ok_iff m_then_ok_iff split: if_splits)
  have "find (\<lambda>r. er_name r = ent_name e) (entities d) = None"
    using none by (simp add: find_entity_row_None find_None_iff)
  then have "find (\<lambda>r. er_name r = ent_name e) (entities d') = Some \<lparr> er_id = ent_id e, er_name = ent_name e,
      er_aliases_json = Some (ent_aliases e), er_type = ent_type e, er_created_at = ent_created_at e,
      er_updated_at = ent_updated_at e \<rparr>"
    unfolding d' find_append by simp
  then show ?thesis by (simp add: find_entity_row_def)
qed

lemma exact_id: "get_entity_by_name n d = Some e \<longleftrightarrow> (\<exists>r. find_entity_row n d = Some r \<and>
    e = (row_to_entity_without_aliases r)\<lparr>ent_aliases := aliases_of d (er_id r)\<rparr>)"
  by (auto simp: get_entity_by_name_def)

text \<open>A resolved name is found again by its normalised text, as the same entity.\<close>

definition found_as :: "string \<Rightarrow> string \<Rightarrow> db \<Rightarrow> bool" where
  "found_as n i d \<longleftrightarrow> (\<exists>r. find_entity_row n d = Some r \<and> er_id r = i)"

lemma alias_op_found:
  assumes "add_alias_op x i n w = (Inr u, w')" "find_entity_row n (w_db w) = None" "entity_known i (w_db w)"
  shows "found_as n i (w_db w')"
  using assms add_alias_found [of n "w_db w" i]
  by (auto simp: add_alias_op_def run_iffs found_as_def)

lemma last_max_mem: "last_max b cs = Some c \<Longrightarrow> c \<in> set cs \<or> b = Some c"
  by (induction b cs rule: last_max.induct) (auto split: if_splits)

lemma best_fuzzy_mem: "best_fuzzy_match jw n es t = Some (e, s) \<Longrightarrow> e \<in> set es"
  unfolding best_fuzzy_match_def by (drule last_max_mem) (auto simp: fuzzy_candidates_def)

lemma create_found:
  assumes "create_entity x n w = (Inr e, w')" "find_entity_row n (w_db w) = None"
  shows "found_as n (ent_id e) (w_db w')"
  using assms insert_entity_found [of e "w_db w"]
  by (auto simp: create_entity_def Let_def run_iffs found_as_def)

lemma found_as_vs: "found_as n i (w_db (snd (on_vs m w))) = found_as n i (w_db w)"
  by (simp add: on_vs_db)

lemma match_embedding_cases:
  assumes "match_embedding_or_create x n ns es w = (Inr e, w')"
  shows "\<exists>v u. w_db u = w_db w \<and>
    ((\<exists>p. find_entity_by_point_id es p = Some e \<and> add_alias_op x (ent_id e) n u = (Inr (), w'))
     \<or> (\<exists>t. create_entity x n u = (Inr e, t) \<and> upsert_entity_point x e ns v t = (Inr (), w')))"
proof -
  let ?create = "\<lambda>v. m_bind (create_entity x n) (\<lambda>e. m_then (upsert_entity_point x e ns v) (m_ret e))"
  obtain v res u where u: "w_db u = w_db w"
    and rest: "(case res of [] \<Rightarrow> ?create v
        | (point_id, score) # _ \<Rightarrow>
            if EMBEDDING_MATCH_THRESHOLD < score then
              (case find_entity_by_point_id es point_id of
                 Some e \<Rightarrow> m_then (add_alias_op x (ent_id e) n) (m_ret e)
               | None \<Rightarrow> ?create v)
            else ?create v) u = (Inr e, w')"
    using assms unfolding match_embedding_or_create_def Let_def embed_op_def m_bind_ok_iff on_vs_ok_iff m_of_run
    by (metis (no_types, lifting) world.select_convs(1) world.surjective world.update_convs(2) prod.inject)
  have create: "\<exists>t. create_entity x n u = (Inr e, t) \<and> upsert_entity_point x e ns v t = (Inr (), w')"
    if "?create v u = (Inr e, w')"
    using that by (auto simp: run_iffs)
  show ?thesis
  proof (cases res)
    case Nil
    with rest u create show ?thesis by auto
  next
    case (Cons h hs)
    obtain p s where h: "h = (p, s)" by (cases h)
    show ?thesis
    proof (cases "EMBEDDING_MATCH_THRESHOLD < s \<and> find_entity_by_point_id es p \<noteq> None")
      case True
      with rest Cons h have "\<exists>p. find_entity_by_point_id es p = Some e \<and> add_alias_op x (ent_id e) n u = (Inr (), w')"
        by (auto simp: run_iffs)
      with u show ?thesis by blast
    next
      case False
      with rest Cons h have "?create v u = (Inr e, w')" by (auto split: if_splits)
      with u create show ?thesis by blast
    qed
  qed
qed

lemma found_known: "found_as n i d \<Longrightarrow> entity_known i d"
  unfolding found_as_def using find_entity_row_known by blast

lemma resolve_single_found:
  assumes "resolve_single x name ns all_entities w = (Inr e, w')"
    and "\<forall>a\<in>set all_entities. entity_known (ent_id a) (w_db w)"
  shows "normalize_name name \<noteq> [] \<and> found_as (normalize_name name) (ent_id e) (w_db w')"
proof -
  let ?n = "normalize_name name"
  have ne: "?n \<noteq> []" using assms(1) by (auto simp: resolve_single_def Let_def)
  have "found_as ?n (ent_id e) (w_db w')"
  proof (cases "find_entity_row ?n (w_db w)")
    case (Some r)
    then show ?thesis
      using assms(1) ne
      by (auto simp: resolve_single_def match_exact_def Let_def m_bind_ok_iff found_as_def get_entity_by_name_def
          row_to_entity_without_aliases_def)
  next
    case None
    then have none: "get_entity_by_name ?n (w_db w) = None" by (simp add: get_entity_by_name_def)
    show ?thesis
    proof (cases "best_fuzzy_match (x_jaro_winkler x) ?n all_entities FUZZY_MATCH_THRESHOLD")
      case fz: (Some c)
      obtain e' s where c: "c = (e', s)" by (cases c)
      have run: "add_alias_op x (ent_id e') ?n w = (Inr (), w')" "e' = e"
        using assms(1) ne none fz c
        by (auto simp: resolve_single_def match_exact_def match_fuzzy_def Let_def run_iffs)
      have "entity_known (ent_id e) (w_db w)"
        using best_fuzzy_mem [OF fz [unfolded c]] assms(2) run(2) by blast
      then show ?thesis using alias_op_found [OF run(1) None] run(2) by simp
    next
      case fz: None
      have "match_embedding_or_create x ?n ns all_entities w = (Inr e, w')"
        using assms(1) ne none fz by (auto simp: resolve_single_def match_exact_def match_fuzzy_def Let_def run_iffs)
      from match_embedding_cases [OF this] obtain v u where vec: "w_db u = w_db w"
        and cases: "(\<exists>p. find_entity_by_point_id all_entities p = Some e \<and> add_alias_op x (ent_id e) ?n u = (Inr (), w'))
          \<or> (\<exists>t. create_entity x ?n u = (Inr e, t) \<and> upsert_entity_point x e ns v t = (Inr (), w'))"
        by blast
      from cases show ?thesis
      proof
        assume "\<exists>p. find_entity_by_point_id all_entities p = Some e \<and> add_alias_op x (ent_id e) ?n u = (Inr (), w')"
        then obtain p where p: "find_entity_by_point_id all_entities p = Some e"
            "add_alias_op x (ent_id e) ?n u = (Inr (), w')" by blast
        have "e \<in> set all_entities"
          using p(1) by (auto simp: find_entity_by_point_id_def find_Some_iff)
        then show ?thesis using alias_op_found [OF p(2)] None vec assms(2) by simp
      next
        assume "\<exists>t. create_entity x ?n u = (Inr e, t) \<and> upsert_entity_point x e ns v t = (Inr (), w')"
        then obtain t where t: "create_entity x ?n u = (Inr e, t)" "upsert_entity_point x e ns v t = (Inr (), w')"
          by blast
        have "found_as ?n (ent_id e) (w_db t)" using create_found [OF t(1)] None vec by simp
        moreover have "w_db w' = w_db t"
          using t(2) by (auto simp: upsert_entity_point_def run_iffs split: option.splits)
        ultimately show ?thesis by simp
      qed
    qed
  qed
  with ne show ?thesis by simp
qed

text \<open>
  Resolving a name is stable: once it has succeeded, the same name, in any spelling with the
  same normalised text, resolves to the same entity in the resulting database, in whatever
  namespace and with whatever snapshot of the entities, and that second resolution changes
  nothing.
\<close>

theorem resolve_single_stable:
  assumes "resolve_single x name ns all_entities w = (Inr e, w')"
    and "\<forall>a\<in>set all_entities. entity_known (ent_id a) (w_db w)"
    and "normalize_name name' = normalize_name name"
  shows "\<exists>e'. resolve_single x name' ns' all' w' = (Inr e', w') \<and> ent_id e' = ent_id e"
  using resolve_single_found [OF assms(1,2)] assms(3)
  by (auto simp: found_as_def resolve_single_def match_exact_def get_entity_by_name_def Let_def m_bind_def
      row_to_entity_without_aliases_def)

theorem resolve_single_stable_witness:
  "\<exists>e'. resolve_single demo_ext '' ANN '' ''other'' [] (demo_world linked_db) = (Inr e', demo_world linked_db)
      \<and> ent_id e' = ''e''"
proof -
  have n: "normalize_name ''Ann'' = ''ann''" "normalize_name '' ANN '' = ''ann''" by code_simp+
  let ?e = "\<lparr> ent_id = ''e'', ent_name = ''ann'', ent_aliases = [], ent_type = None,
      ent_created_at = 0, ent_updated_at = 0 \<rparr>"
  have "resolve_single demo_ext ''Ann'' ''default'' [] (demo_world linked_db) = (Inr ?e, demo_world linked_db)"
    by (simp add: resolve_single_def n match_exact_def m_bind_def get_entity_by_name_def find_entity_row_def Let_def
        linked_db_def empty_db_def row_to_entity_without_aliases_def aliases_of_def)
  from resolve_single_stable [OF this, of "'' ANN ''" "''other''" "[]"] n show ?thesis by simp
qed

lemma resolve_names_known:
  assumes "resolve_names x ns es names w = (Inr res, w')" and "\<forall>a\<in>set es. entity_known (ent_id a) (w_db w)"
  shows "length res = length names \<and> (\<forall>e\<in>set res. entity_known (ent_id e) (w_db w'))
    \<and> list_all2 (\<lambda>name e. normalize_name name \<noteq> []) names res"
  using assms
proof (induction x ns es names arbitrary: res w rule: resolve_names.induct)
  case (1 x ns es)
  then show ?case by simp
next
  case (2 x ns es name names)
  let ?es = "\<lambda>e. if ent_id e \<in> ent_id ` set es then es else es @ [e]"
  obtain e t rest where run: "resolve_single x name ns es w = (Inr e, t)"
      "resolve_names x ns (?es e) names t = (Inr rest, w')" "res = e # rest"
    using "2.prems"(1) by (auto simp: m_bind_ok_iff)
  have found: "normalize_name name \<noteq> []" "entity_known (ent_id e) (w_db t)"
    using resolve_single_found [OF run(1) "2.prems"(2)] found_known by blast+
  have "\<forall>a\<in>set es. entity_known (ent_id a) (w_db t)"
    using "2.prems"(2) keepsD_run [OF known.resolve_single_keeps _ run(1)] by blast
  then have "\<forall>a\<in>set (?es e). entity_known (ent_id a) (w_db t)"
    using found(2) by auto
  from "2.IH" [OF run(2) this] found run(3)
    keepsD_run [OF known.resolve_names_keeps found(2) run(2)]
  show ?case by simp
qed

lemma all_entities_known: "\<forall>a\<in>set (get_all_entities d). entity_known (ent_id a) d"
  by (auto simp: get_all_entities_def entity_known_def row_keys_def row_to_entity_without_aliases_def)

lemma resolve_entities_known:
  "resolve_entities x ns names w = (Inr es, w') \<Longrightarrow>
     length es = length names \<and> (\<forall>e\<in>set es. entity_known (ent_id e) (w_db w'))"
  unfolding resolve_entities_def m_bind_ok_iff from_db_run
  using resolve_names_known [OF _ all_entities_known] by fastforce

end
