(* ===== verification/StorePipeline.thy ===== *)
theory StorePipeline
  imports Entity
begin

text \<open>
  Storing a memory: the stages of \<open>crates/core/src/pipeline\<close> and \<open>MemoryService::store\<close>
  (\<open>service/store.rs\<close>). The dual write is given as the list of its four effects, so that a crash
  between two of them is a prefix of the list.
\<close>

record store_ctx =
  sx_req :: store_request
  sx_namespace :: string
  sx_memory_type :: memory_type
  sx_now :: time
  sx_id :: string
  sx_normalized_predicate :: "string option"
  sx_embedding :: "real list option"
  sx_search_text :: "string option"
  sx_resolved_entities :: "entity list"
  sx_superseded_ids :: "string list"
  sx_normalizer :: normalizer
  sx_dedup :: dedup_config
  sx_conflict :: conflict_config

definition store_context_new ::
    "('q, 'e, 'r) ext \<Rightarrow> store_request \<Rightarrow> string \<Rightarrow> memory_type \<Rightarrow> normalizer \<Rightarrow> dedup_config \<Rightarrow> conflict_config \<Rightarrow>
     ('q, 'e, 'r, store_ctx) op" where
  "store_context_new x req ns t normalizer dedup conflict =
     m_bind (now_op x) (\<lambda>now. m_bind (new_uuid x) (\<lambda>i. m_ret
       \<lparr> sx_req = req, sx_namespace = ns, sx_memory_type = t, sx_now = now, sx_id = i,
         sx_normalized_predicate = None, sx_embedding = None, sx_search_text = None,
         sx_resolved_entities = [], sx_superseded_ids = [], sx_normalizer = normalizer,
         sx_dedup = dedup, sx_conflict = conflict \<rparr>))"

section \<open>Validation\<close>

definition MAX_CONTENT_LENGTH :: nat where "MAX_CONTENT_LENGTH = 4096"
definition MAX_SUBJECT_LENGTH :: nat where "MAX_SUBJECT_LENGTH = 512"
definition MAX_PREDICATE_LENGTH :: nat where "MAX_PREDICATE_LENGTH = 256"
definition MAX_OBJECT_LENGTH :: nat where "MAX_OBJECT_LENGTH = 4096"
definition MAX_ENTITIES_PER_REQUEST :: nat where "MAX_ENTITIES_PER_REQUEST = 50"

definition non_empty :: "string option \<Rightarrow> bool" where
  "non_empty s \<longleftrightarrow> (case s of None \<Rightarrow> False | Some t \<Rightarrow> t \<noteq> [])"

definition longer :: "nat \<Rightarrow> string option \<Rightarrow> bool" where
  "longer n s \<longleftrightarrow> (case s of None \<Rightarrow> False | Some t \<Rightarrow> n < length t)"

definition over_limit :: "string \<Rightarrow> nat \<Rightarrow> core_error" where
  "over_limit field n = Validation (field @ '' exceeds '' @ show_nat n @ '' byte limit'')"

definition validate_supersedes :: "('q, 'e, 'r) ext \<Rightarrow> store_ctx \<Rightarrow> core_error + unit" where
  "validate_supersedes x ctx =
     (case sr_supersedes (sx_req ctx) of
        None \<Rightarrow> Inr ()
      | Some s \<Rightarrow> (case x_parse_uuid x s of None \<Rightarrow> Inl (Validation (''invalid supersedes UUID: '' @ s)) | Some _ \<Rightarrow> Inr ()))"

definition validate_store :: "('q, 'e, 'r) ext \<Rightarrow> store_ctx \<Rightarrow> core_error + unit" where
  "validate_store x ctx =
     (let req = sx_req ctx in
      if MAX_ENTITIES_PER_REQUEST < length (sr_entities req) then
        Inl (Validation (''too many entities: '' @ show_nat (length (sr_entities req)) @ '' exceeds limit of ''
          @ show_nat MAX_ENTITIES_PER_REQUEST))
      else if sx_memory_type ctx \<noteq> Semantic then
        (if \<not> non_empty (sr_content req) then
           Inl (Validation (mt_as_str (sx_memory_type ctx) @ '' memory requires content''))
         else if longer MAX_CONTENT_LENGTH (sr_content req) then Inl (over_limit ''content'' MAX_CONTENT_LENGTH)
         else validate_supersedes x ctx)
      else if \<not> non_empty (sr_subject req) \<or> \<not> non_empty (sr_predicate req) \<or> \<not> non_empty (sr_object req) then
        Inl (Validation ''semantic memory requires non-empty subject, predicate, and object'')
      else if longer MAX_SUBJECT_LENGTH (sr_subject req) then Inl (over_limit ''subject'' MAX_SUBJECT_LENGTH)
      else if longer MAX_PREDICATE_LENGTH (sr_predicate req) then Inl (over_limit ''predicate'' MAX_PREDICATE_LENGTH)
      else if longer MAX_OBJECT_LENGTH (sr_object req) then Inl (over_limit ''object'' MAX_OBJECT_LENGTH)
      else validate_supersedes x ctx)"

section \<open>Normalisation, embedding, duplicates\<close>

definition normalize_predicate_stage :: "('q, 'e, 'r) ext \<Rightarrow> store_ctx \<Rightarrow> core_error + store_ctx" where
  "normalize_predicate_stage x ctx =
     (if sx_memory_type ctx \<noteq> Semantic then Inr ctx
      else case sr_predicate (sx_req ctx) of
        None \<Rightarrow> Inl (Validation ''semantic predicate missing'')
      | Some p \<Rightarrow> Inr (ctx\<lparr>sx_normalized_predicate :=
          Some (normalize_predicate (x_jaro_winkler x) (sx_normalizer ctx) p)\<rparr>))"

definition or_empty :: "string option \<Rightarrow> string" where
  "or_empty s = (case s of None \<Rightarrow> [] | Some t \<Rightarrow> t)"

definition build_searchable_text :: "store_ctx \<Rightarrow> string" where
  "build_searchable_text ctx =
     (if sx_memory_type ctx = Semantic
      then or_empty (sr_subject (sx_req ctx)) @ '' '' @ or_empty (sr_predicate (sx_req ctx)) @ '' ''
           @ or_empty (sr_object (sx_req ctx))
      else or_empty (sr_content (sx_req ctx)))"

definition embed_stage :: "('q, 'e, 'r) ext \<Rightarrow> store_ctx \<Rightarrow> ('q, 'e, 'r, store_ctx) op" where
  "embed_stage x ctx =
     (let search_text = build_searchable_text ctx in
      m_bind (embed_op x search_text) (\<lambda>embedding.
        m_ret (ctx\<lparr>sx_search_text := Some search_text, sx_embedding := Some embedding\<rparr>)))"

definition TOP_K :: nat where "TOP_K = 5"

definition dedup_filter_for :: "memory_type \<Rightarrow> qfilter" where
  "dedup_filter_for t = \<lparr> qf_must = [MatchKeyword ''point_type'' ''memory'', MatchKeyword ''memory_type'' (mt_as_str t)],
     qf_should = [] \<rparr>"

definition dedup_stage :: "('q, 'e, 'r) ext \<Rightarrow> store_ctx \<Rightarrow> ('q, 'e, 'r, unit) op" where
  "dedup_stage x ctx =
     (if sx_memory_type ctx = Semantic then m_ret ()
      else case sx_embedding ctx of
        None \<Rightarrow> m_fail (Validation ''dedup stage requires embedding'')
      | Some embedding \<Rightarrow>
          m_bind (on_vs (v_search_dense x (sx_namespace ctx) embedding TOP_K
              (Some (dedup_filter_for (sx_memory_type ctx))))) (\<lambda>results.
            case results of
              (i, score) # _ \<Rightarrow> if dc_threshold (sx_dedup ctx) \<le> score then m_fail (Duplicate i score) else m_ret ()
            | [] \<Rightarrow> m_ret ()))"

section \<open>Conflicts\<close>

datatype classification =
    NoConflict
  | DuplicateOf string real
  | UpdateOf string
  | AmbiguousWith string real
  | MultiMatch "string list"

definition normalize_object :: "string \<Rightarrow> string" where
  "normalize_object s = to_lowercase (trim s)"

definition classify ::
    "(string \<Rightarrow> string \<Rightarrow> real) \<Rightarrow> string \<Rightarrow> memory list \<Rightarrow> conflict_config \<Rightarrow> classification" where
  "classify jw incoming_object existing cfg =
     (case existing of
        [] \<Rightarrow> NoConflict
      | _ # _ # _ \<Rightarrow> MultiMatch (map mem_id existing)
      | [candidate] \<Rightarrow>
         let norm_in = normalize_object incoming_object;
             norm_ex = normalize_object (or_empty (mem_object candidate));
             ratio = jw norm_in norm_ex
         in if norm_in = norm_ex then DuplicateOf (mem_id candidate) 1
            else if object_fuzzy_duplicate cfg \<le> ratio then DuplicateOf (mem_id candidate) ratio
            else if ratio < object_fuzzy_update cfg then UpdateOf (mem_id candidate)
            else AmbiguousWith (mem_id candidate) ratio)"

definition conflict_stage :: "('q, 'e, 'r) ext \<Rightarrow> store_ctx \<Rightarrow> ('q, 'e, 'r, store_ctx) op" where
  "conflict_stage x ctx =
     (if sx_memory_type ctx \<noteq> Semantic then m_ret ctx
      else let subject = trim (to_lowercase (or_empty (sr_subject (sx_req ctx)))) in
        case sx_normalized_predicate ctx of
          None \<Rightarrow> m_fail (Validation ''conflict stage requires normalized predicate'')
        | Some p \<Rightarrow>
           m_bind (from_db (get_memories_by_subject_predicate subject p)) (\<lambda>existing.
             case classify (x_jaro_winkler x) (or_empty (sr_object (sx_req ctx))) existing (sx_conflict ctx) of
               NoConflict \<Rightarrow> m_ret ctx
             | DuplicateOf i s \<Rightarrow> m_fail (Duplicate i s)
             | UpdateOf i \<Rightarrow> m_ret (ctx\<lparr>sx_superseded_ids := sx_superseded_ids ctx @ [i]\<rparr>)
             | AmbiguousWith i r \<Rightarrow> m_fail (ConflictAmbiguous i r)
             | MultiMatch ids \<Rightarrow> m_fail (MultiMatchConflict ids)))"

definition resolve_stage :: "('q, 'e, 'r) ext \<Rightarrow> store_ctx \<Rightarrow> ('q, 'e, 'r, store_ctx) op" where
  "resolve_stage x ctx =
     (if sr_entities (sx_req ctx) = [] then m_ret ctx
      else m_then (on_vs (ensure_collection x (sx_namespace ctx)))
        (m_bind (resolve_entities x (sx_namespace ctx) (sr_entities (sx_req ctx))) (\<lambda>es.
           m_ret (ctx\<lparr>sx_resolved_entities := es\<rparr>))))"

section \<open>The dual write\<close>

definition build_memory :: "store_ctx \<Rightarrow> memory" where
  "build_memory ctx =
     (let req = sx_req ctx in
      \<lparr> mem_id = sx_id ctx, mem_namespace = sx_namespace ctx, mem_type = sx_memory_type ctx,
        mem_content = sr_content req,
        mem_subject = map_option (\<lambda>s. to_lowercase (trim s)) (sr_subject req),
        mem_predicate = sr_predicate req, mem_object = sr_object req,
        mem_confidence = (case sr_confidence req of None \<Rightarrow> 1 | Some c \<Rightarrow> clamp 0 1 c),
        mem_source = sr_source req, mem_context = sr_context req,
        mem_entities = map ent_name (sx_resolved_entities ctx),
        mem_created_at = sx_now ctx, mem_updated_at = sx_now ctx,
        mem_t_valid = None, mem_t_invalid = None,
        mem_last_accessed = sx_now ctx, mem_last_validated = None, mem_access_count = 0,
        mem_normalized_predicate = sx_normalized_predicate ctx \<rparr>)"

definition write_payload :: "('q, 'e, 'r) ext \<Rightarrow> memory \<Rightarrow> string \<Rightarrow> (string \<times> json) list" where
  "write_payload x m search_text =
     [(''memory_id'', JStr (mem_id m)), (''memory_type'', JStr (mt_as_str (mem_type m))),
      (''namespace'', JStr (mem_namespace m)), (''searchable_text'', JStr search_text),
      (''entities'', JArr (map JStr (mem_entities m))), (''created_at'', JStr (x_rfc3339 x (mem_created_at m))),
      (''point_type'', JStr ''memory'')]"

definition invalidate_ids :: "store_ctx \<Rightarrow> string option \<Rightarrow> string list" where
  "invalidate_ids ctx target_id = sx_superseded_ids ctx @ (case target_id of None \<Rightarrow> [] | Some t \<Rightarrow> [t])"

definition write_effects ::
    "('q, 'e, 'r) ext \<Rightarrow> store_ctx \<Rightarrow> string option \<Rightarrow> real list \<Rightarrow> pending_op \<Rightarrow> ('q, 'e, 'r, unit) op list" where
  "write_effects x ctx target_id embedding op =
     (let m = build_memory ctx; search_text = or_empty (sx_search_text ctx) in
      [ on_db (insert_pending_op op),
        on_vs (v_upsert x (mem_namespace m) (sx_id ctx) embedding search_text (write_payload x m search_text)),
        on_db (mark_pending_op_qdrant_written (po_op_id op)),
        m_bind (now_op x) (\<lambda>completed_at.
          on_db (commit_memory_write m (map ent_id (sx_resolved_entities ctx)) (invalidate_ids ctx target_id)
            (sx_now ctx) (into_completed op (mem_id m) (mem_namespace m) completed_at))) ])"

definition journal_entry ::
    "store_ctx \<Rightarrow> op_kind \<Rightarrow> string option \<Rightarrow> string \<Rightarrow> time \<Rightarrow> pending_op" where
  "journal_entry ctx kind target_id op_id started_at =
     \<lparr> po_op_id = op_id, po_kind = kind, po_memory_id = mem_id (build_memory ctx),
       po_namespace = mem_namespace (build_memory ctx), po_target_id = target_id,
       po_qdrant_written = False, po_started_at = started_at \<rparr>"

definition write_impl ::
    "('q, 'e, 'r) ext \<Rightarrow> store_ctx \<Rightarrow> op_kind \<Rightarrow> string option \<Rightarrow> ('q, 'e, 'r, memory) op" where
  "write_impl x ctx kind target_id =
     (case sx_embedding ctx of
        None \<Rightarrow> m_fail (Validation ''write stage requires embedding'')
      | Some embedding \<Rightarrow>
          m_bind (new_uuid x) (\<lambda>op_id. m_bind (now_op x) (\<lambda>started_at.
            m_then (m_seq (write_effects x ctx target_id embedding
                (journal_entry ctx kind target_id op_id started_at)))
              (m_ret (build_memory ctx)))))"

definition write_run :: "('q, 'e, 'r) ext \<Rightarrow> store_ctx \<Rightarrow> ('q, 'e, 'r, memory) op" where
  "write_run x ctx = write_impl x ctx OpStore None"

definition run_supersede :: "('q, 'e, 'r) ext \<Rightarrow> store_ctx \<Rightarrow> string \<Rightarrow> ('q, 'e, 'r, memory) op" where
  "run_supersede x ctx target_id = write_impl x ctx OpSupersede (Some target_id)"

section \<open>The operation\<close>

definition detect_memory_type :: "store_request \<Rightarrow> memory_type" where
  "detect_memory_type req =
     (case sr_memory_type req of
        Some t \<Rightarrow> t
      | None \<Rightarrow> if sr_subject req \<noteq> None \<and> sr_predicate req \<noteq> None \<and> sr_object req \<noteq> None then Semantic
               else Episodic)"

definition supersede_write :: "('q, 'e, 'r) ext \<Rightarrow> store_ctx \<Rightarrow> string \<Rightarrow> ('q, 'e, 'r, memory) op" where
  "supersede_write x ctx target_id =
     m_bind (from_db (get_memory target_id)) (\<lambda>found.
       case found of
         None \<Rightarrow> m_fail (Validation (''supersedes target not found: '' @ target_id))
       | Some target \<Rightarrow>
           if mem_namespace target \<noteq> sx_namespace ctx then
             m_fail (Validation (''supersedes target '' @ target_id @ '' is in namespace '' @ mem_namespace target
               @ '', not '' @ sx_namespace ctx))
           else if mem_t_invalid target \<noteq> None then
             m_fail (Validation (''supersedes target '' @ target_id @ '' is already invalidated''))
           else run_supersede x ctx target_id)"

text \<open>The stages up to the write: a context that may be written.\<close>

definition prepare_store :: "('q, 'e, 'r) ext \<Rightarrow> service \<Rightarrow> store_request \<Rightarrow> ('q, 'e, 'r, store_ctx) op" where
  "prepare_store x svc req =
     (let memory_type = detect_memory_type req;
          ns = (case sr_namespace req of None \<Rightarrow> cfg_namespace (svc_config svc) | Some n \<Rightarrow> n);
          normalizer = normalizer_for svc ns
      in m_then (on_vs (ensure_collection x ns))
        (m_bind (store_context_new x req ns memory_type normalizer
            (cfg_deduplication (svc_config svc)) (cfg_conflict (svc_config svc))) (\<lambda>ctx.
         m_then (m_of (validate_store x ctx))
        (m_bind (if memory_type = Semantic then m_of (normalize_predicate_stage x ctx) else m_ret ctx) (\<lambda>ctx.
         m_bind (embed_stage x ctx) (\<lambda>ctx.
         m_bind (if sr_supersedes req = None then m_then (dedup_stage x ctx) (conflict_stage x ctx) else m_ret ctx)
           (resolve_stage x)))))))"

definition store :: "('q, 'e, 'r) ext \<Rightarrow> service \<Rightarrow> store_request \<Rightarrow> ('q, 'e, 'r, store_response) op" where
  "store x svc req =
     m_bind (prepare_store x svc req) (\<lambda>ctx.
     m_bind (case sr_supersedes req of Some target_id \<Rightarrow> supersede_write x ctx target_id
             | None \<Rightarrow> write_run x ctx) (\<lambda>m.
     let superseded = (case sr_supersedes req of Some i \<Rightarrow> [i] | None \<Rightarrow> sx_superseded_ids ctx) in
     m_then (bump (sx_namespace ctx))
    (m_then (record_op x ''store'' (mt_as_str (sx_memory_type ctx)) ''ok'')
    (m_ret \<lparr> srs_id = mem_id m, srs_memory_type = mt_as_str (sx_memory_type ctx), srs_superseded = superseded \<rparr>))))"

end
