(* ===== verification/StoreLaws.thy ===== *)
theory StoreLaws
  imports StorePipeline
begin

text \<open>
  What \<open>MemoryService::store\<close> guarantees: what each prefix of the dual write leaves in the
  database, the effect of a successful store, what a failed one leaves behind, and the
  classification of conflicts.
\<close>

section \<open>The stages before the write\<close>

lemma quiet_stages:
  "db_keeps P (dedup_stage x ctx)" "db_keeps P (conflict_stage x ctx)" "db_keeps P (embed_stage x ctx)"
  "db_keeps P (store_context_new x req ns t nz dd cf)"
  unfolding dedup_stage_def conflict_stage_def embed_stage_def store_context_new_def Let_def
  by (auto intro!: keeps_intros split: option.splits list.splits classification.splits)

context entity_writes begin

lemma resolve_stage_keeps: "db_keeps P (resolve_stage x ctx)"
  unfolding resolve_stage_def by (intro keeps_intros resolve_entities_keeps)

lemma prepare_keeps: "db_keeps P (prepare_store x svc req)"
  unfolding prepare_store_def Let_def by (intro keeps_intros quiet_stages resolve_stage_keeps)

end

lemma prepare_cache: "cache_keeps P (prepare_store x svc req)"
proof -
  have "cache_keeps P (dedup_stage x ctx)" "cache_keeps P (conflict_stage x ctx)" "cache_keeps P (embed_stage x ctx)"
    "cache_keeps P (store_context_new x req ns t nz dd cf)" for ctx req ns t nz dd cf
    unfolding dedup_stage_def conflict_stage_def embed_stage_def store_context_new_def Let_def
    by (auto intro!: keeps_intros split: option.splits list.splits classification.splits)
  then show ?thesis
    unfolding prepare_store_def resolve_stage_def Let_def by (intro keeps_intros resolve_entities_cache)
qed

lemma prepare_frame:
  assumes "prepare_store x svc req w = (r, w')"
  shows "other_tables (w_db w') = other_tables (w_db w) \<and> w_cache w' = w_cache w"
  using keepsD_run [OF frame.prepare_keeps refl assms]
    keepsD_run [OF prepare_cache [where P = "\<lambda>c. c = w_cache w"] refl assms] by simp

section \<open>The prefixes of the dual write\<close>

text \<open>
  How far a write got, as the database shows it: nothing, an unmarked journal row, a row marked
  as written to Qdrant, or the commit.
\<close>

datatype write_progress = NotStarted | Journaled | QdrantWritten | Committed

definition progress_db :: "store_ctx \<Rightarrow> string option \<Rightarrow> pending_op \<Rightarrow> db \<Rightarrow> write_progress \<Rightarrow> db \<Rightarrow> bool" where
  "progress_db ctx target_id op d p d' \<longleftrightarrow>
     (case p of
        NotStarted \<Rightarrow> d' = d
      | Journaled \<Rightarrow> d' = d\<lparr>pending_ops := pending_ops d @ [pend_row_of op]\<rparr>
      | QdrantWritten \<Rightarrow> d' = d\<lparr>pending_ops := pending_ops d @ [pend_row_of (op\<lparr>po_qdrant_written := True\<rparr>)]\<rparr>
      | Committed \<Rightarrow> (\<exists>t. committed (build_memory ctx) (map ent_id (sx_resolved_entities ctx))
          (invalidate_ids ctx target_id) (sx_now ctx)
          (into_completed op (sx_id ctx) (sx_namespace ctx) t) d d'))
     \<and> (p \<noteq> NotStarted \<longrightarrow> po_op_id op \<notin> row_keys pr_op_id (pending_ops d))"

lemma build_memory_ids [simp]:
  "mem_id (build_memory ctx) = sx_id ctx" "mem_namespace (build_memory ctx) = sx_namespace ctx"
  by (simp_all add: build_memory_def Let_def)

lemma mark_last:
  "i \<notin> row_keys pr_op_id rows \<Longrightarrow>
     rows_upd (\<lambda>r. pr_op_id r = i) f (rows @ [r]) = rows @ [if pr_op_id r = i then f r else r]"
  unfolding rows_upd_def row_keys_def by (auto intro!: map_idI)

lemma mark_pend_row: "(pend_row_of op)\<lparr>pr_qdrant_written := 1\<rparr> = pend_row_of (op\<lparr>po_qdrant_written := True\<rparr>)"
  by (simp add: pend_row_of_def)

lemma pend_row_id [simp]: "pr_op_id (pend_row_of op) = po_op_id op"
  by (simp add: pend_row_of_def)

lemma into_completed_id [simp]: "co_op_id (into_completed op a b t) = po_op_id op"
  by (simp add: into_completed_def)

lemma commit_after_mark:
  assumes free: "po_op_id op \<notin> row_keys pr_op_id (pending_ops d)"
    and c: "committed m es ivs t (into_completed op a b t') (d\<lparr>pending_ops := pending_ops d @ [r]\<rparr>) d'"
    and r: "pr_op_id r = po_op_id op"
  shows "committed m es ivs t (into_completed op a b t') d d'"
proof -
  have "rows_del pr_op_id [po_op_id op] (pending_ops d @ [r]) = rows_del pr_op_id [po_op_id op] (pending_ops d)"
    using r by simp
  with c show ?thesis unfolding committed_def by auto
qed

lemma commit_iff_committed:
  assumes "db_ok d" and "commit_memory_write m es ivs t c d = (Inr u, d')"
  shows "committed m es ivs t c d d'"
  using commit_ok [of m d es ivs t c] commit_refused [OF assms(1), of m es ivs t c] assms(2)
  by (cases "mem_id m \<notin> row_keys r_id (memories d) \<and> set es \<subseteq> row_keys er_id (entities d)") auto

lemma commit_err_unchanged: "commit_memory_write m es ivs t c d = (Inl e, d') \<Longrightarrow> d' = d"
  unfolding commit_memory_write_def by (rule m_tx_err)

text \<open>
  What the first \<open>k\<close> of the last \<open>n\<close> effects leave behind, for each \<open>n\<close>: every prefix, whether it
  ran to its end or stopped at an error.
\<close>

definition outcome :: "nat \<Rightarrow> nat \<Rightarrow> store_ctx \<Rightarrow> string option \<Rightarrow> pending_op \<Rightarrow> db \<Rightarrow>
    core_error + unit \<Rightarrow> db \<Rightarrow> bool" where
  "outcome n k ctx target_id op d r d' \<longleftrightarrow>
     (\<exists>p. progress_db ctx target_id op d p d' \<and> (p = Committed \<longrightarrow> r = Inr ())
        \<and> (r = Inr () \<and> n \<le> k \<longrightarrow> p = Committed) \<and> (k < n \<longrightarrow> p \<noteq> Committed))"

lemma outcome_Suc: "outcome n k ctx target_id op d r d' \<Longrightarrow> outcome (Suc n) (Suc k) ctx target_id op d r d'"
  by (simp add: outcome_def)

lemma outcome_stopped:
  "progress_db ctx target_id op d p d' \<Longrightarrow> p \<noteq> Committed \<Longrightarrow> outcome n k ctx target_id op d (Inl e) d'"
  by (auto simp: outcome_def)

lemma outcome_0: "progress_db ctx target_id op d p d' \<Longrightarrow> p \<noteq> Committed \<Longrightarrow> outcome (Suc n) 0 ctx target_id op d r d'"
  by (auto simp: outcome_def)

abbreviation journaled_db :: "pending_op \<Rightarrow> bool \<Rightarrow> db \<Rightarrow> db" where
  "journaled_db op written d \<equiv> d\<lparr>pending_ops := pending_ops d @ [pend_row_of (op\<lparr>po_qdrant_written := written\<rparr>)]\<rparr>"

abbreviation commit_effect :: "('q, 'e, 'r) ext \<Rightarrow> store_ctx \<Rightarrow> string option \<Rightarrow> pending_op \<Rightarrow> ('q, 'e, 'r, unit) op" where
  "commit_effect x ctx target_id op \<equiv> m_bind (now_op x) (\<lambda>completed_at.
     on_db (commit_memory_write (build_memory ctx) (map ent_id (sx_resolved_entities ctx)) (invalidate_ids ctx target_id)
       (sx_now ctx) (into_completed op (sx_id ctx) (sx_namespace ctx) completed_at)))"

lemma commit_prefix:
  assumes "db_ok d" and free: "po_op_id op \<notin> row_keys pr_op_id (pending_ops d)"
    and w: "w_db w = journaled_db op True d"
    and run: "m_seq (take k [commit_effect x ctx target_id op]) w = (r, w')"
  shows "outcome 1 k ctx target_id op d r (w_db w') \<and> w_cache w' = w_cache w"
proof -
  have marked: "progress_db ctx target_id op d QdrantWritten (journaled_db op True d)"
    using free by (simp add: progress_db_def)
  have ok: "db_ok (journaled_db op True d)" using assms(1) free by (auto simp: db_ok_def row_keys_def)
  show ?thesis
  proof (cases k)
    case 0
    with run w outcome_0 [OF marked] show ?thesis by auto
  next
    case (Suc k')
    from run [unfolded Suc] show ?thesis
    proof (cases rule: m_seq_take_cases)
      case (stopped e)
      then have "w_db w' = journaled_db op True d \<and> w_cache w' = w_cache w"
        using w commit_err_unchanged by (auto simp: m_bind_def on_db_err_iff)
      with stopped outcome_stopped [OF marked] show ?thesis by auto
    next
      case (went_on u)
      then obtain d' where d': "commit_memory_write (build_memory ctx) (map ent_id (sx_resolved_entities ctx))
          (invalidate_ids ctx target_id) (sx_now ctx) (into_completed op (sx_id ctx) (sx_namespace ctx) (x_now x (w_clock w)))
          (journaled_db op True d) = (Inr (), d')" "w_db w' = d'" "w_cache w' = w_cache w" "r = Inr ()"
        using w by (auto simp: m_bind_def on_db_ok_iff)
      have "progress_db ctx target_id op d Committed d'"
        using commit_after_mark [OF free commit_iff_committed [OF ok d'(1)]] free by (auto simp: progress_db_def)
      with d' Suc show ?thesis by (auto simp: outcome_def)
    qed
  qed
qed

lemma mark_prefix:
  assumes "db_ok d" and free: "po_op_id op \<notin> row_keys pr_op_id (pending_ops d)"
    and w: "w_db w = journaled_db op False d"
    and run: "m_seq (take k [on_db (mark_pending_op_qdrant_written (po_op_id op)), commit_effect x ctx target_id op]) w = (r, w')"
    and unmarked: "\<not> po_qdrant_written op"
  shows "outcome 2 k ctx target_id op d r (w_db w') \<and> w_cache w' = w_cache w"
proof -
  have op: "op\<lparr>po_qdrant_written := False\<rparr> = op" using unmarked by (cases op) simp
  have journaled: "progress_db ctx target_id op d Journaled (journaled_db op False d)"
    using free by (simp add: progress_db_def op)
  have mark: "on_db (mark_pending_op_qdrant_written (po_op_id op)) w = (Inr (), w\<lparr>w_db := journaled_db op True d\<rparr>)"
    using free w by (simp add: on_db_run mark_pending_op_qdrant_written_def mark_last mark_pend_row)
  show ?thesis
  proof (cases k)
    case 0
    with run w outcome_0 [OF journaled, of 1] show ?thesis by (auto simp: numeral_2_eq_2)
  next
    case (Suc k')
    then have "m_seq (take k' [commit_effect x ctx target_id op]) (w\<lparr>w_db := journaled_db op True d\<rparr>) = (r, w')"
      using run by (simp add: m_then_def m_bind_def [of "on_db _"] mark)
    from commit_prefix [OF assms(1) free _ this] Suc show ?thesis
      by (auto simp: numeral_2_eq_2 dest: outcome_Suc)
  qed
qed

lemma upsert_prefix:
  assumes "db_ok d" and free: "po_op_id op \<notin> row_keys pr_op_id (pending_ops d)"
    and w: "w_db w = journaled_db op False d"
    and run: "m_seq (take k [on_vs v, on_db (mark_pending_op_qdrant_written (po_op_id op)),
        commit_effect x ctx target_id op]) w = (r, w')"
    and unmarked: "\<not> po_qdrant_written op"
  shows "outcome 3 k ctx target_id op d r (w_db w') \<and> w_cache w' = w_cache w"
proof -
  have op: "op\<lparr>po_qdrant_written := False\<rparr> = op" using unmarked by (cases op) simp
  have journaled: "progress_db ctx target_id op d Journaled (journaled_db op False d)"
    using free by (simp add: progress_db_def op)
  have kept: "w_db u = w_db w \<and> w_cache u = w_cache w" if "on_vs v w = (q, u)" for q u
    using on_vs_db [of v w] on_vs_cache [of v w] that by simp
  show ?thesis
  proof (cases k)
    case 0
    with run w outcome_0 [OF journaled, of 2] show ?thesis by (auto simp: numeral_3_eq_3 numeral_2_eq_2)
  next
    case (Suc k')
    from run [unfolded Suc] show ?thesis
    proof (cases rule: m_seq_take_cases)
      case (stopped e)
      with kept w outcome_stopped [OF journaled] show ?thesis by auto
    next
      case (went_on u)
      have "w_db u = journaled_db op False d" using kept [OF went_on(1)] w by simp
      from mark_prefix [OF assms(1) free this went_on(2) unmarked] kept [OF went_on(1)] Suc show ?thesis
        by (auto simp: numeral_3_eq_3 numeral_2_eq_2 dest: outcome_Suc)
    qed
  qed
qed

lemma write_prefix:
  assumes "db_ok (w_db w)" and unmarked: "\<not> po_qdrant_written op"
    and run: "m_seq (take k (write_effects x ctx target_id embedding op)) w = (r, w')"
  shows "outcome 4 k ctx target_id op (w_db w) r (w_db w') \<and> w_cache w' = w_cache w"
proof -
  have op: "op\<lparr>po_qdrant_written := False\<rparr> = op" using unmarked by (cases op) simp
  have none: "progress_db ctx target_id op (w_db w) NotStarted (w_db w)" by (simp add: progress_db_def)
  obtain v where effects: "write_effects x ctx target_id embedding op = [on_db (insert_pending_op op), on_vs v,
      on_db (mark_pending_op_qdrant_written (po_op_id op)), commit_effect x ctx target_id op]"
    by (simp add: write_effects_def Let_def)
  show ?thesis
  proof (cases k)
    case 0
    with run outcome_0 [OF none, of 3] show ?thesis by (auto simp: numeral_eq_Suc)
  next
    case (Suc k')
    from run [unfolded Suc effects] show ?thesis
    proof (cases rule: m_seq_take_cases)
      case (stopped e)
      then have "w' = w" by (auto simp: on_db_err_iff insert_pending_op_def split: if_splits)
      with stopped outcome_stopped [OF none] show ?thesis by auto
    next
      case (went_on u)
      then have "po_op_id op \<notin> row_keys pr_op_id (pending_ops (w_db w))" "w_db u = journaled_db op False (w_db w)"
          "w_cache u = w_cache w"
        by (auto simp: on_db_ok_iff insert_pending_op_def op split: if_splits)
      with upsert_prefix [OF assms(1) _ _ went_on(2) unmarked] Suc show ?thesis
        by (auto simp: numeral_eq_Suc dest: outcome_Suc)
    qed
  qed
qed

section \<open>A context that is ready to be written\<close>

text \<open>The live facts a new one is compared with, in the whole database.\<close>

definition rivals :: "store_request \<Rightarrow> string \<Rightarrow> db \<Rightarrow> memory list" where
  "rivals req p d = get_memories_by_subject_predicate (trim (to_lowercase (or_empty (sr_subject req)))) p d"

definition supersedes_one :: "('q, 'e, 'r) ext \<Rightarrow> store_ctx \<Rightarrow> db \<Rightarrow> bool" where
  "supersedes_one x ctx d \<longleftrightarrow> (\<exists>p old. sx_normalized_predicate ctx = Some p \<and> rivals (sx_req ctx) p d = [old]
     \<and> sx_superseded_ids ctx = [mem_id old]
     \<and> normalize_object (or_empty (sr_object (sx_req ctx))) \<noteq> normalize_object (or_empty (mem_object old))
     \<and> x_jaro_winkler x (normalize_object (or_empty (sr_object (sx_req ctx)))) (normalize_object (or_empty (mem_object old)))
         < object_fuzzy_update (sx_conflict ctx))"

lemma classify_cases:
  "classify jw obj existing cfg = NoConflict \<Longrightarrow> existing = []"
  "classify jw obj existing cfg = UpdateOf i \<Longrightarrow> \<exists>old. existing = [old] \<and> i = mem_id old
     \<and> normalize_object obj \<noteq> normalize_object (or_empty (mem_object old))
     \<and> jw (normalize_object obj) (normalize_object (or_empty (mem_object old))) < object_fuzzy_update cfg"
  by (auto simp: classify_def Let_def split: list.splits if_splits)

lemma conflict_stage_ok:
  assumes "conflict_stage x ctx w = (Inr ctx', w')" and "sx_superseded_ids ctx = []"
  shows "w' = w \<and> ctx' = ctx\<lparr>sx_superseded_ids := sx_superseded_ids ctx'\<rparr>
    \<and> (sx_memory_type ctx \<noteq> Semantic \<and> sx_superseded_ids ctx' = []
       \<or> (\<exists>p. sx_memory_type ctx = Semantic \<and> sx_normalized_predicate ctx = Some p
             \<and> rivals (sx_req ctx) p (w_db w) = [] \<and> sx_superseded_ids ctx' = [])
       \<or> sx_memory_type ctx = Semantic \<and> supersedes_one x ctx' (w_db w))"
proof (cases "sx_memory_type ctx = Semantic")
  case False
  with assms show ?thesis by (simp add: conflict_stage_def)
next
  case True
  with assms obtain p where p: "sx_normalized_predicate ctx = Some p"
    by (auto simp: conflict_stage_def Let_def split: option.splits)
  let ?c = "classify (x_jaro_winkler x) (or_empty (sr_object (sx_req ctx))) (rivals (sx_req ctx) p (w_db w)) (sx_conflict ctx)"
  have "?c = NoConflict \<and> ctx' = ctx \<and> w' = w \<or> (\<exists>i. ?c = UpdateOf i \<and> ctx' = ctx\<lparr>sx_superseded_ids := [i]\<rparr> \<and> w' = w)"
    using assms True p
    by (auto simp: conflict_stage_def rivals_def Let_def m_bind_ok_iff split: classification.splits)
  then show ?thesis
  proof (elim disjE exE conjE)
    assume "?c = NoConflict" "ctx' = ctx" "w' = w"
    with classify_cases(1) [of "x_jaro_winkler x"] p True assms(2) show ?thesis by auto
  next
    fix i assume "?c = UpdateOf i" "ctx' = ctx\<lparr>sx_superseded_ids := [i]\<rparr>" "w' = w"
    with classify_cases(2) [of "x_jaro_winkler x"] p True show ?thesis
      by (fastforce simp: supersedes_one_def)
  qed
qed

definition store_namespace :: "service \<Rightarrow> store_request \<Rightarrow> string" where
  "store_namespace svc req = (case sr_namespace req of None \<Rightarrow> cfg_namespace (svc_config svc) | Some n \<Rightarrow> n)"

definition ready_to_write :: "('q, 'e, 'r) ext \<Rightarrow> service \<Rightarrow> store_request \<Rightarrow> db \<Rightarrow> store_ctx \<Rightarrow> bool" where
  "ready_to_write x svc req d ctx \<longleftrightarrow>
     sx_req ctx = req \<and> sx_namespace ctx = store_namespace svc req \<and> sx_memory_type ctx = detect_memory_type req
     \<and> sx_embedding ctx \<noteq> None \<and> sx_conflict ctx = cfg_conflict (svc_config svc)
     \<and> (if detect_memory_type req = Semantic
        then \<exists>p. sr_predicate req = Some p \<and> sx_normalized_predicate ctx =
            Some (normalize_predicate (x_jaro_winkler x) (normalizer_for svc (store_namespace svc req)) p)
        else sx_normalized_predicate ctx = None)
     \<and> (if sr_supersedes req \<noteq> None then sx_superseded_ids ctx = []
        else if detect_memory_type req \<noteq> Semantic then sx_superseded_ids ctx = []
        else (\<exists>p. sx_normalized_predicate ctx = Some p \<and> rivals req p d = [] \<and> sx_superseded_ids ctx = [])
             \<or> supersedes_one x ctx d)"

lemma validate_ctx_only:
  "sx_req c = sx_req c' \<Longrightarrow> sx_memory_type c = sx_memory_type c' \<Longrightarrow> validate_store x c = validate_store x c'"
  by (simp add: validate_store_def validate_supersedes_def Let_def)

lemma resolve_stage_ok:
  assumes "resolve_stage x ctx w = (Inr ctx', w')" and "sx_resolved_entities ctx = []"
  shows "ctx' = ctx\<lparr>sx_resolved_entities := sx_resolved_entities ctx'\<rparr>
    \<and> (\<forall>e\<in>set (sx_resolved_entities ctx'). entity_known (ent_id e) (w_db w'))
    \<and> length (sx_resolved_entities ctx') = length (sr_entities (sx_req ctx))"
  using assms resolve_entities_known
  by (auto simp: resolve_stage_def run_iffs split: if_splits) blast+

lemma no_db_write:
  assumes "\<And>P. db_keeps P m" and "m w = (r, w')"
  shows "w_db w' = w_db w"
  using keepsD_run [OF assms(1) [where P = "\<lambda>d. d = w_db w"] refl assms(2)] .

lemma prepare_ok:
  assumes "prepare_store x svc req w = (Inr ctx, w')"
  shows "ready_to_write x svc req (w_db w) ctx
    \<and> (\<forall>e\<in>set (sx_resolved_entities ctx). entity_known (ent_id e) (w_db w'))
    \<and> length (sx_resolved_entities ctx) = length (sr_entities req) \<and> validate_store x ctx = Inr ()"
proof -
  let ?t = "detect_memory_type req" and ?ns = "store_namespace svc req"
  obtain u w1 c0 w2 v c1 w3 c2 w4 c3 w5 where
    ens: "on_vs (ensure_collection x ?ns) w = (Inr u, w1)" and
    new: "store_context_new x req ?ns ?t (normalizer_for svc ?ns) (cfg_deduplication (svc_config svc))
        (cfg_conflict (svc_config svc)) w1 = (Inr c0, w2)" and
    val: "validate_store x c0 = Inr v" and
    norm: "(if ?t = Semantic then m_of (normalize_predicate_stage x c0) else m_ret c0) w2 = (Inr c1, w3)" and
    emb: "embed_stage x c1 w3 = (Inr c2, w4)" and
    conf: "(if sr_supersedes req = None then m_then (dedup_stage x c2) (conflict_stage x c2) else m_ret c2) w4 = (Inr c3, w5)" and
    res: "resolve_stage x c3 w5 = (Inr ctx, w')"
    using assms unfolding prepare_store_def store_namespace_def [symmetric] Let_def m_bind_ok_iff m_then_ok_iff m_of_run
      prod.inject
    by (elim exE conjE) (rule that, assumption+, fastforce+)
  have d1: "w_db w1 = w_db w" using ens by (auto simp: on_vs_ok_iff)
  have d2: "w_db w2 = w_db w1" by (rule no_db_write [OF quiet_stages(4) new])
  have d3: "w_db w3 = w_db w2" using norm by (auto split: if_splits)
  have d4: "w_db w4 = w_db w3" by (rule no_db_write [OF quiet_stages(3) emb])
  have c0: "sx_req c0 = req" "sx_namespace c0 = ?ns" "sx_memory_type c0 = ?t" "sx_normalizer c0 = normalizer_for svc ?ns"
      "sx_conflict c0 = cfg_conflict (svc_config svc)" "sx_normalized_predicate c0 = None" "sx_superseded_ids c0 = []"
      "sx_resolved_entities c0 = []"
    using new by (auto simp: store_context_new_def m_bind_ok_iff)
  have c1: "c1 = c0\<lparr>sx_normalized_predicate := sx_normalized_predicate c1\<rparr>"
      "if ?t = Semantic then \<exists>p. sr_predicate req = Some p \<and> sx_normalized_predicate c1 =
         Some (normalize_predicate (x_jaro_winkler x) (normalizer_for svc ?ns) p) else sx_normalized_predicate c1 = None"
    using norm c0 by (auto simp: normalize_predicate_stage_def split: if_splits option.splits)
  have c2: "c2 = c1\<lparr>sx_search_text := sx_search_text c2, sx_embedding := sx_embedding c2\<rparr>" "sx_embedding c2 \<noteq> None"
    using emb by (auto simp: embed_stage_def Let_def m_bind_ok_iff)
  have c2s: "sx_req c2 = req" "sx_memory_type c2 = ?t" "sx_superseded_ids c2 = []" "sx_resolved_entities c2 = []"
      "sx_normalized_predicate c2 = sx_normalized_predicate c1" "sx_conflict c2 = sx_conflict c0" "sx_namespace c2 = ?ns"
    using c2(1) c1(1) c0 by (metis store_ctx.select_convs store_ctx.surjective store_ctx.update_convs)+
  have db4: "w_db w4 = w_db w" using d1 d2 d3 d4 by simp
  have c3: "c3 = c2\<lparr>sx_superseded_ids := sx_superseded_ids c3\<rparr>
    \<and> (if sr_supersedes req \<noteq> None then sx_superseded_ids c3 = []
       else if ?t \<noteq> Semantic then sx_superseded_ids c3 = []
       else (\<exists>p. sx_normalized_predicate c3 = Some p \<and> rivals req p (w_db w) = [] \<and> sx_superseded_ids c3 = [])
          \<or> supersedes_one x c3 (w_db w))"
  proof (cases "sr_supersedes req = None")
    case True
    then obtain t where t: "dedup_stage x c2 w4 = (Inr (), t)" "conflict_stage x c2 t = (Inr c3, w5)"
      using conf by (auto simp: m_then_ok_iff)
    have "w_db t = w_db w" using no_db_write [OF quiet_stages(1) t(1)] db4 by simp
    with conflict_stage_ok [OF t(2) c2s(3)] c2s True show ?thesis
      by (metis store_ctx.select_convs(6) store_ctx.surjective store_ctx.update_convs(10))
  next
    case False
    with conf c2s show ?thesis by simp
  qed
  then have c3s: "sx_req c3 = req" "sx_memory_type c3 = ?t" "sx_namespace c3 = ?ns" "sx_resolved_entities c3 = []"
      "sx_embedding c3 \<noteq> None" "sx_normalized_predicate c3 = sx_normalized_predicate c1" "sx_conflict c3 = sx_conflict c0"
    using c2s c2(2) by (metis store_ctx.select_convs store_ctx.surjective store_ctx.update_convs)+
  have ctx: "ctx = c3\<lparr>sx_resolved_entities := sx_resolved_entities ctx\<rparr>"
      "\<forall>e\<in>set (sx_resolved_entities ctx). entity_known (ent_id e) (w_db w')"
      "length (sx_resolved_entities ctx) = length (sr_entities req)"
    using resolve_stage_ok [OF res c3s(4)] c3s(1) by simp_all
  have ctxs: "sx_req ctx = req" "sx_memory_type ctx = ?t" "sx_namespace ctx = ?ns" "sx_embedding ctx \<noteq> None"
      "sx_normalized_predicate ctx = sx_normalized_predicate c3" "sx_conflict ctx = sx_conflict c0"
      "sx_superseded_ids ctx = sx_superseded_ids c3"
    using ctx(1) c3s by (metis store_ctx.select_convs store_ctx.surjective store_ctx.update_convs)+
  have one: "supersedes_one x ctx d = supersedes_one x c3 d" for d
    using ctxs c3s by (simp add: supersedes_one_def)
  have "validate_store x ctx = Inr ()"
    using validate_ctx_only [where c = ctx and c' = c0 and x = x] ctxs c0 val by simp
  then show ?thesis
    using ctx(2,3) ctxs conjunct2 [OF c3] c3s c0(5) c1(2) one
    by (cases "?t = Semantic"; cases "sr_supersedes req = None") (simp_all add: ready_to_write_def)
qed

section \<open>The effect of a store\<close>

lemma write_effects_4: "take 4 (write_effects x ctx target_id embedding op) = write_effects x ctx target_id embedding op"
  by (simp add: write_effects_def Let_def)

lemma journal_entry_fields [simp]:
  "\<not> po_qdrant_written (journal_entry ctx kind target_id i t)" "po_op_id (journal_entry ctx kind target_id i t) = i"
  "po_memory_id (journal_entry ctx kind target_id i t) = sx_id ctx" "po_kind (journal_entry ctx kind target_id i t) = kind"
  "po_namespace (journal_entry ctx kind target_id i t) = sx_namespace ctx"
  by (simp_all add: journal_entry_def)

text \<open>How a write of a context ended: committed with the memory, or with an error before that.\<close>

definition write_result :: "store_ctx \<Rightarrow> string option \<Rightarrow> db \<Rightarrow> core_error + memory \<Rightarrow> db \<Rightarrow> bool" where
  "write_result ctx target_id d r d' \<longleftrightarrow>
     (\<exists>op p. progress_db ctx target_id op d p d' \<and> po_memory_id op = sx_id ctx
        \<and> (if p = Committed then r = Inr (build_memory ctx) else \<exists>e. r = Inl e))"

lemma write_result_refused: "write_result ctx target_id d (Inl e) d"
  unfolding write_result_def
  by (intro exI [of _ "journal_entry ctx OpStore None [] 0"] exI [of _ NotStarted]) (simp add: progress_db_def)

lemma write_impl_cases:
  assumes "db_ok (w_db w)" and "write_impl x ctx kind target_id w = (r, w')"
  shows "w_cache w' = w_cache w \<and> write_result ctx target_id (w_db w) r (w_db w')"
proof (cases "sx_embedding ctx")
  case None
  with assms(2) have "r = Inl (Validation ''write stage requires embedding'')" "w' = w" by (simp_all add: write_impl_def)
  then show ?thesis by (simp add: write_result_refused)
next
  case (Some v)
  let ?op = "journal_entry ctx kind target_id (x_uuid x (w_uuids w)) (x_now x (w_clock w))"
  let ?w1 = "w\<lparr>w_uuids := w_uuids w + 1, w_clock := w_clock w + 1\<rparr>"
  obtain q t where q: "m_seq (take 4 (write_effects x ctx target_id v ?op)) ?w1 = (q, t)" by (cases "m_seq (take 4 (write_effects x ctx target_id v ?op)) ?w1")
  have r: "w' = t" "r = (case q of Inl e \<Rightarrow> Inl e | Inr _ \<Rightarrow> Inr (build_memory ctx))"
    using assms(2) Some q unfolding write_effects_4 by (auto simp: write_impl_def m_bind_def m_then_def split: sum.splits)
  have "outcome 4 4 ctx target_id ?op (w_db w) q (w_db t) \<and> w_cache t = w_cache w"
    using write_prefix [OF _ _ q] assms(1) by simp
  then obtain p where p: "progress_db ctx target_id ?op (w_db w) p (w_db w')" "w_cache w' = w_cache w"
      "if p = Committed then r = Inr (build_memory ctx) else \<exists>e. r = Inl e"
    using r by (cases q) (auto simp: outcome_def split: if_splits)
  then show ?thesis unfolding write_result_def by (intro conjI exI [of _ ?op] exI [of _ p]) simp_all
qed

lemma supersede_write_cases:
  assumes "supersede_write x ctx target_id w = (r, w')"
  shows "(\<exists>e. r = Inl e) \<and> w' = w \<or> run_supersede x ctx target_id w = (r, w')
     \<and> (\<exists>m. get_memory target_id (w_db w) = Some m \<and> mem_namespace m = sx_namespace ctx \<and> mem_t_invalid m = None)"
  using assms by (auto simp: supersede_write_def m_bind_def split: option.splits if_splits)

lemma rivals_rows:
  "m \<in> set (rivals req p d) \<longleftrightarrow> (\<exists>r\<in>set (memories d). m = row_with_entities d r
     \<and> r_subject r = Some (to_lowercase (trim (or_empty (sr_subject req)))) \<and> r_normalized_predicate r = Some p
     \<and> r_memory_type r = ''semantic'' \<and> r_t_invalid r = None)"
  by (auto simp: rivals_def get_memories_by_subject_predicate_def lowercase_trim)

lemma row_with_entities_id [simp]: "mem_id (row_with_entities d r) = r_id r"
  by (simp add: row_with_entities_def)

lemma superseded_live:
  assumes "supersedes_one x ctx d" and "i \<in> set (sx_superseded_ids ctx)"
  shows "\<exists>r\<in>set (memories d). r_id r = i \<and> r_t_invalid r = None"
proof -
  obtain p old where "rivals (sx_req ctx) p d = [old]" "i = mem_id old"
    using assms by (auto simp: supersedes_one_def)
  then show ?thesis using rivals_rows [of old "sx_req ctx" p d] by auto
qed

text \<open>The request's fields as they are stored.\<close>

definition stored_from :: "service \<Rightarrow> store_request \<Rightarrow> memory \<Rightarrow> bool" where
  "stored_from svc req m \<longleftrightarrow>
     mem_namespace m = store_namespace svc req \<and> mem_type m = detect_memory_type req
     \<and> mem_content m = sr_content req \<and> mem_subject m = map_option (\<lambda>s. to_lowercase (trim s)) (sr_subject req)
     \<and> mem_predicate m = sr_predicate req \<and> mem_object m = sr_object req
     \<and> 0 \<le> mem_confidence m \<and> mem_confidence m \<le> 1 \<and> mem_source m = sr_source req \<and> mem_context m = sr_context req
     \<and> length (mem_entities m) = length (sr_entities req)
     \<and> mem_t_invalid m = None \<and> mem_access_count m = 0"

lemma built_from:
  assumes "prepare_store x svc req w = (Inr ctx, w')"
  shows "stored_from svc req (build_memory ctx)"
  using prepare_ok [OF assms]
  by (auto simp: stored_from_def ready_to_write_def build_memory_def Let_def clamp_def split: option.splits)

text \<open>The write of a prepared context, whichever of the two it is.\<close>

definition write_of :: "('q, 'e, 'r) ext \<Rightarrow> store_request \<Rightarrow> store_ctx \<Rightarrow> ('q, 'e, 'r, memory) op" where
  "write_of x req ctx = (case sr_supersedes req of Some t \<Rightarrow> supersede_write x ctx t | None \<Rightarrow> write_run x ctx)"

lemma write_of_cases:
  assumes "db_ok (w_db w)" and "write_of x req ctx w = (r, w')"
  shows "w_cache w' = w_cache w \<and> write_result ctx (sr_supersedes req) (w_db w) r (w_db w')
    \<and> (\<forall>m. r = Inr m \<longrightarrow> (\<forall>t. sr_supersedes req = Some t \<longrightarrow>
          (\<exists>old\<in>set (memories (w_db w)). r_id old = t \<and> r_namespace old = sx_namespace ctx \<and> r_t_invalid old = None)))"
proof (cases "sr_supersedes req")
  case None
  with assms write_impl_cases [OF assms(1), of x ctx OpStore None r w'] show ?thesis
    by (auto simp: write_of_def write_run_def)
next
  case (Some t)
  then have "supersede_write x ctx t w = (r, w')" using assms(2) by (simp add: write_of_def)
  from supersede_write_cases [OF this] show ?thesis
  proof
    assume "(\<exists>e. r = Inl e) \<and> w' = w"
    then show ?thesis using write_result_refused by auto
  next
    assume run: "run_supersede x ctx t w = (r, w') \<and> (\<exists>m. get_memory t (w_db w) = Some m
        \<and> mem_namespace m = sx_namespace ctx \<and> mem_t_invalid m = None)"
    then obtain old where "rows_get r_id t (memories (w_db w)) = Some old" "r_namespace old = sx_namespace ctx"
        "r_t_invalid old = None"
      by (auto simp: get_memory_def row_to_memory_def)
    with run write_impl_cases [OF assms(1), of x ctx OpSupersede "Some t" r w'] Some show ?thesis
      by (auto simp: run_supersede_def dest!: rows_get_Some)
  qed
qed

context db_writes begin

lemma write_impl_keeps: "db_keeps P (write_impl x ctx kind target_id)"
proof -
  have "db_keeps P (m_seq (write_effects x ctx target_id v op))" for v op
    by (rule keeps_seq) (auto simp: write_effects_def Let_def intro!: keeps_intros lifted)
  then show ?thesis unfolding write_impl_def by (intro keeps_intros)
qed

lemma write_of_keeps: "db_keeps P (write_of x req ctx)"
  unfolding write_of_def supersede_write_def run_supersede_def write_run_def
  by (auto intro!: keeps_intros write_impl_keeps split: option.splits)

lemma store_keeps: "db_keeps P (store x svc req)"
  unfolding store_def write_of_def [symmetric] Let_def by (intro keeps_intros prepare_keeps write_of_keeps)

end

lemma store_run:
  "store x svc req w = (case prepare_store x svc req w of
     (Inl e, w1) \<Rightarrow> (Inl e, w1)
   | (Inr ctx, w1) \<Rightarrow> (case write_of x req ctx w1 of
       (Inl e, w2) \<Rightarrow> (Inl e, w2)
     | (Inr m, w2) \<Rightarrow> (Inr \<lparr> srs_id = mem_id m, srs_memory_type = mt_as_str (sx_memory_type ctx),
           srs_superseded = (case sr_supersedes req of Some i \<Rightarrow> [i] | None \<Rightarrow> sx_superseded_ids ctx) \<rparr>,
         snd (record_op x ''store'' (mt_as_str (sx_memory_type ctx)) ''ok''
           (w2\<lparr>w_cache := bump_generation (sx_namespace ctx) (w_cache w2)\<rparr>)))))"
  unfolding store_def write_of_def Let_def
  by (simp add: m_bind_def m_then_def record_op_run split: prod.splits sum.splits)

lemma record_op_keeps [simp]:
  "w_db (snd (record_op x k d out w)) = w_db w" "w_cache (snd (record_op x k d out w)) = w_cache w"
  by (simp_all add: record_op_run)

lemma prepare_db_ok: "prepare_store x svc req w = (r, w1) \<Longrightarrow> db_ok (w_db w) \<Longrightarrow> db_ok (w_db w1)"
  using keepsD_run [OF ok.prepare_keeps] by blast

lemma progress_tables:
  assumes "progress_db ctx target_id op d p d'"
  shows "p = Committed \<Longrightarrow> pending_ops d' = pending_ops d
      \<and> memories d' = invalidated (sx_now ctx) (invalidate_ids ctx target_id) (memories d @ [memory_row (build_memory ctx)])
      \<and> (\<exists>c\<in>set (completed_ops d'). cr_memory_id c = sx_id ctx \<and> cr_op_id c = po_op_id op)"
    and "p \<noteq> Committed \<Longrightarrow> memories d' = memories d \<and> memory_entities d' = memory_entities d
      \<and> completed_ops d' = completed_ops d
      \<and> (pending_ops d' = pending_ops d \<or> (\<exists>r. pending_ops d' = pending_ops d @ [r] \<and> pr_memory_id r = po_memory_id op))"
  using assms
  by (auto simp: progress_db_def committed_def rows_del_fresh rows_put_def comp_row_of_def into_completed_def pend_row_of_def
      split: write_progress.splits)

lemma invalidated_append [simp]:
  "invalidated t ids (xs @ ys) = invalidated t ids xs @ invalidated t ids ys"
  by (simp add: invalidated_def rows_upd_def)

lemma invalidated_single_other: "r_id r \<notin> set ids \<Longrightarrow> invalidated t ids [r] = [r]"
  by (simp add: invalidated_def rows_upd_def)

text \<open>The commit of a store that succeeds, from the context its stages prepared.\<close>

lemma store_commits:
  assumes "db_ok (w_db w)" and "store x svc req w = (Inr resp, w')"
  obtains ctx where "ready_to_write x svc req (w_db w) ctx" "stored_from svc req (build_memory ctx)"
    "srs_id resp = mem_id (build_memory ctx)" "mem_id (build_memory ctx) \<notin> row_keys r_id (memories (w_db w))"
    "srs_superseded resp = invalidate_ids ctx (sr_supersedes req)"
    "memories (w_db w') = invalidated (sx_now ctx) (srs_superseded resp) (memories (w_db w)) @ [memory_row (build_memory ctx)]"
    "\<forall>i\<in>set (srs_superseded resp). \<exists>r\<in>set (memories (w_db w)). r_id r = i \<and> r_t_invalid r = None"
    "pending_ops (w_db w') = pending_ops (w_db w)"
    "\<exists>c\<in>set (completed_ops (w_db w')). cr_memory_id c = srs_id resp"
    "\<And>ns. generation ns (w_cache w') = generation ns (w_cache w) + (if ns = store_namespace svc req then 1 else 0)"
    "db_ok (w_db w')"
proof -
  obtain ctx w1 m w2 where prep: "prepare_store x svc req w = (Inr ctx, w1)"
    and wr: "write_of x req ctx w1 = (Inr m, w2)"
    and resp: "srs_id resp = mem_id m" "srs_superseded resp = (case sr_supersedes req of Some i \<Rightarrow> [i] | None \<Rightarrow> sx_superseded_ids ctx)"
    and w': "w_db w' = w_db w2" "w_cache w' = bump_generation (sx_namespace ctx) (w_cache w2)"
    using assms(2) unfolding store_run by (auto split: prod.splits sum.splits)
  note frame = prepare_frame [OF prep]
  note tables = other_tables_eq [OF conjunct1 [OF frame]]
  have ready: "ready_to_write x svc req (w_db w) ctx" using prepare_ok [OF prep] by simp
  have ok1: "db_ok (w_db w1)" using prepare_db_ok [OF prep assms(1)] .
  obtain op where op: "progress_db ctx (sr_supersedes req) op (w_db w1) Committed (w_db w2)" "m = build_memory ctx"
    using write_of_cases [OF ok1 wr] by (auto simp: write_result_def split: if_splits)
  have ok2: "db_ok (w_db w2)" using keepsD_run [OF ok.write_of_keeps ok1 wr] .
  note after = progress_tables(1) [OF op(1) refl]
  let ?inv = "invalidate_ids ctx (sr_supersedes req)"
  have "distinct (map r_id (memories (w_db w2)))" using ok2 by (simp add: db_ok_def)
  then have "distinct (map r_id (memories (w_db w) @ [memory_row m]))"
    using after tables op(2) by (simp only: invalidated_ids)
  then have fresh: "mem_id m \<notin> row_keys r_id (memories (w_db w))"
    by (auto simp: row_keys_def)
  have inv: "?inv = srs_superseded resp"
    using ready resp by (auto simp: invalidate_ids_def ready_to_write_def split: option.splits)
  have live: "\<exists>r\<in>set (memories (w_db w)). r_id r = i \<and> r_t_invalid r = None" if "i \<in> set ?inv" for i
  proof (cases "sr_supersedes req")
    case None
    with that ready have "supersedes_one x ctx (w_db w)" "i \<in> set (sx_superseded_ids ctx)"
      by (auto simp: invalidate_ids_def ready_to_write_def split: if_splits)
    then show ?thesis by (rule superseded_live)
  next
    case (Some t)
    then have "i = t" using that ready by (auto simp: invalidate_ids_def ready_to_write_def)
    with Some write_of_cases [OF ok1 wr] tables show ?thesis by auto
  qed
  have "mem_id m \<notin> set ?inv" using live [of "mem_id m"] fresh by (metis imageI row_keys_def)
  then have "memories (w_db w2) = invalidated (sx_now ctx) ?inv (memories (w_db w)) @ [memory_row m]"
    using after tables op(2) by (simp add: invalidated_single_other)
  then have mems: "memories (w_db w') = invalidated (sx_now ctx) (srs_superseded resp) (memories (w_db w)) @ [memory_row m]"
    using w'(1) inv by simp
  have gen: "generation ns (w_cache w') = generation ns (w_cache w) + (if ns = store_namespace svc req then 1 else 0)" for ns
    using w'(2) write_of_cases [OF ok1 wr] frame ready by (auto simp: ready_to_write_def)
  have journal: "\<exists>c\<in>set (completed_ops (w_db w')). cr_memory_id c = srs_id resp"
    using after w'(1) resp(1) op(2) by auto
  have pend: "pending_ops (w_db w') = pending_ops (w_db w)" using after w'(1) tables by simp
  show thesis
    by (rule that [of ctx])
      (use ready built_from [OF prep] op(2) resp(1) fresh inv mems live [unfolded inv] pend journal gen ok2 w'(1) in simp_all)
qed

text \<open>
  C10. A store that succeeds has written exactly one new row, built from the request (subject
  trimmed and in lower case, confidence clamped to between 0 and 1), under an id that no row
  had; it has retired exactly the memories it reports as superseded, each of which existed and
  was live, and changed no other row; its journal entry is closed, no operation stays pending
  on its behalf, and the cached recalls of its namespace, and only those, are invalidated.
\<close>

theorem store_success:
  assumes "db_ok (w_db w)" and "store x svc req w = (Inr resp, w')"
  shows "\<exists>m t. stored_from svc req m \<and> mem_id m = srs_id resp
    \<and> srs_id resp \<notin> row_keys r_id (memories (w_db w))
    \<and> memories (w_db w') = invalidated t (srs_superseded resp) (memories (w_db w)) @ [memory_row m]
    \<and> (\<forall>i\<in>set (srs_superseded resp). \<exists>r\<in>set (memories (w_db w)). r_id r = i \<and> r_t_invalid r = None)
    \<and> pending_ops (w_db w') = pending_ops (w_db w)
    \<and> (\<exists>c\<in>set (completed_ops (w_db w')). cr_memory_id c = srs_id resp)
    \<and> (\<forall>ns. generation ns (w_cache w') = generation ns (w_cache w) + (if ns = store_namespace svc req then 1 else 0))
    \<and> db_ok (w_db w')"
  using store_commits [OF assms] by (metis (no_types, lifting))

lemma empty_db_memories: "memories empty_db = []"
  by (simp add: empty_db_def)

lemma demo_store_runs:
  "fst (store demo_ext demo_service (note_request ''hi'') (demo_world empty_db)) =
     Inr \<lparr> srs_id = ''u0'', srs_memory_type = ''episodic'', srs_superseded = [] \<rparr>"
  by code_simp

theorem store_success_witness:
  "\<exists>m t. stored_from demo_service (note_request ''hi'') m \<and> mem_id m = ''u0''
     \<and> memories (w_db (snd (store demo_ext demo_service (note_request ''hi'') (demo_world empty_db)))) = [memory_row m]"
proof -
  have "store demo_ext demo_service (note_request ''hi'') (demo_world empty_db) =
      (Inr \<lparr> srs_id = ''u0'', srs_memory_type = ''episodic'', srs_superseded = [] \<rparr>,
       snd (store demo_ext demo_service (note_request ''hi'') (demo_world empty_db)))"
    using demo_store_runs by (metis prod.collapse)
  from store_success [OF _ this] obtain m t where "stored_from demo_service (note_request ''hi'') m" "mem_id m = ''u0''"
      "memories (w_db (snd (store demo_ext demo_service (note_request ''hi'') (demo_world empty_db)))) =
         invalidated t [] [] @ [memory_row m]"
    unfolding store_response.select_convs demo_world_db empty_db_memories using empty_db_ok by blast
  then show ?thesis by (auto simp: invalidated_def rows_upd_def)
qed

text \<open>
  C11. A store that fails adds no memory and retires none: memories, links, the closed journal and
  the cache are as before, and the only trace it may leave besides entities is one open journal
  entry for the id it did not commit, which start-up recovery consumes.
\<close>

theorem store_failure:
  assumes "db_ok (w_db w)" and "store x svc req w = (Inl e, w')"
  shows "memories (w_db w') = memories (w_db w) \<and> memory_entities (w_db w') = memory_entities (w_db w)
    \<and> completed_ops (w_db w') = completed_ops (w_db w) \<and> w_cache w' = w_cache w
    \<and> (pending_ops (w_db w') = pending_ops (w_db w)
       \<or> (\<exists>r. pending_ops (w_db w') = pending_ops (w_db w) @ [r]))
    \<and> db_ok (w_db w')"
proof (cases "prepare_store x svc req w")
  case (Pair r w1)
  have ok': "db_ok (w_db w')" using keepsD_run [OF ok.store_keeps assms] .
  have frame: "other_tables (w_db w1) = other_tables (w_db w)" "w_cache w1 = w_cache w"
    using prepare_frame [OF Pair] by simp_all
  show ?thesis
  proof (cases r)
    case (Inl e')
    then have "w' = w1" using assms(2) Pair by (simp add: store_run)
    with frame other_tables_eq [OF frame(1)] ok' show ?thesis by simp
  next
    case (Inr ctx)
    obtain w2 where wr: "write_of x req ctx w1 = (Inl e, w2)" "w' = w2"
      using assms(2) Pair Inr by (auto simp: store_run split: prod.splits sum.splits)
    have ok1: "db_ok (w_db w1)" using prepare_db_ok [OF Pair assms(1)] .
    obtain op p where p: "progress_db ctx (sr_supersedes req) op (w_db w1) p (w_db w2)" "p \<noteq> Committed"
        "w_cache w2 = w_cache w1"
      using write_of_cases [OF ok1 wr(1)] by (auto simp: write_result_def split: if_splits)
    from progress_tables(2) [OF p(1,2)] p(3) frame other_tables_eq [OF frame(1)] wr(2) ok' show ?thesis by auto
  qed
qed

lemma linked_db_ok: "db_ok linked_db"
  by (simp add: db_ok_def linked_db_def empty_db_def row_keys_def sample_memory_def)

lemma demo_store_fails:
  "fst (store demo_ext demo_service (note_request []) (demo_world linked_db)) =
     Inl (Validation ''episodic memory requires content'')"
  by code_simp

theorem store_failure_witness:
  "memories (w_db (snd (store demo_ext demo_service (note_request []) (demo_world linked_db)))) = memories linked_db"
proof -
  have "store demo_ext demo_service (note_request []) (demo_world linked_db) =
      (Inl (Validation ''episodic memory requires content''),
       snd (store demo_ext demo_service (note_request []) (demo_world linked_db)))"
    using demo_store_fails by (metis prod.collapse)
  from store_failure [OF _ this] linked_db_ok show ?thesis by simp
qed

section \<open>Facts stay functional\<close>

text \<open>A live semantic row that has a subject and a normalised predicate.\<close>

definition live_fact :: "string \<Rightarrow> string \<Rightarrow> mem_row \<Rightarrow> bool" where
  "live_fact s p r \<longleftrightarrow> r_memory_type r = ''semantic'' \<and> r_t_invalid r = None
     \<and> r_subject r = Some s \<and> r_normalized_predicate r = Some p"

definition functional_facts :: "mem_row list \<Rightarrow> bool" where
  "functional_facts rows \<longleftrightarrow> (\<forall>s p. length (filter (live_fact s p) rows) \<le> 1)"

lemma rivals_filter:
  "rivals req p d = map (row_with_entities d) (filter (live_fact (to_lowercase (trim (or_empty (sr_subject req)))) p) (memories d))"
  unfolding rivals_def get_memories_by_subject_predicate_def lowercase_trim
  by (rule arg_cong [where f = "map (row_with_entities d)"], rule filter_cong) (auto simp: live_fact_def)

lemma filter_invalidated:
  "filter (live_fact s p) (invalidated t ids rows) = filter (live_fact s p) (filter (\<lambda>r. r_id r \<notin> set ids) rows)"
  by (induction rows) (auto simp: invalidated_def rows_upd_def live_fact_def)

lemma length_filter_filter_le: "length (filter p (filter q xs)) \<le> length (filter p xs)"
  by (induction xs) auto

lemma functional_invalidated:
  "functional_facts rows \<Longrightarrow> functional_facts (invalidated t ids rows)"
  unfolding functional_facts_def filter_invalidated using length_filter_filter_le order_trans by blast

lemma functional_append:
  assumes "functional_facts rows" and "\<And>s p. live_fact s p r \<Longrightarrow> filter (live_fact s p) rows = []"
  shows "functional_facts (rows @ [r])"
  unfolding functional_facts_def
proof (intro allI)
  fix s p
  show "length (filter (live_fact s p) (rows @ [r])) \<le> 1"
    using assms(1) assms(2) [of s p] by (cases "live_fact s p r") (simp_all add: functional_facts_def)
qed

lemma filter_nonrival:
  assumes "filter P rows = [a]" and "distinct (map r_id rows)"
  shows "filter P (filter (\<lambda>r. r_id r \<notin> {r_id a}) rows) = []"
proof -
  have "r = a" if "r \<in> set rows" "P r" for r
  proof -
    have "r \<in> set (filter P rows)" using that by simp
    then show ?thesis unfolding assms(1) by simp
  qed
  then show ?thesis by (auto simp: filter_empty_conv)
qed

text \<open>A new fact leaves no live one with its subject and predicate, in any namespace.\<close>

lemma rivals_retired:
  assumes "ready_to_write x svc req d ctx" and "sr_supersedes req = None" and "detect_memory_type req = Semantic"
    and "sx_normalized_predicate ctx = Some p" and "distinct (map r_id (memories d))"
    and s: "s = to_lowercase (trim (or_empty (sr_subject req)))"
  shows "filter (live_fact s p) (invalidated t (sx_superseded_ids ctx) (memories d)) = []
    \<and> sx_superseded_ids ctx = map r_id (filter (live_fact s p) (memories d))"
proof -
  have rv: "rivals req p d = map (row_with_entities d) (filter (live_fact s p) (memories d))"
    unfolding rivals_filter s ..
  from assms(1-4) consider "rivals req p d = []" "sx_superseded_ids ctx = []" | "supersedes_one x ctx d"
    by (auto simp: ready_to_write_def)
  then show ?thesis
  proof cases
    case 1
    then show ?thesis unfolding filter_invalidated using rv by (auto simp: filter_empty_conv)
  next
    case 2
    then obtain old where old: "rivals req p d = [old]" "sx_superseded_ids ctx = [mem_id old]"
      using assms(1,4) by (auto simp: supersedes_one_def ready_to_write_def)
    obtain a where a: "filter (live_fact s p) (memories d) = [a]" "mem_id old = r_id a"
      using old(1) rv by auto
    from filter_nonrival [OF a(1) assms(5)] show ?thesis unfolding filter_invalidated old(2) a by simp
  qed
qed

text \<open>
  C12. Stores keep facts functional: if no two live semantic memories share a subject and a
  normalised predicate before a store that names no predecessor, none do after it, whether it
  succeeds or fails. A fact that contradicts the live one replaces it or is refused.
\<close>

theorem store_keeps_functional:
  assumes "db_ok (w_db w)" and "functional_facts (memories (w_db w))" and "sr_supersedes req = None"
    and "store x svc req w = (r, w')"
  shows "functional_facts (memories (w_db w'))"
proof (cases r)
  case (Inl e)
  with store_failure [OF assms(1), of x svc req e w'] assms show ?thesis by simp
next
  case (Inr resp)
  from assms(4) Inr have run: "store x svc req w = (Inr resp, w')" by simp
  from store_commits [OF assms(1) run] obtain ctx where ready: "ready_to_write x svc req (w_db w) ctx"
    and ids: "srs_superseded resp = invalidate_ids ctx (sr_supersedes req)"
    and mems: "memories (w_db w') = invalidated (sx_now ctx) (srs_superseded resp) (memories (w_db w)) @ [memory_row (build_memory ctx)]"
    by metis
  have ids: "srs_superseded resp = sx_superseded_ids ctx" using ids assms(3) by (simp add: invalidate_ids_def)
  have "filter (live_fact s p) (invalidated (sx_now ctx) (sx_superseded_ids ctx) (memories (w_db w))) = []"
    if new: "live_fact s p (memory_row (build_memory ctx))" for s p
  proof -
    have "detect_memory_type req = Semantic" "s = to_lowercase (trim (or_empty (sr_subject req)))" "sx_normalized_predicate ctx = Some p"
      using new ready mt_as_str_inj [of "detect_memory_type req" Semantic]
      by (auto simp: live_fact_def memory_row_def build_memory_def Let_def ready_to_write_def or_empty_def)
    moreover have "distinct (map r_id (memories (w_db w)))" using assms(1) by (simp add: db_ok_def)
    ultimately show ?thesis using rivals_retired [OF ready assms(3)] by blast
  qed
  then show ?thesis
    unfolding mems ids by (rule functional_append [OF functional_invalidated [OF assms(2)]])
qed

theorem store_keeps_functional_witness:
  "functional_facts (memories (w_db (snd (store demo_ext demo_service
     (fact_request ''default'' ''Alice'' ''lives in'' ''Paris'') (demo_world empty_db)))))"
proof -
  have "functional_facts (memories empty_db)" by (simp add: functional_facts_def empty_db_def)
  then show ?thesis
    using store_keeps_functional [of "demo_world empty_db" "fact_request ''default'' ''Alice'' ''lives in'' ''Paris''"
        demo_ext demo_service, OF _ _ _ prod.collapse [symmetric]]
    by (simp add: empty_db_ok fact_request_def)
qed

text \<open>
  C13. The conflict check does not look at namespaces. If a live fact of another namespace has the
  subject and the normalised predicate of a fact that is stored without naming a predecessor, and
  the store succeeds, then it has retired that other fact, and reports it as superseded; and the
  cached recalls of the namespace the fact belongs to are not invalidated, so they go on serving it.
\<close>

theorem store_crosses_namespaces:
  assumes "db_ok (w_db w)" and "sr_supersedes req = None" and "detect_memory_type req = Semantic"
    and "sr_subject req = Some subject" and "sr_predicate req = Some predicate"
    and "old \<in> set (memories (w_db w))"
    and "live_fact (to_lowercase (trim subject))
      (normalize_predicate (x_jaro_winkler x) (normalizer_for svc (store_namespace svc req)) predicate) old"
    and "r_namespace old \<noteq> store_namespace svc req"
    and "store x svc req w = (Inr resp, w')"
  shows "srs_superseded resp = [r_id old]
    \<and> (\<exists>t. old\<lparr>r_t_invalid := Some t, r_updated_at := t\<rparr> \<in> set (memories (w_db w')))
    \<and> generation (r_namespace old) (w_cache w') = generation (r_namespace old) (w_cache w)"
proof -
  from store_commits [OF assms(1,9)] obtain ctx where ready: "ready_to_write x svc req (w_db w) ctx"
    and ids: "srs_superseded resp = invalidate_ids ctx (sr_supersedes req)"
    and mems: "memories (w_db w') = invalidated (sx_now ctx) (srs_superseded resp) (memories (w_db w)) @ [memory_row (build_memory ctx)]"
    and gen: "\<And>ns. generation ns (w_cache w') = generation ns (w_cache w) + (if ns = store_namespace svc req then 1 else 0)"
    by metis
  let ?p = "normalize_predicate (x_jaro_winkler x) (normalizer_for svc (store_namespace svc req)) predicate"
  have p: "sx_normalized_predicate ctx = Some ?p" using ready assms(3,5) by (auto simp: ready_to_write_def)
  have s: "to_lowercase (trim subject) = to_lowercase (trim (or_empty (sr_subject req)))" using assms(4) by (simp add: or_empty_def)
  have "distinct (map r_id (memories (w_db w)))" using assms(1) by (simp add: db_ok_def)
  from rivals_retired [OF ready assms(2,3) p this s]
  have all: "sx_superseded_ids ctx = map r_id (filter (live_fact (to_lowercase (trim subject)) ?p) (memories (w_db w)))" by blast
  have "length (sx_superseded_ids ctx) \<le> 1"
    using ready by (auto simp: ready_to_write_def supersedes_one_def split: if_splits)
  moreover have "r_id old \<in> set (sx_superseded_ids ctx)" unfolding all using assms(6,7) by auto
  ultimately have one: "sx_superseded_ids ctx = [r_id old]" by (cases "sx_superseded_ids ctx") auto
  then have "srs_superseded resp = [r_id old]" using ids assms(2) by (simp add: invalidate_ids_def)
  moreover have "old\<lparr>r_t_invalid := Some (sx_now ctx), r_updated_at := sx_now ctx\<rparr> \<in> set (memories (w_db w'))"
    unfolding mems calculation using assms(6) by (auto simp: invalidated_def rows_upd_def)
  ultimately show ?thesis using gen [of "r_namespace old"] assms(8) by auto
qed

definition work_world :: "(demo_q, 64 word \<Rightarrow> real list option, 64 word \<Rightarrow> cached_results option) world" where
  "work_world = snd (store demo_ext demo_service (fact_request ''work'' ''Alice'' ''lives in'' ''Paris'') (demo_world empty_db))"

lemma work_world_facts:
  "map (\<lambda>r. (r_id r, r_namespace r)) (memories (w_db work_world)) = [(''u0'', ''work'')]"
  "list_all (live_fact ''alice'' (normalize_predicate (x_jaro_winkler demo_ext) (normalizer_for demo_service ''home'') ''lives in''))
     (memories (w_db work_world))"
  "(case fst (store demo_ext demo_service (fact_request ''home'' ''Alice'' ''lives in'' ''Rome'') work_world) of Inr resp \<Rightarrow> True | Inl e \<Rightarrow> False)"
  by code_simp+

theorem store_crosses_namespaces_witness:
  "\<exists>resp w'. store demo_ext demo_service (fact_request ''home'' ''Alice'' ''lives in'' ''Rome'') work_world = (Inr resp, w')
     \<and> srs_superseded resp = [''u0''] \<and> generation ''work'' (w_cache w') = generation ''work'' (w_cache work_world)"
proof -
  let ?req = "fact_request ''home'' ''Alice'' ''lives in'' ''Rome''"
  have ok: "db_ok (w_db work_world)" unfolding work_world_def by (rule keepsD [OF ok.store_keeps]) (simp add: empty_db_ok)
  obtain old where old: "memories (w_db work_world) = [old]" "r_id old = ''u0''" "r_namespace old = ''work''"
    using work_world_facts(1) by auto
  have ns: "store_namespace demo_service ?req = ''home''" by (simp add: store_namespace_def fact_request_def)
  have lower: "to_lowercase (trim ''Alice'') = ''alice''" by code_simp
  obtain resp w' where run: "store demo_ext demo_service ?req work_world = (Inr resp, w')"
    using work_world_facts(3) by (cases "store demo_ext demo_service ?req work_world") (auto split: sum.splits)
  have "srs_superseded resp = [r_id old] \<and> (\<exists>t. old\<lparr>r_t_invalid := Some t, r_updated_at := t\<rparr> \<in> set (memories (w_db w')))
    \<and> generation (r_namespace old) (w_cache w') = generation (r_namespace old) (w_cache work_world)"
    by (rule store_crosses_namespaces [OF ok _ _ _ _ _ _ _ run, where subject = "''Alice''" and predicate = "''lives in''"])
      (use work_world_facts(2) old ns lower in \<open>simp_all add: fact_request_def detect_memory_type_def\<close>)
  with run old show ?thesis by auto
qed

end
