(* ===== verification/ForgetRecover.thy ===== *)
theory ForgetRecover
  imports StoreLaws
begin

text \<open>
  Forgetting memories (\<open>crates/core/src/service/forget.rs\<close>), start-up with its recovery of
  interrupted operations, the background flush and shutdown (\<open>service.rs\<close>).
\<close>

section \<open>Forget\<close>

fun parse_uuids :: "('q, 'e, 'r) ext \<Rightarrow> string list \<Rightarrow> core_error + string list" where
  "parse_uuids x [] = Inr []"
| "parse_uuids x (i # is) =
     (case x_parse_uuid x i of None \<Rightarrow> Inl (Validation (''invalid UUID: '' @ i))
      | Some u \<Rightarrow> (case parse_uuids x is of Inl e \<Rightarrow> Inl e | Inr us \<Rightarrow> Inr (u # us)))"

definition forget_entry :: "string \<Rightarrow> string \<Rightarrow> string \<Rightarrow> time \<Rightarrow> pending_op" where
  "forget_entry i ns op_id started_at =
     \<lparr> po_op_id = op_id, po_kind = OpForget, po_memory_id = i, po_namespace = ns, po_target_id = None,
       po_qdrant_written = False, po_started_at = started_at \<rparr>"

definition forget_effects :: "('q, 'e, 'r) ext \<Rightarrow> string \<Rightarrow> string \<Rightarrow> string \<Rightarrow> pending_op \<Rightarrow> ('q, 'e, 'r, unit) op list" where
  "forget_effects x i uuid ns op =
     [ on_db (insert_pending_op op),
       on_vs (v_delete_by_ids x ns [uuid]),
       on_db (mark_pending_op_qdrant_written (po_op_id op)),
       m_then (on_db (delete_memories [i])) (m_ret ()),
       m_bind (now_op x) (\<lambda>completed_at. on_db (complete_op (into_completed op i ns completed_at))) ]"

definition forget_one :: "('q, 'e, 'r) ext \<Rightarrow> string \<Rightarrow> string \<Rightarrow> ('q, 'e, 'r, bool) op" where
  "forget_one x i uuid =
     m_bind (from_db (get_memory i)) (\<lambda>found.
       case found of
         None \<Rightarrow> m_ret False
       | Some m \<Rightarrow>
           m_bind (new_uuid x) (\<lambda>op_id. m_bind (now_op x) (\<lambda>started_at.
             m_then (m_seq (forget_effects x i uuid (mem_namespace m)
                 (forget_entry i (mem_namespace m) op_id started_at)))
             (m_then (bump (mem_namespace m)) (m_ret True)))))"

fun forget_all :: "('q, 'e, 'r) ext \<Rightarrow> (string \<times> string) list \<Rightarrow> string list \<Rightarrow> string list \<Rightarrow>
    ('q, 'e, 'r, string list \<times> string list) op" where
  "forget_all x [] deleted not_found = m_ret (deleted, not_found)"
| "forget_all x ((i, uuid) # rest) deleted not_found =
     m_bind (forget_one x i uuid) (\<lambda>finished.
       if finished then forget_all x rest (deleted @ [i]) not_found
       else forget_all x rest deleted (not_found @ [i]))"

definition forget :: "('q, 'e, 'r) ext \<Rightarrow> forget_request \<Rightarrow> ('q, 'e, 'r, forget_response) op" where
  "forget x req =
     m_bind (m_of (parse_uuids x (fr_ids req))) (\<lambda>uuids.
     m_bind (forget_all x (zip (fr_ids req) uuids) [] []) (\<lambda>(deleted, not_found).
       let outcome = (if not_found = [] then ''ok''
             else show_nat (length deleted) @ '' deleted, '' @ show_nat (length not_found) @ '' not found'')
       in m_then (record_op x ''forget'' (show_nat (length (fr_ids req)) @ '' ids'') outcome)
         (m_ret \<lparr> frs_message = ''deleted '' @ show_nat (length deleted) @ '' memories'',
                  frs_deleted = deleted, frs_not_found = not_found \<rparr>)))"

section \<open>Recovery\<close>

record recovery_report =
  compensated_stores :: nat
  rolled_forward_forgets :: nat
  cleared_pre_qdrant :: nat

definition recover_one :: "('q, 'e, 'r) ext \<Rightarrow> recovery_report \<Rightarrow> pending_op \<Rightarrow> ('q, 'e, 'r, recovery_report) op" where
  "recover_one x report op =
     (let clear = on_db (clear_pending_op (po_op_id op)) in
      m_bind (from_db (is_op_completed (po_op_id op))) (\<lambda>finished.
      if finished then m_then clear (m_ret report)
      else if \<not> po_qdrant_written op then
        m_then clear (m_ret (report\<lparr>cleared_pre_qdrant := cleared_pre_qdrant report + 1\<rparr>))
      else if po_kind op = OpForget then
        m_then (on_db (delete_memories [po_memory_id op]))
          (m_then clear (m_ret (report\<lparr>rolled_forward_forgets := rolled_forward_forgets report + 1\<rparr>)))
      else case x_parse_uuid x (po_memory_id op) of
        None \<Rightarrow> m_then clear (m_ret report)
      | Some uuid \<Rightarrow>
          m_then (on_vs (v_delete_by_ids x (po_namespace op) [uuid]))
         (m_then (on_db (delete_memories [po_memory_id op]))
         (m_then clear (m_ret (report\<lparr>compensated_stores := compensated_stores report + 1\<rparr>))))))"

definition recover_on_startup :: "('q, 'e, 'r) ext \<Rightarrow> ('q, 'e, 'r, recovery_report) op" where
  "recover_on_startup x =
     m_bind (from_db list_pending_ops) (\<lambda>pending.
       m_fold (recover_one x) \<lparr> compensated_stores = 0, rolled_forward_forgets = 0, cleared_pre_qdrant = 0 \<rparr> pending)"

section \<open>Start-up, background flush, shutdown\<close>

definition JOURNAL_MAX_OPS :: nat where "JOURNAL_MAX_OPS = 1000"
definition JOURNAL_MAX_DAYS :: int where "JOURNAL_MAX_DAYS = 7"

definition check_model :: "service \<Rightarrow> ('q, 'e, 'r, unit) op" where
  "check_model svc =
     (let current = cfg_model_name (svc_config svc) in
      m_bind (from_db (get_metadata ''embedding_model'')) (\<lambda>stored.
        case stored of
          Some s \<Rightarrow> if s \<noteq> current
            then m_fail (Validation (''embedding model mismatch: stored='' @ s @ '', current='' @ current
              @ ''. Changing models would corrupt vector similarity. Use the same model or start with a fresh database.''))
            else m_ret ()
        | None \<Rightarrow> on_db (set_metadata ''embedding_model'' current)))"

definition prune_journal :: "('q, 'e, 'r) ext \<Rightarrow> ('q, 'e, 'r, unit) op" where
  "prune_journal x =
     m_bind (now_op x) (\<lambda>now.
     m_then (on_db (prune_completed_ops JOURNAL_MAX_OPS (duration_days JOURNAL_MAX_DAYS) now)) (m_ret ()))"

text \<open>\<open>from_config_with\<close> after the database, the models and the Qdrant client are open.\<close>

definition start_up :: "('q, 'e, 'r) ext \<Rightarrow> service \<Rightarrow> ('q, 'e, 'r, recovery_report) op" where
  "start_up x svc =
     m_then (check_model svc)
    (m_then (on_vs (ensure_collection x (cfg_namespace (svc_config svc))))
    (m_bind (recover_on_startup x) (\<lambda>report.
     m_then (prune_journal x) (m_ret report))))"

definition flush_tracker :: "('q, 'e, 'r) ext \<Rightarrow> ('q, 'e, 'r, unit) op" where
  "flush_tracker x = (\<lambda>w.
     let (ids, buf) = tracker_drain (w_tracker w); w1 = w\<lparr>w_tracker := buf\<rparr> in
     if ids = [] then (Inr (), w1)
     else m_warn (m_bind (now_op x) (\<lambda>now. on_db (update_last_accessed ids now))) w1)"

definition shutdown :: "('q, 'e, 'r) ext \<Rightarrow> ('q, 'e, 'r, unit) op" where
  "shutdown x = flush_tracker x"

end
