(* ===== verification/PointLaws.thy ===== *)
theory PointLaws
  imports ForgetRecover
begin

text \<open>
  What the effects of a store, of a forget and of recovery do to the points of a Qdrant
  collection (the calls of \<open>crates/store/src/vector.rs\<close>). Which points a collection holds is a
  view \<open>pts\<close> of the server's state; what the server documents of it is a hypothesis.
\<close>

section \<open>The server\<close>

text \<open>
  An upsert that is acknowledged adds the point, a delete removes the points named. One that is not
  acknowledged may have been carried out or not.
\<close>

definition point_server :: "('q, 'e, 'r) ext \<Rightarrow> (string \<Rightarrow> 'q \<Rightarrow> string set) \<Rightarrow> bool" where
  "point_server x pts \<longleftrightarrow>
     (\<forall>name p q r q'. x_upsert_points x name [p] q = (r, q') \<longrightarrow>
        (case r of Inr _ \<Rightarrow> pts name q' = insert (pt_id p) (pts name q)
         | Inl _ \<Rightarrow> pts name q \<subseteq> pts name q' \<and> pts name q' \<subseteq> insert (pt_id p) (pts name q)))
     \<and> (\<forall>name ids q r q'. x_delete_points x name ids q = (r, q') \<longrightarrow>
        (case r of Inr _ \<Rightarrow> pts name q' = pts name q - set ids
         | Inl _ \<Rightarrow> pts name q - set ids \<subseteq> pts name q' \<and> pts name q' \<subseteq> pts name q))"

abbreviation points :: "(string \<Rightarrow> 'q \<Rightarrow> string set) \<Rightarrow> string \<Rightarrow> ('q, 'e, 'r) world \<Rightarrow> string set" where
  "points pts name w \<equiv> pts name (vs_q (w_vs w))"

text \<open>Two processes, or two lives of one, that work on the same database and the same server.\<close>

definition shared_with :: "('q, 'e, 'r) world \<Rightarrow> ('q, 'e, 'r) world \<Rightarrow> bool" where
  "shared_with w w' \<longleftrightarrow> w_db w = w_db w' \<and> vs_q (w_vs w) = vs_q (w_vs w')"

lemma point_serverD:
  assumes "point_server x pts"
  shows "x_upsert_points x name [p] q = (Inr u, q') \<Longrightarrow> pts name q' = insert (pt_id p) (pts name q)"
    "x_upsert_points x name [p] q = (Inl e, q') \<Longrightarrow> pts name q \<subseteq> pts name q' \<and> pts name q' \<subseteq> insert (pt_id p) (pts name q)"
    "x_delete_points x name ids q = (Inr u, q') \<Longrightarrow> pts name q' = pts name q - set ids"
    "x_delete_points x name ids q = (Inl e, q') \<Longrightarrow> pts name q - set ids \<subseteq> pts name q' \<and> pts name q' \<subseteq> pts name q"
  using assms unfolding point_server_def by fastforce+

lemma upsert_points:
  assumes "point_server x pts" and "collection_name ns = Inr name" and "on_vs (v_upsert x ns i v text payload) w = (r, w')"
  shows "w_db w' = w_db w \<and> (case r of Inr _ \<Rightarrow> points pts name w' = insert i (points pts name w)
    | Inl _ \<Rightarrow> points pts name w \<subseteq> points pts name w' \<and> points pts name w' \<subseteq> insert i (points pts name w))"
  using assms(3)
  by (auto simp: on_vs_def m_zoom_def v_upsert_def m_bind_def assms(2) qcall_def split: prod.splits sum.splits)
    (use point_serverD(1,2) [OF assms(1)] in fastforce)+

lemma delete_points:
  assumes "point_server x pts" and "collection_name ns = Inr name" and "on_vs (v_delete_by_ids x ns [i]) w = (r, w')"
  shows "w_db w' = w_db w \<and> (case r of Inr _ \<Rightarrow> points pts name w' = points pts name w - {i}
    | Inl _ \<Rightarrow> points pts name w - {i} \<subseteq> points pts name w' \<and> points pts name w' \<subseteq> points pts name w)"
  using assms(3)
  by (auto simp: on_vs_def m_zoom_def v_delete_by_ids_def m_bind_def assms(2) qcall_def split: prod.splits sum.splits)
    (use point_serverD(3,4) [OF assms(1)] in fastforce)+

text \<open>The calls of the database leave the server alone.\<close>

definition keeps_vs :: "('q, 'e, 'r, 'a) op \<Rightarrow> bool" where
  "keeps_vs m \<longleftrightarrow> (\<forall>w. w_vs (snd (m w)) = w_vs w)"

named_theorems keeps_vs_intros "computations that do not reach Qdrant"

lemma keeps_vsD: "keeps_vs m \<Longrightarrow> m w = (r, w') \<Longrightarrow> w_vs w' = w_vs w"
  by (metis keeps_vs_def snd_conv)

lemma keeps_vs_calls [keeps_vs_intros]:
  "keeps_vs (on_db m)" "keeps_vs (from_db f)" "keeps_vs (now_op x)" "keeps_vs (m_ret a)"
  by (simp_all add: keeps_vs_def on_db_run)

lemma keeps_vs_bind [keeps_vs_intros]: "keeps_vs m \<Longrightarrow> (\<And>a. keeps_vs (f a)) \<Longrightarrow> keeps_vs (m_bind m f)"
  unfolding keeps_vs_def m_bind_def by (simp split: prod.splits sum.splits) (metis snd_conv)

lemma keeps_vs_then [keeps_vs_intros]: "keeps_vs m \<Longrightarrow> keeps_vs k \<Longrightarrow> keeps_vs (m_then m k)"
  unfolding m_then_def by (rule keeps_vs_bind)

text \<open>A sequence of effects of which only one reaches Qdrant, as every prefix leaves it.\<close>

lemma seq_keeps_vs:
  "\<forall>m\<in>set ms. keeps_vs m \<Longrightarrow> m_seq ms w = (r, w') \<Longrightarrow> w_vs w' = w_vs w"
proof (induction ms arbitrary: w)
  case (Cons m ms)
  obtain q u where q: "m w = (q, u)" by fastforce
  have kept: "w_vs u = w_vs w" using keeps_vsD [of m w q u] Cons.prems(1) q by simp
  show ?case
  proof (cases q)
    case (Inl e)
    with Cons.prems(2) q kept show ?thesis by (simp add: m_then_def m_bind_def)
  next
    case (Inr a)
    with Cons.prems(2) q have "m_seq ms u = (r, w')" by (simp add: m_then_def m_bind_def)
    with Cons kept show ?thesis by simp
  qed
qed simp

lemma seq_one_call:
  assumes "keeps_vs a" and "\<forall>m\<in>set ms. keeps_vs m" and "m_seq (take j (a # v # ms)) w = (Inr (), w')"
  shows "if j < 2 then w_vs w' = w_vs w else \<exists>u u'. w_vs u = w_vs w \<and> v u = (Inr (), u') \<and> w_vs w' = w_vs u'"
proof -
  consider "j = 0" | "j = 1" | k where "j = Suc (Suc k)" by (metis One_nat_def not0_implies_Suc)
  then show ?thesis
  proof cases
    case 3
    with assms(3) obtain u u' where run: "a w = (Inr (), u)" "v u = (Inr (), u')" "m_seq (take k ms) u' = (Inr (), w')"
      by (auto simp: m_then_ok_iff)
    have "w_vs w' = w_vs u'" by (rule seq_keeps_vs [OF _ run(3)]) (meson assms(2) in_set_takeD)
    with run keeps_vsD [OF assms(1) run(1)] 3 show ?thesis by auto
  qed (use assms(3) keeps_vsD [OF assms(1)] in \<open>auto simp: m_then_ok_iff\<close>)
qed

section \<open>A prefix of a store\<close>

lemma write_effects_parts:
  "write_effects x ctx target_id embedding op =
     on_db (insert_pending_op op)
     # on_vs (v_upsert x (sx_namespace ctx) (sx_id ctx) embedding (or_empty (sx_search_text ctx))
         (write_payload x (build_memory ctx) (or_empty (sx_search_text ctx))))
     # [on_db (mark_pending_op_qdrant_written (po_op_id op)), commit_effect x ctx target_id op]"
  by (simp add: write_effects_def Let_def)

lemma write_keeps_vs:
  "\<forall>m\<in>set [on_db (mark_pending_op_qdrant_written (po_op_id op)), commit_effect x ctx target_id op]. keeps_vs m"
  by (auto intro!: keeps_vs_intros)

text \<open>The journal entry and the points after \<open>j\<close> effects that succeeded.\<close>

lemma write_done:
  assumes "m_seq (take j (write_effects x ctx target_id embedding op)) w = (Inr (), u)" and "\<not> po_qdrant_written op"
    and "point_server x pts" and "collection_name (sx_namespace ctx) = Inr name"
  shows "points pts name u = (if j < 2 then points pts name w else insert (sx_id ctx) (points pts name w))
    \<and> (j < 4 \<longrightarrow> memories (w_db u) = memories (w_db w) \<and> completed_ops (w_db u) = completed_ops (w_db w)
        \<and> pending_ops (w_db u) = pending_ops (w_db w) @
            (if j = 0 then [] else [pend_row_of (op\<lparr>po_qdrant_written := 3 \<le> j\<rparr>)]))"
proof (rule conjI [OF _ impI])
  show "points pts name u = (if j < 2 then points pts name w else insert (sx_id ctx) (points pts name w))"
    using seq_one_call [OF keeps_vs_calls(1) write_keeps_vs assms(1) [unfolded write_effects_parts]]
    by (auto split: if_splits dest!: upsert_points [OF assms(3,4)])
next
  have op: "op\<lparr>po_qdrant_written := False\<rparr> = op" using assms(2) by (cases op) simp
  assume "j < 4"
  then have "j \<in> {0, 1, 2, 3}" by auto
  then consider "j = 0" | "j = Suc 0" | "j = Suc (Suc 0)" | "j = Suc (Suc (Suc 0))" by auto
  then show "memories (w_db u) = memories (w_db w) \<and> completed_ops (w_db u) = completed_ops (w_db w)
      \<and> pending_ops (w_db u) = pending_ops (w_db w) @ (if j = 0 then [] else [pend_row_of (op\<lparr>po_qdrant_written := 3 \<le> j\<rparr>)])"
    using assms(1)
    by cases (auto simp: write_effects_parts run_iffs insert_pending_op_def mark_pending_op_qdrant_written_def
        mark_last mark_pend_row op split: if_splits)
qed

text \<open>An effect that fails leaves the database alone, and Qdrant too unless it is the upsert.\<close>

lemma write_fails:
  assumes "(write_effects x ctx target_id embedding op ! j) u = (Inl e, t)" and "j < 4"
    and "point_server x pts" and "collection_name (sx_namespace ctx) = Inr name"
  shows "w_db t = w_db u \<and> (if j = 1 then points pts name u \<subseteq> points pts name t \<and> points pts name t \<subseteq> insert (sx_id ctx) (points pts name u)
    else points pts name t = points pts name u)"
proof -
  have "j \<in> {0, 1, 2, 3}" using assms(2) by auto
  then consider "j = 0" | "j = Suc 0" | "j = Suc (Suc 0)" | "j = Suc (Suc (Suc 0))" by auto
  then show ?thesis
  proof cases
    case 2
    with assms(1) upsert_points [OF assms(3,4)] show ?thesis by (fastforce simp: write_effects_parts)
  qed (use assms(1) commit_err_unchanged in \<open>auto simp: write_effects_parts on_db_err_iff m_bind_err_iff insert_pending_op_def
      mark_pending_op_qdrant_written_def split: if_splits\<close>)
qed

section \<open>A prefix of a forget\<close>

lemma forget_effects_parts:
  "forget_effects x i uuid ns op =
     on_db (insert_pending_op op) # on_vs (v_delete_by_ids x ns [uuid])
     # [on_db (mark_pending_op_qdrant_written (po_op_id op)), m_then (on_db (delete_memories [i])) (m_ret ()),
        m_bind (now_op x) (\<lambda>completed_at. on_db (complete_op (into_completed op i ns completed_at)))]"
  by (simp add: forget_effects_def)

lemma forget_keeps_vs:
  "\<forall>m\<in>set [on_db (mark_pending_op_qdrant_written (po_op_id op)), m_then (on_db (delete_memories [i])) (m_ret ()),
     m_bind (now_op x) (\<lambda>completed_at. on_db (complete_op (into_completed op i ns completed_at)))]. keeps_vs m"
  by (auto intro!: keeps_vs_intros)

lemma forget_done_points:
  assumes "m_seq (take j (forget_effects x i uuid ns op)) w = (Inr (), u)"
    and "point_server x pts" and "collection_name ns = Inr name"
  shows "points pts name u = (if j < 2 then points pts name w else points pts name w - {uuid})"
  using seq_one_call [OF keeps_vs_calls(1) forget_keeps_vs assms(1) [unfolded forget_effects_parts]]
  by (auto split: if_splits dest!: delete_points [OF assms(2,3)])

lemma forget_fails_points:
  assumes "(forget_effects x i uuid ns op ! j) u = (Inl e, t)" and "j < 5"
    and "point_server x pts" and "collection_name ns = Inr name"
  shows "if j = 1 then points pts name u - {uuid} \<subseteq> points pts name t \<and> points pts name t \<subseteq> points pts name u
    else points pts name t = points pts name u"
proof (cases "j = 1")
  case True
  with assms(1) delete_points [OF assms(3,4)] show ?thesis by (fastforce simp: forget_effects_parts)
next
  case False
  with assms(2) have "forget_effects x i uuid ns op ! j \<in> set (on_db (insert_pending_op op)
      # [on_db (mark_pending_op_qdrant_written (po_op_id op)), m_then (on_db (delete_memories [i])) (m_ret ()),
         m_bind (now_op x) (\<lambda>completed_at. on_db (complete_op (into_completed op i ns completed_at)))])"
    by (auto simp: forget_effects_parts nth_Cons' numeral_eq_Suc)
  then have "keeps_vs (forget_effects x i uuid ns op ! j)" by (auto intro!: keeps_vs_intros)
  from keeps_vsD [OF this assms(1)] False show ?thesis by simp
qed

section \<open>Recovery\<close>

text \<open>Recovery deletes the point of a store that reached Qdrant and was not completed, and no other one.\<close>

lemma recover_one_points:
  assumes "recover_one x rep op w = (Inr rep', w')"
    and "point_server x pts" and "collection_name (po_namespace op) = Inr name"
  shows "points pts name w' = points pts name w -
    (if \<not> is_op_completed (po_op_id op) (w_db w) \<and> po_qdrant_written op \<and> po_kind op \<noteq> OpForget
     then case x_parse_uuid x (po_memory_id op) of None \<Rightarrow> {} | Some u \<Rightarrow> {u} else {})"
proof (cases "\<not> is_op_completed (po_op_id op) (w_db w) \<and> po_qdrant_written op \<and> po_kind op \<noteq> OpForget
    \<and> x_parse_uuid x (po_memory_id op) \<noteq> None")
  case True
  then obtain u where u: "x_parse_uuid x (po_memory_id op) = Some u" by auto
  with assms(1) True obtain w1 where w1: "on_vs (v_delete_by_ids x (po_namespace op) [u]) w = (Inr (), w1)"
      "m_then (on_db (delete_memories [po_memory_id op])) (m_then (on_db (clear_pending_op (po_op_id op)))
        (m_ret (rep\<lparr>compensated_stores := compensated_stores rep + 1\<rparr>))) w1 = (Inr rep', w')"
    by (auto simp: recover_one_def Let_def m_bind_def [of "from_db _"] m_then_ok_iff)
  have "w_vs w' = w_vs w1" using w1(2) by (auto simp: run_iffs)
  with delete_points [OF assms(2,3) w1(1)] True u show ?thesis by auto
next
  case False
  with assms(1) have "w_vs w' = w_vs w"
    by (auto simp: recover_one_def Let_def run_iffs split: if_splits option.splits)
  with False show ?thesis by (auto split: option.splits)
qed

lemma recover_single_points:
  assumes "recover_on_startup x w = (Inr rep, w')" and "list_pending_ops (w_db w) = [op]"
    and "point_server x pts" and "collection_name (po_namespace op) = Inr name"
  shows "points pts name w' = points pts name w -
    (if \<not> is_op_completed (po_op_id op) (w_db w) \<and> po_qdrant_written op \<and> po_kind op \<noteq> OpForget
     then case x_parse_uuid x (po_memory_id op) of None \<Rightarrow> {} | Some u \<Rightarrow> {u} else {})"
proof -
  from assms(1,2) obtain rep0 where "recover_one x rep0 op w = (Inr rep, w')"
    by (auto simp: recover_on_startup_def m_bind_ok_iff)
  from recover_one_points [OF this assms(3,4)] show ?thesis .
qed

end
