(* ===== verification/RecoverLaws.thy ===== *)
theory RecoverLaws
  imports PointLaws
begin

text \<open>
  What recovery does to the database, for any journal, and what a crash at any point of a store
  or of a forget leaves after it.
\<close>

section \<open>Recovery of a journal\<close>

text \<open>The memories recovery deletes: of operations that reached Qdrant and were not recorded as done.\<close>

definition undone :: "('q, 'e, 'r) ext \<Rightarrow> db \<Rightarrow> pending_op \<Rightarrow> bool" where
  "undone x d op \<longleftrightarrow> \<not> is_op_completed (po_op_id op) d \<and> po_qdrant_written op
     \<and> (po_kind op = OpForget \<or> x_parse_uuid x (po_memory_id op) \<noteq> None)"

definition doomed :: "('q, 'e, 'r) ext \<Rightarrow> db \<Rightarrow> pending_op list \<Rightarrow> string list" where
  "doomed x d ops = map po_memory_id (filter (undone x d) ops)"

lemma rows_del_empty [simp]: "rows_del key [] rows = rows"
  by (simp add: rows_del_def)

lemma recover_one_effect:
  assumes "recover_one x rep op w = (Inr rep', w')"
  shows "memories (w_db w') = rows_del r_id (doomed x (w_db w) [op]) (memories (w_db w))
    \<and> pending_ops (w_db w') = rows_del pr_op_id [po_op_id op] (pending_ops (w_db w))
    \<and> completed_ops (w_db w') = completed_ops (w_db w) \<and> entities (w_db w') = entities (w_db w)
    \<and> w_cache w' = w_cache w"
  using assms
  by (auto simp: recover_one_def Let_def run_iffs clear_pending_op_def delete_memories_run doomed_def undone_def
      split: if_splits option.splits)

lemma recover_fold_effect:
  assumes "m_fold (recover_one x) rep ops w = (Inr rep', w')"
  shows "memories (w_db w') = rows_del r_id (doomed x (w_db w) ops) (memories (w_db w))
    \<and> pending_ops (w_db w') = rows_del pr_op_id (map po_op_id ops) (pending_ops (w_db w))
    \<and> completed_ops (w_db w') = completed_ops (w_db w) \<and> entities (w_db w') = entities (w_db w)
    \<and> w_cache w' = w_cache w"
  using assms
proof (induction ops arbitrary: rep w)
  case Nil
  then show ?case by (simp add: doomed_def)
next
  case (Cons op ops)
  obtain r1 w1 where run: "recover_one x rep op w = (Inr r1, w1)" "m_fold (recover_one x) r1 ops w1 = (Inr rep', w')"
    using Cons.prems by (auto simp: m_bind_ok_iff)
  note one = recover_one_effect [OF run(1)] and rest = Cons.IH [OF run(2)]
  have "completed_ops (w_db w1) = completed_ops (w_db w)" using one by simp
  then have "undone x (w_db w1) = undone x (w_db w)"
    by (intro ext) (simp add: undone_def is_op_completed_def)
  then have "doomed x (w_db w1) ops = doomed x (w_db w) ops" by (simp add: doomed_def)
  moreover have "doomed x (w_db w) (op # ops) = doomed x (w_db w) [op] @ doomed x (w_db w) ops"
    by (simp add: doomed_def)
  ultimately show ?case using one rest by (simp add: rows_del_del)
qed

definition recovered :: "recovery_report \<Rightarrow> nat" where
  "recovered r = compensated_stores r + rolled_forward_forgets r + cleared_pre_qdrant r"

lemma recover_fold_count:
  "m_fold (recover_one x) rep ops w = (Inr rep', w') \<Longrightarrow> recovered rep' \<le> recovered rep + length ops"
proof (induction ops arbitrary: rep w)
  case Nil
  then show ?case by simp
next
  case (Cons op ops)
  obtain r1 w1 where run: "recover_one x rep op w = (Inr r1, w1)" "m_fold (recover_one x) r1 ops w1 = (Inr rep', w')"
    using Cons.prems by (auto simp: m_bind_ok_iff)
  have "recovered r1 \<le> recovered rep + 1"
    using run(1) by (auto simp: recover_one_def Let_def run_iffs recovered_def split: if_splits option.splits)
  with Cons.IH [OF run(2)] show ?case by simp
qed

lemma list_pending_ids:
  "r \<in> set (pending_ops d) \<Longrightarrow> pending_op_of r \<noteq> None \<Longrightarrow> pr_op_id r \<in> set (map po_op_id (list_pending_ops d))"
  by (force simp: list_pending_ops_def List.map_filter_def pending_op_of_def split: option.splits)

lemma list_pending_after:
  "pending_ops d' = rows_del pr_op_id (map po_op_id (list_pending_ops d)) (pending_ops d) \<Longrightarrow> list_pending_ops d' = []"
proof -
  assume a: "pending_ops d' = rows_del pr_op_id (map po_op_id (list_pending_ops d)) (pending_ops d)"
  have "\<forall>r\<in>set (pending_ops d'). pending_op_of r = None"
    using list_pending_ids [of _ d] unfolding a set_rows_del by blast
  then show ?thesis by (auto simp: list_pending_ops_def List.map_filter_def filter_empty_conv)
qed

lemma recover_effect:
  assumes "recover_on_startup x w = (Inr report, w')"
  shows "memories (w_db w') = rows_del r_id (doomed x (w_db w) (list_pending_ops (w_db w))) (memories (w_db w))
    \<and> list_pending_ops (w_db w') = [] \<and> completed_ops (w_db w') = completed_ops (w_db w)
    \<and> entities (w_db w') = entities (w_db w) \<and> recovered report \<le> length (list_pending_ops (w_db w))"
proof -
  have run: "m_fold (recover_one x) \<lparr> compensated_stores = 0, rolled_forward_forgets = 0, cleared_pre_qdrant = 0 \<rparr>
      (list_pending_ops (w_db w)) w = (Inr report, w')"
    using assms by (simp add: recover_on_startup_def m_bind_def)
  show ?thesis
    using recover_fold_effect [OF run] list_pending_after recover_fold_count [OF run] by (auto simp: recovered_def)
qed

lemma recover_again:
  assumes "list_pending_ops (w_db w) = []"
  shows "recover_on_startup x w = (Inr \<lparr> compensated_stores = 0, rolled_forward_forgets = 0, cleared_pre_qdrant = 0 \<rparr>, w)"
  using assms by (simp add: recover_on_startup_def m_bind_def)

text \<open>
  C3. Recovery that completes empties the journal, deletes exactly the memories of operations
  that had reached Qdrant without being recorded as done (interrupted stores are undone,
  interrupted forgets are finished), changes no other row and no entity, and running it again
  does nothing. It counts each journal entry at most once.
\<close>

theorem recovery_result:
  assumes "recover_on_startup x w = (Inr report, w')"
  shows "list_pending_ops (w_db w') = []
    \<and> memories (w_db w') = filter (\<lambda>r. \<forall>op\<in>set (list_pending_ops (w_db w)). undone x (w_db w) op \<longrightarrow> r_id r \<noteq> po_memory_id op)
        (memories (w_db w))
    \<and> completed_ops (w_db w') = completed_ops (w_db w) \<and> entities (w_db w') = entities (w_db w)
    \<and> recovered report \<le> length (list_pending_ops (w_db w))
    \<and> (\<exists>again. recover_on_startup x w' = (Inr again, w'))"
proof -
  note eff = recover_effect [OF assms]
  have "rows_del r_id (doomed x (w_db w) (list_pending_ops (w_db w))) (memories (w_db w)) =
      filter (\<lambda>r. \<forall>op\<in>set (list_pending_ops (w_db w)). undone x (w_db w) op \<longrightarrow> r_id r \<noteq> po_memory_id op) (memories (w_db w))"
    unfolding rows_del_def doomed_def by (rule filter_cong) auto
  with eff recover_again [of w' x] show ?thesis by auto
qed

section \<open>A crash during a store\<close>

lemma pending_round_trip [simp]: "pending_op_of (pend_row_of op) = Some op"
  by (simp add: pending_op_of_def pend_row_of_def)

lemma list_pending_single: "pending_ops d = [pend_row_of op] \<Longrightarrow> list_pending_ops d = [op]"
  by (simp add: list_pending_ops_def List.map_filter_def)

lemma list_pending_none: "pending_ops d = [] \<Longrightarrow> list_pending_ops d = []"
  by (simp add: list_pending_ops_def List.map_filter_def)

lemma recover_single:
  assumes "recover_on_startup x w = (Inr report, w')" and "pending_ops (w_db w) = [pend_row_of op]"
  shows "memories (w_db w') =
      (if undone x (w_db w) op then rows_del r_id [po_memory_id op] (memories (w_db w)) else memories (w_db w))
    \<and> list_pending_ops (w_db w') = []"
  using recover_effect [OF assms(1)] list_pending_single [OF assms(2)] by (simp add: doomed_def)

lemma recover_idle:
  assumes "recover_on_startup x w = (Inr report, w')" and "pending_ops (w_db w) = []"
  shows "w' = w"
  using recover_again [OF list_pending_none [OF assms(2)], of x] assms(1) by simp

text \<open>A sequence of which at most \<open>k\<close> effects are run has stopped after \<open>j\<close>: the next one failed, or none is left.\<close>

definition stopped_after :: "nat \<Rightarrow> ('s, 'e, unit) sm list \<Rightarrow> nat \<Rightarrow> 's \<Rightarrow> ('e + unit) \<Rightarrow> bool" where
  "stopped_after j ms k s r \<longleftrightarrow> (\<exists>u. m_seq (take j ms) s = (Inr (), u)
     \<and> (if r = Inr () then j = min k (length ms) else j < min k (length ms) \<and> fst ((ms ! j) u) = r))"

lemma stopped_le: "stopped_after j ms k s r \<Longrightarrow> j \<le> min k (length ms)"
  by (auto simp: stopped_after_def split: if_splits)

lemma stopped_at_the_end: "stopped_after j ms k s (Inr ()) \<Longrightarrow> j = min k (length ms)"
  by (simp add: stopped_after_def)

text \<open>
  The world in which a store stopped: \<open>j\<close> effects had succeeded, and if it stopped at an error, the
  one after them had failed, which an upsert can do after Qdrant carried it out.
\<close>

lemma store_stopped:
  assumes "m_seq (take k (write_effects x ctx target_id embedding op)) w = (r, w1)" and "\<not> po_qdrant_written op"
    and "point_server x pts" and "collection_name (sx_namespace ctx) = Inr name"
    and "before = points pts name w" and "after = points pts name w1"
  obtains j where "stopped_after j (write_effects x ctx target_id embedding op) k w r"
    "j = 4 \<longrightarrow> r = Inr ()"
    "j < 4 \<longrightarrow> memories (w_db w1) = memories (w_db w) \<and> completed_ops (w_db w1) = completed_ops (w_db w)
       \<and> pending_ops (w_db w1) = pending_ops (w_db w) @
           (if j = 0 then [] else [pend_row_of (op\<lparr>po_qdrant_written := 3 \<le> j\<rparr>)])"
    "if 2 \<le> j then after = insert (sx_id ctx) before
     else if j = 1 \<and> r \<noteq> Inr () then before \<subseteq> after \<and> after \<subseteq> insert (sx_id ctx) before
     else after = before"
proof (cases r)
  case (Inl e)
  from m_seq_take_error [OF assms(1) [unfolded Inl]] obtain j u where j: "j < k" "j < length (write_effects x ctx target_id embedding op)"
      "m_seq (take j (write_effects x ctx target_id embedding op)) w = (Inr (), u)"
      "(write_effects x ctx target_id embedding op ! j) u = (Inl e, w1)" by blast
  then have "j < 4" by (simp add: write_effects_parts)
  moreover have "stopped_after j (write_effects x ctx target_id embedding op) k w r"
    using j Inl by (auto simp: stopped_after_def)
  ultimately show thesis using write_done [OF j(3) assms(2-4)] write_fails [OF j(4) \<open>j < 4\<close> assms(3,4)] Inl
    by (intro that [of j]) (auto simp: assms(5,6) split: if_splits)
next
  case (Inr a)
  have "take (min k 4) (write_effects x ctx target_id embedding op) = take k (write_effects x ctx target_id embedding op)"
    by (cases "k \<le> 4") (simp_all add: write_effects_parts min_def)
  with assms(1) Inr have run: "m_seq (take (min k 4) (write_effects x ctx target_id embedding op)) w = (Inr (), w1)" by simp
  then have "stopped_after (min k 4) (write_effects x ctx target_id embedding op) k w r"
    using Inr by (simp add: stopped_after_def write_effects_parts)
  with write_done [OF run assms(2-4)] Inr show thesis
    by (intro that [of "min k 4"]) (auto simp: assms(5,6) split: if_splits)
qed

text \<open>
  C1. A store across crashes. The process dies after any number of the dual write's effects, or one
  of them fails, and a later start recovers the journal; \<open>j\<close> effects had succeeded. If all four had,
  the whole write is there, its row, the retirement of the memories it replaces and its point in
  Qdrant. Otherwise the memories are those from before the store and no operation stays pending; and
  Qdrant has no point of it if it had not been asked for one, or if the journal had noted it, because
  recovery then deletes it. Between the upsert and that note lies a gap: recovery takes the entry for
  one that never reached Qdrant, clears it, and the point stays without a row.
\<close>

theorem store_crash_atomic:
  assumes "db_ok (w_db w)" and "pending_ops (w_db w) = []" and "sx_id ctx \<notin> row_keys r_id (memories (w_db w))"
    and "op = journal_entry ctx kind target_id op_id started_at" and "kind \<noteq> OpForget"
    and "\<not> is_op_completed op_id (w_db w)"
    and "point_server x pts" and "collection_name (sx_namespace ctx) = Inr name"
    and "x_parse_uuid x (sx_id ctx) = Some (sx_id ctx)" and "sx_id ctx \<notin> before"
    and "m_seq (take k (write_effects x ctx target_id embedding op)) w = (r, w1)"
    and "shared_with w2 w1" and "recover_on_startup x w2 = (Inr report, w3)"
    and "before = points pts name w" and "after = points pts name w3"
  shows "\<exists>j. stopped_after j (write_effects x ctx target_id embedding op) k w r \<and> list_pending_ops (w_db w3) = []
    \<and> memories (w_db w3) = (if j = 4
         then invalidated (sx_now ctx) (invalidate_ids ctx target_id) (memories (w_db w) @ [memory_row (build_memory ctx)])
         else memories (w_db w))
    \<and> (if j = 2 \<or> j = 4 then after = insert (sx_id ctx) before
       else if j = 1 \<and> r \<noteq> Inr () then before \<subseteq> after \<and> after \<subseteq> insert (sx_id ctx) before
       else after = before)"
proof -
  have op: "\<not> po_qdrant_written op" "po_memory_id op = sx_id ctx" "po_op_id op = op_id" "po_kind op = kind"
      "po_namespace op = sx_namespace ctx"
    by (simp_all add: assms(4))
  obtain j where stop: "stopped_after j (write_effects x ctx target_id embedding op) k w r" and all: "j = 4 \<longrightarrow> r = Inr ()"
    and db: "j < 4 \<longrightarrow> memories (w_db w1) = memories (w_db w) \<and> completed_ops (w_db w1) = completed_ops (w_db w)
       \<and> pending_ops (w_db w1) = pending_ops (w_db w) @
           (if j = 0 then [] else [pend_row_of (op\<lparr>po_qdrant_written := 3 \<le> j\<rparr>)])"
    and pt: "if 2 \<le> j then points pts name w1 = insert (sx_id ctx) before
       else if j = 1 \<and> r \<noteq> Inr () then before \<subseteq> points pts name w1 \<and> points pts name w1 \<subseteq> insert (sx_id ctx) before
       else points pts name w1 = before"
    by (rule store_stopped [OF assms(11) op(1) assms(7,8,14) refl])
  have j: "j \<le> min k 4" using stopped_le [OF stop] by (simp add: write_effects_parts)
  have same: "w_db w2 = w_db w1" "points pts name w2 = points pts name w1" using assms(12) by (simp_all add: shared_with_def)
  have fresh: "rows_del r_id [sx_id ctx] (memories (w_db w)) = memories (w_db w)"
    by (rule rows_del_fresh [OF assms(3)])
  have "list_pending_ops (w_db w3) = []
    \<and> memories (w_db w3) = (if j = 4
         then invalidated (sx_now ctx) (invalidate_ids ctx target_id) (memories (w_db w) @ [memory_row (build_memory ctx)])
         else memories (w_db w))
    \<and> (if j = 2 \<or> j = 4 then after = insert (sx_id ctx) before
       else if j = 1 \<and> r \<noteq> Inr () then before \<subseteq> after \<and> after \<subseteq> insert (sx_id ctx) before
       else after = before)"
  proof (cases "j = 0 \<or> j = 4")
    case True
    have mem: "pending_ops (w_db w1) = [] \<and> memories (w_db w1) = (if j = 4
        then invalidated (sx_now ctx) (invalidate_ids ctx target_id) (memories (w_db w) @ [memory_row (build_memory ctx)])
        else memories (w_db w))"
    proof (cases "j = 4")
      case four: True
      with j all have "r = Inr () \<and> 4 \<le> k" by auto
      then obtain p where "progress_db ctx target_id op (w_db w) p (w_db w1)" "p = Committed"
        using write_prefix [OF assms(1) op(1) assms(11)] by (auto simp: outcome_def)
      from progress_tables(1) [OF this] assms(2) four show ?thesis by simp
    qed (use True db assms(2) in simp)
    moreover have "w3 = w2" using recover_idle [OF assms(13)] mem same by simp
    ultimately show ?thesis using True pt same assms(15) list_pending_none by auto
  next
    case False
    let ?o = "op\<lparr>po_qdrant_written := 3 \<le> j\<rparr>"
    have lt: "j < 4" using False j by auto
    have p: "pending_ops (w_db w2) = [pend_row_of ?o]" using db lt same assms(2) False by simp
    have closed: "is_op_completed (po_op_id ?o) (w_db w2) = is_op_completed op_id (w_db w)"
      using db lt same op by (simp add: is_op_completed_def)
    have gone: "after = (if j = 3 then points pts name w1 - {sx_id ctx} else points pts name w1)"
      using recover_single_points [OF assms(13) list_pending_single [OF p] assms(7), of name] assms(5,6,8,9,15) op closed same False lt
      by auto
    have "undone x (w_db w2) ?o \<longleftrightarrow> j = 3"
      using op closed lt assms(5,6,9) by (auto simp: undone_def)
    with recover_single [OF assms(13) p] fresh db lt same op
    have "memories (w_db w3) = memories (w_db w)" "list_pending_ops (w_db w3) = []" by auto
    then show ?thesis using gone pt False lt assms(10) by (auto split: if_splits)
  qed
  with stop show ?thesis by blast
qed

definition demo_ctx :: store_ctx where
  "demo_ctx = \<lparr> sx_req = note_request ''hi'', sx_namespace = ''default'', sx_memory_type = Episodic, sx_now = 0,
     sx_id = ''u0'', sx_normalized_predicate = None, sx_embedding = Some [1], sx_search_text = Some ''hi'',
     sx_resolved_entities = [], sx_superseded_ids = [], sx_normalizer = normalizer_new [],
     sx_dedup = default_dedup_config, sx_conflict = default_conflict_config \<rparr>"

definition demo_crash :: "nat \<Rightarrow> (demo_q, 64 word \<Rightarrow> real list option, 64 word \<Rightarrow> cached_results option) world" where
  "demo_crash k = snd (m_seq (take k (write_effects demo_ext demo_ctx None [1]
     (journal_entry demo_ctx OpStore None ''op'' 0))) (demo_world empty_db))"

lemma demo_crash_3: "fst (recover_on_startup demo_ext (demo_crash 3)) =
    Inr \<lparr> compensated_stores = 1, rolled_forward_forgets = 0, cleared_pre_qdrant = 0 \<rparr>"
  by code_simp

text \<open>The points of the demo server.\<close>

definition demo_ids :: "string \<Rightarrow> demo_q \<Rightarrow> string set" where
  "demo_ids name q = pt_id ` set (demo_points name q)"

lemma demo_server: "point_server demo_ext demo_ids"
  by (auto simp: point_server_def demo_ext_def demo_ids_def m_modify_def demo_set_def demo_points_def)

lemma demo_context:
  "collection_name (sx_namespace demo_ctx) = Inr ''ferrex_default''" "x_parse_uuid demo_ext (sx_id demo_ctx) = Some (sx_id demo_ctx)"
  "sx_id demo_ctx = ''u0''"
  by code_simp+

lemma shared_refl [simp]: "shared_with w w"
  by (simp add: shared_with_def)

lemma demo_third: "fst (m_seq (take 3 (write_effects demo_ext demo_ctx None [1] (journal_entry demo_ctx OpStore None ''op'' 0)))
    (demo_world empty_db)) = Inr ()"
  by code_simp

theorem store_crash_atomic_witness:
  "memories (w_db (snd (recover_on_startup demo_ext (demo_crash 3)))) = []
   \<and> demo_ids ''ferrex_default'' (vs_q (w_vs (snd (recover_on_startup demo_ext (demo_crash 3))))) = {}"
proof -
  let ?op = "journal_entry demo_ctx OpStore None ''op'' 0" and ?w3 = "snd (recover_on_startup demo_ext (demo_crash 3))"
  have empty: "pending_ops (w_db (demo_world empty_db)) = []" "memories (w_db (demo_world empty_db)) = []"
      "\<not> is_op_completed ''op'' (w_db (demo_world empty_db))" "db_ok (w_db (demo_world empty_db))"
    by (simp_all add: empty_db_def is_op_completed_def row_keys_def empty_db_ok [unfolded empty_db_def])
  have none: "demo_ids ''ferrex_default'' (vs_q (w_vs (demo_world empty_db))) = {}"
    by (simp add: demo_ids_def demo_points_def demo_world_def)
  have rec: "recover_on_startup demo_ext (demo_crash 3) =
      (Inr \<lparr> compensated_stores = 1, rolled_forward_forgets = 0, cleared_pre_qdrant = 0 \<rparr>, ?w3)"
    using demo_crash_3 by (simp add: prod_eq_iff)
  have run: "m_seq (take 3 (write_effects demo_ext demo_ctx None [1] ?op)) (demo_world empty_db) = (Inr (), demo_crash 3)"
    using demo_third by (simp add: demo_crash_def prod_eq_iff)
  have "\<exists>j. stopped_after j (write_effects demo_ext demo_ctx None [1] ?op) 3 (demo_world empty_db) (Inr ()) \<and> list_pending_ops (w_db ?w3) = []
    \<and> memories (w_db ?w3) = (if j = 4
         then invalidated (sx_now demo_ctx) (invalidate_ids demo_ctx None) (memories (w_db (demo_world empty_db)) @ [memory_row (build_memory demo_ctx)])
         else memories (w_db (demo_world empty_db)))
    \<and> (if j = 2 \<or> j = 4 then demo_ids ''ferrex_default'' (vs_q (w_vs ?w3)) = insert (sx_id demo_ctx) {}
       else if j = 1 \<and> Inr () \<noteq> (Inr () :: core_error + unit)
       then {} \<subseteq> demo_ids ''ferrex_default'' (vs_q (w_vs ?w3)) \<and> demo_ids ''ferrex_default'' (vs_q (w_vs ?w3)) \<subseteq> insert (sx_id demo_ctx) {}
       else demo_ids ''ferrex_default'' (vs_q (w_vs ?w3)) = {})"
    by (rule store_crash_atomic [OF empty(4,1) _ refl _ empty(3) demo_server demo_context(1,2) _ run shared_refl rec none [symmetric] refl])
      (simp_all add: row_keys_def empty_db_memories)
  then show ?thesis using empty(2) by (auto dest!: stopped_at_the_end simp: write_effects_parts)
qed

section \<open>A crash during a forget\<close>

text \<open>Forgetting touches the journal, then Qdrant, then the row: the state after \<open>j\<close> effects.\<close>

lemma pend_row_unmarked [simp]:
  "\<not> po_qdrant_written op \<Longrightarrow> pend_row_of (op\<lparr>po_qdrant_written := False\<rparr>) = pend_row_of op"
  by (simp add: pend_row_of_def)

lemma rows_del_dup [simp]: "rows_del key [i, i] rows = rows_del key [i] rows"
  by (simp add: rows_del_def)

lemma forget_done:
  assumes "m_seq (take j (forget_effects x i uuid ns op)) w = (Inr (), u)" and "\<not> po_qdrant_written op"
  shows "memories (w_db u) = (if j < 4 then memories (w_db w) else rows_del r_id [i] (memories (w_db w)))
    \<and> (0 < j \<longrightarrow> po_op_id op \<notin> row_keys pr_op_id (pending_ops (w_db w)))
    \<and> pending_ops (w_db u) =
        (if j = 0 \<or> 5 \<le> j then pending_ops (w_db w)
         else pending_ops (w_db w) @ [pend_row_of (op\<lparr>po_qdrant_written := 3 \<le> j\<rparr>)])
    \<and> (j < 5 \<longrightarrow> completed_ops (w_db u) = completed_ops (w_db w))"
proof -
  consider "j = 0" | "j = 1" | "j = 2" | "j = 3" | "j = 4" | "5 \<le> j" by linarith
  then show ?thesis
  proof cases
    case 1
    with assms show ?thesis by simp
  next
    case 2
    with assms show ?thesis
      by (auto simp: forget_effects_def run_iffs insert_pending_op_def split: if_splits)
  next
    case 3
    with assms show ?thesis
      by (auto simp: forget_effects_def run_iffs insert_pending_op_def numeral_2_eq_2 split: if_splits)
  next
    case 4
    with assms show ?thesis
      by (auto simp: forget_effects_def run_iffs insert_pending_op_def numeral_3_eq_3 mark_last mark_pend_row
          mark_pending_op_qdrant_written_def split: if_splits)
  next
    case 5
    then have j: "j = Suc (Suc (Suc (Suc 0)))" by simp
    from assms show ?thesis
      by (auto simp: j forget_effects_def run_iffs insert_pending_op_def mark_last mark_pend_row delete_memories_run
          mark_pending_op_qdrant_written_def split: if_splits)
  next
    case 6
    from assms 6 show ?thesis
      by (auto simp: forget_effects_def run_iffs insert_pending_op_def mark_last mark_pend_row delete_memories_run
          mark_pending_op_qdrant_written_def complete_op_def m_tx_ok_iff complete_op_in_def rows_del_fresh
          split: if_splits)
  qed
qed

lemma forget_effect_fails:
  assumes "(forget_effects x i uuid ns op ! j) u = (Inl e, t)" and "j < 5"
  shows "w_db t = w_db u"
proof -
  have "j \<in> {0, 1, 2, 3, 4}" using assms(2) by auto
  with assms(1) show ?thesis
    by (auto simp: forget_effects_def on_db_err_iff on_vs_err_iff m_bind_err_iff m_then_def insert_pending_op_def
        mark_pending_op_qdrant_written_def delete_memories_run complete_op_def m_tx_def complete_op_in_def split: if_splits)
qed

lemma forget_stopped:
  assumes "m_seq (take k (forget_effects x i uuid ns op)) w = (r, w1)" and "\<not> po_qdrant_written op"
    and "point_server x pts" and "collection_name ns = Inr name"
    and "before = points pts name w" and "after = points pts name w1"
  obtains j u where "stopped_after j (forget_effects x i uuid ns op) k w r"
    "m_seq (take j (forget_effects x i uuid ns op)) w = (Inr (), u)" "w_db w1 = w_db u"
    "if 2 \<le> j then after = before - {uuid}
     else if j = 1 \<and> r \<noteq> Inr () then before - {uuid} \<subseteq> after \<and> after \<subseteq> before
     else after = before"
proof (cases r)
  case (Inl e)
  from m_seq_take_error [OF assms(1) [unfolded Inl]] obtain j u where j: "j < k" "j < length (forget_effects x i uuid ns op)"
      "m_seq (take j (forget_effects x i uuid ns op)) w = (Inr (), u)" "(forget_effects x i uuid ns op ! j) u = (Inl e, w1)"
    by blast
  then have lt: "j < 5" by (simp add: forget_effects_def)
  have "stopped_after j (forget_effects x i uuid ns op) k w r" using j Inl by (auto simp: stopped_after_def)
  from this j(3) forget_effect_fails [OF j(4) lt] forget_done_points [OF j(3) assms(3,4)] forget_fails_points [OF j(4) lt assms(3,4)]
  show thesis by (intro that [of j u]) (auto simp: assms(5,6) Inl split: if_splits)
next
  case (Inr a)
  have "take (min k 5) (forget_effects x i uuid ns op) = take k (forget_effects x i uuid ns op)"
    by (cases "k \<le> 5") (simp_all add: forget_effects_def min_def)
  with assms(1) Inr have run: "m_seq (take (min k 5) (forget_effects x i uuid ns op)) w = (Inr (), w1)" by simp
  then have "stopped_after (min k 5) (forget_effects x i uuid ns op) k w r"
    using Inr by (simp add: stopped_after_def forget_effects_def)
  with forget_done_points [OF run assms(3,4)] run Inr show thesis
    by (intro that [of "min k 5" w1]) (auto simp: assms(5,6) split: if_splits)
qed

text \<open>
  C2. A forget across crashes. The process dies or fails anywhere in it and a later start recovers the
  journal; \<open>j\<close> effects had succeeded. No operation stays pending, no other memory and no other point
  is touched. If Qdrant had not been asked to delete the vector, the memory keeps its row and its
  vector. Once the journal had noted that Qdrant deleted it, both are gone. In between Qdrant has
  deleted the vector, or may have if it did not acknowledge the request, and the row stays.
\<close>

theorem forget_crash_atomic:
  assumes "pending_ops (w_db w) = []" and "op = forget_entry i ns op_id started_at"
    and "\<not> is_op_completed op_id (w_db w)"
    and "point_server x pts" and "collection_name ns = Inr name"
    and "m_seq (take k (forget_effects x i uuid ns op)) w = (r, w1)"
    and "shared_with w2 w1" and "recover_on_startup x w2 = (Inr report, w3)"
    and "before = points pts name w" and "after = points pts name w3"
  shows "\<exists>j. stopped_after j (forget_effects x i uuid ns op) k w r \<and> list_pending_ops (w_db w3) = []
    \<and> memories (w_db w3) = (if j < 3 then memories (w_db w) else rows_del r_id [i] (memories (w_db w)))
    \<and> (if 2 \<le> j then after = before - {uuid}
       else if j = 1 \<and> r \<noteq> Inr () then before - {uuid} \<subseteq> after \<and> after \<subseteq> before
       else after = before)"
proof -
  have op: "\<not> po_qdrant_written op" "po_memory_id op = i" "po_op_id op = op_id" "po_kind op = OpForget" "po_namespace op = ns"
    by (simp_all add: assms(2) forget_entry_def)
  obtain j u where j: "stopped_after j (forget_effects x i uuid ns op) k w r"
      "m_seq (take j (forget_effects x i uuid ns op)) w = (Inr (), u)"
      "w_db w1 = w_db u"
    and pt: "if 2 \<le> j then points pts name w1 = before - {uuid}
       else if j = 1 \<and> r \<noteq> Inr () then before - {uuid} \<subseteq> points pts name w1 \<and> points pts name w1 \<subseteq> before
       else points pts name w1 = before"
    by (rule forget_stopped [OF assms(6) op(1) assms(4,5,9) refl])
  note st = forget_done [OF j(2) op(1)]
  have w2: "w_db w2 = w_db u" "points pts name w2 = points pts name w1" using assms(7) j(3) by (simp_all add: shared_with_def)
  have fin: "list_pending_ops (w_db w3) = [] \<and> after = points pts name w1
    \<and> memories (w_db w3) = (if j < 3 then memories (w_db w) else rows_del r_id [i] (memories (w_db w)))"
  proof (cases "j = 0 \<or> 5 \<le> j")
    case True
    then have "w3 = w2" using recover_idle [OF assms(8)] st w2 assms(1) by simp
    with True st w2 assms(1,10) list_pending_none show ?thesis by auto
  next
    case False
    let ?o = "op\<lparr>po_qdrant_written := 3 \<le> j\<rparr>"
    have p: "pending_ops (w_db w2) = [pend_row_of ?o]" using st w2 assms(1) False by simp
    have "undone x (w_db w2) ?o \<longleftrightarrow> 3 \<le> j"
      using op st w2 False assms(3) by (auto simp: undone_def is_op_completed_def)
    moreover have "after = points pts name w1"
      using recover_single_points [OF assms(8) list_pending_single [OF p] assms(4), of name] op w2 assms(5,10) by simp
    ultimately show ?thesis using recover_single [OF assms(8) p] st w2 op(2) False by (auto simp: rows_del_del)
  qed
  then have "after = points pts name w1" by blast
  from pt [folded this] fin j(1) show ?thesis by blast
qed

definition demo_stored :: "(demo_q, 64 word \<Rightarrow> real list option, 64 word \<Rightarrow> cached_results option) world" where
  "demo_stored = snd (store demo_ext demo_service (note_request ''hi'') (demo_world empty_db))"

definition demo_forget :: "nat \<Rightarrow> (demo_q, 64 word \<Rightarrow> real list option, 64 word \<Rightarrow> cached_results option) world" where
  "demo_forget k = snd (m_seq (take k (forget_effects demo_ext ''u0'' ''u0'' ''default''
     (forget_entry ''u0'' ''default'' ''op'' 5))) demo_stored)"

lemma demo_stored_facts: "pending_ops (w_db demo_stored) = []" "is_op_completed ''op'' (w_db demo_stored) = False"
    "map r_id (memories (w_db demo_stored)) = [''u0'']"
  by code_simp+

lemma demo_forget_3: "fst (recover_on_startup demo_ext (demo_forget 3)) =
      Inr \<lparr> compensated_stores = 0, rolled_forward_forgets = 1, cleared_pre_qdrant = 0 \<rparr>"
    "fst (m_seq (take 3 (forget_effects demo_ext ''u0'' ''u0'' ''default'' (forget_entry ''u0'' ''default'' ''op'' 5))) demo_stored) = Inr ()"
  by code_simp+

lemma demo_stored_points: "demo_ids ''ferrex_default'' (vs_q (w_vs demo_stored)) = {''u0''}"
proof -
  have "map pt_id (demo_points ''ferrex_default'' (vs_q (w_vs demo_stored))) = [''u0'']" by code_simp
  then have "set (map pt_id (demo_points ''ferrex_default'' (vs_q (w_vs demo_stored)))) = {''u0''}" by simp
  then show ?thesis by (simp add: demo_ids_def)
qed

lemma demo_namespace: "collection_name ''default'' = Inr ''ferrex_default''"
  by (simp add: collection_name_Inr is_ascii_alphanumeric_def)

theorem forget_crash_atomic_witness:
  "memories (w_db (snd (recover_on_startup demo_ext (demo_forget 3)))) = rows_del r_id [''u0''] (memories (w_db demo_stored))
   \<and> demo_ids ''ferrex_default'' (vs_q (w_vs (snd (recover_on_startup demo_ext (demo_forget 3))))) = {}"
proof -
  let ?seq = "m_seq (take 3 (forget_effects demo_ext ''u0'' ''u0'' ''default'' (forget_entry ''u0'' ''default'' ''op'' 5)))"
  have 1: "?seq demo_stored = (Inr (), demo_forget 3)"
    using demo_forget_3(2) by (simp add: demo_forget_def prod_eq_iff)
  have 2: "recover_on_startup demo_ext (demo_forget 3) =
      (Inr \<lparr> compensated_stores = 0, rolled_forward_forgets = 1, cleared_pre_qdrant = 0 \<rparr>,
       snd (recover_on_startup demo_ext (demo_forget 3)))"
    using demo_forget_3(1) by (simp add: prod_eq_iff)
  have 3: "\<not> is_op_completed ''op'' (w_db demo_stored)" by (simp add: demo_stored_facts)
  from forget_crash_atomic [OF demo_stored_facts(1) refl 3 demo_server demo_namespace 1 shared_refl 2 refl refl]
  show ?thesis by (auto dest!: stopped_at_the_end simp: demo_stored_points forget_effects_def)
qed

text \<open>
  C9. A forget can lose only the vector. The journal marks a forget after Qdrant has deleted the vector;
  if the process dies between the two, recovery drops the journal entry as one that never reached
  Qdrant. A live memory then stays in the database as it was, with no vector under which a search
  could find it, with nothing in the journal that says so, and no later start changes that.
\<close>

theorem forget_crash_loses_vector:
  assumes "pending_ops (w_db w) = []" and "op = forget_entry i ns op_id started_at"
    and "\<not> is_op_completed op_id (w_db w)"
    and "get_memory i (w_db w) = Some m" and "mem_t_invalid m = None"
    and "point_server x pts" and "collection_name ns = Inr name"
    and "m_seq (take 2 (forget_effects x i uuid ns op)) w = (Inr (), w1)"
    and "shared_with w2 w1" and "recover_on_startup x w2 = (Inr report, w3)"
    and "shared_with w4 w3"
  shows "w_db w3 = w_db w \<and> get_memory i (w_db w4) = Some m \<and> uuid \<notin> points pts name w4
    \<and> cleared_pre_qdrant report = 1 \<and> list_pending_ops (w_db w4) = []
    \<and> (\<exists>again. recover_on_startup x w4 = (Inr again, w4))"
proof -
  have op: "\<not> po_qdrant_written op" "po_op_id op = op_id" "po_namespace op = ns"
    by (simp_all add: assms(2) forget_entry_def)
  have "w_db w1 = (w_db w)\<lparr>pending_ops := [pend_row_of op]\<rparr>"
    using assms(1,8) on_vs_db [of "v_delete_by_ids x ns [uuid]"]
    by (auto simp: forget_effects_parts numeral_2_eq_2 run_iffs insert_pending_op_def split: if_splits)
  then have w2: "w_db w2 = (w_db w)\<lparr>pending_ops := [pend_row_of op]\<rparr>" using assms(9) by (simp add: shared_with_def)
  then have p: "list_pending_ops (w_db w2) = [op]" by (intro list_pending_single) simp
  define r0 where "r0 = \<lparr> compensated_stores = 0, rolled_forward_forgets = 0, cleared_pre_qdrant = 0 \<rparr>"
  have "m_fold (recover_one x) r0 [op] w2 = (Inr report, w3)"
    using assms(10) p by (simp add: recover_on_startup_def m_bind_def r0_def)
  then have "recover_one x r0 op w2 = (Inr report, w3)" by (auto simp: m_bind_ok_iff)
  then have rec: "report = \<lparr> compensated_stores = 0, rolled_forward_forgets = 0, cleared_pre_qdrant = 1 \<rparr> \<and> w_db w3 = w_db w"
    using assms(1,3) op w2
    by (auto simp: recover_one_def Let_def run_iffs clear_pending_op_def is_op_completed_def r0_def)
  have "uuid \<notin> points pts name w3"
    using recover_single_points [OF assms(10) p assms(6), of name] forget_done_points [OF assms(8,6,7)] assms(7,9) op
    by (simp add: shared_with_def)
  moreover have "list_pending_ops (w_db w4) = []"
    using rec assms(1,11) list_pending_none by (simp add: shared_with_def)
  ultimately show ?thesis using rec assms(4,11) recover_again [of w4 x] by (auto simp: shared_with_def)
qed

lemma demo_forget_2: "fst (recover_on_startup demo_ext (demo_forget 2)) =
      Inr \<lparr> compensated_stores = 0, rolled_forward_forgets = 0, cleared_pre_qdrant = 1 \<rparr>"
    "fst (m_seq (take 2 (forget_effects demo_ext ''u0'' ''u0'' ''default'' (forget_entry ''u0'' ''default'' ''op'' 5))) demo_stored) = Inr ()"
    "map_option mem_t_invalid (get_memory ''u0'' (w_db demo_stored)) = Some None"
  by code_simp+

theorem forget_crash_loses_vector_witness:
  "\<exists>w4. w4 = snd (recover_on_startup demo_ext (demo_forget 2)) \<and> w_db w4 = w_db demo_stored
     \<and> map r_id (memories (w_db w4)) = [''u0''] \<and> ''u0'' \<notin> demo_ids ''ferrex_default'' (vs_q (w_vs w4))"
proof -
  let ?w4 = "snd (recover_on_startup demo_ext (demo_forget 2))"
  have 1: "m_seq (take 2 (forget_effects demo_ext ''u0'' ''u0'' ''default'' (forget_entry ''u0'' ''default'' ''op'' 5))) demo_stored
      = (Inr (), demo_forget 2)"
    using demo_forget_2(2) by (simp add: demo_forget_def prod_eq_iff)
  have 2: "recover_on_startup demo_ext (demo_forget 2) =
      (Inr \<lparr> compensated_stores = 0, rolled_forward_forgets = 0, cleared_pre_qdrant = 1 \<rparr>, ?w4)"
    using demo_forget_2(1) by (simp add: prod_eq_iff)
  have 3: "\<not> is_op_completed ''op'' (w_db demo_stored)" by (simp add: demo_stored_facts)
  obtain m where m: "get_memory ''u0'' (w_db demo_stored) = Some m" "mem_t_invalid m = None" using demo_forget_2(3) by auto
  from forget_crash_loses_vector [OF demo_stored_facts(1) refl 3 m demo_server demo_namespace 1 shared_refl 2 shared_refl]
  show ?thesis using demo_stored_facts(3) by auto
qed

section \<open>Recovery completes\<close>

lemma recover_one_completes:
  assumes "\<forall>name ids. completes (x_delete_points x name ids)" and "collection_name (po_namespace op) = Inr n"
  shows "completes (recover_one x rep op)"
proof -
  have "completes (v_delete_by_ids x (po_namespace op) [u])" for u
    using assms unfolding completes_def
    by (auto simp: v_delete_by_ids_def m_bind_def qcall_def m_zoom_def split: prod.splits sum.splits) (metis Inl_Inr_False prod.inject)
  moreover have "completes (clear_pending_op i)" "completes (delete_memories is)" for i "is"
    by (simp_all add: completes_def clear_pending_op_def delete_memories_run)
  ultimately show ?thesis
    unfolding recover_one_def Let_def by (intro completes_intros completes_on_db completes_on_vs)
qed

text \<open>
  C4. Recovery always completes if Qdrant accepts deletes and the journal names valid
  namespaces: no journal, however corrupt otherwise, can keep the service from starting.
\<close>

theorem recovery_completes:
  assumes "\<forall>name ids. completes (x_delete_points x name ids)"
    and "\<forall>op\<in>set (list_pending_ops (w_db w)). validate_namespace (po_namespace op) = Inr ()"
  shows "\<exists>report w'. recover_on_startup x w = (Inr report, w')"
proof -
  have "completes (m_fold (recover_one x) rep (list_pending_ops (w_db w)))" for rep
    by (rule completes_fold, rule recover_one_completes [OF assms(1)])
      (use assms(2) in \<open>simp add: collection_name_def\<close>)
  then show ?thesis by (simp add: completes_def recover_on_startup_def m_bind_def)
qed

theorem recovery_completes_witness:
  "\<exists>report w'. recover_on_startup demo_ext (demo_crash 3) = (Inr report, w')"
proof (rule recovery_completes)
  show "\<forall>name ids. completes (x_delete_points demo_ext name ids)"
    by (simp add: demo_ext_def completes_intros)
  have "map po_namespace (list_pending_ops (w_db (demo_crash 3))) = [''default'']" "validate_namespace ''default'' = Inr ()"
    by code_simp+
  then show "\<forall>op\<in>set (list_pending_ops (w_db (demo_crash 3))). validate_namespace (po_namespace op) = Inr ()"
    by auto
qed

theorem recovery_result_witness:
  "list_pending_ops (w_db (snd (recover_on_startup demo_ext (demo_crash 3)))) = []"
  using recovery_result [of demo_ext "demo_crash 3", OF prod.collapse [symmetric, of "recover_on_startup demo_ext (demo_crash 3)", unfolded demo_crash_3]]
  by simp

end
