(* ===== verification/Overlap.thy ===== *)
theory Overlap
  imports RecoverLaws
begin

text \<open>
  Two processes on one database: a start-up that recovers the journal
  (\<open>recover_on_startup\<close> of \<open>crates/core/src/service.rs\<close>) while another process is in the middle of a
  store. Commands that only read, such as \<open>diagnose\<close>, \<open>journal show\<close> or an audit without \<open>--fix\<close>,
  start the service in this way next to a running daemon. The processes share the database and
  the Qdrant server; caches, clocks and the client's memory of collections are their own.
\<close>

text \<open>What a Qdrant server documents of a delete: the points named are gone, and no point appears.\<close>

definition deletes_points :: "('q, 'e, 'r) ext \<Rightarrow> (string \<Rightarrow> 'q \<Rightarrow> string set) \<Rightarrow> bool" where
  "deletes_points x pts \<longleftrightarrow>
     (\<forall>name ids q q'. x_delete_points x name ids q = (Inr (), q') \<longrightarrow> pts name q' \<subseteq> pts name q - set ids)"

lemma delete_run:
  assumes "v_delete_by_ids x ns [u] v = (Inr (), v')" and "deletes_points x pts" and "collection_name ns = Inr name"
  shows "u \<notin> pts name (vs_q v')"
proof -
  obtain q where "x_delete_points x name [u] (vs_q v) = (Inr (), q)" "v' = v\<lparr>vs_q := q\<rparr>"
    using assms(1,3) by (auto simp: v_delete_by_ids_def m_bind_ok_iff qcall_def m_zoom_def split: prod.splits sum.splits)
  with assms(2) show ?thesis unfolding deletes_points_def by fastforce
qed

text \<open>Recovery of a store that has been written to Qdrant and not committed deletes its point.\<close>

lemma recover_written:
  assumes "recover_on_startup x w = (Inr report, w')" and "pending_ops (w_db w) = [pend_row_of op]"
    and "po_qdrant_written op" and "po_kind op \<noteq> OpForget" and "\<not> is_op_completed (po_op_id op) (w_db w)"
    and "x_parse_uuid x (po_memory_id op) = Some u"
    and "deletes_points x pts" and "collection_name (po_namespace op) = Inr name"
  shows "u \<notin> pts name (vs_q (w_vs w'))"
proof -
  define r0 where "r0 = \<lparr> compensated_stores = 0, rolled_forward_forgets = 0, cleared_pre_qdrant = 0 \<rparr>"
  have "m_fold (recover_one x) r0 [op] w = (Inr report, w')"
    using assms(1) list_pending_single [OF assms(2)] by (simp add: recover_on_startup_def m_bind_def r0_def)
  then have "recover_one x r0 op w = (Inr report, w')" by (auto simp: m_bind_ok_iff)
  then obtain v where "v_delete_by_ids x (po_namespace op) [u] (w_vs w) = (Inr (), v)" "w_vs w' = v"
    using assms(3-6) by (auto simp: recover_one_def Let_def run_iffs)
  with delete_run [OF _ assms(7,8)] show ?thesis by auto
qed

lemma third_effect:
  assumes "db_ok (w_db w)" and "pending_ops (w_db w) = []" and "\<not> po_qdrant_written op"
    and "m_seq (take 3 (write_effects x ctx target_id embedding op)) w = (Inr (), w1)"
  shows "progress_db ctx target_id op (w_db w) QdrantWritten (w_db w1)"
proof -
  have op: "op\<lparr>po_qdrant_written := False\<rparr> = op" using assms(3) by (cases op) simp
  from assms(4) show ?thesis
    by (auto simp: write_effects_def Let_def numeral_3_eq_3 run_iffs insert_pending_op_def mark_pending_op_qdrant_written_def
        mark_last mark_pend_row progress_db_def op split: if_splits)
qed

text \<open>
  C5. A start-up next to a running store loses the store's vector. The store has written its
  point and marked its journal entry; another process starts, takes the entry for a crash and
  compensates it; the store goes on to its commit, which succeeds. The memory is reported as
  stored and is live in the database, but Qdrant has no point for it, so no search finds it.
\<close>

theorem recovery_overtakes_store:
  assumes "db_ok (w_db w)" and "pending_ops (w_db w) = []" and "sx_id ctx \<notin> row_keys r_id (memories (w_db w))"
    and "\<forall>e\<in>set (sx_resolved_entities ctx). entity_known (ent_id e) (w_db w)"
    and "\<not> is_op_completed op_id (w_db w)" and "kind \<noteq> OpForget"
    and "op = journal_entry ctx kind target_id op_id started_at"
    and "effects = write_effects x ctx target_id embedding op"
    and "m_seq (take 3 effects) w = (Inr (), w1)"
    and "shared_with w2 w1" and "recover_on_startup x w2 = (Inr report, w3)"
    and "shared_with w4 w3"
    and "x_parse_uuid x (sx_id ctx) = Some u" and "deletes_points x pts"
    and "collection_name (sx_namespace ctx) = Inr name"
  shows "\<exists>w5. m_seq (drop 3 effects) w4 = (Inr (), w5)
    \<and> memories (w_db w5) = invalidated (sx_now ctx) (invalidate_ids ctx target_id)
        (memories (w_db w) @ [memory_row (build_memory ctx)])
    \<and> u \<notin> pts name (vs_q (w_vs w5))"
proof -
  have op: "\<not> po_qdrant_written op" "po_memory_id op = sx_id ctx" "po_op_id op = op_id" "po_kind op = kind"
      "po_namespace op = sx_namespace ctx"
    by (simp_all add: assms(7) journal_entry_def)
  note p = third_effect [OF assms(1,2) op(1) assms(9) [unfolded assms(8)]]
  define op' where "op' = op\<lparr>po_qdrant_written := True\<rparr>"
  have w2: "pending_ops (w_db w2) = [pend_row_of op']" "memories (w_db w2) = memories (w_db w)"
      "entities (w_db w2) = entities (w_db w)" "completed_ops (w_db w2) = completed_ops (w_db w)"
    using p assms(2,10) by (simp_all add: progress_db_def shared_with_def op'_def)
  have gone: "u \<notin> pts name (vs_q (w_vs w3))"
    using recover_written [OF assms(11) w2(1) _ _ _ _ assms(14)] assms(5,6,13,15) op w2(4)
    by (simp add: op'_def is_op_completed_def)
  have w4: "memories (w_db w4) = memories (w_db w)" "entities (w_db w4) = entities (w_db w)" "vs_q (w_vs w4) = vs_q (w_vs w3)"
    using recover_single [OF assms(11) w2(1)] recover_effect [OF assms(11)] w2 assms(3,12) op
    by (auto simp: shared_with_def op'_def rows_del_fresh)
  have commit: "drop 3 effects = [commit_effect x ctx target_id op]"
    by (simp add: assms(8) write_effects_def Let_def numeral_3_eq_3)
  define c where "c = into_completed op (sx_id ctx) (sx_namespace ctx) (x_now x (w_clock w4))"
  obtain d where d: "commit_memory_write (build_memory ctx) (map ent_id (sx_resolved_entities ctx)) (invalidate_ids ctx target_id)
      (sx_now ctx) c (w_db w4) = (Inr (), d)"
      "committed (build_memory ctx) (map ent_id (sx_resolved_entities ctx)) (invalidate_ids ctx target_id) (sx_now ctx) c (w_db w4) d"
    using commit_ok [of "build_memory ctx" "w_db w4" "map ent_id (sx_resolved_entities ctx)" "invalidate_ids ctx target_id" "sx_now ctx" c]
      w4 assms(3,4) by (auto simp: entity_known_def)
  have "m_seq (drop 3 effects) w4 = (Inr (), w4\<lparr>w_db := d, w_clock := Suc (w_clock w4)\<rparr>)"
    unfolding commit using d(1) by (simp add: c_def m_bind_def m_then_def now_op_def on_db_run m_ret_def)
  then show ?thesis using d(2) w4 gone by (auto simp: committed_def)
qed

text \<open>The demo server deletes points.\<close>

lemma demo_deletes: "deletes_points demo_ext demo_ids"
  by (auto simp: deletes_points_def demo_ext_def demo_ids_def m_modify_def demo_set_def demo_points_def)

theorem recovery_overtakes_store_witness:
  "\<exists>w5. m_seq (drop 3 (write_effects demo_ext demo_ctx None [1] (journal_entry demo_ctx OpStore None ''op'' 0)))
      (snd (recover_on_startup demo_ext (demo_crash 3))) = (Inr (), w5)
    \<and> map r_id (memories (w_db w5)) = [''u0''] \<and> ''u0'' \<notin> demo_ids ''ferrex_default'' (vs_q (w_vs w5))"
proof -
  let ?op = "journal_entry demo_ctx OpStore None ''op'' 0"
  let ?w3 = "snd (recover_on_startup demo_ext (demo_crash 3))"
  have run: "m_seq (take 3 (write_effects demo_ext demo_ctx None [1] ?op)) (demo_world empty_db) = (Inr (), demo_crash 3)"
    using demo_third by (simp add: demo_crash_def prod_eq_iff)
  have rec: "recover_on_startup demo_ext (demo_crash 3) =
      (Inr \<lparr> compensated_stores = 1, rolled_forward_forgets = 0, cleared_pre_qdrant = 0 \<rparr>, ?w3)"
    using demo_crash_3 by (simp add: prod_eq_iff)
  have side: "collection_name (sx_namespace demo_ctx) = Inr ''ferrex_default''" "x_parse_uuid demo_ext (sx_id demo_ctx) = Some ''u0''"
      "sx_resolved_entities demo_ctx = []" "map r_id (invalidated (sx_now demo_ctx) (invalidate_ids demo_ctx None)
        ([] @ [memory_row (build_memory demo_ctx)])) = [''u0'']"
    by code_simp+
  have empty: "memories (w_db (demo_world empty_db)) = []" "pending_ops (w_db (demo_world empty_db)) = []"
      "\<not> is_op_completed ''op'' (w_db (demo_world empty_db))" "db_ok (w_db (demo_world empty_db))"
    by (simp_all add: empty_db_def is_op_completed_def row_keys_def empty_db_ok [unfolded empty_db_def])
  have keys: "sx_id demo_ctx \<notin> row_keys r_id (memories (w_db (demo_world empty_db)))" by (simp add: row_keys_def empty_db_def)
  have shared: "shared_with w w" for w :: "('q, 'e, 'r) world" by (simp add: shared_with_def)
  have ents: "\<forall>e\<in>set (sx_resolved_entities demo_ctx). entity_known (ent_id e) (w_db (demo_world empty_db))"
    by (simp add: side)
  from recovery_overtakes_store [OF empty(4,2) keys ents empty(3) _ refl refl run shared rec shared side(2) demo_deletes side(1)]
  obtain w5 where "m_seq (drop 3 (write_effects demo_ext demo_ctx None [1] ?op)) ?w3 = (Inr (), w5)"
      "memories (w_db w5) = invalidated (sx_now demo_ctx) (invalidate_ids demo_ctx None) ([] @ [memory_row (build_memory demo_ctx)])"
      "''u0'' \<notin> demo_ids ''ferrex_default'' (vs_q (w_vs w5))"
    unfolding empty(1) by auto
  then show ?thesis using side(4) by (intro exI [of _ w5]) simp
qed

end
