(* ===== verification/RecallOp.thy ===== *)
theory RecallOp
  imports ForgetRecover
begin

text \<open>
  Recalling memories (\<open>crates/core/src/service/recall.rs\<close>): the cache lookup under the
  generation that was read first, the hybrid search with its filter, the validity filter,
  reranking with the recency boost and staleness, and the writes a recall makes (the access
  tracker, the result cache, validations).
\<close>

definition DEFAULT_RECALL_LIMIT :: nat where "DEFAULT_RECALL_LIMIT = 10"
definition MAX_RECALL_LIMIT :: nat where "MAX_RECALL_LIMIT = 200"
definition MIN_RERANK_POOL_SIZE :: nat where "MIN_RERANK_POOL_SIZE = 20"

definition recall_limit :: "nat option \<Rightarrow> nat" where
  "recall_limit limit = min (case limit of None \<Rightarrow> DEFAULT_RECALL_LIMIT | Some n \<Rightarrow> n) MAX_RECALL_LIMIT"

definition candidate_pool_size :: "recall_request \<Rightarrow> nat" where
  "candidate_pool_size req =
     (let limit = recall_limit (rr_limit req) in
      if rr_include_stale req = Some False \<or> rr_as_of req \<noteq> None
      then max limit MIN_RERANK_POOL_SIZE * 2
      else max limit MIN_RERANK_POOL_SIZE)"

definition recall_namespace :: "service \<Rightarrow> recall_request \<Rightarrow> string" where
  "recall_namespace svc req = (case rr_namespace req of None \<Rightarrow> cfg_namespace (svc_config svc) | Some n \<Rightarrow> n)"

text \<open>\<open>timestamp_nanos_opt\<close> is \<open>None\<close> outside the range of an \<open>i64\<close>.\<close>

definition timestamp_nanos_opt :: "time \<Rightarrow> int option" where
  "timestamp_nanos_opt t = (if - (2 ^ 63) \<le> t \<and> t < 2 ^ 63 then Some t else None)"

definition recall_cache_key :: "('q, 'e, 'r) ext \<Rightarrow> service \<Rightarrow> recall_request \<Rightarrow> real list \<Rightarrow> 64 word" where
  "recall_cache_key x svc req embedding = result_cache_key x
     \<lparr> ki_embedding = embedding, ki_types = map_option (map mt_as_str) (rr_types req),
       ki_entities = rr_entities req, ki_namespace = recall_namespace svc req,
       ki_limit = recall_limit (rr_limit req), ki_include_stale = rr_include_stale req,
       ki_include_invalidated = rr_include_invalidated req,
       ki_time_range_hash = map_option (x_hash_range x) (rr_time_range req),
       ki_as_of_nanos = Option.bind (rr_as_of req) timestamp_nanos_opt, ki_explain = rr_explain req \<rparr>"

definition build_qdrant_filter :: "recall_request \<Rightarrow> qfilter" where
  "build_qdrant_filter req =
     (let types = (case rr_types req of None \<Rightarrow> []
            | Some ts \<Rightarrow> [MatchAnyKeyword ''memory_type'' (map mt_as_str ts)]);
          from_start = (case rr_time_range req of None \<Rightarrow> []
            | Some r \<Rightarrow> (case tr_start r of None \<Rightarrow> [] | Some t \<Rightarrow> [DatetimeGte ''created_at'' t]));
          to_end = (case rr_time_range req of None \<Rightarrow> []
            | Some r \<Rightarrow> (case tr_end r of None \<Rightarrow> [] | Some t \<Rightarrow> [DatetimeLte ''created_at'' t]));
          entities = (case rr_entities req of None \<Rightarrow> []
            | Some es \<Rightarrow> map (MatchKeyword ''entities'') es)
      in \<lparr> qf_must = MatchKeyword ''point_type'' ''memory'' # types @ from_start @ to_end, qf_should = entities \<rparr>)"

section \<open>From hits to results\<close>

definition visible_to :: "recall_request \<Rightarrow> memory \<Rightarrow> bool" where
  "visible_to req m =
     (let include_invalidated = (rr_include_invalidated req = Some True) in
      case rr_as_of req of
        None \<Rightarrow> include_invalidated \<or> mem_t_invalid m = None
      | Some as_of \<Rightarrow>
          let effective_start = (case mem_t_valid m of None \<Rightarrow> mem_created_at m | Some t \<Rightarrow> t) in
          if as_of < effective_start then False
          else if include_invalidated then True
          else (case mem_t_invalid m of None \<Rightarrow> True | Some ti \<Rightarrow> as_of < ti))"

text \<open>The map from ids is filled in order, so the last memory of an id is the one found.\<close>

definition ordered_candidates :: "recall_request \<Rightarrow> (string \<times> real) list \<Rightarrow> memory list \<Rightarrow> memory list" where
  "ordered_candidates req hits mems =
     (let memory_map = map_of (rev (map (\<lambda>m. (mem_id m, m)) (filter (visible_to req) mems)))
      in List.map_filter (\<lambda>(i, _). memory_map i) hits)"

definition score_candidate ::
    "service \<Rightarrow> recall_request \<Rightarrow> time \<Rightarrow> memory \<Rightarrow> real \<Rightarrow> core_error + recall_result" where
  "score_candidate svc req now m score =
     (let cfg = cfg_staleness (svc_config svc);
          age_days = real_of_int (num_seconds (now - mem_created_at m)) / SECONDS_PER_DAY;
          recency = compute_recency_boost (mem_type m) age_days;
          relevance_score = score * recency
      in case (staleness_score m now cfg, threshold_for_type cfg (mem_type m)) of
           (Some s_score, Some threshold) \<Rightarrow>
             let label = label_of_score s_score threshold in
             Inr \<lparr> rcr_memory = m, rcr_relevance_score = relevance_score, rcr_staleness_score = s_score,
               rcr_freshness_label = label,
               rcr_scoring = (if rr_explain req then Some
                 \<lparr> sb_rrf_rank = 0, sb_rrf_score = 0, sb_rerank_score = score, sb_recency_boost = recency,
                   sb_boosted_score = relevance_score, sb_staleness = s_score, sb_staleness_label = label,
                   sb_final_rank = 0 \<rparr> else None) \<rparr>
         | _ \<Rightarrow> Inl (Panicked ''all MemoryType variants must be in type_config''))"

text \<open>The reranker's indices that are out of range are skipped.\<close>

fun score_candidates ::
    "service \<Rightarrow> recall_request \<Rightarrow> time \<Rightarrow> memory list \<Rightarrow> (nat \<times> real) list \<Rightarrow> core_error + recall_result list" where
  "score_candidates svc req now ordered [] = Inr []"
| "score_candidates svc req now ordered ((i, score) # rest) =
     (if length ordered \<le> i then score_candidates svc req now ordered rest
      else case score_candidate svc req now (ordered ! i) score of
        Inl e \<Rightarrow> Inl e
      | Inr r \<Rightarrow> (case score_candidates svc req now ordered rest of Inl e \<Rightarrow> Inl e | Inr rs \<Rightarrow> Inr (r # rs)))"

definition set_final_rank :: "nat \<Rightarrow> recall_result \<Rightarrow> recall_result" where
  "set_final_rank i r = r\<lparr>rcr_scoring := map_option (\<lambda>s. s\<lparr>sb_final_rank := i + 1\<rparr>) (rcr_scoring r)\<rparr>"

definition rank_results :: "recall_request \<Rightarrow> recall_result list \<Rightarrow> recall_result list" where
  "rank_results req scored =
     (let kept = (if rr_include_stale req = Some False
            then filter (\<lambda>r. rcr_freshness_label r \<noteq> Stale) scored else scored);
          top = take (recall_limit (rr_limit req)) (sort_desc rcr_relevance_score kept)
      in if rr_explain req then map (\<lambda>(i, r). set_final_rank i r) (enumerate 0 top) else top)"

section \<open>The operation\<close>

definition embed_cached :: "('q, 'e, 'r) ext \<Rightarrow> string \<Rightarrow> ('q, 'e, 'r, real list) op" where
  "embed_cached x query =
     m_bind (on_cache (get_embedding x query)) (\<lambda>cached.
       case cached of
         Some e \<Rightarrow> m_ret e
       | None \<Rightarrow> m_bind (embed_op x query) (\<lambda>emb.
           m_then (on_cache (\<lambda>c. ((), put_embedding x query emb c))) (m_ret emb)))"

definition rerank_op :: "('q, 'e, 'r) ext \<Rightarrow> string \<Rightarrow> string list \<Rightarrow> ('q, 'e, 'r, (nat \<times> real) list) op" where
  "rerank_op x query docs =
     m_of (case x_rerank x query docs (length docs) of Inl e \<Rightarrow> Inl (EmbedError e) | Inr rs \<Rightarrow> Inr rs)"

definition ids_to_validate :: "('q, 'e, 'r) ext \<Rightarrow> string list option \<Rightarrow> recall_result list \<Rightarrow> string list" where
  "ids_to_validate x validate_ids results =
     filter (\<lambda>i. x_parse_uuid x i \<noteq> None \<and> i \<in> set (map (\<lambda>r. mem_id (rcr_memory r)) results))
       (case validate_ids of None \<Rightarrow> [] | Some is \<Rightarrow> is)"

definition process_validate_ids ::
    "('q, 'e, 'r) ext \<Rightarrow> string list option \<Rightarrow> recall_result list \<Rightarrow> ('q, 'e, 'r, unit) op" where
  "process_validate_ids x validate_ids results =
     (let valid_ids = ids_to_validate x validate_ids results in
      if valid_ids = [] then m_ret ()
      else m_bind (now_op x) (\<lambda>now. on_db (update_last_validated valid_ids now)))"

definition track_access :: "('q, 'e, 'r) ext \<Rightarrow> string list \<Rightarrow> ('q, 'e, 'r, unit) op" where
  "track_access x ids =
     m_bind (\<lambda>w. let (full, buf) = drain_if_full (tracker_record ids (w_tracker w)) in (Inr full, w\<lparr>w_tracker := buf\<rparr>))
       (\<lambda>full. case full of
          None \<Rightarrow> m_ret ()
        | Some ids \<Rightarrow> m_warn (m_bind (now_op x) (\<lambda>now. on_db (update_last_accessed ids now))))"

text \<open>The search and the ranking; \<open>None\<close> is the early return of an empty answer.\<close>

definition search_and_rank ::
    "('q, 'e, 'r) ext \<Rightarrow> service \<Rightarrow> recall_request \<Rightarrow> real list \<Rightarrow> ('q, 'e, 'r, recall_result list option) op" where
  "search_and_rank x svc req embedding =
     m_bind (on_vs (v_search x (recall_namespace svc req) embedding (rr_query req) (candidate_pool_size req)
         (Some (build_qdrant_filter req)))) (\<lambda>hits.
     if hits = [] then m_ret None
     else m_bind (from_db (get_memories_by_ids (map fst hits))) (\<lambda>mems.
     let ordered = ordered_candidates req hits mems in
     if ordered = [] then m_ret None
     else m_bind (rerank_op x (rr_query req) (map searchable_text ordered)) (\<lambda>reranked.
          m_bind (now_op x) (\<lambda>now.
          m_bind (m_of (score_candidates svc req now ordered reranked)) (\<lambda>scored.
          m_ret (Some (rank_results req scored)))))))"

definition recall :: "('q, 'e, 'r) ext \<Rightarrow> service \<Rightarrow> recall_request \<Rightarrow> ('q, 'e, 'r, recall_result list) op" where
  "recall x svc req =
     (let ns = recall_namespace svc req in
      m_bind (embed_cached x (rr_query req)) (\<lambda>embedding.
      let key = recall_cache_key x svc req embedding in
      m_bind (m_gets (\<lambda>w. generation ns (w_cache w))) (\<lambda>g.
      m_bind (on_cache (get_results x key ns)) (\<lambda>cached.
      case cached of
        Some rs \<Rightarrow> m_then (process_validate_ids x (rr_validate_ids req) rs) (m_ret rs)
      | None \<Rightarrow>
          m_bind (search_and_rank x svc req embedding) (\<lambda>found.
          case found of
            None \<Rightarrow> m_ret []
          | Some results \<Rightarrow>
              m_then (track_access x (map (\<lambda>r. mem_id (rcr_memory r)) results))
             (m_then (on_cache (\<lambda>c. ((), put_results x key results g c)))
             (m_then (process_validate_ids x (rr_validate_ids req) results)
             (m_then (record_op x ''recall'' (rr_query req) (show_nat (length results) @ '' results''))
                (m_ret results)))))))))"

end
