(* ===== verification/RecallLaws.thy ===== *)
theory RecallLaws
  imports RecallOp
begin

text \<open>
  What a recall answers and what it changes: its results are bounded, ordered, visible at the
  instant asked for and backed by stored rows; a repeated recall is served from the cache; the
  facts in the database stay as they are.
\<close>

section \<open>The results\<close>

lemma recall_limit_le: "recall_limit l \<le> MAX_RECALL_LIMIT"
  by (simp add: recall_limit_def)

lemma staleness_bounds: "staleness_score m now cfg = Some s \<Longrightarrow> 0 \<le> s \<and> s \<le> 1"
  by (auto simp: staleness_score_def Let_def clamp_bounds split: option.splits)

lemma ordered_sound: "m \<in> set (ordered_candidates req hits mems) \<Longrightarrow> m \<in> set mems \<and> visible_to req m"
  by (auto simp: ordered_candidates_def set_map_filter Let_def dest!: map_of_SomeD)

lemma map_of_keyed: "map_of (rev (map (\<lambda>m. (f m, m)) ms)) i = Some m \<Longrightarrow> f m = i"
  by (auto dest!: map_of_SomeD)

lemma ordered_distinct: "distinct (map fst hits) \<Longrightarrow> distinct (map mem_id (ordered_candidates req hits mems))"
proof (induction hits)
  case Nil
  then show ?case by (simp add: ordered_candidates_def)
next
  case (Cons h hits)
  have ids: "mem_id ` set (ordered_candidates req hits mems) \<subseteq> fst ` set hits"
    by (auto simp: ordered_candidates_def set_map_filter Let_def dest!: map_of_keyed intro: rev_image_eqI)
  show ?case
    using Cons ids by (cases h) (auto simp: ordered_candidates_def Let_def dest!: map_of_keyed split: option.splits)
qed

lemma score_candidate_Inr:
  assumes "score_candidate svc req now m score = Inr r"
  shows "rcr_memory r = m
     \<and> staleness_score m now (cfg_staleness (svc_config svc)) = Some (rcr_staleness_score r)
     \<and> (\<exists>t. threshold_for_type (cfg_staleness (svc_config svc)) (mem_type m) = Some t
          \<and> rcr_freshness_label r = label_of_score (rcr_staleness_score r) t)
     \<and> (rcr_scoring r \<noteq> None \<longleftrightarrow> rr_explain req)"
  using assms by (auto simp: score_candidate_def Let_def split: option.splits if_splits)

definition scored_ok :: "service \<Rightarrow> recall_request \<Rightarrow> time \<Rightarrow> memory list \<Rightarrow> recall_result \<Rightarrow> bool" where
  "scored_ok svc req now ordered r \<longleftrightarrow> rcr_memory r \<in> set ordered
     \<and> staleness_score (rcr_memory r) now (cfg_staleness (svc_config svc)) = Some (rcr_staleness_score r)
     \<and> (\<exists>t. threshold_for_type (cfg_staleness (svc_config svc)) (mem_type (rcr_memory r)) = Some t
          \<and> rcr_freshness_label r = label_of_score (rcr_staleness_score r) t)
     \<and> (rcr_scoring r \<noteq> None \<longleftrightarrow> rr_explain req)"

lemma score_candidates_Inr:
  "score_candidates svc req now ordered ranked = Inr rs \<Longrightarrow>
     (\<forall>r\<in>set rs. scored_ok svc req now ordered r)
   \<and> map rcr_memory rs = map ((!) ordered) (filter (\<lambda>i. i < length ordered) (map fst ranked))"
proof (induction svc req now ordered ranked arbitrary: rs rule: score_candidates.induct)
  case (1 svc req now ordered)
  then show ?case by simp
next
  case (2 svc req now ordered i score rest)
  then show ?case
    by (auto split: if_splits sum.splits dest!: score_candidate_Inr simp: scored_ok_def)
qed

lemma set_final_rank_simps [simp]:
  "rcr_memory (set_final_rank i r) = rcr_memory r" "rcr_relevance_score (set_final_rank i r) = rcr_relevance_score r"
  "rcr_staleness_score (set_final_rank i r) = rcr_staleness_score r"
  "rcr_freshness_label (set_final_rank i r) = rcr_freshness_label r"
  "rcr_scoring (set_final_rank i r) = None \<longleftrightarrow> rcr_scoring r = None"
  by (simp_all add: set_final_rank_def)

lemma scored_ok_final [simp]: "scored_ok svc req now ordered (set_final_rank i r) = scored_ok svc req now ordered r"
  by (simp add: scored_ok_def)

text \<open>The kept and cut part of the scored results, before final ranks are filled in.\<close>

definition top_results :: "recall_request \<Rightarrow> recall_result list \<Rightarrow> recall_result list" where
  "top_results req scored = take (recall_limit (rr_limit req)) (sort_desc rcr_relevance_score
     (if rr_include_stale req = Some False then filter (\<lambda>r. rcr_freshness_label r \<noteq> Stale) scored else scored))"

lemma top_results_props:
  "length (top_results req scored) \<le> recall_limit (rr_limit req)"
  "sorted_wrt (\<lambda>a b. rcr_relevance_score b \<le> rcr_relevance_score a) (top_results req scored)"
  "r \<in> set (top_results req scored) \<Longrightarrow>
     r \<in> set scored \<and> (rr_include_stale req = Some False \<longrightarrow> rcr_freshness_label r \<noteq> Stale)"
  unfolding top_results_def
  by (auto intro!: sorted_wrt_take sort_desc_sorted dest!: in_set_takeD split: if_splits)

lemma top_results_distinct:
  "distinct (map f scored) \<Longrightarrow> distinct (map f (top_results req scored))"
proof -
  assume "distinct (map f scored)"
  then have "distinct (map f (if rr_include_stale req = Some False
      then filter (\<lambda>r. rcr_freshness_label r \<noteq> Stale) scored else scored))"
    by (simp add: distinct_map_filter)
  then show ?thesis
    unfolding top_results_def take_map [symmetric] by (intro distinct_take) (simp only: distinct_sort_desc)
qed

lemma rank_results_eq:
  "rank_results req scored = (let top = top_results req scored in
     if rr_explain req then map (\<lambda>(i, r). set_final_rank i r) (enumerate 0 top) else top)"
  by (simp add: rank_results_def top_results_def Let_def)

lemma rank_results_nth:
  "length (rank_results req scored) = length (top_results req scored)"
  "i < length (top_results req scored) \<Longrightarrow> rank_results req scored ! i =
     (if rr_explain req then set_final_rank i (top_results req scored ! i) else top_results req scored ! i)"
  by (simp_all add: rank_results_eq Let_def nth_enumerate_eq)

lemma rank_results_fields:
  "map rcr_memory (rank_results req scored) = map rcr_memory (top_results req scored)"
  by (rule nth_equalityI) (simp_all add: rank_results_nth)

text \<open>What a recall that is not served from the cache answers on a database.\<close>

definition answers_visibly :: "recall_request \<Rightarrow> memory \<Rightarrow> bool" where
  "answers_visibly req m \<longleftrightarrow>
     (rr_include_invalidated req \<noteq> Some True \<longrightarrow>
        (case mem_t_invalid m of None \<Rightarrow> True | Some ti \<Rightarrow> (\<exists>t. rr_as_of req = Some t \<and> t < ti)))
   \<and> (\<forall>t. rr_as_of req = Some t \<longrightarrow> (case mem_t_valid m of None \<Rightarrow> mem_created_at m | Some v \<Rightarrow> v) \<le> t)"

lemma visible_answers: "visible_to req m \<longleftrightarrow> answers_visibly req m"
  by (auto simp: visible_to_def answers_visibly_def Let_def split: option.splits)

definition fresh_answer :: "recall_request \<Rightarrow> db \<Rightarrow> recall_result list \<Rightarrow> bool" where
  "fresh_answer req d rs \<longleftrightarrow>
     length rs \<le> recall_limit (rr_limit req) \<and> length rs \<le> MAX_RECALL_LIMIT
   \<and> sorted_wrt (\<lambda>a b. rcr_relevance_score b \<le> rcr_relevance_score a) rs
   \<and> (\<forall>r\<in>set rs. (\<exists>row\<in>set (memories d). rcr_memory r = row_with_entities d row)
        \<and> answers_visibly req (rcr_memory r)
        \<and> 0 \<le> rcr_staleness_score r \<and> rcr_staleness_score r \<le> 1
        \<and> (rr_include_stale req = Some False \<longrightarrow> rcr_freshness_label r \<noteq> Stale)
        \<and> (rcr_scoring r \<noteq> None \<longleftrightarrow> rr_explain req))
   \<and> (\<forall>i<length rs. \<forall>s. rcr_scoring (rs ! i) = Some s \<longrightarrow> sb_final_rank s = i + 1)"

lemma fresh_answer_rank:
  assumes scored: "score_candidates svc req now ordered ranked = Inr scored"
    and ordered: "ordered = ordered_candidates req hits mems"
    and mems: "\<And>m. m \<in> set mems \<Longrightarrow> \<exists>row\<in>set (memories d). m = row_with_entities d row"
  shows "fresh_answer req d (rank_results req scored)"
proof -
  let ?top = "top_results req scored" and ?rs = "rank_results req scored"
  have top: "\<forall>r\<in>set ?top. scored_ok svc req now ordered r
      \<and> (rr_include_stale req = Some False \<longrightarrow> rcr_freshness_label r \<noteq> Stale)"
    using score_candidates_Inr [OF scored] top_results_props(3) by blast
  have rs: "\<forall>r\<in>set ?rs. scored_ok svc req now ordered r
      \<and> (rr_include_stale req = Some False \<longrightarrow> rcr_freshness_label r \<noteq> Stale)"
  proof
    fix r assume "r \<in> set ?rs"
    then obtain i where i: "i < length ?top" "r = ?rs ! i" by (auto simp: in_set_conv_nth rank_results_nth)
    from i(1) have "?top ! i \<in> set ?top" by simp
    with top i show "scored_ok svc req now ordered r
        \<and> (rr_include_stale req = Some False \<longrightarrow> rcr_freshness_label r \<noteq> Stale)"
      by (simp add: rank_results_nth)
  qed
  have row: "(\<exists>row\<in>set (memories d). m = row_with_entities d row) \<and> answers_visibly req m"
    if "m \<in> set ordered" for m
    using ordered_sound [of m req hits mems] that mems by (auto simp: ordered visible_answers)
  have "sorted_wrt (\<lambda>a b. rcr_relevance_score b \<le> rcr_relevance_score a) ?rs"
    using top_results_props(2) [of req scored] by (simp add: sorted_wrt_iff_nth_less rank_results_nth)
  moreover have "length ?rs \<le> recall_limit (rr_limit req)"
    by (simp add: rank_results_nth top_results_props)
  moreover have "\<forall>i<length ?rs. \<forall>s. rcr_scoring (?rs ! i) = Some s \<longrightarrow> sb_final_rank s = i + 1"
  proof (intro allI impI)
    fix i s assume i: "i < length ?rs" and s: "rcr_scoring (?rs ! i) = Some s"
    from i have "?top ! i \<in> set ?top" by (simp add: rank_results_nth)
    with top have "rcr_scoring (?top ! i) \<noteq> None \<longleftrightarrow> rr_explain req" by (auto simp: scored_ok_def)
    with i s show "sb_final_rank s = i + 1"
      by (auto simp: rank_results_nth set_final_rank_def split: if_splits)
  qed
  moreover have "\<forall>r\<in>set ?rs. (\<exists>row\<in>set (memories d). rcr_memory r = row_with_entities d row)
        \<and> answers_visibly req (rcr_memory r)
        \<and> 0 \<le> rcr_staleness_score r \<and> rcr_staleness_score r \<le> 1
        \<and> (rr_include_stale req = Some False \<longrightarrow> rcr_freshness_label r \<noteq> Stale)
        \<and> (rcr_scoring r \<noteq> None \<longleftrightarrow> rr_explain req)"
  proof
    fix r assume "r \<in> set ?rs"
    with rs have ok: "scored_ok svc req now ordered r"
      "rr_include_stale req = Some False \<longrightarrow> rcr_freshness_label r \<noteq> Stale" by blast+
    from ok(1) show "(\<exists>row\<in>set (memories d). rcr_memory r = row_with_entities d row)
        \<and> answers_visibly req (rcr_memory r)
        \<and> 0 \<le> rcr_staleness_score r \<and> rcr_staleness_score r \<le> 1
        \<and> (rr_include_stale req = Some False \<longrightarrow> rcr_freshness_label r \<noteq> Stale)
        \<and> (rcr_scoring r \<noteq> None \<longleftrightarrow> rr_explain req)"
      using ok(2) row [of "rcr_memory r"] unfolding scored_ok_def by (auto dest: staleness_bounds)
  qed
  ultimately show ?thesis
    using order_trans [OF _ recall_limit_le] unfolding fresh_answer_def by blast
qed

lemma fresh_answer_Nil: "fresh_answer req d []"
  by (simp add: fresh_answer_def)

subsection \<open>The runs of a recall\<close>

lemma on_cache_run: "on_cache f w = (Inr (fst (f (w_cache w))), w\<lparr>w_cache := snd (f (w_cache w))\<rparr>)"
  by (simp add: on_cache_def split: prod.splits)

lemma embed_cached_keeps: "db_keeps P (embed_cached x q)"
  unfolding embed_cached_def by (intro keeps_intros)

lemma search_and_rank_keeps: "db_keeps P (search_and_rank x svc req v)"
  unfolding search_and_rank_def rerank_op_def Let_def by (intro keeps_intros)

lemma get_embedding_results [simp]:
  "rc_results (snd (get_embedding x q c)) = rc_results c" "rc_results (put_embedding x q v c) = rc_results c"
  "rc_results (snd (get_results x k ns c)) = rc_results c"
  by (simp_all add: get_embedding_def put_embedding_def results_defs Let_def split: option.splits)

lemma embed_cached_cache:
  "embed_cached x q w = (r, w1) \<Longrightarrow>
     rc_results (w_cache w1) = rc_results (w_cache w) \<and> generation ns (w_cache w1) = generation ns (w_cache w)"
  by (auto simp: embed_cached_def embed_op_def m_bind_def m_then_def on_cache_run split: option.splits sum.splits)

lemma search_fresh:
  assumes "search_and_rank x svc req v w = (Inr (Some rs), w')"
  shows "fresh_answer req (w_db w) rs"
proof -
  from assms obtain hits w1 where hits: "on_vs (v_search x (recall_namespace svc req) v (rr_query req)
      (candidate_pool_size req) (Some (build_qdrant_filter req))) w = (Inr hits, w1)"
    and k: "(if hits = [] then m_ret None
     else m_bind (from_db (get_memories_by_ids (map fst hits))) (\<lambda>mems.
     let ordered = ordered_candidates req hits mems in
     if ordered = [] then m_ret None
     else m_bind (rerank_op x (rr_query req) (map searchable_text ordered)) (\<lambda>reranked.
          m_bind (now_op x) (\<lambda>now.
          m_bind (m_of (score_candidates svc req now ordered reranked)) (\<lambda>scored.
          m_ret (Some (rank_results req scored))))))) w1 = (Inr (Some rs), w')"
    unfolding search_and_rank_def by (auto simp only: m_bind_ok_iff)
  from hits have db: "w_db w1 = w_db w" by (auto simp: on_vs_ok_iff)
  let ?mems = "get_memories_by_ids (map fst hits) (w_db w)"
  from k obtain ranked now scored where
    scored: "score_candidates svc req now (ordered_candidates req hits ?mems) ranked = Inr scored"
    and rs: "rs = rank_results req scored"
    by (auto simp: m_bind_ok_iff Let_def db split: if_splits)
  show ?thesis
    unfolding rs using scored refl
    by (rule fresh_answer_rank) (auto simp: get_memories_by_ids_set)
qed

lemma recall_cases:
  assumes "recall x svc req w = (Inr rs, w')"
  obtains (served) v w1 w2 where "embed_cached x (rr_query req) w = (Inr v, w1)"
      "fst (get_results x (recall_cache_key x svc req v) (recall_namespace svc req) (w_cache w1)) = Some rs"
      "w2 = w1\<lparr>w_cache := snd (get_results x (recall_cache_key x svc req v) (recall_namespace svc req) (w_cache w1))\<rparr>"
      "process_validate_ids x (rr_validate_ids req) rs w2 = (Inr (), w')"
  | (empty) v w1 w2 where "embed_cached x (rr_query req) w = (Inr v, w1)"
      "on_cache (get_results x (recall_cache_key x svc req v) (recall_namespace svc req)) w1 = (Inr None, w2)"
      "search_and_rank x svc req v w2 = (Inr None, w')" "rs = []"
  | (fresh) v w1 w2 w3 where "embed_cached x (rr_query req) w = (Inr v, w1)"
      "on_cache (get_results x (recall_cache_key x svc req v) (recall_namespace svc req)) w1 = (Inr None, w2)"
      "search_and_rank x svc req v w2 = (Inr (Some rs), w3)"
      "m_seq [track_access x (map (\<lambda>r. mem_id (rcr_memory r)) rs),
        on_cache (\<lambda>c. ((), put_results x (recall_cache_key x svc req v) rs
          (generation (recall_namespace svc req) (w_cache w1)) c)),
        process_validate_ids x (rr_validate_ids req) rs,
        record_op x ''recall'' (rr_query req) (show_nat (length rs) @ '' results'')] w3 = (Inr (), w')"
proof -
  let ?ns = "recall_namespace svc req"
  from assms obtain v w1 cached w2 where
    e: "embed_cached x (rr_query req) w = (Inr v, w1)"
    and g: "on_cache (get_results x (recall_cache_key x svc req v) ?ns) w1 = (Inr cached, w2)"
    and rest: "(case cached of
        Some rs \<Rightarrow> m_then (process_validate_ids x (rr_validate_ids req) rs) (m_ret rs)
      | None \<Rightarrow>
          m_bind (search_and_rank x svc req v) (\<lambda>found.
          case found of
            None \<Rightarrow> m_ret []
          | Some results \<Rightarrow>
              m_then (track_access x (map (\<lambda>r. mem_id (rcr_memory r)) results))
             (m_then (on_cache (\<lambda>c. ((), put_results x (recall_cache_key x svc req v) results
                (generation ?ns (w_cache w1)) c)))
             (m_then (process_validate_ids x (rr_validate_ids req) results)
             (m_then (record_op x ''recall'' (rr_query req) (show_nat (length results) @ '' results''))
                (m_ret results)))))) w2 = (Inr rs, w')"
    unfolding recall_def Let_def by (auto simp: m_bind_ok_iff)
  show thesis
  proof (cases cached)
    case (Some rs')
    with rest have "rs' = rs" "process_validate_ids x (rr_validate_ids req) rs w2 = (Inr (), w')"
      by (auto simp: m_then_ok_iff)
    with Some e g show thesis by (intro served) (auto simp: on_cache_run)
  next
    case None
    with rest obtain found w3 where s: "search_and_rank x svc req v w2 = (Inr found, w3)"
      and k: "(case found of None \<Rightarrow> m_ret []
          | Some results \<Rightarrow>
              m_then (track_access x (map (\<lambda>r. mem_id (rcr_memory r)) results))
             (m_then (on_cache (\<lambda>c. ((), put_results x (recall_cache_key x svc req v) results
                (generation ?ns (w_cache w1)) c)))
             (m_then (process_validate_ids x (rr_validate_ids req) results)
             (m_then (record_op x ''recall'' (rr_query req) (show_nat (length results) @ '' results''))
                (m_ret results))))) w3 = (Inr rs, w')"
      by (auto simp: m_bind_ok_iff)
    show thesis
    proof (cases found)
      case None
      with k have "rs = []" "w3 = w'" by simp_all
      with e g s \<open>cached = None\<close> None show thesis by (intro empty) auto
    next
      case (Some results)
      with k have "results = rs" by (auto simp: m_then_ok_iff)
      with e g s k \<open>cached = None\<close> Some show thesis
        by (intro fresh) (auto simp: m_then_ok_iff)
    qed
  qed
qed

lemma recall_post:
  assumes "m_seq [track_access x ids, on_cache (\<lambda>c. ((), put_results x k rs g c)),
        process_validate_ids x v rs, record_op x a b out] w3 = (Inr (), w')"
  obtains w4 w5 w6 where "track_access x ids w3 = (Inr (), w4)" "process_validate_ids x v rs w5 = (Inr (), w6)"
    "w5 = w4\<lparr>w_cache := w_cache w5\<rparr>" "record_op x a b out w6 = (Inr (), w')"
    "w_cache w5 = put_results x k rs g (w_cache w4)"
  using assms by (auto simp: m_then_ok_iff on_cache_run)

text \<open>
  C28. A recall answers with at most the requested limit (never more than 200) results, best
  first, each of them a stored memory that is visible at the instant asked for (live now, or
  in force at \<open>as_of\<close>), with a staleness between 0 and 1, none of them stale when stale
  memories are excluded, and ranked from 1 when an explanation is asked for; or it answers
  with an entry the cache holds for this very request under the namespace's current
  generation.
\<close>

theorem recall_answers:
  assumes "recall x svc req w = (Inr rs, w')"
  shows "fresh_answer req (w_db w) rs
    \<or> (\<exists>v e. x_res_peek x (recall_cache_key x svc req v) (rc_results (w_cache w)) = Some e
          \<and> cr_generation e = generation (recall_namespace svc req) (w_cache w) \<and> cr_results e = rs)"
  using assms
proof (cases rule: recall_cases)
  case (served v w1 w2)
  with get_results_Some [OF served(2)] embed_cached_cache [OF served(1)] show ?thesis by auto
next
  case (empty v w1 w2)
  then show ?thesis by (simp add: fresh_answer_Nil)
next
  case (fresh v w1 w2 w3)
  have "w_db w1 = w_db w" using embed_cached_keeps fresh(1) by (rule no_db_write)
  moreover have "w_db w2 = w_db w1" using fresh(2) by (auto simp: on_cache_run)
  ultimately show ?thesis using search_fresh [OF fresh(3)] by simp
qed

subsection \<open>A recall that runs\<close>

definition demo_query :: recall_request where
  "demo_query = \<lparr> rr_query = ''hi'', rr_types = None, rr_entities = None, rr_namespace = None, rr_limit = Some 5,
     rr_include_stale = Some False, rr_include_invalidated = None, rr_time_range = None, rr_as_of = None,
     rr_validate_ids = Some [''m'', ''x''], rr_explain = True \<rparr>"

definition demo_recall_world :: "(demo_q, 64 word \<Rightarrow> real list option, 64 word \<Rightarrow> cached_results option) world" where
  "demo_recall_world = (demo_world (empty_db\<lparr>memories := [memory_row sample_memory]\<rparr>))
     \<lparr>w_vs := \<lparr> vs_q = [(''ferrex_default'',
        [\<lparr> pt_id = ''m'', pt_dense = [5], pt_text = Some ''hello'', pt_payload = [] \<rparr>])], vs_ensured = [] \<rparr>\<rparr>"

lemma demo_search:
  assumes db: "w_db w = w_db demo_recall_world" and vs: "w_vs w = w_vs demo_recall_world" and clock: "w_clock w = 0"
  shows "\<exists>r w'. search_and_rank demo_ext demo_service demo_query v w = (Inr (Some [r]), w') \<and> rcr_memory r = sample_memory"
proof -
  let ?f = "\<lparr> qf_must = [MatchKeyword ''point_type'' ''memory''], qf_should = [] \<rparr>"
  have c: "collection_name ''default'' = Inr ''ferrex_default''"
    by (simp add: collection_name_Inr is_ascii_alphanumeric_def)
  have ns: "recall_namespace demo_service demo_query = ''default''"
    by (simp add: recall_namespace_def demo_query_def demo_service_def service_new_def demo_config_def)
  have hits: "on_vs (v_search demo_ext ''default'' v (rr_query demo_query) n f) w = (Inr [(''m'', 1 / 2)], w)" if "0 < n" for n f
    using that vs by (cases w) (simp add: v_search_def c on_vs_def m_zoom_def qcall_def m_bind_def demo_ext_def
        demo_recall_world_def demo_hits_def demo_points_def hit_of_def)
  have mt: "mt_from_str ''episodic'' = Inr Episodic" using mt_round_trip [of Episodic] by simp
  have mems: "get_memories_by_ids [''m''] (w_db demo_recall_world) = [sample_memory]"
    using mt by (simp add: get_memories_by_ids_def IN_CLAUSE_BATCH_SIZE_def chunks_short demo_recall_world_def
        row_with_entities_def linked_names_def group_concat_def split_names_def empty_db_def
        sample_memory_def row_to_memory_def memory_row_def)
  have ordered: "ordered_candidates demo_query [(''m'', 1 / 2)] [sample_memory] = [sample_memory]"
    by (simp add: ordered_candidates_def visible_to_def demo_query_def sample_memory_def)
  have fuel: "0 < candidate_pool_size demo_query"
    by (simp add: candidate_pool_size_def MIN_RERANK_POOL_SIZE_def Let_def less_max_iff_disj)
  have cfg: "cfg_staleness (svc_config demo_service) = default_staleness_config"
    by (simp add: demo_service_def service_new_def demo_config_def)
  obtain r where r: "score_candidate demo_service demo_query 0 sample_memory 1 = Inr r" "rcr_memory r = sample_memory"
      "rcr_freshness_label r = Fresh"
    by (auto simp: score_candidate_def staleness_score_def cfg default_type_config threshold_for_type_def
        sample_memory_def num_seconds_def trunc_div_def to_days_def label_of_score_def Let_def
        default_staleness_config_def staleness_consts clamp_def)
  then have rank: "rank_results demo_query [r] = [set_final_rank 0 r]"
    by (simp add: rank_results_def demo_query_def recall_limit_def MAX_RECALL_LIMIT_def sort_desc_def)
  show ?thesis
    using r rank
    by (simp add: search_and_rank_def ns m_bind_def hits [OF fuel] db mems ordered rerank_op_def clock)
       (simp add: demo_ext_def clock)
qed

lemma m_warn_run: "m_warn m w = (Inr (), snd (m w))"
  by (simp add: m_warn_def)

lemma completes_post [completes_intros]:
  "completes (track_access x ids)" "completes (process_validate_ids x v rs)" "completes (on_cache f)"
proof -
  have up: "completes (update_last_validated ids now)" for ids now
    by (simp add: update_last_validated_def completes_intros)
  show "completes (on_cache f)" by (simp add: completes_def on_cache_run)
  show "completes (process_validate_ids x v rs)"
    unfolding process_validate_ids_def Let_def by (intro completes_intros completes_on_db up)
  show "completes (track_access x ids)"
    unfolding track_access_def
    by (intro completes_intros) (simp add: completes_def split: prod.splits)
qed

lemma demo_recall_runs:
  "\<exists>r w'. recall demo_ext demo_service demo_query demo_recall_world = (Inr [r], w') \<and> rcr_memory r = sample_memory"
proof -
  let ?w = demo_recall_world
  obtain w1 where w1: "embed_cached demo_ext ''hi'' ?w = (Inr [2], w1)" "w_db w1 = w_db ?w" "w_vs w1 = w_vs ?w"
      "w_clock w1 = w_clock ?w" "rc_results (w_cache w1) = Map.empty"
    by (auto simp: embed_cached_def on_cache_run m_bind_def m_then_def get_embedding_def put_embedding_def
        embed_op_def demo_ext_def demo_recall_world_def demo_world_def demo_cache_def Let_def)
  have get: "on_cache (get_results demo_ext k ns) w1 = (Inr None, w1\<lparr>w_cache := snd (get_results demo_ext k ns (w_cache w1))\<rparr>)"
    for k ns
    using w1(5) by (simp add: on_cache_run results_defs demo_ext_def Let_def)
  have clock: "w_clock ?w = 0" by (simp add: demo_recall_world_def demo_world_def)
  have q: "rr_query demo_query = ''hi''" by (simp add: demo_query_def)
  let ?k = "recall_cache_key demo_ext demo_service demo_query [2]" and ?ns = "recall_namespace demo_service demo_query"
  let ?w2 = "w1\<lparr>w_cache := snd (get_results demo_ext ?k ?ns (w_cache w1))\<rparr>"
  obtain r w3 where s: "search_and_rank demo_ext demo_service demo_query [2] ?w2 = (Inr (Some [r]), w3)"
      "rcr_memory r = sample_memory"
    using demo_search [of ?w2 "[2]"] w1(2-4) clock by auto
  have "completes (m_then (track_access demo_ext (map (\<lambda>r. mem_id (rcr_memory r)) [r]))
      (m_then (on_cache (\<lambda>c. ((), put_results demo_ext ?k [r] (generation ?ns (w_cache w1)) c)))
      (m_then (process_validate_ids demo_ext (rr_validate_ids demo_query) [r])
      (m_then (record_op demo_ext ''recall'' (rr_query demo_query) (show_nat (length [r]) @ '' results''))
              (m_ret [r])))))"
    by (intro completes_intros)
  then obtain rs w4 where post: "m_then (track_access demo_ext (map (\<lambda>r. mem_id (rcr_memory r)) [r]))
      (m_then (on_cache (\<lambda>c. ((), put_results demo_ext ?k [r] (generation ?ns (w_cache w1)) c)))
      (m_then (process_validate_ids demo_ext (rr_validate_ids demo_query) [r])
      (m_then (record_op demo_ext ''recall'' (rr_query demo_query) (show_nat (length [r]) @ '' results''))
              (m_ret [r])))) w3 = (Inr rs, w4)"
    unfolding completes_def by blast
  then have "rs = [r]" by (auto simp: m_then_ok_iff)
  with post have "recall demo_ext demo_service demo_query ?w = (Inr [r], w4)"
    unfolding recall_def Let_def q
    by (simp add: m_bind_def w1(1) get s(1))
  with s(2) show ?thesis by blast
qed

theorem recall_answers_witness:
  "\<exists>r w'. recall demo_ext demo_service demo_query demo_recall_world = (Inr [r], w') \<and> rcr_memory r = sample_memory
     \<and> fresh_answer demo_query (w_db demo_recall_world) [r]"
proof -
  obtain r w' where r: "recall demo_ext demo_service demo_query demo_recall_world = (Inr [r], w')"
      "rcr_memory r = sample_memory"
    using demo_recall_runs by blast
  have "x_res_peek demo_ext k (rc_results (w_cache demo_recall_world)) = None" for k
    by (simp add: demo_ext_def demo_recall_world_def demo_world_def demo_cache_def)
  with recall_answers [OF r(1)] r show ?thesis by auto
qed

section \<open>A repeated recall\<close>

lemma embed_again:
  assumes put: "\<And>k v c. x_emb_peek x k (x_emb_put x k v c) = Some v"
    and run: "embed_cached x q w = (Inr v, w1)"
  shows "x_emb_peek x (x_hash_query x q) (rc_embeddings (w_cache w1)) = Some v"
  using run put
  by (auto simp: embed_cached_def embed_op_def m_bind_def m_then_def on_cache_run get_embedding_def put_embedding_def
      Let_def split: option.splits sum.splits if_splits)

lemma get_embedding_embeddings [simp]:
  "rc_embeddings (snd (get_results x k ns c)) = rc_embeddings c" "rc_embeddings (put_results x k rs g c) = rc_embeddings c"
  by (simp_all add: results_defs Let_def split: option.splits)

lemma process_validate_cache: "cache_keeps P (process_validate_ids x v rs)"
  unfolding process_validate_ids_def Let_def by (intro keeps_intros)

lemma track_access_cache: "cache_keeps P (track_access x ids)"
  unfolding track_access_def
  by (intro keeps_intros) (simp add: keeps_def split: prod.splits)

lemma search_and_rank_cache: "cache_keeps P (search_and_rank x svc req v)"
  unfolding search_and_rank_def rerank_op_def Let_def by (intro keeps_intros)

lemma cache_same:
  assumes "\<And>P. cache_keeps P m" and "m w = (r, w')"
  shows "w_cache w' = w_cache w"
  using keepsD_run [OF assms(1) [where P = "\<lambda>c. c = w_cache w"] refl assms(2)] .

lemma served_again:
  assumes emb: "x_emb_peek x (x_hash_query x (rr_query req)) (rc_embeddings (w_cache w)) = Some v"
    and res: "x_res_peek x (recall_cache_key x svc req v) (rc_results (w_cache w)) = Some e" "cr_results e = rs"
      "cr_generation e = generation (recall_namespace svc req) (w_cache w)"
  shows "\<exists>w'. recall x svc req w = (Inr rs, w') \<and> w_vs w' = w_vs w \<and> w_ops w' = w_ops w \<and> w_tracker w' = w_tracker w"
proof -
  let ?c1 = "snd (get_embedding x (rr_query req) (w_cache w))"
  let ?k = "recall_cache_key x svc req v" and ?ns = "recall_namespace svc req"
  let ?c2 = "snd (get_results x ?k ?ns ?c1)"
  have e: "embed_cached x (rr_query req) w = (Inr v, w\<lparr>w_cache := ?c1\<rparr>)"
    using emb by (simp add: embed_cached_def m_bind_def on_cache_run get_embedding_def Let_def)
  have "fst (get_results x ?k ?ns ?c1) = Some rs"
    using res by (simp add: get_results_def [of x ?k ?ns ?c1] lookup_results_def Let_def)
  then have g: "on_cache (get_results x ?k ?ns) (w\<lparr>w_cache := ?c1\<rparr>) = (Inr (Some rs), w\<lparr>w_cache := ?c2\<rparr>)"
    by (simp add: on_cache_run)
  have "\<exists>w'. process_validate_ids x (rr_validate_ids req) rs u = (Inr (), w') \<and> w_vs w' = w_vs u
      \<and> w_ops w' = w_ops u \<and> w_tracker w' = w_tracker u" for u :: "('a, 'b, 'c) world"
    by (simp add: process_validate_ids_def m_bind_def on_db_run update_last_validated_def Let_def)
  from this [of "w\<lparr>w_cache := ?c2\<rparr>"] show ?thesis
    unfolding recall_def Let_def by (auto simp: m_bind_def m_then_def e g)
qed

text \<open>
  A repeated recall is a cache hit: if the caches return what was last put under a key, a
  recall with a non-empty answer, repeated with nothing in between, gives the same answer
  without a search in Qdrant, without counting an access and without an entry in the ring of
  operations.
\<close>

theorem recall_repeat_served:
  assumes "\<And>k v c. x_emb_peek x k (x_emb_put x k v c) = Some v"
    and "\<And>k e c. x_res_peek x k (x_res_put x k e c) = Some e"
    and "recall x svc req w = (Inr rs, w')" and "rs \<noteq> []"
  shows "\<exists>w''. recall x svc req w' = (Inr rs, w'') \<and> w_vs w'' = w_vs w' \<and> w_ops w'' = w_ops w'
    \<and> w_tracker w'' = w_tracker w'"
  using assms(3)
proof (cases rule: recall_cases)
  case (served v w1 w2)
  let ?k = "recall_cache_key x svc req v" and ?ns = "recall_namespace svc req"
  have c: "w_cache w' = snd (get_results x ?k ?ns (w_cache w1))"
    using cache_same [OF process_validate_cache served(4)] served(3) by simp
  obtain e where e: "x_res_peek x ?k (rc_results (w_cache w1)) = Some e" "cr_generation e = generation ?ns (w_cache w1)"
      "cr_results e = rs"
    using get_results_Some [OF served(2)] by blast
  show ?thesis
    by (rule served_again [where e = e and v = v]) (simp_all add: c e embed_again [OF assms(1) served(1)])
next
  case empty
  with assms(4) show ?thesis by simp
next
  case (fresh v w1 w2 w3)
  let ?k = "recall_cache_key x svc req v" and ?ns = "recall_namespace svc req"
  have c2: "w_cache w2 = snd (get_results x ?k ?ns (w_cache w1))" using fresh(2) by (auto simp: on_cache_run)
  have c3: "w_cache w3 = w_cache w2" by (rule cache_same [OF search_and_rank_cache fresh(3)])
  from fresh(4) obtain w4 w5 w6 where
    t: "track_access x (map (\<lambda>r. mem_id (rcr_memory r)) rs) w3 = (Inr (), w4)"
    and v: "process_validate_ids x (rr_validate_ids req) rs w5 = (Inr (), w6)"
    and p: "w_cache w5 = put_results x ?k rs (generation ?ns (w_cache w1)) (w_cache w4)"
    and r: "record_op x ''recall'' (rr_query req) (show_nat (length rs) @ '' results'') w6 = (Inr (), w')"
    by (rule recall_post)
  have "w_cache w' = w_cache w5"
    using cache_same [OF process_validate_cache v] r by (auto simp: record_op_run)
  moreover have "w_cache w4 = w_cache w3" by (rule cache_same [OF track_access_cache t])
  ultimately have c: "w_cache w' = put_results x ?k rs (generation ?ns (w_cache w1))
      (snd (get_results x ?k ?ns (w_cache w1)))"
    using c2 c3 p by simp
  show ?thesis
    by (rule served_again [where v = v and e = "\<lparr> cr_generation = generation ?ns (w_cache w1), cr_results = rs \<rparr>"])
      (simp_all add: c embed_again [OF assms(1) fresh(1)], simp add: put_results_def assms(2))
qed

theorem recall_repeat_served_witness:
  "\<exists>r w' w''. recall demo_ext demo_service demo_query demo_recall_world = (Inr [r], w')
     \<and> recall demo_ext demo_service demo_query w' = (Inr [r], w'')"
proof -
  obtain r w' where r: "recall demo_ext demo_service demo_query demo_recall_world = (Inr [r], w')"
    using demo_recall_runs by blast
  have "\<exists>w''. recall demo_ext demo_service demo_query w' = (Inr [r], w'') \<and> w_vs w'' = w_vs w' \<and> w_ops w'' = w_ops w'
    \<and> w_tracker w'' = w_tracker w'"
    by (rule recall_repeat_served [OF _ _ r]) (simp_all add: demo_ext_def)
  with r show ?thesis by blast
qed

section \<open>What a recall writes\<close>

text \<open>
  A database without the columns a recall may write: the access columns of every row, the
  validation date of the rows with an id in \<open>V\<close>.
\<close>

definition recall_frame :: "string set \<Rightarrow> db \<Rightarrow> mem_row list \<times> db" where
  "recall_frame V d =
     (map (\<lambda>r. r\<lparr>r_last_accessed := 0, r_access_count := 0,
        r_last_validated := if r_id r \<in> V then None else r_last_validated r\<rparr>) (memories d), d\<lparr>memories := []\<rparr>)"

lemma frame_upd:
  assumes "\<And>r. p r \<Longrightarrow> F (f r) = F r"
  shows "map F (rows_upd p f rows) = map F rows"
  using assms by (simp add: rows_upd_def)

lemma frame_touch: "keeps (\<lambda>d. recall_frame V d = c) (update_last_accessed ids now)"
proof (rule keepsI)
  fix d assume d: "recall_frame V d = c"
  let ?F = "\<lambda>r :: mem_row. r\<lparr>r_last_accessed := 0, r_access_count := 0,
        r_last_validated := if r_id r \<in> V then None else r_last_validated r\<rparr>"
  have "map ?F (touch_rows now ch rows) = map ?F rows" for ch rows
    unfolding touch_rows_def by (rule frame_upd) simp
  then have "map ?F (fold (touch_rows now) cs rows) = map ?F rows" for cs rows
    by (induction cs arbitrary: rows) simp_all
  with d show "recall_frame V (snd (update_last_accessed ids now d)) = c"
    by (simp add: recall_frame_def update_last_accessed_def)
qed

lemma fold_upd_idem:
  assumes "\<And>r. f (f r) = f r" "\<And>r. r_id (f r) = r_id r"
  shows "fold (\<lambda>c. rows_upd (\<lambda>r. r_id r \<in> set c) f) cs rows = rows_upd (\<lambda>r. r_id r \<in> set (concat cs)) f rows"
proof (induction cs arbitrary: rows)
  case Nil
  then show ?case by (simp add: rows_upd_def)
next
  case (Cons c cs)
  have "rows_upd (\<lambda>r. r_id r \<in> set (concat cs)) f (rows_upd (\<lambda>r. r_id r \<in> set c) f rows) =
      rows_upd (\<lambda>r. r_id r \<in> set c \<or> r_id r \<in> set (concat cs)) f rows"
    using assms by (intro rows_upd_idem_upd) auto
  with Cons show ?case by simp
qed

lemma update_last_validated_run:
  "update_last_validated ids now d = (Inr (), d\<lparr>memories :=
     rows_upd (\<lambda>r. r_id r \<in> set ids) (\<lambda>r. r\<lparr>r_last_validated := Some now\<rparr>) (memories d)\<rparr>)"
proof -
  have "fold (\<lambda>c. rows_upd (\<lambda>r. r_id r \<in> set c) (\<lambda>r. r\<lparr>r_last_validated := Some now\<rparr>))
      (chunks IN_CLAUSE_BATCH_SIZE ids) (memories d) =
      rows_upd (\<lambda>r. r_id r \<in> set ids) (\<lambda>r. r\<lparr>r_last_validated := Some now\<rparr>) (memories d)"
    by (subst fold_upd_idem) (simp_all only: concat_chunks IN_CLAUSE_BATCH_SIZE_def zero_less_numeral, simp_all)
  then show ?thesis by (simp add: update_last_validated_def)
qed

lemma frame_validate:
  assumes "set ids \<subseteq> V"
  shows "keeps (\<lambda>d. recall_frame V d = c) (update_last_validated ids now)"
proof (rule keepsI)
  fix d assume d: "recall_frame V d = c"
  let ?F = "\<lambda>r :: mem_row. r\<lparr>r_last_accessed := 0, r_access_count := 0,
        r_last_validated := if r_id r \<in> V then None else r_last_validated r\<rparr>"
  have "map ?F (rows_upd (\<lambda>r. r_id r \<in> set ids) (\<lambda>r. r\<lparr>r_last_validated := Some now\<rparr>) (memories d)) = map ?F (memories d)"
    using assms by (intro frame_upd) auto
  with d show "recall_frame V (snd (update_last_validated ids now d)) = c"
    by (simp add: recall_frame_def update_last_validated_run)
qed

definition validated_in :: "string set \<Rightarrow> db \<Rightarrow> bool" where
  "validated_in V d \<longleftrightarrow> (\<forall>r\<in>set (memories d). r_id r \<in> V \<longrightarrow> r_last_validated r \<noteq> None)"

lemma process_validates:
  "validated_in (set (ids_to_validate x v rs)) (w_db (snd (process_validate_ids x v rs w)))"
  by (auto simp: process_validate_ids_def Let_def m_bind_def on_db_run update_last_validated_run rows_upd_def
      validated_in_def)

lemma frame_post:
  "db_keeps (\<lambda>d. recall_frame V d = c) (track_access x ids)"
  "set (ids_to_validate x v rs) \<subseteq> V \<Longrightarrow> db_keeps (\<lambda>d. recall_frame V d = c) (process_validate_ids x v rs)"
  unfolding track_access_def process_validate_ids_def Let_def
  by (intro keeps_intros frame_touch [THEN db_keeps_on_db], simp add: keeps_def split: prod.splits)
    (intro keeps_intros frame_validate [THEN db_keeps_on_db])

lemma recall_error_db:
  assumes "recall x svc req w = (Inl e, w')"
  shows "w_db w' = w_db w"
proof -
  have quiet: "embed_cached x q u = (r, u') \<Longrightarrow> w_db u' = w_db u"
    "search_and_rank x svc req v u = (r', u') \<Longrightarrow> w_db u' = w_db u" for q u r u' v r'
    using no_db_write [OF embed_cached_keeps] no_db_write [OF search_and_rank_keeps] by blast+
  have post: "process_validate_ids x v rs u \<noteq> (Inl e, u')" "track_access x ids u \<noteq> (Inl e, u')"
    "on_cache f u \<noteq> (Inl e, u')" "record_op x k dt out u \<noteq> (Inl e, u')"
    for v rs u u' ids f k dt out
    by (intro completes_not_err completes_intros)+
  show ?thesis
    using assms unfolding recall_def Let_def
    by (auto simp: m_bind_err_iff m_then_def post on_cache_run dest!: quiet split: option.splits)
qed

text \<open>
  C33. Recalling changes no fact: a recall that fails leaves the database as it was, and one that
  answers changes only access columns, and the validation date of the rows that the caller
  asked to validate and that are among the results, which are then all validated.
\<close>

theorem recall_writes:
  "case recall x svc req w of
     (Inl e, w') \<Rightarrow> w_db w' = w_db w
   | (Inr rs, w') \<Rightarrow>
       (let V = set (ids_to_validate x (rr_validate_ids req) rs)
        in recall_frame V (w_db w') = recall_frame V (w_db w) \<and> validated_in V (w_db w'))"
proof (cases "recall x svc req w")
  case (Pair r w')
  show ?thesis
  proof (cases r)
    case (Inl e)
    with Pair recall_error_db show ?thesis by auto
  next
    case (Inr rs)
    let ?V = "set (ids_to_validate x (rr_validate_ids req) rs)"
    from Pair Inr have run: "recall x svc req w = (Inr rs, w')" by simp
    have "recall_frame ?V (w_db w') = recall_frame ?V (w_db w) \<and> validated_in ?V (w_db w')"
      using run
    proof (cases rule: recall_cases)
      case (served v w1 w2)
      have db: "w_db w2 = w_db w" using no_db_write [OF embed_cached_keeps served(1)] served(3) by simp
      show ?thesis
        using process_validates [of x "rr_validate_ids req" rs w2]
          keepsD_run [OF frame_post(2) [OF subset_refl] refl served(4)] by (simp add: db served(4))
    next
      case (empty v w1 w2)
      have "w_db w' = w_db w"
        using no_db_write [OF embed_cached_keeps empty(1)] no_db_write [OF search_and_rank_keeps empty(3)] empty(2)
        by (auto simp: on_cache_run)
      then show ?thesis by (simp add: empty(4) ids_to_validate_def validated_in_def)
    next
      case (fresh v w1 w2 w3)
      have db: "w_db w3 = w_db w"
        using no_db_write [OF embed_cached_keeps fresh(1)] no_db_write [OF search_and_rank_keeps fresh(3)] fresh(2)
        by (auto simp: on_cache_run)
      from fresh(4) obtain w4 w5 w6 where
        t: "track_access x (map (\<lambda>r. mem_id (rcr_memory r)) rs) w3 = (Inr (), w4)"
        and v: "process_validate_ids x (rr_validate_ids req) rs w5 = (Inr (), w6)"
        and rest: "w5 = w4\<lparr>w_cache := w_cache w5\<rparr>"
          "record_op x ''recall'' (rr_query req) (show_nat (length rs) @ '' results'') w6 = (Inr (), w')"
        by (rule recall_post)
      from rest(1) have c: "w_db w5 = w_db w4" by (metis world.select_convs(1) world.surjective world.update_convs(3))
      from rest(2) have r: "w_db w' = w_db w6" by (auto simp: record_op_run)
      have "recall_frame ?V (w_db w4) = recall_frame ?V (w_db w)"
        using keepsD_run [OF frame_post(1) refl t] by (simp add: db)
      moreover have "recall_frame ?V (w_db w6) = recall_frame ?V (w_db w4)"
        using keepsD_run [OF frame_post(2) [OF subset_refl] refl v] by (simp add: c)
      moreover have "validated_in ?V (w_db w6)"
        using process_validates [of x "rr_validate_ids req" rs w5] by (simp add: v)
      ultimately show ?thesis by (simp add: r)
    qed
    with Pair Inr show ?thesis by (simp add: Let_def)
  qed
qed

end
