(* ===== verification/AdminOps.thy ===== *)
theory AdminOps
  imports RecallLaws
begin

text \<open>
  The operator's operations and the read-only reports: reconciling the vectors with the rows,
  filling in normalised predicates, listing the journal (\<open>crates/core/src/service/admin.rs\<close>),
  timeline, taxonomy, statistics and diagnostics (\<open>timeline.rs\<close>, \<open>taxonomy.rs\<close>, \<open>stats.rs\<close>).
\<close>

section \<open>Audit\<close>

record audit_report =
  ar_sqlite_only :: "string list"
  ar_qdrant_only :: "string list"
  ar_fixed :: "string list"

text \<open>
  The hash sets are lists without duplicates; the order of the differences is not specified.
  \<open>None\<close> is a scroll that did not end within the fuel.
\<close>

definition audit_reconcile ::
    "('q, 'e, 'r) ext \<Rightarrow> service \<Rightarrow> nat \<Rightarrow> bool \<Rightarrow> nat \<Rightarrow> ('q, 'e, 'r, audit_report option) op" where
  "audit_reconcile x svc fuel fix_it fix_limit =
     (let ns = cfg_namespace (svc_config svc) in
      m_bind (on_vs (scroll_memory_ids x fuel ns)) (\<lambda>scrolled.
      case scrolled of None \<Rightarrow> m_ret None
      | Some qdrant_ids \<Rightarrow>
      m_bind (from_db (list_vectored_memory_ids ns)) (\<lambda>sqlite_ids.
      let qdrant_only = filter (\<lambda>i. i \<notin> set sqlite_ids) (remdups qdrant_ids);
          sqlite_only = filter (\<lambda>i. i \<notin> set qdrant_ids) (remdups sqlite_ids)
      in if fix_it then
           (if fix_limit < length qdrant_only then
              m_fail (Validation (''audit refuses to auto-fix '' @ show_nat (length qdrant_only)
                @ '' qdrant-only ids (limit '' @ show_nat fix_limit @ '')''))
            else m_then (on_vs (v_delete_by_ids x ns (List.map_filter (x_parse_uuid x) qdrant_only)))
              (m_ret (Some \<lparr> ar_sqlite_only = sqlite_only, ar_qdrant_only = [], ar_fixed = qdrant_only \<rparr>)))
         else m_ret (Some \<lparr> ar_sqlite_only = sqlite_only, ar_qdrant_only = qdrant_only, ar_fixed = [] \<rparr>))))"

section \<open>Backfill\<close>

record backfill_report =
  bf_scanned :: nat
  bf_updated :: nat

definition backfill_one ::
    "('q, 'e, 'r) ext \<Rightarrow> service \<Rightarrow> bool \<Rightarrow> backfill_report \<Rightarrow> memory \<Rightarrow> ('q, 'e, 'r, backfill_report) op" where
  "backfill_one x svc dry_run report row =
     (case mem_predicate row of
        None \<Rightarrow> m_ret report
      | Some pred \<Rightarrow>
          let normalized = normalize_predicate (x_jaro_winkler x) (normalizer_for svc (mem_namespace row)) pred;
              counted = report\<lparr>bf_updated := bf_updated report + 1\<rparr>
          in if normalized = pred then m_ret report
             else if dry_run then m_ret counted
             else m_bind (now_op x) (\<lambda>now.
               m_then (on_db (set_normalized_predicate (mem_id row) normalized now)) (m_ret counted)))"

definition backfill_normalized_predicates ::
    "('q, 'e, 'r) ext \<Rightarrow> service \<Rightarrow> string option \<Rightarrow> bool \<Rightarrow> ('q, 'e, 'r, backfill_report) op" where
  "backfill_normalized_predicates x svc ns dry_run =
     m_bind (from_db (semantic_rows_missing_normalized_predicate ns)) (\<lambda>rows.
       m_fold (backfill_one x svc dry_run) \<lparr> bf_scanned = length rows, bf_updated = 0 \<rparr> rows)"

section \<open>The journal\<close>

definition list_pending_ops_op :: "('q, 'e, 'r, pending_op list) op" where
  "list_pending_ops_op = from_db list_pending_ops"

definition list_completed_ops_op ::
    "string option \<Rightarrow> nat \<Rightarrow> time option \<Rightarrow> ('q, 'e, 'r, completed_op list) op" where
  "list_completed_ops_op status limit since = from_db (list_completed_ops status limit since)"

section \<open>Timeline and taxonomy\<close>

definition timeline :: "service \<Rightarrow> timeline_request \<Rightarrow> ('q, 'e, 'r, timeline_response) op" where
  "timeline svc req =
     (let ns = (case tl_namespace req of None \<Rightarrow> cfg_namespace (svc_config svc) | Some n \<Rightarrow> n);
          normalized = normalize_name (tl_entity req);
          limit = recall_limit (tl_limit req);
          include_invalidated = (tl_include_invalidated req = Some True)
      in if normalized = [] then m_fail (Validation ''empty entity name'')
         else m_bind (from_db (get_entity_by_name normalized)) (\<lambda>found.
           case found of
             None \<Rightarrow> m_ret \<lparr> tlr_entity = tl_entity req, tlr_resolved_entity_id = None, tlr_entries = [] \<rparr>
           | Some e \<Rightarrow>
               m_bind (from_db (timeline_by_entity (ent_id e) ns limit include_invalidated (tl_types req))) (\<lambda>mems.
                 m_ret \<lparr> tlr_entity = tl_entity req, tlr_resolved_entity_id = Some (ent_id e),
                   tlr_entries = map (\<lambda>m. \<lparr> te_memory = m,
                     te_occurred_at = (case mem_t_valid m of None \<Rightarrow> mem_created_at m | Some t \<Rightarrow> t) \<rparr>) mems \<rparr>)))"

definition DEFAULT_TAXONOMY_LIMIT :: nat where "DEFAULT_TAXONOMY_LIMIT = 10"
definition MAX_TAXONOMY_LIMIT :: nat where "MAX_TAXONOMY_LIMIT = 100"

definition taxonomy_limit :: "nat option \<Rightarrow> nat" where
  "taxonomy_limit limit = min (case limit of None \<Rightarrow> DEFAULT_TAXONOMY_LIMIT | Some n \<Rightarrow> n) MAX_TAXONOMY_LIMIT"

definition count_of :: "(memory_type \<rightharpoonup> nat) \<Rightarrow> memory_type \<Rightarrow> nat" where
  "count_of by_type t = (case by_type t of None \<Rightarrow> 0 | Some n \<Rightarrow> n)"

definition taxonomy :: "service \<Rightarrow> taxonomy_request \<Rightarrow> ('q, 'e, 'r, taxonomy_response) op" where
  "taxonomy svc req =
     (let scope_given = (tx_namespace req \<noteq> None);
          ns = (case tx_namespace req of Some n \<Rightarrow> n
             | None \<Rightarrow> (case tx_default_namespace req of Some n \<Rightarrow> n | None \<Rightarrow> cfg_namespace (svc_config svc)));
          limit = taxonomy_limit (tx_limit req)
      in m_bind (from_db (memory_count_by_type ns)) (\<lambda>by_type.
         m_bind (from_db (top_entities ns limit)) (\<lambda>ents.
         m_bind (from_db (top_predicates ns limit)) (\<lambda>preds.
         m_bind (if scope_given then m_ret None else from_db (\<lambda>d. Some (list_namespaces d))) (\<lambda>all_namespaces.
         m_ret \<lparr> txr_namespace = ns, txr_total_memories = sum_list (map (count_of by_type) [Episodic, Semantic, Procedural]),
           txr_by_type = by_type, txr_top_entities = ents, txr_top_predicates = preds,
           txr_all_namespaces = all_namespaces \<rparr>)))))"

section \<open>Statistics\<close>

definition MAX_SCAN_MEMORIES :: nat where "MAX_SCAN_MEMORIES = 10000"
definition STATS_RECENT_COUNT :: nat where "STATS_RECENT_COUNT = 5"

text \<open>\<open>as i64\<close> of a float truncates towards zero and saturates; \<open>None\<close> is infinity.\<close>

definition as_i64 :: "real option \<Rightarrow> int" where
  "as_i64 r = (case r of None \<Rightarrow> 2 ^ 63 - 1
     | Some v \<Rightarrow> max (- (2 ^ 63)) (min (2 ^ 63 - 1) (if 0 \<le> v then \<lfloor>v\<rfloor> else \<lceil>v\<rceil>)))"

definition stale_cutoff :: "('q, 'e, 'r) ext \<Rightarrow> staleness_config \<Rightarrow> time \<Rightarrow> core_error + time" where
  "stale_cutoff x cfg now =
     (case x_days_before x (as_i64 (map_option (\<lambda>h. h / 2) (min_half_life_days cfg))) now of
        None \<Rightarrow> Inl (Panicked ''duration out of range'')
      | Some t \<Rightarrow> Inr t)"

text \<open>Scores and thresholds of a list of memories; a missing type panics.\<close>

fun score_all :: "staleness_config \<Rightarrow> time \<Rightarrow> memory list \<Rightarrow> core_error + (memory \<times> real \<times> real) list" where
  "score_all cfg now [] = Inr []"
| "score_all cfg now (m # ms) =
     (case (staleness_score m now cfg, threshold_for_type cfg (mem_type m)) of
        (Some s, Some t) \<Rightarrow> (case score_all cfg now ms of Inl e \<Rightarrow> Inl e | Inr rest \<Rightarrow> Inr ((m, s, t) # rest))
      | _ \<Rightarrow> Inl (Panicked ''all MemoryType variants must be in type_config''))"

record type_acc =
  ta_count :: nat
  ta_stale_count :: nat
  ta_sum_staleness :: real
  ta_sum_access :: real
  ta_oldest :: "time option"
  ta_newest :: "time option"

definition add_to_acc :: "memory \<Rightarrow> real \<Rightarrow> freshness_label \<Rightarrow> type_acc option \<Rightarrow> type_acc" where
  "add_to_acc m score label old =
     (let a = (case old of Some a \<Rightarrow> a | None \<Rightarrow> \<lparr> ta_count = 0, ta_stale_count = 0, ta_sum_staleness = 0,
            ta_sum_access = 0, ta_oldest = None, ta_newest = None \<rparr>)
      in \<lparr> ta_count = ta_count a + 1,
           ta_stale_count = (if label = Stale then ta_stale_count a + 1 else ta_stale_count a),
           ta_sum_staleness = ta_sum_staleness a + score,
           ta_sum_access = ta_sum_access a + real (unat (mem_access_count m)),
           ta_oldest = Some (case ta_oldest a of None \<Rightarrow> mem_created_at m | Some v \<Rightarrow> min v (mem_created_at m)),
           ta_newest = Some (case ta_newest a of None \<Rightarrow> mem_created_at m | Some v \<Rightarrow> max v (mem_created_at m)) \<rparr>)"

definition type_stats_of :: "type_acc \<Rightarrow> type_stats" where
  "type_stats_of a =
     \<lparr> ts_count = ta_count a, ts_stale_count = ta_stale_count a,
       ts_avg_staleness = (if 0 < ta_count a then ta_sum_staleness a / real (ta_count a) else 0),
       ts_avg_access_count = (if 0 < ta_count a then ta_sum_access a / real (ta_count a) else 0),
       ts_oldest = ta_oldest a, ts_newest = ta_newest a \<rparr>"

fun tally :: "(memory \<times> real \<times> real) list \<Rightarrow> staleness_distribution \<Rightarrow> (string \<rightharpoonup> type_acc) \<Rightarrow>
    staleness_distribution \<times> (string \<rightharpoonup> type_acc)" where
  "tally [] sd accs = (sd, accs)"
| "tally ((m, score, threshold) # rest) sd accs =
     (let label = label_of_score score threshold;
          sd' = (case label of
             Fresh \<Rightarrow> sd\<lparr>sd_fresh := sd_fresh sd + 1\<rparr>
           | Aging \<Rightarrow> sd\<lparr>sd_aging := sd_aging sd + 1\<rparr>
           | Stale \<Rightarrow> sd\<lparr>sd_stale := sd_stale sd + 1\<rparr>);
          key = mt_as_str (mem_type m)
      in tally rest sd' (accs(key \<mapsto> add_to_acc m score label (accs key))))"

definition build_stats_details ::
    "('q, 'e, 'r) ext \<Rightarrow> string \<Rightarrow> string list \<Rightarrow> staleness_config \<Rightarrow> time \<Rightarrow> ('q, 'e, 'r, stats_details) op" where
  "build_stats_details x ns all_ids cfg now =
     m_bind (from_db (x_storage_bytes x)) (\<lambda>storage_size.
     m_bind (from_db (entity_count ns)) (\<lambda>ents.
     m_bind (from_db (get_memories_by_ids all_ids)) (\<lambda>all_memories.
     m_bind (m_of (score_all cfg now (filter (\<lambda>m. mem_t_invalid m = None) all_memories))) (\<lambda>scored.
     let (sd, accs) = tally scored \<lparr> sd_fresh = 0, sd_aging = 0, sd_stale = 0 \<rparr> Map.empty
     in m_ret \<lparr> sdt_by_type = (\<lambda>k. map_option type_stats_of (accs k)), sdt_storage_size_bytes = storage_size,
          sdt_entity_count = ents, sdt_distribution = sd \<rparr>))))"

definition diagnostics :: "('q, 'e, 'r) ext \<Rightarrow> service \<Rightarrow> string \<Rightarrow> ('q, 'e, 'r, diagnostics_report) op" where
  "diagnostics x svc ns =
     (let cfg = svc_config svc in
      m_bind (from_db memory_count) (\<lambda>mem_count.
      m_bind (from_db (entity_count ns)) (\<lambda>ents.
      m_bind (from_db (x_storage_bytes x)) (\<lambda>sqlite_size.
      m_bind (now_op x) (\<lambda>now.
      m_bind (from_db (count_pending_ops_older_than 0 now)) (\<lambda>pending.
      m_bind (m_gets (\<lambda>w. stats_of_cache (w_cache w))) (\<lambda>cache.
      m_bind (m_gets (\<lambda>w. ops_recent 10 (w_ops w))) (\<lambda>recent_ops.
      m_ret \<lparr> dr_embedding_model = cfg_model_name cfg,
        dr_qdrant_url = (case cfg_qdrant_url cfg of Some u \<Rightarrow> u
          | None \<Rightarrow> ''localhost:'' @ show_nat (cfg_qdrant_port cfg) @ '' (sidecar)''),
        dr_collection = ns, dr_sqlite_path = cfg_db_path cfg, dr_sqlite_size_bytes = sqlite_size,
        dr_memory_count = mem_count, dr_entity_count = ents, dr_pending_ops = pending,
        dr_cache = cache, dr_recent_ops = recent_ops \<rparr>))))))))"

definition stats :: "('q, 'e, 'r) ext \<Rightarrow> service \<Rightarrow> stats_request \<Rightarrow> ('q, 'e, 'r, stats_response) op" where
  "stats x svc req =
     (let ns = st_namespace req; cfg = cfg_staleness (svc_config svc) in
      m_bind (from_db (list_all_memory_ids ns)) (\<lambda>ids.
      let all_ids = take MAX_SCAN_MEMORIES ids in
      m_bind (from_db (recent_memories ns STATS_RECENT_COUNT)) (\<lambda>recent.
      m_bind (now_op x) (\<lambda>now.
      m_bind (from_db (get_unvalidated_memories ns)) (\<lambda>unvalidated.
      m_bind (m_of (stale_cutoff x cfg now)) (\<lambda>cutoff.
      m_bind (from_db (get_stale_candidates ns cutoff)) (\<lambda>candidates.
      m_bind (m_of (score_all cfg now candidates)) (\<lambda>scored.
      m_bind (if st_detailed req = Some True
              then m_bind (build_stats_details x ns all_ids cfg now) (\<lambda>details. m_ret (Some details))
              else m_ret None) (\<lambda>details.
      m_bind (if st_diagnostics req = Some True
              then m_bind (diagnostics x svc ns) (\<lambda>report. m_ret (Some report))
              else m_ret None) (\<lambda>report.
      m_ret \<lparr> ssr_total_memories = length all_ids, ssr_recent_memories = recent,
        ssr_needs_attention = \<lparr> na_stale_count = length (filter (\<lambda>(m, s, t). t \<le> s) scored),
          na_conflict_count = 0, na_unvalidated_count = length unvalidated \<rparr>,
        ssr_details = details, ssr_diagnostics = report \<rparr>))))))))))"

end
