(* ===== verification/AdminLaws.thy ===== *)
theory AdminLaws
  imports AdminOps
begin

text \<open>
  What the operator's operations guarantee: the scroll over a collection ends and misses no
  point, an audit removes exactly the orphaned vectors, a backfill is what its dry run
  announced and leaves nothing to do, and the counts of the reports add up.
\<close>

section \<open>Scrolling\<close>

text \<open>
  Qdrant's paging: the points in one fixed order, a page of at most the limit from the offset
  on, and as next offset the point after the page, if any.
\<close>

definition page_start :: "point_id list \<Rightarrow> nat \<Rightarrow> point_id option" where
  "page_start L j = (if j = 0 then None else Some (L ! (j * SCROLL_PAGE_SIZE)))"

definition paged :: "('q, 'e, 'r) ext \<Rightarrow> string \<Rightarrow> point_id list \<Rightarrow> 'q \<Rightarrow> bool" where
  "paged x name L q \<longleftrightarrow> (\<forall>j. j = 0 \<or> j * SCROLL_PAGE_SIZE < length L \<longrightarrow>
     x_scroll x name memories_only SCROLL_PAGE_SIZE (page_start L j) q =
       (Inr (map Some (take SCROLL_PAGE_SIZE (drop (j * SCROLL_PAGE_SIZE) L)),
          if (j + 1) * SCROLL_PAGE_SIZE < length L then page_start L (j + 1) else None), q))"

definition printed_ids :: "('q, 'e, 'r) ext \<Rightarrow> point_id list \<Rightarrow> string list" where
  "printed_ids x L = List.map_filter (scrolled_id x) (map Some L)"

lemma map_filter_append: "List.map_filter f (xs @ ys) = List.map_filter f xs @ List.map_filter f ys"
  by (induction xs) (auto split: option.splits)

lemma printed_ids_append: "printed_ids x (L @ M) = printed_ids x L @ printed_ids x M"
  by (simp add: printed_ids_def map_filter_append)

lemma scroll_step:
  assumes "paged x name L (vs_q v)" and "j = 0 \<or> j * SCROLL_PAGE_SIZE < length L"
  shows "scroll_loop x name (Suc fuel) (page_start L j) ids v =
    (let ids' = ids @ printed_ids x (take SCROLL_PAGE_SIZE (drop (j * SCROLL_PAGE_SIZE) L)) in
     if (j + 1) * SCROLL_PAGE_SIZE < length L then scroll_loop x name fuel (page_start L (j + 1)) ids' v
     else (Inr (Some ids'), v))"
proof -
  have "qcall (x_scroll x name memories_only SCROLL_PAGE_SIZE (page_start L j)) v =
       (Inr (map Some (take SCROLL_PAGE_SIZE (drop (j * SCROLL_PAGE_SIZE) L)),
          if (j + 1) * SCROLL_PAGE_SIZE < length L then page_start L (j + 1) else None), v)"
    using assms by (auto simp: qcall_def m_zoom_def paged_def)
  then show ?thesis by (simp add: m_bind_def printed_ids_def Let_def page_start_def)
qed

lemma scroll_from:
  assumes "paged x name L (vs_q v)" and "j = 0 \<or> j * SCROLL_PAGE_SIZE < length L"
    and "0 < fuel" and "length L \<le> (j + fuel) * SCROLL_PAGE_SIZE"
  shows "scroll_loop x name fuel (page_start L j) ids v =
    (Inr (Some (ids @ printed_ids x (drop (j * SCROLL_PAGE_SIZE) L))), v)"
  using assms(2-4)
proof (induction fuel arbitrary: j ids)
  case 0
  then show ?case by simp
next
  case (Suc fuel)
  let ?page = "take SCROLL_PAGE_SIZE (drop (j * SCROLL_PAGE_SIZE) L)"
  have split: "drop (j * SCROLL_PAGE_SIZE) L = ?page @ drop ((j + 1) * SCROLL_PAGE_SIZE) L"
    by (metis append_take_drop_id drop_drop add.commute mult.commute mult_Suc_right Suc_eq_plus1)
  show ?case
  proof (cases "(j + 1) * SCROLL_PAGE_SIZE < length L")
    case True
    have "0 < fuel"
    proof (rule ccontr)
      assume "\<not> 0 < fuel"
      with Suc.prems(3) True show False by simp
    qed
    with Suc.IH [of "j + 1" "ids @ printed_ids x ?page"] Suc.prems True scroll_step [OF assms(1) Suc.prems(1)] split
    show ?thesis by (simp add: Let_def printed_ids_append [symmetric])
  next
    case False
    then have "drop ((j + 1) * SCROLL_PAGE_SIZE) L = []" by simp
    with scroll_step [OF assms(1) Suc.prems(1)] False split show ?thesis by (simp add: Let_def)
  qed
qed

text \<open>
  C38. The scroll over a namespace ends: with one page request for every started 1024 points it
  has seen every point of the collection, exactly once and in Qdrant's order, and returns the
  ids that are UUIDs.
\<close>

theorem scroll_ends:
  assumes "collection_name ns = Inr name" and "paged x name L (vs_q v)"
    and "0 < fuel" and "length L \<le> fuel * SCROLL_PAGE_SIZE"
  shows "scroll_memory_ids x fuel ns v = (Inr (Some (printed_ids x L)), v)"
  using scroll_from [OF assms(2), of 0 fuel "[]"] assms(1,3,4)
  by (simp add: scroll_memory_ids_def m_bind_def page_start_def)

definition demo_vs :: "demo_q vstore" where
  "demo_vs = \<lparr> vs_q = [(''ferrex_default'', map (\<lambda>i. \<lparr> pt_id = i, pt_dense = [1], pt_text = None, pt_payload = [] \<rparr>)
     [''a'', ''b''])], vs_ensured = [] \<rparr>"

lemma demo_paged: "paged demo_ext ''ferrex_default'' [PtUuid ''a'', PtUuid ''b''] (vs_q demo_vs)"
  unfolding paged_def
proof (intro allI impI)
  fix j :: nat
  assume "j = 0 \<or> j * SCROLL_PAGE_SIZE < length [PtUuid ''a'', PtUuid ''b'']"
  then have j: "j = 0" by (cases j) (auto simp: SCROLL_PAGE_SIZE_def)
  show "x_scroll demo_ext ''ferrex_default'' memories_only SCROLL_PAGE_SIZE (page_start [PtUuid ''a'', PtUuid ''b''] j) (vs_q demo_vs) =
       (Inr (map Some (take SCROLL_PAGE_SIZE (drop (j * SCROLL_PAGE_SIZE) [PtUuid ''a'', PtUuid ''b''])),
          if (j + 1) * SCROLL_PAGE_SIZE < length [PtUuid ''a'', PtUuid ''b''] then page_start [PtUuid ''a'', PtUuid ''b''] (j + 1)
          else None), vs_q demo_vs)"
    by (simp add: j SCROLL_PAGE_SIZE_def demo_ext_def demo_vs_def demo_points_def)
qed

theorem scroll_ends_witness:
  "scroll_memory_ids demo_ext 1 ''default'' demo_vs = (Inr (Some [''a'', ''b'']), demo_vs)"
proof -
  have "collection_name ''default'' = Inr ''ferrex_default''"
    by (simp add: collection_name_Inr is_ascii_alphanumeric_def)
  from scroll_ends [OF this demo_paged, of 1] show ?thesis
    by (simp add: SCROLL_PAGE_SIZE_def printed_ids_def scrolled_id_def demo_ext_def)
qed

section \<open>Audit\<close>

definition uuid_points :: "point_id list \<Rightarrow> string set" where
  "uuid_points L = {s. PtUuid s \<in> set L}"

definition removes_points :: "('q, 'e, 'r) ext \<Rightarrow> string \<Rightarrow> ('q \<Rightarrow> point_id list) \<Rightarrow> bool" where
  "removes_points x name pts \<longleftrightarrow> (\<forall>ids q. \<exists>q'. x_delete_points x name ids q = (Inr (), q')
     \<and> uuid_points (pts q') = uuid_points (pts q) - set ids)"

lemma printed_uuids:
  assumes "\<forall>s\<in>uuid_points L. x_parse_uuid x s = Some s"
  shows "set (printed_ids x L) = uuid_points L"
proof -
  have "(\<exists>p\<in>set L. scrolled_id x (Some p) = Some s) \<longleftrightarrow> PtUuid s \<in> set L" for s
  proof
    assume "\<exists>p\<in>set L. scrolled_id x (Some p) = Some s"
    then obtain p where p: "p \<in> set L" "scrolled_id x (Some p) = Some s" by blast
    show "PtUuid s \<in> set L"
    proof (cases p)
      case (PtUuid u)
      with p assms show ?thesis by (auto simp: scrolled_id_def uuid_points_def)
    next
      case (PtNum n)
      with p show ?thesis by (simp add: scrolled_id_def)
    qed
  next
    assume "PtUuid s \<in> set L"
    then show "\<exists>p\<in>set L. scrolled_id x (Some p) = Some s"
      using assms by (intro bexI [of _ "PtUuid s"]) (auto simp: scrolled_id_def uuid_points_def)
  qed
  then show ?thesis by (auto simp: printed_ids_def set_map_filter uuid_points_def)
qed

lemma map_filter_Some: "\<forall>s\<in>set xs. f s = Some s \<Longrightarrow> List.map_filter f xs = xs"
  by (induction xs) simp_all

lemma vectored_ids: "set (list_vectored_memory_ids ns d) = r_id ` {r \<in> set (memories d). r_namespace r = ns}"
  by (auto simp: list_vectored_memory_ids_def)

text \<open>
  C34. An audit reports exactly the vectors without a row and the rows without a vector, where every
  row of the namespace counts, an invalidated memory too because it keeps its vector. With \<open>fix\<close> it
  deletes exactly the vectors without a row: afterwards the collection holds precisely those that
  have one. When there are more orphans than the limit it refuses and nothing changes; without
  \<open>fix\<close> nothing changes either, and the database never does.
\<close>

theorem audit_reconciles:
  assumes "collection_name (cfg_namespace (svc_config svc)) = Inr name"
    and "paged x name (pts (vs_q (w_vs w))) (vs_q (w_vs w))" and "removes_points x name pts"
    and "0 < fuel" and "length (pts (vs_q (w_vs w))) \<le> fuel * SCROLL_PAGE_SIZE"
    and "\<forall>s\<in>uuid_points (pts (vs_q (w_vs w))). x_parse_uuid x s = Some s"
    and "before = uuid_points (pts (vs_q (w_vs w)))"
    and "rows = r_id ` {r \<in> set (memories (w_db w)). r_namespace r = cfg_namespace (svc_config svc)}"
    and "audit_reconcile x svc fuel fix_it fix_limit w = (res, w')"
  shows "if \<not> fix_it then w' = w \<and> (\<exists>rep. res = Inr (Some rep) \<and> set (ar_qdrant_only rep) = before - rows
           \<and> set (ar_sqlite_only rep) = rows - before \<and> ar_fixed rep = [])
         else if fix_limit < card (before - rows) then w' = w \<and> (\<exists>msg. res = Inl (Validation msg))
         else w_db w' = w_db w \<and> uuid_points (pts (vs_q (w_vs w'))) = before \<inter> rows
           \<and> (\<exists>rep. res = Inr (Some rep) \<and> set (ar_fixed rep) = before - rows
                \<and> set (ar_sqlite_only rep) = rows - before \<and> ar_qdrant_only rep = [])"
proof -
  have vectored: "rows = set (list_vectored_memory_ids (cfg_namespace (svc_config svc)) (w_db w))"
    unfolding vectored_ids by (rule assms(8))
  let ?ns = "cfg_namespace (svc_config svc)" and ?q = "printed_ids x (pts (vs_q (w_vs w)))"
  let ?only = "filter (\<lambda>i. i \<notin> rows) (remdups ?q)"
  have q: "set ?q = before" using printed_uuids assms(6,7) by blast
  have scroll: "on_vs (scroll_memory_ids x fuel ?ns) w = (Inr (Some ?q), w)"
    using scroll_ends [OF assms(1,2,4,5)] by (simp add: on_vs_def m_zoom_def)
  have len: "length ?only = card (before - rows)"
    using distinct_card [of ?only] q by (simp add: set_diff_eq)
  have uuids: "List.map_filter (x_parse_uuid x) ?only = ?only"
    using q assms(6,7) by (intro map_filter_Some) auto
  have run: "audit_reconcile x svc fuel fix_it fix_limit w =
     (let sqlite_only = filter (\<lambda>i. i \<notin> before) (remdups (list_vectored_memory_ids ?ns (w_db w)))
      in if fix_it then
           (if fix_limit < card (before - rows) then
              m_fail (Validation (''audit refuses to auto-fix '' @ show_nat (length ?only)
                @ '' qdrant-only ids (limit '' @ show_nat fix_limit @ '')'')) w
            else m_then (on_vs (v_delete_by_ids x ?ns ?only))
              (m_ret (Some \<lparr> ar_sqlite_only = sqlite_only, ar_qdrant_only = [], ar_fixed = ?only \<rparr>)) w)
         else (Inr (Some \<lparr> ar_sqlite_only = sqlite_only, ar_qdrant_only = ?only, ar_fixed = [] \<rparr>), w))"
    using len uuids by (simp add: audit_reconcile_def m_bind_def scroll q vectored Let_def)
  have only: "set ?only = before - rows" using q by auto
  have sqlite: "set (filter (\<lambda>i. i \<notin> before) (remdups (list_vectored_memory_ids ?ns (w_db w)))) = rows - before"
    using vectored by auto
  show ?thesis
  proof (cases "fix_it \<and> \<not> fix_limit < card (before - rows)")
    case False
    with run assms(9) only sqlite show ?thesis by (simp add: Let_def) (auto split: if_splits)
  next
    case True
    have "\<exists>v. on_vs (v_delete_by_ids x ?ns ?only) w = (Inr (), w\<lparr>w_vs := v\<rparr>)
        \<and> uuid_points (pts (vs_q v)) = before \<inter> rows"
    proof (cases "?only = []")
      case True
      then have "before - rows = {}" using only by simp
      then have "uuid_points (pts (vs_q (w_vs w))) = before \<inter> rows" using assms(7) by blast
      with True show ?thesis
        by (intro exI [of _ "w_vs w"]) (simp add: v_delete_by_ids_def on_vs_def m_zoom_def)
    next
      case False
      obtain q' where "x_delete_points x name ?only (vs_q (w_vs w)) = (Inr (), q')"
        "uuid_points (pts q') = before - set ?only"
        using assms(3,7) unfolding removes_points_def by blast
      with False only show ?thesis
        by (intro exI [of _ "(w_vs w)\<lparr>vs_q := q'\<rparr>"])
          (auto simp: v_delete_by_ids_def on_vs_def m_zoom_def qcall_def m_bind_def assms(1))
    qed
    then obtain v where v: "on_vs (v_delete_by_ids x ?ns ?only) w = (Inr (), w\<lparr>w_vs := v\<rparr>)"
      "uuid_points (pts (vs_q v)) = before \<inter> rows" by blast
    with run assms(9) only sqlite True show ?thesis by (simp add: m_then_def m_bind_def Let_def) (auto)
  qed
qed

definition demo_pts :: "demo_q \<Rightarrow> point_id list" where
  "demo_pts q = map (\<lambda>p. PtUuid (pt_id p)) (demo_points ''ferrex_default'' q)"

lemma demo_removes: "removes_points demo_ext ''ferrex_default'' demo_pts"
  unfolding removes_points_def
  by (auto simp: demo_ext_def demo_pts_def uuid_points_def demo_points_def demo_set_def image_iff)

definition orphan_world :: "(demo_q, 64 word \<Rightarrow> real list option, 64 word \<Rightarrow> cached_results option) world" where
  "orphan_world = (demo_world (empty_db\<lparr>memories := [memory_row (sample_memory\<lparr>mem_id := ''a''\<rparr>)]\<rparr>))\<lparr>w_vs := demo_vs\<rparr>"

theorem audit_reconciles_witness:
  "\<exists>rep w'. audit_reconcile demo_ext demo_service 1 True 10 orphan_world = (Inr (Some rep), w')
     \<and> set (ar_fixed rep) = {''b''} \<and> uuid_points (demo_pts (vs_q (w_vs w'))) = {''a''}"
proof -
  obtain res w' where r: "audit_reconcile demo_ext demo_service 1 True 10 orphan_world = (res, w')" by fastforce
  have ns: "cfg_namespace (svc_config demo_service) = ''default''"
    by (simp add: demo_service_def service_new_def demo_config_def)
  have name: "collection_name (cfg_namespace (svc_config demo_service)) = Inr ''ferrex_default''"
    by (simp add: ns collection_name_Inr is_ascii_alphanumeric_def)
  have pts: "demo_pts (vs_q (w_vs orphan_world)) = [PtUuid ''a'', PtUuid ''b'']"
    by (simp add: demo_pts_def orphan_world_def demo_vs_def demo_points_def)
  have before: "uuid_points (demo_pts (vs_q (w_vs orphan_world))) = {''a'', ''b''}"
    unfolding pts by (auto simp: uuid_points_def)
  have rows: "r_id ` {r \<in> set (memories (w_db orphan_world)). r_namespace r = cfg_namespace (svc_config demo_service)} = {''a''}"
  proof -
    have "memories (w_db orphan_world) = [memory_row (sample_memory\<lparr>mem_id := ''a''\<rparr>)]"
      by (simp add: orphan_world_def)
    moreover have "r_namespace (memory_row (sample_memory\<lparr>mem_id := ''a''\<rparr>)) = ''default''"
      "r_id (memory_row (sample_memory\<lparr>mem_id := ''a''\<rparr>)) = ''a''"
      by (simp_all add: memory_row_def sample_memory_def)
    ultimately show ?thesis unfolding ns by (simp cong: conj_cong)
  qed
  have vs: "w_vs orphan_world = demo_vs" by (simp add: orphan_world_def)
  have paged: "paged demo_ext ''ferrex_default'' (demo_pts (vs_q (w_vs orphan_world))) (vs_q (w_vs orphan_world))"
    using demo_paged pts vs by simp
  have fuel: "(0 :: nat) < 1" "length (demo_pts (vs_q (w_vs orphan_world))) \<le> 1 * SCROLL_PAGE_SIZE"
    by (simp_all add: pts SCROLL_PAGE_SIZE_def)
  have uuid: "\<forall>s\<in>uuid_points (demo_pts (vs_q (w_vs orphan_world))). x_parse_uuid demo_ext s = Some s"
    by (simp add: demo_ext_def)
  have diff: "{''a'', ''b''} - {''a''} = {''b''}" "{''a'', ''b''} \<inter> {''a''} = {''a''}" by auto
  show ?thesis
    using audit_reconciles [OF name paged demo_removes fuel uuid refl refl r] r
    unfolding before rows diff by auto
qed

section \<open>Backfill\<close>

definition needs_backfill :: "('q, 'e, 'r) ext \<Rightarrow> service \<Rightarrow> memory \<Rightarrow> bool" where
  "needs_backfill x svc m \<longleftrightarrow> (\<exists>p. mem_predicate m = Some p
     \<and> normalize_predicate (x_jaro_winkler x) (normalizer_for svc (mem_namespace m)) p \<noteq> p)"

abbreviation missing :: "string option \<Rightarrow> ('q, 'e, 'r) world \<Rightarrow> memory list" where
  "missing ns w \<equiv> semantic_rows_missing_normalized_predicate ns (w_db w)"

lemma backfill_skip: "\<not> needs_backfill x svc m \<Longrightarrow> backfill_one x svc dry rep m w = (Inr rep, w)"
  by (auto simp: backfill_one_def needs_backfill_def Let_def split: option.splits)

lemma backfill_dry:
  "needs_backfill x svc m \<Longrightarrow> backfill_one x svc True rep m w = (Inr (rep\<lparr>bf_updated := bf_updated rep + 1\<rparr>), w)"
  by (auto simp: backfill_one_def needs_backfill_def Let_def)

lemma missing_after:
  "semantic_rows_missing_normalized_predicate ns (snd (set_normalized_predicate i n now d)) =
     filter (\<lambda>m. mem_id m \<noteq> i) (semantic_rows_missing_normalized_predicate ns d)"
proof -
  have "map (\<lambda>r. row_to_memory r []) (filter (\<lambda>r. r_memory_type r = ''semantic'' \<and> r_normalized_predicate r = None \<and> P r)
      (rows_upd (\<lambda>r. r_id r = i) (\<lambda>r. r\<lparr>r_normalized_predicate := Some n, r_updated_at := now\<rparr>) rows)) =
      filter (\<lambda>m. mem_id m \<noteq> i) (map (\<lambda>r. row_to_memory r [])
        (filter (\<lambda>r. r_memory_type r = ''semantic'' \<and> r_normalized_predicate r = None \<and> P r) rows))" for rows P
    by (induction rows) (auto simp: rows_upd_def)
  then show ?thesis
    by (simp add: semantic_rows_missing_normalized_predicate_def set_normalized_predicate_def)
qed

lemma backfill_real:
  assumes "needs_backfill x svc m"
  shows "\<exists>w'. backfill_one x svc False rep m w = (Inr (rep\<lparr>bf_updated := bf_updated rep + 1\<rparr>), w')
    \<and> missing ns w' = filter (\<lambda>k. mem_id k \<noteq> mem_id m) (missing ns w)"
proof -
  from assms obtain p where p: "mem_predicate m = Some p"
    "normalize_predicate (x_jaro_winkler x) (normalizer_for svc (mem_namespace m)) p \<noteq> p"
    by (auto simp: needs_backfill_def)
  have ok: "fst (set_normalized_predicate i n now d) = Inr ()" for i n now d
    by (simp add: set_normalized_predicate_def)
  show ?thesis
    using p by (auto simp: backfill_one_def Let_def m_bind_def m_then_def on_db_run ok missing_after)
qed

lemma backfill_dry_all:
  "m_fold (backfill_one x svc True) rep ms w =
     (Inr (rep\<lparr>bf_updated := bf_updated rep + length (filter (needs_backfill x svc) ms)\<rparr>), w)"
proof (induction ms arbitrary: rep)
  case Nil
  then show ?case by simp
next
  case (Cons m ms)
  then show ?case
    by (cases "needs_backfill x svc m") (simp_all add: m_bind_def backfill_dry backfill_skip)
qed

lemma backfill_real_all:
  "\<exists>w'. m_fold (backfill_one x svc False) rep ms w =
     (Inr (rep\<lparr>bf_updated := bf_updated rep + length (filter (needs_backfill x svc) ms)\<rparr>), w')
   \<and> missing ns w' = filter (\<lambda>k. mem_id k \<notin> mem_id ` set (filter (needs_backfill x svc) ms)) (missing ns w)"
proof (induction ms arbitrary: rep w)
  case Nil
  then show ?case by simp
next
  case (Cons m ms)
  show ?case
  proof (cases "needs_backfill x svc m")
    case True
    obtain w1 where w1: "backfill_one x svc False rep m w = (Inr (rep\<lparr>bf_updated := bf_updated rep + 1\<rparr>), w1)"
      "missing ns w1 = filter (\<lambda>k. mem_id k \<noteq> mem_id m) (missing ns w)"
      using backfill_real [OF True] by blast
    with Cons.IH [of "rep\<lparr>bf_updated := bf_updated rep + 1\<rparr>" w1] True show ?thesis
      by (auto simp: m_bind_def conj_commute)
  next
    case False
    with Cons.IH [of rep w] show ?thesis by (simp add: m_bind_def backfill_skip)
  qed
qed

text \<open>
  C39. A dry backfill is a preview of the real one: it changes nothing and gives the report the
  real run then gives; and the real run leaves nothing to do, since of the facts without a
  normalised predicate exactly those remain whose predicate normalises to itself or is absent.
\<close>

theorem backfill_as_previewed:
  assumes "db_ok (w_db w)"
  shows "\<exists>rep w'. backfill_normalized_predicates x svc ns True w = (Inr rep, w)
    \<and> backfill_normalized_predicates x svc ns False w = (Inr rep, w')
    \<and> bf_scanned rep = length (missing ns w)
    \<and> bf_updated rep = length (filter (needs_backfill x svc) (missing ns w))
    \<and> missing ns w' = filter (\<lambda>m. \<not> needs_backfill x svc m) (missing ns w)
    \<and> bf_updated (projr (fst (backfill_normalized_predicates x svc ns True w'))) = 0"
proof -
  let ?ms = "missing ns w" and ?rep = "\<lparr> bf_scanned = length (missing ns w), bf_updated = 0 \<rparr>"
  obtain w' where w': "m_fold (backfill_one x svc False) ?rep ?ms w =
      (Inr (?rep\<lparr>bf_updated := length (filter (needs_backfill x svc) ?ms)\<rparr>), w')"
    "missing ns w' = filter (\<lambda>k. mem_id k \<notin> mem_id ` set (filter (needs_backfill x svc) ?ms)) ?ms"
    using backfill_real_all [of x svc ?rep ?ms w ns] by auto
  have "distinct (map mem_id ?ms)"
    using assms by (simp add: semantic_rows_missing_normalized_predicate_def comp_def db_ok_def distinct_map_filter)
  then have "mem_id k \<in> mem_id ` set (filter (needs_backfill x svc) ?ms) \<longleftrightarrow> needs_backfill x svc k" if "k \<in> set ?ms" for k
    using that by (auto simp: distinct_map inj_on_def)
  then have left: "missing ns w' = filter (\<lambda>m. \<not> needs_backfill x svc m) ?ms"
    unfolding w'(2) by (intro filter_cong) auto
  have none: "filter (needs_backfill x svc) (filter (\<lambda>m. \<not> needs_backfill x svc m) ms) = []" for ms
    by (simp add: filter_empty_conv)
  show ?thesis
    by (simp add: backfill_normalized_predicates_def m_bind_def backfill_dry_all w'(1) left none)
qed

definition unnormalized_db :: db where
  "unnormalized_db = empty_db\<lparr>memories := [memory_row (sample_memory\<lparr>mem_type := Semantic, mem_predicate := Some ''Works At''\<rparr>)]\<rparr>"

theorem backfill_as_previewed_witness:
  "\<exists>rep. backfill_normalized_predicates demo_ext demo_service None True (demo_world unnormalized_db)
     = (Inr rep, demo_world unnormalized_db) \<and> bf_scanned rep = 1"
proof -
  have "db_ok (w_db (demo_world unnormalized_db))"
    by (simp add: unnormalized_db_def db_ok_def empty_db_def)
  from backfill_as_previewed [OF this, of demo_ext demo_service None] obtain rep where
    "backfill_normalized_predicates demo_ext demo_service None True (demo_world unnormalized_db)
       = (Inr rep, demo_world unnormalized_db)"
    "bf_scanned rep = length (missing None (demo_world unnormalized_db))" by blast
  then show ?thesis
    by (simp add: semantic_rows_missing_normalized_predicate_def unnormalized_db_def memory_row_def sample_memory_def)
qed

section \<open>Taxonomy\<close>

definition types_canonical :: "db \<Rightarrow> bool" where
  "types_canonical d \<longleftrightarrow> (\<forall>r\<in>set (memories d). \<exists>t. r_memory_type r = mt_as_str t)"

lemma count_fold:
  assumes "\<forall>raw\<in>set raws. \<exists>t. raw = mt_as_str t"
  shows "fold (\<lambda>raw m. case mt_from_str raw of Inr t \<Rightarrow> m(t \<mapsto> cnt raw) | Inl _ \<Rightarrow> m) raws m t =
    (if mt_as_str t \<in> set raws then Some (cnt (mt_as_str t)) else m t)"
  using assms by (induction raws arbitrary: m) (fastforce simp: mt_round_trip)+

lemma count_by_type:
  assumes "types_canonical d"
  shows "count_of (memory_count_by_type ns d) t =
    length (filter (\<lambda>r. r_memory_type r = mt_as_str t) (filter (\<lambda>r. r_namespace r = ns \<and> r_t_invalid r = None) (memories d)))"
proof -
  let ?live = "filter (\<lambda>r. r_namespace r = ns \<and> r_t_invalid r = None) (memories d)"
  have c: "\<forall>raw\<in>set (remdups (map r_memory_type ?live)). \<exists>t. raw = mt_as_str t"
    using assms by (auto simp: types_canonical_def)
  have "mt_as_str t \<notin> r_memory_type ` set ?live \<Longrightarrow> filter (\<lambda>r. r_memory_type r = mt_as_str t) ?live = []"
    unfolding filter_empty_conv by (metis image_eqI)
  then show ?thesis
    unfolding memory_count_by_type_def Let_def count_of_def count_fold [OF c] by auto
qed

lemma length_by_type:
  "\<forall>r\<in>set rs. \<exists>t. r_memory_type r = mt_as_str t \<Longrightarrow>
     (\<Sum>t\<leftarrow>[Episodic, Semantic, Procedural]. length (filter (\<lambda>r. r_memory_type r = mt_as_str t) rs)) = length rs"
proof (induction rs)
  case Nil
  then show ?case by simp
next
  case (Cons r rs)
  then obtain t where "r_memory_type r = mt_as_str t" by auto
  with Cons show ?case by (cases t) auto
qed

text \<open>
  The taxonomy of a namespace adds up: its total is the number of live rows of the namespace,
  the lists of entities and predicates hold at most the requested number (never more than 100)
  of entries, most frequent first, and the list of all namespaces comes with it exactly when no
  namespace was asked for.
\<close>

theorem taxonomy_adds_up:
  assumes "types_canonical (w_db w)"
  shows "\<exists>resp. taxonomy svc req w = (Inr resp, w)
    \<and> txr_total_memories resp = length (filter (\<lambda>r. r_namespace r = txr_namespace resp \<and> r_t_invalid r = None) (memories (w_db w)))
    \<and> length (txr_top_entities resp) \<le> taxonomy_limit (tx_limit req)
    \<and> length (txr_top_predicates resp) \<le> taxonomy_limit (tx_limit req)
    \<and> taxonomy_limit (tx_limit req) \<le> MAX_TAXONOMY_LIMIT
    \<and> sorted_wrt (\<lambda>a b. snd b \<le> snd a) (txr_top_entities resp) \<and> sorted_wrt (\<lambda>a b. snd b \<le> snd a) (txr_top_predicates resp)
    \<and> (txr_all_namespaces resp = None \<longleftrightarrow> tx_namespace req \<noteq> None)"
proof -
  let ?d = "w_db w" and ?l = "taxonomy_limit (tx_limit req)"
  define ns where "ns = (case tx_namespace req of Some n \<Rightarrow> n
     | None \<Rightarrow> (case tx_default_namespace req of Some n \<Rightarrow> n | None \<Rightarrow> cfg_namespace (svc_config svc)))"
  have total: "(\<Sum>t\<leftarrow>[Episodic, Semantic, Procedural]. count_of (memory_count_by_type ns ?d) t) =
      length (filter (\<lambda>r. r_namespace r = ns \<and> r_t_invalid r = None) (memories ?d))"
    unfolding count_by_type [OF assms] using assms by (intro length_by_type) (auto simp: types_canonical_def)
  have sorted: "sorted_wrt (\<lambda>a b. snd b \<le> snd a) (take n (sort_desc (\<lambda>(p :: string, c). int c) xs))" for n xs
    using sorted_wrt_take [OF sort_desc_sorted [of "\<lambda>(p, c). int c" xs], of n] by (simp add: case_prod_beta)
  let ?a = "if tx_namespace req \<noteq> None then None else Some (list_namespaces ?d)"
  have run: "taxonomy svc req w = (Inr \<lparr> txr_namespace = ns,
      txr_total_memories = sum_list (map (count_of (memory_count_by_type ns ?d)) [Episodic, Semantic, Procedural]),
      txr_by_type = memory_count_by_type ns ?d, txr_top_entities = top_entities ns ?l ?d,
      txr_top_predicates = top_predicates ns ?l ?d, txr_all_namespaces = ?a \<rparr>, w)"
    unfolding taxonomy_def Let_def ns_def [symmetric] by (cases "tx_namespace req") (simp_all add: m_bind_def)
  have "?l \<le> MAX_TAXONOMY_LIMIT" by (simp add: taxonomy_limit_def)
  moreover have "length (top_entities ns ?l ?d) \<le> ?l" "length (top_predicates ns ?l ?d) \<le> ?l"
    "sorted_wrt (\<lambda>a b. snd b \<le> snd a) (top_entities ns ?l ?d)"
    "sorted_wrt (\<lambda>a b. snd b \<le> snd a) (top_predicates ns ?l ?d)"
    using sorted by (simp_all add: top_entities_def top_predicates_def Let_def)
  ultimately show ?thesis using run total by simp
qed

theorem taxonomy_adds_up_witness:
  "\<exists>resp. taxonomy demo_service \<lparr> tx_namespace = None, tx_limit = Some 1, tx_default_namespace = None \<rparr> orphan_world
     = (Inr resp, orphan_world) \<and> txr_all_namespaces resp \<noteq> None"
proof -
  have "types_canonical (w_db orphan_world)"
    by (auto simp: types_canonical_def orphan_world_def demo_world_def memory_row_def empty_db_def)
  from taxonomy_adds_up [OF this, of demo_service "\<lparr> tx_namespace = None, tx_limit = Some 1, tx_default_namespace = None \<rparr>"]
  show ?thesis by auto
qed

section \<open>Statistics\<close>

abbreviation scored_stale :: "memory \<times> real \<times> real \<Rightarrow> bool" where
  "scored_stale p \<equiv> label_of_score (fst (snd p)) (snd (snd p)) = Stale"

abbreviation of_type :: "memory_type \<Rightarrow> (memory \<times> real \<times> real) list \<Rightarrow> (memory \<times> real \<times> real) list" where
  "of_type t ps \<equiv> filter (\<lambda>p. mem_type (fst p) = t) ps"

definition acc_ok :: "(memory \<times> real \<times> real) list \<Rightarrow> type_acc \<Rightarrow> bool" where
  "acc_ok ps a \<longleftrightarrow> ps \<noteq> [] \<and> ta_count a = length ps \<and> ta_stale_count a = length (filter scored_stale ps)
     \<and> 0 \<le> ta_sum_staleness a \<and> ta_sum_staleness a \<le> real (length ps)
     \<and> (\<exists>lo hi. ta_oldest a = Some lo \<and> ta_newest a = Some hi
          \<and> (\<forall>p\<in>set ps. lo \<le> mem_created_at (fst p) \<and> mem_created_at (fst p) \<le> hi))"

definition accs_ok :: "(memory \<times> real \<times> real) list \<Rightarrow> (string \<rightharpoonup> type_acc) \<Rightarrow> bool" where
  "accs_ok ps accs \<longleftrightarrow> (\<forall>t. case accs (mt_as_str t) of None \<Rightarrow> of_type t ps = [] | Some a \<Rightarrow> acc_ok (of_type t ps) a)"

definition tally_ok :: "(memory \<times> real \<times> real) list \<Rightarrow> staleness_distribution \<Rightarrow> bool" where
  "tally_ok ps sd \<longleftrightarrow> sd_fresh sd + sd_aging sd + sd_stale sd = length ps \<and> sd_stale sd = length (filter scored_stale ps)"

lemma acc_first: "0 \<le> s \<Longrightarrow> s \<le> 1 \<Longrightarrow> acc_ok [(m, s, t)] (add_to_acc m s (label_of_score s t) None)"
  by (simp add: acc_ok_def add_to_acc_def Let_def)

lemma acc_next:
  "acc_ok ps a \<Longrightarrow> 0 \<le> s \<Longrightarrow> s \<le> 1 \<Longrightarrow> acc_ok (ps @ [(m, s, t)]) (add_to_acc m s (label_of_score s t) (Some a))"
  by (auto simp: acc_ok_def add_to_acc_def Let_def min_def max_def)

lemma accs_step:
  assumes "accs_ok ps accs" and "0 \<le> s" and "s \<le> 1"
  shows "accs_ok (ps @ [(m, s, t)])
    (accs(mt_as_str (mem_type m) \<mapsto> add_to_acc m s (label_of_score s t) (accs (mt_as_str (mem_type m)))))"
  unfolding accs_ok_def
proof
  fix k
  have k: "case accs (mt_as_str k) of None \<Rightarrow> of_type k ps = [] | Some a \<Rightarrow> acc_ok (of_type k ps) a"
    using assms(1) by (auto simp: accs_ok_def)
  show "case (accs(mt_as_str (mem_type m) \<mapsto> add_to_acc m s (label_of_score s t) (accs (mt_as_str (mem_type m)))))
      (mt_as_str k) of None \<Rightarrow> of_type k (ps @ [(m, s, t)]) = [] | Some a \<Rightarrow> acc_ok (of_type k (ps @ [(m, s, t)])) a"
  proof (cases "k = mem_type m")
    case True
    with k assms(2,3) show ?thesis
      by (cases "accs (mt_as_str k)") (simp_all add: acc_first acc_next)
  next
    case False
    with k show ?thesis by (auto split: option.splits)
  qed
qed

lemma tally_all:
  assumes "tally_ok ps sd" and "accs_ok ps accs" and "\<forall>(m, s, t)\<in>set rest. 0 \<le> s \<and> s \<le> 1"
    and "tally rest sd accs = (sd', accs')"
  shows "tally_ok (ps @ rest) sd' \<and> accs_ok (ps @ rest) accs'"
  using assms
proof (induction rest arbitrary: ps sd accs)
  case Nil
  then show ?case by simp
next
  case (Cons p rest)
  obtain m s t where p: "p = (m, s, t)" by (cases p)
  let ?sd = "case label_of_score s t of Fresh \<Rightarrow> sd\<lparr>sd_fresh := sd_fresh sd + 1\<rparr>
     | Aging \<Rightarrow> sd\<lparr>sd_aging := sd_aging sd + 1\<rparr> | Stale \<Rightarrow> sd\<lparr>sd_stale := sd_stale sd + 1\<rparr>"
  have "tally_ok (ps @ [(m, s, t)]) ?sd"
    using Cons.prems(1) by (auto simp: tally_ok_def split: freshness_label.splits)
  moreover have "accs_ok (ps @ [(m, s, t)])
      (accs(mt_as_str (mem_type m) \<mapsto> add_to_acc m s (label_of_score s t) (accs (mt_as_str (mem_type m)))))"
    using accs_step [OF Cons.prems(2)] Cons.prems(3) p by auto
  ultimately show ?case
    using Cons.IH [of "ps @ [(m, s, t)]"] Cons.prems(3,4) p by (simp add: Let_def)
qed

definition average_ok :: "nat \<Rightarrow> real \<Rightarrow> bool" where
  "average_ok n a \<longleftrightarrow> 0 \<le> a \<and> a \<le> 1 \<and> 0 < n"

lemma stats_of_acc:
  assumes "acc_ok ps a"
  shows "ts_count (type_stats_of a) = length ps \<and> ts_stale_count (type_stats_of a) = length (filter scored_stale ps)
    \<and> average_ok (length ps) (ts_avg_staleness (type_stats_of a))
    \<and> (\<exists>lo hi. ts_oldest (type_stats_of a) = Some lo \<and> ts_newest (type_stats_of a) = Some hi
         \<and> (\<forall>p\<in>set ps. lo \<le> mem_created_at (fst p) \<and> mem_created_at (fst p) \<le> hi))"
  using assms by (auto simp: acc_ok_def type_stats_of_def average_ok_def divide_le_eq)

lemma length_of_types:
  "length (of_type Episodic ps) + length (of_type Semantic ps) + length (of_type Procedural ps) = length ps"
proof (induction ps)
  case Nil
  then show ?case by simp
next
  case (Cons p ps)
  then show ?case by (cases "mem_type (fst p)") auto
qed

lemma score_all_scores:
  "score_all cfg now ms = Inr scored \<Longrightarrow> map fst scored = ms \<and> (\<forall>(m, s, t)\<in>set scored. 0 \<le> s \<and> s \<le> 1)"
  by (induction ms arbitrary: scored) (fastforce split: option.splits sum.splits dest: staleness_bounds)+

definition stats_count :: "(string \<rightharpoonup> type_stats) \<Rightarrow> memory_type \<Rightarrow> nat" where
  "stats_count by_type t = (case by_type (mt_as_str t) of None \<Rightarrow> 0 | Some s \<Rightarrow> ts_count s)"

text \<open>
  The detailed statistics add up: fresh, aging and stale memories together are the live
  memories read, and so are the counts of the three types; each type that is listed has at
  least one memory, an average staleness between 0 and 1, and an oldest and a newest date
  between which all its memories were created. Reading them changes nothing.
\<close>

theorem stats_details_add_up:
  assumes "build_stats_details x ns ids cfg now w = (Inr det, w')"
    and "live = filter (\<lambda>m. mem_t_invalid m = None) (get_memories_by_ids ids (w_db w))"
  shows "w' = w
    \<and> sd_fresh (sdt_distribution det) + sd_aging (sdt_distribution det) + sd_stale (sdt_distribution det) = length live
    \<and> stats_count (sdt_by_type det) Episodic + stats_count (sdt_by_type det) Semantic
        + stats_count (sdt_by_type det) Procedural = length live
    \<and> (case sdt_by_type det (mt_as_str t) of None \<Rightarrow> filter (\<lambda>m. mem_type m = t) live = []
       | Some s \<Rightarrow> ts_count s = length (filter (\<lambda>m. mem_type m = t) live)
           \<and> average_ok (ts_count s) (ts_avg_staleness s)
           \<and> (\<exists>lo hi. ts_oldest s = Some lo \<and> ts_newest s = Some hi
                \<and> (\<forall>m\<in>set live. mem_type m = t \<longrightarrow> lo \<le> mem_created_at m \<and> mem_created_at m \<le> hi)))"
proof -
  let ?z = "\<lparr> sd_fresh = 0, sd_aging = 0, sd_stale = 0 \<rparr>"
  from assms obtain scored where
    sc: "score_all cfg now live = Inr scored" and w: "w' = w"
    and fields: "sdt_by_type det = (\<lambda>k. map_option type_stats_of (snd (tally scored ?z Map.empty) k))"
      "sdt_distribution det = fst (tally scored ?z Map.empty)"
    by (auto simp: build_stats_details_def m_bind_ok_iff case_prod_beta simp del: tally.simps)
  obtain sd accs where tl: "tally scored ?z Map.empty = (sd, accs)" by fastforce
  with fields have det: "sdt_by_type det = (\<lambda>k. map_option type_stats_of (accs k))" "sdt_distribution det = sd" by simp_all
  note scores = score_all_scores [OF sc]
  have zero: "tally_ok [] ?z" "accs_ok [] Map.empty" by (simp_all add: tally_ok_def accs_ok_def)
  have ok: "tally_ok scored sd" "accs_ok scored accs"
    using tally_all [OF zero _ tl] scores by auto
  have len: "length scored = length live" using scores by (metis length_map)
  have live: "live = map fst scored" using scores by simp
  have stats: "case sdt_by_type det (mt_as_str k) of None \<Rightarrow> of_type k scored = []
      | Some s \<Rightarrow> ts_count s = length (of_type k scored) \<and> average_ok (ts_count s) (ts_avg_staleness s)
          \<and> (\<exists>lo hi. ts_oldest s = Some lo \<and> ts_newest s = Some hi
               \<and> (\<forall>p\<in>set (of_type k scored). lo \<le> mem_created_at (fst p) \<and> mem_created_at (fst p) \<le> hi))" for k
  proof (cases "accs (mt_as_str k)")
    case None
    with ok(2) [unfolded accs_ok_def, rule_format, of k] show ?thesis by (simp add: det(1))
  next
    case (Some a)
    with ok(2) [unfolded accs_ok_def, rule_format, of k] have "acc_ok (of_type k scored) a" by simp
    from stats_of_acc [OF this] show ?thesis using Some by (simp add: det(1))
  qed
  have count: "stats_count (sdt_by_type det) k = length (of_type k scored)" for k
    using stats [of k] by (auto simp: stats_count_def split: option.splits)
  have types: "filter (\<lambda>m. mem_type m = t) live = map fst (of_type t scored)"
    unfolding live by (simp add: filter_map comp_def)
  then have nil: "filter (\<lambda>m. mem_type m = t) live = [] \<longleftrightarrow> of_type t scored = []"
    and num: "length (filter (\<lambda>m. mem_type m = t) live) = length (of_type t scored)" by (simp_all only: length_map map_is_Nil_conv)
  have dates: "(\<forall>m\<in>set live. mem_type m = t \<longrightarrow> lo \<le> mem_created_at m \<and> mem_created_at m \<le> hi) \<longleftrightarrow>
      (\<forall>p\<in>set (of_type t scored). lo \<le> mem_created_at (fst p) \<and> mem_created_at (fst p) \<le> hi)" for lo hi
    unfolding live set_map set_filter by blast
  have "case sdt_by_type det (mt_as_str t) of None \<Rightarrow> filter (\<lambda>m. mem_type m = t) live = []
       | Some s \<Rightarrow> ts_count s = length (filter (\<lambda>m. mem_type m = t) live)
           \<and> average_ok (ts_count s) (ts_avg_staleness s)
           \<and> (\<exists>lo hi. ts_oldest s = Some lo \<and> ts_newest s = Some hi
                \<and> (\<forall>m\<in>set live. mem_type m = t \<longrightarrow> lo \<le> mem_created_at m \<and> mem_created_at m \<le> hi))"
    unfolding nil num dates by (rule stats)
  with ok(1) len w count length_of_types [of scored] det(2) show ?thesis
    by (simp add: tally_ok_def)
qed

theorem stats_details_add_up_witness:
  "\<exists>det. build_stats_details demo_ext ''default'' [''a''] default_staleness_config 0 orphan_world = (Inr det, orphan_world)
     \<and> sd_fresh (sdt_distribution det) + sd_aging (sdt_distribution det) + sd_stale (sdt_distribution det) = 1"
proof -
  let ?m = "sample_memory\<lparr>mem_id := ''a''\<rparr>"
  have mt: "mt_from_str ''episodic'' = Inr Episodic" using mt_round_trip [of Episodic] by simp
  have mems: "get_memories_by_ids [''a''] (w_db orphan_world) = [?m]"
    using mt by (simp add: get_memories_by_ids_def IN_CLAUSE_BATCH_SIZE_def chunks_short orphan_world_def demo_world_def
        row_with_entities_def linked_names_def group_concat_def split_names_def empty_db_def
        sample_memory_def row_to_memory_def memory_row_def)
  obtain s where "staleness_score ?m 0 default_staleness_config = Some s"
    using staleness_score_eq [of default_staleness_config ?m _ 0] by (auto simp: sample_memory_def)
  then have sc: "score_all default_staleness_config 0 [?m] = Inr [(?m, s, 0.70)]"
    by (simp add: threshold_for_type_def sample_memory_def)
  have live: "filter (\<lambda>m. mem_t_invalid m = None) [?m] = [?m]" by (simp add: sample_memory_def)
  obtain det w' where r: "build_stats_details demo_ext ''default'' [''a''] default_staleness_config 0 orphan_world = (Inr det, w')"
    by (simp add: build_stats_details_def m_bind_def mems live sc case_prod_beta del: score_all.simps filter.simps tally.simps)
  from stats_details_add_up [OF r refl] r show ?thesis unfolding mems live by auto
qed

text \<open>
  Statistics fail for half-lives that the configuration loader accepts: when half the
  smallest half-life is more days than can be subtracted from a date, every statistics request
  panics, although any positive finite half-life passes validation.
\<close>

theorem stats_panics_on_long_half_life:
  assumes "min_half_life_days (cfg_staleness (svc_config svc)) = Some h"
    and "\<And>now. x_days_before x (as_i64 (Some (h / 2))) now = None"
  shows "\<exists>msg. fst (stats x svc req w) = Inl (Panicked msg)"
  using assms by (simp add: stats_def Let_def m_bind_def stale_cutoff_def)

definition slow_staleness :: staleness_config where
  "slow_staleness = default_staleness_config\<lparr>sc_type_config :=
     (\<lambda>_. Some \<lparr> half_life_days = 1000000000000, stale_threshold = 1 / 2 \<rparr>)\<rparr>"

theorem stats_panics_on_long_half_life_witness:
  "\<exists>cfg msg. validate_config cfg = Inr () \<and> lc_staleness cfg = slow_staleness
   \<and> fst (stats demo_ext (demo_service\<lparr>svc_config := demo_config\<lparr>cfg_staleness := lc_staleness cfg\<rparr>\<rparr>)
        \<lparr> st_namespace = ''default'', st_detailed = None, st_diagnostics = None \<rparr> (demo_world empty_db)) = Inl (Panicked msg)"
proof -
  obtain f where f: "resolve empty_file_config = Some f" using resolve_total by blast
  let ?c = "f\<lparr>lc_staleness := slow_staleness, lc_cache := default_cache_config\<rparr>"
  let ?svc = "demo_service\<lparr>svc_config := demo_config\<lparr>cfg_staleness := slow_staleness\<rparr>\<rparr>"
  let ?req = "\<lparr> st_namespace = ''default'', st_detailed = None, st_diagnostics = None \<rparr>"
  have "validate_config ?c = Inr ()"
    by (simp add: validate_config_ok slow_staleness_def default_cache_config_def)
  moreover have "min_half_life_days (cfg_staleness (svc_config ?svc)) = Some 1000000000000"
    by (simp add: min_half_life_days_def slow_staleness_def)
  then have "\<exists>msg. fst (stats demo_ext ?svc ?req (demo_world empty_db)) = Inl (Panicked msg)"
    by (rule stats_panics_on_long_half_life) (simp add: demo_ext_def as_i64_def)
  ultimately show ?thesis by (intro exI [of _ ?c]) simp
qed

end
