(* ===== verification/ReflectOp.thy ===== *)
theory ReflectOp
  imports AdminOps
begin

text \<open>
  Reflecting on a namespace: finding contradictions between semantic memories
  (\<open>crates/core/src/reflect.rs\<close>) and ranking stale memories for eviction
  (\<open>service/reflect_op.rs\<close>). The code groups memories in hash maps; the order in which a map
  yields its groups is an argument, so what is proved holds for every order.
\<close>

definition REFLECT_FUZZY_PREDICATE_THRESHOLD :: real where "REFLECT_FUZZY_PREDICATE_THRESHOLD = 0.75"
definition DEFAULT_REFLECT_LIMIT :: nat where "DEFAULT_REFLECT_LIMIT = 20"

section \<open>Contradictions\<close>

definition effective_predicate :: "memory \<Rightarrow> string" where
  "effective_predicate m =
     (case mem_normalized_predicate m of Some p \<Rightarrow> p
      | None \<Rightarrow> (case mem_predicate m of Some p \<Rightarrow> p | None \<Rightarrow> []))"

definition effective_object :: "memory \<Rightarrow> string" where
  "effective_object m = (case mem_object m of Some ob \<Rightarrow> ob | None \<Rightarrow> [])"

definition subject_key :: "memory \<Rightarrow> string option" where
  "subject_key m = map_option to_lowercase (mem_subject m)"

definition group_key :: "memory \<Rightarrow> (string \<times> string) option" where
  "group_key m =
     (case mem_subject m of None \<Rightarrow> None
      | Some s \<Rightarrow> (case mem_normalized_predicate m of
          Some p \<Rightarrow> Some (to_lowercase s, p)
        | None \<Rightarrow> (case mem_predicate m of Some p \<Rightarrow> Some (to_lowercase s, to_lowercase p) | None \<Rightarrow> None)))"

text \<open>The keys of a map of groups (each once), and the group of a key, in the order of the list.\<close>

definition group_keys :: "('a \<Rightarrow> 'k option) \<Rightarrow> 'a list \<Rightarrow> 'k list" where
  "group_keys key xs = remdups (List.map_filter key xs)"

definition group_at :: "('a \<Rightarrow> 'k option) \<Rightarrow> 'a list \<Rightarrow> 'k \<Rightarrow> 'a list" where
  "group_at key xs k = filter (\<lambda>m. key m = Some k) xs"

fun pairs_of :: "'a list \<Rightarrow> ('a \<times> 'a) list" where
  "pairs_of [] = []"
| "pairs_of (a # rest) = map (Pair a) rest @ pairs_of rest"

type_synonym found_pairs = "contradiction_pair list \<times> string set"

definition pair_step ::
    "(memory \<Rightarrow> memory \<Rightarrow> (match_type \<times> real) option) \<Rightarrow> memory \<times> memory \<Rightarrow> found_pairs \<Rightarrow> found_pairs" where
  "pair_step judge p acc =
     (let (a, b) = p; (found, matched) = acc in
      if mem_id a \<in> matched \<and> mem_id b \<in> matched then acc
      else if effective_object a = effective_object b then acc
      else case judge a b of
        None \<Rightarrow> acc
      | Some (match_type, similarity) \<Rightarrow>
          (found @ [\<lparr> cp_a = a, cp_b = b, cp_match_type = match_type, cp_similarity = similarity \<rparr>],
           insert (mem_id b) (insert (mem_id a) matched)))"

definition find_pairs_with_different_objects ::
    "(memory \<Rightarrow> memory \<Rightarrow> (match_type \<times> real) option) \<Rightarrow> memory list \<Rightarrow> found_pairs \<Rightarrow> found_pairs" where
  "find_pairs_with_different_objects judge mems acc =
     (if length mems < 2 then acc else fold (pair_step judge) (pairs_of mems) acc)"

definition exact_match :: "memory \<Rightarrow> memory \<Rightarrow> (match_type \<times> real) option" where
  "exact_match a b = Some (ExactPredicate, 1)"

definition fuzzy_match :: "(string \<Rightarrow> string \<Rightarrow> real) \<Rightarrow> memory \<Rightarrow> memory \<Rightarrow> (match_type \<times> real) option" where
  "fuzzy_match jw a b =
     (let pred_a = effective_predicate a; pred_b = effective_predicate b in
      if pred_a = pred_b then None
      else if REFLECT_FUZZY_PREDICATE_THRESHOLD < jw pred_a pred_b
        then Some (FuzzyPredicate, jw pred_a pred_b) else None)"

definition alias_pairs_of :: "string set \<Rightarrow> memory list \<Rightarrow> memory \<Rightarrow> contradiction_pair list" where
  "alias_pairs_of matched alias_mems m =
     (if mem_id m \<in> matched then []
      else map (\<lambda>other. \<lparr> cp_a = m, cp_b = other, cp_match_type = SimilarSubject, cp_similarity = 1 \<rparr>)
        (filter (\<lambda>other. \<not> (mem_id other = mem_id m \<or> mem_id other \<in> matched)
             \<and> effective_predicate m = effective_predicate other
             \<and> effective_object m \<noteq> effective_object other) alias_mems))"

definition find_alias_contradictions ::
    "string list \<Rightarrow> (string \<Rightarrow> memory list) \<Rightarrow> (string \<rightharpoonup> string list) \<Rightarrow> string set \<Rightarrow> contradiction_pair list" where
  "find_alias_contradictions subjects by_subject alias_map matched =
     concat (map (\<lambda>subj. case alias_map subj of
         None \<Rightarrow> []
       | Some aliases \<Rightarrow>
           let alias_mems = concat (map (\<lambda>a. by_subject (to_lowercase a))
                 (filter (\<lambda>a. to_lowercase a \<noteq> subj) aliases))
           in concat (map (alias_pairs_of matched alias_mems) (by_subject subj))) subjects)"

definition detect_contradictions ::
    "('q, 'e, 'r) ext \<Rightarrow> memory list \<Rightarrow> (string \<rightharpoonup> string list) \<Rightarrow> contradiction_pair list" where
  "detect_contradictions x sems alias_map =
     (let acc1 = fold (\<lambda>k. find_pairs_with_different_objects exact_match (group_at group_key sems k))
            (x_group_order x (group_keys group_key sems)) ([], {});
          subjects = x_subject_order x (group_keys subject_key sems);
          acc2 = fold (\<lambda>k. find_pairs_with_different_objects (fuzzy_match (x_jaro_winkler x)) (group_at subject_key sems k))
            subjects acc1
      in fst acc2 @ find_alias_contradictions subjects (group_at subject_key sems) alias_map (snd acc2))"

section \<open>The alias map\<close>

definition add_names :: "string list \<Rightarrow> string \<Rightarrow> (string \<rightharpoonup> string list) \<Rightarrow> (string \<rightharpoonup> string list)" where
  "add_names all_names name m = m(name \<mapsto> (case m name of None \<Rightarrow> [] | Some l \<Rightarrow> l) @ all_names)"

definition add_entity_names :: "entity \<Rightarrow> (string \<rightharpoonup> string list) \<Rightarrow> (string \<rightharpoonup> string list)" where
  "add_entity_names e m =
     (let all_names = map to_lowercase (ent_aliases e) @ [to_lowercase (ent_name e)]
      in fold (add_names all_names) all_names m)"

definition build_entity_alias_map :: "entity list \<Rightarrow> (string \<rightharpoonup> string list)" where
  "build_entity_alias_map ents =
     (let m = fold add_entity_names ents Map.empty
      in (\<lambda>key. map_option (\<lambda>as. filter (\<lambda>a. a \<noteq> key) (remdups_adj (sort as))) (m key)))"

section \<open>Stale memories\<close>

definition eviction_priority :: "memory \<Rightarrow> nat" where
  "eviction_priority m =
     (case mem_type m of Episodic \<Rightarrow> if mem_access_count m = 0 then 0 else 1 | _ \<Rightarrow> 2)"

definition build_stale_reason :: "memory \<Rightarrow> time \<Rightarrow> string" where
  "build_stale_reason m now =
     (let validated_str = (case mem_last_validated m of
            None \<Rightarrow> ''never validated''
          | Some v \<Rightarrow> ''last validated '' @ show_int (num_days (now - v)) @ '' days ago'')
      in ''created '' @ show_int (num_days (now - mem_created_at m)) @ '' days ago, last accessed ''
         @ show_int (num_days (now - mem_last_accessed m)) @ '' days ago, '' @ validated_str @ '', ''
         @ show_nat (unat (mem_access_count m)) @ '' accesses'')"

text \<open>By eviction priority, then most stale first; both sorts are stable.\<close>

definition eviction_order :: "(memory \<times> real \<times> real) list \<Rightarrow> (memory \<times> real \<times> real) list" where
  "eviction_order scored = sort_key (\<lambda>(m, s, t). eviction_priority m) (sort_desc (\<lambda>(m, s, t). s) scored)"

definition stale_candidates_of :: "time \<Rightarrow> nat \<Rightarrow> (memory \<times> real \<times> real) list \<Rightarrow> stale_candidate list" where
  "stale_candidates_of now limit scored =
     map (\<lambda>(rank, (m, s, t)). \<lparr> stc_memory = m, stc_staleness_score = s, stc_freshness_label = label_of_score s t,
         stc_eviction_rank = rank + 1, stc_reason = build_stale_reason m now \<rparr>)
       (enumerate 0 (take limit (eviction_order (filter (\<lambda>(m, s, t). t \<le> s) scored))))"

definition reflect_stale ::
    "('q, 'e, 'r) ext \<Rightarrow> staleness_config \<Rightarrow> string \<Rightarrow> nat \<Rightarrow> time \<Rightarrow> ('q, 'e, 'r, stale_candidate list \<times> nat) op" where
  "reflect_stale x cfg ns limit now =
     m_bind (m_of (stale_cutoff x cfg now)) (\<lambda>cutoff.
     m_bind (from_db (get_stale_candidates ns cutoff)) (\<lambda>candidates.
     m_bind (m_of (score_all cfg now candidates)) (\<lambda>scored.
     m_ret (stale_candidates_of now limit scored, length candidates))))"

definition reflect_contradictions ::
    "('q, 'e, 'r) ext \<Rightarrow> string \<Rightarrow> nat \<Rightarrow> ('q, 'e, 'r, contradiction_pair list \<times> nat) op" where
  "reflect_contradictions x ns scanned =
     m_bind (from_db (list_all_memory_ids ns)) (\<lambda>ids.
     m_bind (from_db (get_memories_by_ids (take MAX_SCAN_MEMORIES ids))) (\<lambda>all_memories.
     let sems = filter (\<lambda>m. mem_type m = Semantic \<and> mem_t_invalid m = None) all_memories in
     m_bind (from_db get_all_entities) (\<lambda>ents.
     m_ret (detect_contradictions x sems (build_entity_alias_map ents), max scanned (length sems)))))"

definition reflect ::
    "('q, 'e, 'r) ext \<Rightarrow> service \<Rightarrow> reflect_request \<Rightarrow> ('q, 'e, 'r, reflect_response) op" where
  "reflect x svc req =
     (let limit = (case rf_limit req of None \<Rightarrow> DEFAULT_REFLECT_LIMIT | Some n \<Rightarrow> n)
      in m_bind (now_op x) (\<lambda>now.
         m_bind (if rf_include_stale req
             then reflect_stale x (cfg_staleness (svc_config svc)) (rf_namespace req) limit now
             else m_ret ([], 0)) (\<lambda>(stale, scanned).
         m_bind (if rf_include_contradictions req then reflect_contradictions x (rf_namespace req) scanned
             else m_ret ([], scanned)) (\<lambda>(contradictions, scanned).
         m_ret \<lparr> rfr_stale = stale, rfr_contradictions = contradictions,
           rfr_summary = \<lparr> rs_total_scanned = scanned, rs_stale_count = length stale,
             rs_contradiction_count = length contradictions \<rparr> \<rparr>))))"

end
