(* ===== verification/ReflectLaws.thy ===== *)
theory ReflectLaws
  imports ReflectOp
begin

text \<open>
  What a reflection reports: genuine contradictions between stored facts, none of the exact
  ones missed, and stale memories in eviction order.
\<close>

section \<open>Pairs\<close>

lemma pairs_of_members: "(a, b) \<in> set (pairs_of xs) \<Longrightarrow> a \<in> set xs \<and> b \<in> set xs"
  by (induction xs) auto

lemma pairs_of_distinct: "distinct (map f xs) \<Longrightarrow> (a, b) \<in> set (pairs_of xs) \<Longrightarrow> f a \<noteq> f b"
  by (induction xs) (auto dest: pairs_of_members simp: rev_image_eqI)

lemma pairs_of_all: "a \<in> set xs \<Longrightarrow> b \<in> set xs \<Longrightarrow> a \<noteq> b \<Longrightarrow> (a, b) \<in> set (pairs_of xs) \<or> (b, a) \<in> set (pairs_of xs)"
  by (induction xs) auto

lemma pairs_of_short: "(a, b) \<in> set (pairs_of xs) \<Longrightarrow> \<not> length xs < 2"
  by (cases xs; cases "tl xs") auto

definition ids_in :: "contradiction_pair list \<Rightarrow> string set" where
  "ids_in ps = (\<Union>p\<in>set ps. {mem_id (cp_a p), mem_id (cp_b p)})"

text \<open>The state of the search: the matched ids are those of the reported pairs, which satisfy \<open>G\<close>.\<close>

definition found_ok :: "(contradiction_pair \<Rightarrow> bool) \<Rightarrow> found_pairs \<Rightarrow> bool" where
  "found_ok G acc \<longleftrightarrow> (\<forall>p\<in>set (fst acc). G p) \<and> snd acc = ids_in (fst acc)"

definition judged_ok :: "(memory \<Rightarrow> memory \<Rightarrow> (match_type \<times> real) option) \<Rightarrow> (contradiction_pair \<Rightarrow> bool) \<Rightarrow> memory list \<Rightarrow> bool" where
  "judged_ok judge G mems \<longleftrightarrow> (\<forall>(a, b)\<in>set (pairs_of mems). \<forall>t s. judge a b = Some (t, s) \<longrightarrow>
     effective_object a \<noteq> effective_object b \<longrightarrow>
     G \<lparr> cp_a = a, cp_b = b, cp_match_type = t, cp_similarity = s \<rparr>)"

lemma pair_step_ok:
  assumes "found_ok G acc"
    and "\<And>t s. judge a b = Some (t, s) \<Longrightarrow> effective_object a \<noteq> effective_object b \<Longrightarrow>
       G \<lparr> cp_a = a, cp_b = b, cp_match_type = t, cp_similarity = s \<rparr>"
  shows "found_ok G (pair_step judge (a, b) acc) \<and> set (fst acc) \<subseteq> set (fst (pair_step judge (a, b) acc))
    \<and> snd acc \<subseteq> snd (pair_step judge (a, b) acc)"
  using assms by (auto simp: pair_step_def found_ok_def ids_in_def split: prod.splits option.splits)

lemma fold_steps_ok:
  assumes "found_ok G acc"
    and "\<forall>(a, b)\<in>set ps. \<forall>t s. judge a b = Some (t, s) \<longrightarrow> effective_object a \<noteq> effective_object b \<longrightarrow>
       G \<lparr> cp_a = a, cp_b = b, cp_match_type = t, cp_similarity = s \<rparr>"
  shows "found_ok G (fold (pair_step judge) ps acc) \<and> snd acc \<subseteq> snd (fold (pair_step judge) ps acc)"
  using assms
proof (induction ps arbitrary: acc)
  case Nil
  then show ?case by simp
next
  case (Cons p ps)
  obtain a b where p: "p = (a, b)" by (cases p)
  have "found_ok G (pair_step judge (a, b) acc) \<and> snd acc \<subseteq> snd (pair_step judge (a, b) acc)"
    using pair_step_ok [OF Cons.prems(1), of judge a b] Cons.prems(2) p by auto
  with Cons.IH [of "pair_step judge p acc"] Cons.prems(2) p show ?case by auto
qed

lemma find_pairs_ok:
  assumes "found_ok G acc" and "judged_ok judge G mems"
  shows "found_ok G (find_pairs_with_different_objects judge mems acc)
    \<and> snd acc \<subseteq> snd (find_pairs_with_different_objects judge mems acc)"
  using assms fold_steps_ok [OF assms(1), of "pairs_of mems" judge]
  by (simp add: find_pairs_with_different_objects_def judged_ok_def)

lemma fold_groups_ok:
  assumes "found_ok G acc" and "\<And>k. judged_ok judge G (grp k)"
  shows "found_ok G (fold (\<lambda>k. find_pairs_with_different_objects judge (grp k)) ks acc)
    \<and> snd acc \<subseteq> snd (fold (\<lambda>k. find_pairs_with_different_objects judge (grp k)) ks acc)"
  using assms(1)
proof (induction ks arbitrary: acc)
  case Nil
  then show ?case by simp
next
  case (Cons k ks)
  note step = find_pairs_ok [OF Cons.prems assms(2) [of k]]
  with Cons.IH [of "find_pairs_with_different_objects judge (grp k) acc"] show ?case by auto
qed

section \<open>Contradictions are genuine\<close>

definition contradicts :: "('q, 'e, 'r) ext \<Rightarrow> (string \<rightharpoonup> string list) \<Rightarrow> contradiction_pair \<Rightarrow> bool" where
  "contradicts x alias_map p \<longleftrightarrow>
     mem_id (cp_a p) \<noteq> mem_id (cp_b p) \<and> effective_object (cp_a p) \<noteq> effective_object (cp_b p)
   \<and> (case cp_match_type p of
        ExactPredicate \<Rightarrow> (\<exists>k. group_key (cp_a p) = Some k \<and> group_key (cp_b p) = Some k) \<and> cp_similarity p = 1
      | FuzzyPredicate \<Rightarrow> (\<exists>s. subject_key (cp_a p) = Some s \<and> subject_key (cp_b p) = Some s)
          \<and> effective_predicate (cp_a p) \<noteq> effective_predicate (cp_b p)
          \<and> cp_similarity p = x_jaro_winkler x (effective_predicate (cp_a p)) (effective_predicate (cp_b p))
          \<and> REFLECT_FUZZY_PREDICATE_THRESHOLD < cp_similarity p
      | SimilarSubject \<Rightarrow> (\<exists>s as b. subject_key (cp_a p) = Some s \<and> alias_map s = Some as \<and> b \<in> set as
            \<and> subject_key (cp_b p) = Some (to_lowercase b) \<and> to_lowercase b \<noteq> s)
          \<and> effective_predicate (cp_a p) = effective_predicate (cp_b p) \<and> cp_similarity p = 1)"

definition genuine_in :: "('q, 'e, 'r) ext \<Rightarrow> (string \<rightharpoonup> string list) \<Rightarrow> memory list \<Rightarrow> contradiction_pair \<Rightarrow> bool" where
  "genuine_in x alias_map sems p \<longleftrightarrow> cp_a p \<in> set sems \<and> cp_b p \<in> set sems \<and> contradicts x alias_map p"

lemma group_at_iff: "m \<in> set (group_at key xs k) \<longleftrightarrow> m \<in> set xs \<and> key m = Some k"
  by (simp add: group_at_def)

lemma group_at_distinct: "distinct (map f xs) \<Longrightarrow> distinct (map f (group_at key xs k))"
  by (simp add: group_at_def distinct_map_filter)

lemma exact_judged:
  assumes "distinct (map mem_id sems)"
  shows "judged_ok exact_match (genuine_in x al sems) (group_at group_key sems k)"
proof -
  have "genuine_in x al sems \<lparr> cp_a = a, cp_b = b, cp_match_type = t, cp_similarity = s \<rparr>"
    if p: "(a, b) \<in> set (pairs_of (group_at group_key sems k))" and f: "exact_match a b = Some (t, s)"
      and ob: "effective_object a \<noteq> effective_object b" for a b t s
    using pairs_of_members [OF p] pairs_of_distinct [OF group_at_distinct [OF assms] p] f ob
    by (auto simp: genuine_in_def contradicts_def exact_match_def group_at_iff)
  then show ?thesis unfolding judged_ok_def by blast
qed

lemma fuzzy_judged:
  assumes "distinct (map mem_id sems)"
  shows "judged_ok (fuzzy_match (x_jaro_winkler x)) (genuine_in x al sems) (group_at subject_key sems k)"
proof -
  have "genuine_in x al sems \<lparr> cp_a = a, cp_b = b, cp_match_type = t, cp_similarity = s \<rparr>"
    if p: "(a, b) \<in> set (pairs_of (group_at subject_key sems k))" and f: "fuzzy_match (x_jaro_winkler x) a b = Some (t, s)"
      and ob: "effective_object a \<noteq> effective_object b" for a b t s
    using pairs_of_members [OF p] pairs_of_distinct [OF group_at_distinct [OF assms] p] f ob
    by (auto simp: genuine_in_def contradicts_def fuzzy_match_def group_at_iff Let_def split: if_splits)
  then show ?thesis unfolding judged_ok_def by blast
qed

lemma alias_pairs_iff:
  "p \<in> set (alias_pairs_of matched ams m) \<longleftrightarrow>
     cp_a p = m \<and> mem_id m \<notin> matched \<and> cp_b p \<in> set ams \<and> mem_id (cp_b p) \<noteq> mem_id m \<and> mem_id (cp_b p) \<notin> matched
   \<and> effective_predicate m = effective_predicate (cp_b p) \<and> effective_object m \<noteq> effective_object (cp_b p)
   \<and> cp_match_type p = SimilarSubject \<and> cp_similarity p = 1"
  by (cases p) (auto simp: alias_pairs_of_def image_iff)

lemma set_case_option: "p \<in> set (case v of None \<Rightarrow> [] | Some a \<Rightarrow> f a) \<longleftrightarrow> (\<exists>a. v = Some a \<and> p \<in> set (f a))"
  by (cases v) auto

lemma find_alias_iff:
  "p \<in> set (find_alias_contradictions subjects by_subject al matched) \<longleftrightarrow>
     (\<exists>s\<in>set subjects. \<exists>as. al s = Some as \<and> cp_a p \<in> set (by_subject s)
        \<and> (\<exists>b\<in>set as. to_lowercase b \<noteq> s \<and> cp_b p \<in> set (by_subject (to_lowercase b))))
   \<and> mem_id (cp_a p) \<notin> matched \<and> mem_id (cp_b p) \<noteq> mem_id (cp_a p) \<and> mem_id (cp_b p) \<notin> matched
   \<and> effective_predicate (cp_a p) = effective_predicate (cp_b p)
   \<and> effective_object (cp_a p) \<noteq> effective_object (cp_b p)
   \<and> cp_match_type p = SimilarSubject \<and> cp_similarity p = 1" (is "_ \<longleftrightarrow> ?r")
proof -
  have "p \<in> set (find_alias_contradictions subjects by_subject al matched) \<longleftrightarrow>
     (\<exists>s\<in>set subjects. \<exists>as. al s = Some as \<and> (\<exists>m\<in>set (by_subject s). p \<in> set (alias_pairs_of matched
        (concat (map (\<lambda>a. by_subject (to_lowercase a)) (filter (\<lambda>a. to_lowercase a \<noteq> s) as))) m)))"
    unfolding find_alias_contradictions_def Let_def set_concat set_map UN_iff bex_simps set_case_option by blast
  also have "\<dots> \<longleftrightarrow> ?r"
    unfolding alias_pairs_iff by auto
  finally show ?thesis .
qed

definition searched :: "('q, 'e, 'r) ext \<Rightarrow> memory list \<Rightarrow> found_pairs" where
  "searched x sems = fold (\<lambda>k. find_pairs_with_different_objects (fuzzy_match (x_jaro_winkler x)) (group_at subject_key sems k))
     (x_subject_order x (group_keys subject_key sems))
     (fold (\<lambda>k. find_pairs_with_different_objects exact_match (group_at group_key sems k))
        (x_group_order x (group_keys group_key sems)) ([], {}))"

lemma detect_eq:
  "detect_contradictions x sems al = fst (searched x sems) @
     find_alias_contradictions (x_subject_order x (group_keys subject_key sems)) (group_at subject_key sems) al
       (snd (searched x sems))"
  by (simp add: detect_contradictions_def searched_def Let_def)

lemma searched_ok:
  assumes "distinct (map mem_id sems)"
  shows "found_ok (genuine_in x al sems) (searched x sems)"
  unfolding searched_def
  by (intro fold_groups_ok [THEN conjunct1] exact_judged fuzzy_judged assms) (simp add: found_ok_def ids_in_def)

lemma detect_genuine:
  assumes "distinct (map mem_id sems)" and "p \<in> set (detect_contradictions x sems al)"
  shows "genuine_in x al sems p"
proof (cases "p \<in> set (fst (searched x sems))")
  case True
  with searched_ok [OF assms(1)] show ?thesis by (auto simp: found_ok_def)
next
  case False
  with assms(2) have "p \<in> set (find_alias_contradictions (x_subject_order x (group_keys subject_key sems))
      (group_at subject_key sems) al (snd (searched x sems)))" by (simp add: detect_eq)
  then show ?thesis
    unfolding find_alias_iff by (auto simp: genuine_in_def contradicts_def group_at_iff)
qed

subsection \<open>No exact contradiction is missed\<close>

lemma pair_step_matches:
  "effective_object a \<noteq> effective_object b \<Longrightarrow>
     {mem_id a, mem_id b} \<subseteq> snd (pair_step exact_match (a, b) acc)"
  by (auto simp: pair_step_def exact_match_def split: prod.splits)

lemma steps_matches:
  assumes "found_ok (\<lambda>_. True) acc" and "(a, b) \<in> set ps" and "effective_object a \<noteq> effective_object b"
  shows "{mem_id a, mem_id b} \<subseteq> snd (fold (pair_step exact_match) ps acc)"
  using assms(1,2)
proof (induction ps arbitrary: acc)
  case Nil
  then show ?case by simp
next
  case (Cons p ps)
  have ok: "found_ok (\<lambda>_. True) (pair_step exact_match p acc)"
    using pair_step_ok [OF Cons.prems(1), of exact_match "fst p" "snd p"] by simp
  show ?case
  proof (cases "p = (a, b)")
    case True
    with pair_step_matches [OF assms(3), of acc] fold_steps_ok [OF ok, of ps exact_match] show ?thesis by auto
  next
    case False
    with Cons.IH [OF ok] Cons.prems(2) show ?thesis by auto
  qed
qed

lemma groups_matches:
  assumes "found_ok (\<lambda>_. True) acc" and "k \<in> set ks" and "a \<in> set (grp k)" and "b \<in> set (grp k)"
    and "effective_object a \<noteq> effective_object b"
  shows "{mem_id a, mem_id b} \<subseteq> snd (fold (\<lambda>k. find_pairs_with_different_objects exact_match (grp k)) ks acc)"
  using assms(1,2)
proof (induction ks arbitrary: acc)
  case Nil
  then show ?case by simp
next
  case (Cons l ks)
  have any: "judged_ok exact_match (\<lambda>_. True) ms" for ms by (simp add: judged_ok_def)
  note ok = find_pairs_ok [OF Cons.prems(1) any, of "grp l"]
  show ?case
  proof (cases "l = k")
    case True
    have "a \<noteq> b" using assms(5) by auto
    with assms(3,4) have pair: "(a, b) \<in> set (pairs_of (grp k)) \<or> (b, a) \<in> set (pairs_of (grp k))"
      by (intro pairs_of_all)
    moreover have "\<not> length (grp k) < 2"
      using pair pairs_of_short [of a b "grp k"] pairs_of_short [of b a "grp k"] by auto
    ultimately have "{mem_id a, mem_id b} \<subseteq> snd (find_pairs_with_different_objects exact_match (grp l) acc)"
      using steps_matches [OF Cons.prems(1), of a b "pairs_of (grp k)"] steps_matches [OF Cons.prems(1), of b a "pairs_of (grp k)"]
        assms(5) True by (auto simp: find_pairs_with_different_objects_def)
    with fold_groups_ok [OF ok [THEN conjunct1] any, of "\<lambda>k. grp k" ks] show ?thesis by auto
  next
    case False
    with Cons.IH [OF ok [THEN conjunct1]] Cons.prems(2) show ?thesis by auto
  qed
qed

lemma group_keys_iff: "k \<in> set (group_keys key xs) \<longleftrightarrow> (\<exists>m\<in>set xs. key m = Some k)"
  by (simp add: group_keys_def set_map_filter)

lemma detect_complete:
  assumes order: "\<And>ks. set (x_group_order x ks) = set ks"
    and ids: "distinct (map mem_id sems)" and a: "a \<in> set sems" "group_key a = Some k"
    and b: "b \<in> set sems" "group_key b = Some k" and ob: "effective_object a \<noteq> effective_object b"
  shows "mem_id a \<in> ids_in (detect_contradictions x sems al) \<and> mem_id b \<in> ids_in (detect_contradictions x sems al)"
proof -
  let ?start = "([], {}) :: found_pairs"
  let ?one = "fold (\<lambda>k. find_pairs_with_different_objects exact_match (group_at group_key sems k))
        (x_group_order x (group_keys group_key sems)) ?start"
  have start: "found_ok (\<lambda>_. True) ?start" by (simp add: found_ok_def ids_in_def)
  have "k \<in> set (x_group_order x (group_keys group_key sems))" using a by (auto simp: order group_keys_iff)
  then have "{mem_id a, mem_id b} \<subseteq> snd ?one"
    using a b ob by (intro groups_matches [OF start]) (auto simp: group_at_iff)
  moreover have "found_ok (\<lambda>_. True) ?one" by (intro fold_groups_ok [THEN conjunct1] start) (simp add: judged_ok_def)
  then have "snd ?one \<subseteq> snd (searched x sems)"
    unfolding searched_def by (intro fold_groups_ok [THEN conjunct2]) (auto simp: judged_ok_def)
  ultimately have "{mem_id a, mem_id b} \<subseteq> snd (searched x sems)" by blast
  also have "\<dots> = ids_in (fst (searched x sems))"
    using searched_ok [OF ids, of x al] by (simp add: found_ok_def)
  also have "\<dots> \<subseteq> ids_in (detect_contradictions x sems al)" by (auto simp: ids_in_def detect_eq)
  finally show ?thesis by simp
qed

section \<open>The alias map\<close>

definition names_of :: "entity \<Rightarrow> string list" where
  "names_of e = map to_lowercase (ent_aliases e) @ [to_lowercase (ent_name e)]"

lemma add_names_fold:
  "fold (add_names all) ns m k = (if k \<in> set ns
     then Some ((case m k of None \<Rightarrow> [] | Some l \<Rightarrow> l) @ concat (replicate (count_list ns k) all)) else m k)"
  by (induction ns arbitrary: m) (auto simp: add_names_def)

lemma add_entity_member:
  "(\<exists>l. add_entity_names e m k = Some l \<and> a \<in> set l) \<longleftrightarrow>
     (\<exists>l. m k = Some l \<and> a \<in> set l) \<or> (k \<in> set (names_of e) \<and> a \<in> set (names_of e))"
  unfolding add_entity_names_def Let_def names_of_def [symmetric] add_names_fold
  by (cases "m k") (auto simp: count_list_0_iff)

lemma alias_fold_member:
  "(\<exists>l. fold add_entity_names es m k = Some l \<and> a \<in> set l) \<longleftrightarrow>
     (\<exists>l. m k = Some l \<and> a \<in> set l) \<or> (\<exists>e\<in>set es. k \<in> set (names_of e) \<and> a \<in> set (names_of e))"
  by (induction es arbitrary: m) (auto simp: add_entity_member)

lemma alias_map_member:
  "(\<exists>l. build_entity_alias_map es k = Some l \<and> a \<in> set l) \<longleftrightarrow>
     a \<noteq> k \<and> (\<exists>e\<in>set es. k \<in> set (names_of e) \<and> a \<in> set (names_of e))"
proof -
  have "(\<exists>l. build_entity_alias_map es k = Some l \<and> a \<in> set l) \<longleftrightarrow>
      a \<noteq> k \<and> (\<exists>l. fold add_entity_names es Map.empty k = Some l \<and> a \<in> set l)"
    by (auto simp: build_entity_alias_map_def Let_def)
  then show ?thesis by (simp add: alias_fold_member)
qed

section \<open>Bulk reads have no duplicates\<close>

lemma distinct_concat_chunks:
  assumes "distinct (map r_id rows)" and "distinct (concat cs)"
  shows "distinct (map r_id (concat (map (\<lambda>c. filter (\<lambda>r. r_id r \<in> set c) rows) cs)))"
  using assms(2)
proof (induction cs)
  case Nil
  then show ?case by simp
next
  case (Cons c cs)
  have "r_id ` set (filter (\<lambda>r. r_id r \<in> set c) rows) \<inter>
      r_id ` set (concat (map (\<lambda>c. filter (\<lambda>r. r_id r \<in> set c) rows) cs)) = {}"
    using Cons.prems by auto
  with Cons show ?case by (auto simp: distinct_map_filter [OF assms(1)])
qed

lemma get_by_ids_distinct:
  assumes "db_ok d" and "distinct ids"
  shows "distinct (map mem_id (get_memories_by_ids ids d))"
proof -
  have "map mem_id (get_memories_by_ids ids d) = map r_id (concat (map (\<lambda>c. filter (\<lambda>r. r_id r \<in> set c) (memories d))
      (chunks IN_CLAUSE_BATCH_SIZE ids)))"
    by (auto simp: get_memories_by_ids_def map_concat comp_def)
  moreover have "distinct (concat (chunks IN_CLAUSE_BATCH_SIZE ids))"
    using assms(2) by (simp add: concat_chunks IN_CLAUSE_BATCH_SIZE_def)
  ultimately show ?thesis
    using assms(1) distinct_concat_chunks [of "memories d" "chunks IN_CLAUSE_BATCH_SIZE ids"]
    by (simp only: db_ok_def)
qed

lemma live_ids_distinct: "db_ok d \<Longrightarrow> distinct (list_all_memory_ids ns d)"
  by (simp add: list_all_memory_ids_def db_ok_def distinct_map_filter)

section \<open>The operation\<close>

definition live_semantics :: "string \<Rightarrow> db \<Rightarrow> memory list" where
  "live_semantics ns d = filter (\<lambda>m. mem_type m = Semantic \<and> mem_t_invalid m = None)
     (get_memories_by_ids (take MAX_SCAN_MEMORIES (list_all_memory_ids ns d)) d)"

lemma live_semantics_distinct: "db_ok d \<Longrightarrow> distinct (map mem_id (live_semantics ns d))"
  unfolding live_semantics_def
  by (intro distinct_map_filter get_by_ids_distinct distinct_take live_ids_distinct)

lemma live_semantics_rows:
  assumes "db_ok d" and "m \<in> set (live_semantics ns d)"
  shows "\<exists>r\<in>set (memories d). m = row_with_entities d r \<and> r_namespace r = ns \<and> r_t_invalid r = None \<and> mem_type m = Semantic"
proof -
  from assms(2) obtain r where r: "r \<in> set (memories d)" "m = row_with_entities d r"
      "r_id r \<in> set (list_all_memory_ids ns d)" "mem_type m = Semantic"
    by (auto simp: live_semantics_def get_memories_by_ids_set dest: in_set_takeD)
  then obtain r' where r': "r' \<in> set (memories d)" "r_id r' = r_id r" "r_namespace r' = ns" "r_t_invalid r' = None"
    by (auto simp: list_all_memory_ids_def)
  have "distinct (map r_id (memories d))" using assms(1) by (simp add: db_ok_def)
  with r(1) r'(1,2) have "r' = r" by (auto simp: distinct_map inj_on_def)
  with r r' show ?thesis by blast
qed

lemma reflect_contradictions_run:
  "reflect_contradictions x ns n w = (Inr (detect_contradictions x (live_semantics ns (w_db w))
     (build_entity_alias_map (get_all_entities (w_db w))), max n (length (live_semantics ns (w_db w)))), w)"
  by (simp add: reflect_contradictions_def live_semantics_def Let_def m_bind_def)

lemma reflect_stale_ok:
  assumes "reflect_stale x cfg ns limit now w = (Inr (stale, n), w')"
  shows "w' = w \<and> (\<exists>cutoff scored. stale_cutoff x cfg now = Inr cutoff
      \<and> score_all cfg now (get_stale_candidates ns cutoff (w_db w)) = Inr scored
      \<and> stale = stale_candidates_of now limit scored)"
  using assms by (auto simp: reflect_stale_def m_bind_ok_iff)

lemma reflect_run:
  assumes "reflect x svc req w = (Inr resp, w')"
  obtains now stale n u where "w_db u = w_db w" "w_db w' = w_db w"
    "rf_include_stale req \<Longrightarrow> reflect_stale x (cfg_staleness (svc_config svc)) (rf_namespace req)
        (case rf_limit req of None \<Rightarrow> DEFAULT_REFLECT_LIMIT | Some n \<Rightarrow> n) now u = (Inr (stale, n), u)"
    "rfr_stale resp = (if rf_include_stale req then stale else [])"
    "rfr_contradictions resp = (if rf_include_contradictions req
      then detect_contradictions x (live_semantics (rf_namespace req) (w_db w)) (build_entity_alias_map (get_all_entities (w_db w)))
      else [])"
proof -
  let ?l = "case rf_limit req of None \<Rightarrow> DEFAULT_REFLECT_LIMIT | Some n \<Rightarrow> n"
  let ?w1 = "w\<lparr>w_clock := w_clock w + 1\<rparr>"
  from assms obtain stale n w2 cs k where
    s: "(if rf_include_stale req then reflect_stale x (cfg_staleness (svc_config svc)) (rf_namespace req) ?l
        (x_now x (w_clock w)) else m_ret ([], 0)) ?w1 = (Inr (stale, n), w2)"
    and c: "(if rf_include_contradictions req then reflect_contradictions x (rf_namespace req) n else m_ret ([], n)) w2
        = (Inr (cs, k), w')"
    and r: "rfr_stale resp = stale" "rfr_contradictions resp = cs"
    unfolding reflect_def Let_def by (auto simp: m_bind_ok_iff simp del: m_ret_run) (auto simp: m_ret_def)
  have "w2 = ?w1" using s by (auto simp: dest: reflect_stale_ok split: if_splits)
  with s c r show thesis
    by (intro that [where u = ?w1 and now = "x_now x (w_clock w)" and stale = stale and n = n])
      (auto simp: reflect_contradictions_run split: if_splits)
qed

definition stored_live :: "string \<Rightarrow> db \<Rightarrow> memory \<Rightarrow> bool" where
  "stored_live ns d m \<longleftrightarrow>
     (\<exists>r\<in>set (memories d). m = row_with_entities d r \<and> r_namespace r = ns \<and> r_t_invalid r = None) \<and> mem_type m = Semantic"

text \<open>
  Every contradiction a reflection reports is one: two different live semantic memories of
  the namespace, as stored, with different objects, and with the same subject and predicate, or
  the same subject and two predicates more alike than 0.75 by the string similarity, or the
  same predicate on two subjects of which one is an alias of the other. The database is not
  changed.
\<close>

theorem reflect_contradictions_genuine:
  assumes "db_ok (w_db w)" and "reflect x svc req w = (Inr resp, w')"
  shows "w_db w' = w_db w \<and> (\<forall>p\<in>set (rfr_contradictions resp).
      stored_live (rf_namespace req) (w_db w) (cp_a p) \<and> stored_live (rf_namespace req) (w_db w) (cp_b p)
    \<and> contradicts x (build_entity_alias_map (get_all_entities (w_db w))) p)"
  using assms(2)
proof (cases rule: reflect_run)
  case (1 now stale n u)
  have "stored_live (rf_namespace req) (w_db w) m" if "m \<in> set (live_semantics (rf_namespace req) (w_db w))" for m
    using live_semantics_rows [OF assms(1) that] by (auto simp: stored_live_def)
  with 1 detect_genuine [OF live_semantics_distinct [OF assms(1)]] show ?thesis
    by (auto simp: genuine_in_def split: if_splits)
qed

text \<open>
  C36. No plain contradiction is missed: in a namespace of at most 10000 live memories, two live
  semantic rows that agree on subject and predicate and differ in the object both appear in
  the report, whatever order the hash maps yield their groups in.
\<close>

theorem reflect_contradictions_complete:
  assumes "\<And>ks. set (x_group_order x ks) = set ks"
    and "db_ok (w_db w)" and "reflect x svc req w = (Inr resp, w')" and "rf_include_contradictions req"
    and "length (list_all_memory_ids (rf_namespace req) (w_db w)) \<le> MAX_SCAN_MEMORIES"
    and "r1 \<in> set (memories (w_db w))" and "r2 \<in> set (memories (w_db w))"
    and "r_namespace r1 = rf_namespace req" and "r_namespace r2 = rf_namespace req"
    and "r_t_invalid r1 = None" and "r_t_invalid r2 = None"
    and "mem_type (row_with_entities (w_db w) r1) = Semantic" and "mem_type (row_with_entities (w_db w) r2) = Semantic"
    and "group_key (row_with_entities (w_db w) r1) = Some k" and "group_key (row_with_entities (w_db w) r2) = Some k"
    and "effective_object (row_with_entities (w_db w) r1) \<noteq> effective_object (row_with_entities (w_db w) r2)"
  shows "r_id r1 \<in> ids_in (rfr_contradictions resp) \<and> r_id r2 \<in> ids_in (rfr_contradictions resp)"
  using assms(3)
proof (cases rule: reflect_run)
  case (1 now stale n u)
  let ?ns = "rf_namespace req" and ?d = "w_db w"
  have mem: "row_with_entities ?d r \<in> set (live_semantics ?ns ?d)"
    if "r \<in> set (memories ?d)" "r_namespace r = ?ns" "r_t_invalid r = None" "mem_type (row_with_entities ?d r) = Semantic" for r
  proof -
    have "r_id r \<in> set (take MAX_SCAN_MEMORIES (list_all_memory_ids ?ns ?d))"
      using assms(5) that by (auto simp: list_all_memory_ids_def)
    moreover have "mem_t_invalid (row_with_entities ?d r) = None"
      using that(3) by (simp add: row_with_entities_def row_to_memory_def)
    ultimately show ?thesis using that(1,4) by (auto simp: live_semantics_def get_memories_by_ids_set)
  qed
  show ?thesis
    using detect_complete [OF assms(1) live_semantics_distinct [OF assms(2)] mem assms(14) mem assms(15,16),
        where al = "build_entity_alias_map (get_all_entities ?d)"]
      assms(4,6-13) 1(5) by simp
qed

definition mirrored :: "contradiction_pair \<Rightarrow> contradiction_pair" where
  "mirrored p = p\<lparr>cp_a := cp_b p, cp_b := cp_a p\<rparr>"

lemma names_lower: "a \<in> set (names_of e) \<Longrightarrow> to_lowercase a = a"
  by (auto simp: names_of_def)

lemma detect_mirrored:
  assumes order: "\<And>ks. set (x_subject_order x ks) = set ks" and "al = build_entity_alias_map es"
    and p: "p \<in> set (detect_contradictions x sems al)" and sim: "cp_match_type p = SimilarSubject"
  shows "mirrored p \<in> set (detect_contradictions x sems al)"
proof -
  have "found_ok (\<lambda>p. cp_match_type p \<noteq> SimilarSubject) (searched x sems)"
    unfolding searched_def
    by (intro fold_groups_ok [THEN conjunct1])
      (auto simp: found_ok_def ids_in_def judged_ok_def exact_match_def fuzzy_match_def Let_def split: if_splits)
  with p sim have "p \<in> set (find_alias_contradictions (x_subject_order x (group_keys subject_key sems))
      (group_at subject_key sems) al (snd (searched x sems)))" by (auto simp: detect_eq found_ok_def)
  note found = this [unfolded find_alias_iff]
  then obtain s as b where s: "s \<in> set (group_keys subject_key sems)" "al s = Some as" "b \<in> set as" "to_lowercase b \<noteq> s"
    "cp_a p \<in> set (group_at subject_key sems s)" "cp_b p \<in> set (group_at subject_key sems (to_lowercase b))"
    by (auto simp: order)
  then obtain e where e: "e \<in> set es" "s \<in> set (names_of e)" "b \<in> set (names_of e)"
    using alias_map_member [of es s b] assms(2) by blast
  have low: "to_lowercase b = b" "to_lowercase s = s" using e names_lower by blast+
  obtain as' where "al b = Some as'" "s \<in> set as'"
    using alias_map_member [of es b s] e s(4) assms(2) low by auto
  moreover have "b \<in> set (group_keys subject_key sems)" using s(6) low by (auto simp: group_at_iff group_keys_iff)
  ultimately have "\<exists>t\<in>set (x_subject_order x (group_keys subject_key sems)). \<exists>as. al t = Some as
      \<and> cp_b p \<in> set (group_at subject_key sems t)
      \<and> (\<exists>c\<in>set as. to_lowercase c \<noteq> t \<and> cp_a p \<in> set (group_at subject_key sems (to_lowercase c)))"
    using s low by (intro bexI [of _ b] exI [of _ as'] conjI bexI [of _ s]) (auto simp: order)
  then have "mirrored p \<in> set (find_alias_contradictions (x_subject_order x (group_keys subject_key sems))
      (group_at subject_key sems) al (snd (searched x sems)))"
    unfolding find_alias_iff using found by (auto simp: mirrored_def)
  then show ?thesis by (simp add: detect_eq)
qed

text \<open>
  A contradiction between aliases is reported twice, once in each direction, so that a
  report's contradiction count is larger than the number of contradicting pairs.
\<close>

theorem reflect_alias_reported_twice:
  assumes "\<And>ks. set (x_subject_order x ks) = set ks" and "reflect x svc req w = (Inr resp, w')"
    and "p \<in> set (rfr_contradictions resp)" and "cp_match_type p = SimilarSubject"
  shows "mirrored p \<in> set (rfr_contradictions resp)"
  using assms(2)
proof (cases rule: reflect_run)
  case (1 now stale n u)
  with assms(3) show ?thesis
    using detect_mirrored [OF assms(1) refl _ assms(4)] by (auto split: if_splits)
qed

section \<open>Stale memories\<close>

lemma sorted_wrt_stable:
  assumes "sorted (map f xs)" and "\<And>k. sorted_wrt S (filter (\<lambda>x. f x = k) xs)"
  shows "sorted_wrt (\<lambda>x y. f x < f y \<or> f x = f y \<and> S x y) xs"
  using assms
proof (induction xs)
  case Nil
  then show ?case by simp
next
  case (Cons x xs)
  have "f x < f y \<or> f x = f y \<and> S x y" if "y \<in> set xs" for y
    using that Cons.prems(1) Cons.prems(2) [of "f x"] by (cases "f x = f y") (auto simp: order.strict_iff_order)
  moreover have "sorted_wrt S (filter (\<lambda>x. f x = k) xs)" for k
    using Cons.prems(2) [of k] by (simp split: if_splits)
  ultimately show ?case using Cons by simp
qed

definition evicted_before :: "memory \<times> real \<times> real \<Rightarrow> memory \<times> real \<times> real \<Rightarrow> bool" where
  "evicted_before a b \<longleftrightarrow> eviction_priority (fst a) < eviction_priority (fst b)
     \<or> eviction_priority (fst a) = eviction_priority (fst b) \<and> fst (snd b) \<le> fst (snd a)"

lemma eviction_sorted: "sorted_wrt evicted_before (eviction_order xs)"
proof -
  let ?f = "\<lambda>(m :: memory, s :: real, t :: real). eviction_priority m"
  let ?S = "\<lambda>a b :: memory \<times> real \<times> real. fst (snd b) \<le> fst (snd a)"
  have "sorted_wrt ?S (sort_desc (\<lambda>(m, s, t). s) xs)"
    using sort_desc_sorted [of "\<lambda>(m, s, t). s" xs] by (simp add: case_prod_beta)
  then have "sorted_wrt ?S (filter (\<lambda>x. ?f x = k) (eviction_order xs))" for k
    unfolding eviction_order_def sort_key_stable by (rule sorted_wrt_filter)
  moreover have "sorted (map ?f (eviction_order xs))" by (simp add: eviction_order_def)
  ultimately have "sorted_wrt (\<lambda>x y. ?f x < ?f y \<or> ?f x = ?f y \<and> ?S x y) (eviction_order xs)"
    by (intro sorted_wrt_stable)
  moreover have "(\<lambda>x y. ?f x < ?f y \<or> ?f x = ?f y \<and> ?S x y) = evicted_before"
    by (simp add: fun_eq_iff evicted_before_def case_prod_beta)
  ultimately show ?thesis by simp
qed

lemma score_all_Inr:
  "score_all cfg now ms = Inr scored \<Longrightarrow>
     map fst scored = ms \<and> (\<forall>(m, s, t)\<in>set scored. m \<in> set ms \<and> staleness_score m now cfg = Some s
        \<and> threshold_for_type cfg (mem_type m) = Some t)"
  by (induction ms arbitrary: scored) (fastforce split: option.splits sum.splits)+

lemma stale_label: "0 \<le> s \<Longrightarrow> t \<le> s \<Longrightarrow> label_of_score s t = Stale"
  by (auto simp: label_of_score_def FRESH_THRESHOLD_RATIO_def)

lemma stale_candidates_nth:
  "length (stale_candidates_of now limit scored) = min limit (length (filter (\<lambda>(m, s, t). t \<le> s) scored))"
  "i < length (stale_candidates_of now limit scored) \<Longrightarrow>
     (let (m, s, t) = eviction_order (filter (\<lambda>(m, s, t). t \<le> s) scored) ! i;
          c = stale_candidates_of now limit scored ! i
      in stc_memory c = m \<and> stc_staleness_score c = s \<and> stc_freshness_label c = label_of_score s t
       \<and> stc_eviction_rank c = i + 1)"
  by (auto simp: stale_candidates_of_def eviction_order_def nth_enumerate_eq Let_def split: prod.splits)

definition stale_row :: "staleness_config \<Rightarrow> time \<Rightarrow> string \<Rightarrow> db \<Rightarrow> stale_candidate \<Rightarrow> bool" where
  "stale_row cfg now ns d c \<longleftrightarrow>
     (\<exists>r\<in>set (memories d). stc_memory c = row_to_memory r [] \<and> r_namespace r = ns \<and> r_t_invalid r = None)
   \<and> staleness_score (stc_memory c) now cfg = Some (stc_staleness_score c) \<and> stc_freshness_label c = Stale"

definition evict_first :: "stale_candidate \<Rightarrow> stale_candidate \<Rightarrow> bool" where
  "evict_first a b \<longleftrightarrow> eviction_priority (stc_memory a) < eviction_priority (stc_memory b)
     \<or> eviction_priority (stc_memory a) = eviction_priority (stc_memory b) \<and> stc_staleness_score b \<le> stc_staleness_score a"

text \<open>
  The stale part of a reflection lists at most the requested number of live memories of the
  namespace, each scored at the time of the reflection and labelled stale, ranked from 1
  without gaps; unread episodic memories come before read ones and those before facts and
  procedures, and within such a class the more stale come first.
\<close>

theorem reflect_stale_ranked:
  assumes "reflect x svc req w = (Inr resp, w')" and "rf_include_stale req"
    and "limit = (case rf_limit req of None \<Rightarrow> DEFAULT_REFLECT_LIMIT | Some n \<Rightarrow> n)"
  shows "\<exists>now. length (rfr_stale resp) \<le> limit \<and> sorted_wrt evict_first (rfr_stale resp)
    \<and> (\<forall>i<length (rfr_stale resp). stc_eviction_rank (rfr_stale resp ! i) = i + 1
         \<and> stale_row (cfg_staleness (svc_config svc)) now (rf_namespace req) (w_db w) (rfr_stale resp ! i))"
  using assms(1)
proof (cases rule: reflect_run)
  case (1 now stale n u)
  let ?cfg = "cfg_staleness (svc_config svc)"
  obtain cutoff scored where
    sc: "score_all ?cfg now (get_stale_candidates (rf_namespace req) cutoff (w_db u)) = Inr scored"
    and st: "rfr_stale resp = stale_candidates_of now limit scored"
    using reflect_stale_ok [OF 1(3) [OF assms(2)]] 1(4) assms(2,3) by auto
  let ?xs = "filter (\<lambda>(m, s, t). t \<le> s) scored"
  have len: "length (rfr_stale resp) \<le> limit" "length (rfr_stale resp) \<le> length (eviction_order ?xs)"
    by (simp_all add: st stale_candidates_nth eviction_order_def)
  have row: "stale_row ?cfg now (rf_namespace req) (w_db w) (rfr_stale resp ! i) \<and> stc_eviction_rank (rfr_stale resp ! i) = i + 1"
    if i: "i < length (rfr_stale resp)" for i
  proof -
    obtain m s t where e: "eviction_order ?xs ! i = (m, s, t)" by (cases "eviction_order ?xs ! i")
    have "(m, s, t) \<in> set (eviction_order ?xs)" using e i len by (metis nth_mem order_less_le_trans)
    then have mem: "(m, s, t) \<in> set scored" "t \<le> s" by (auto simp: eviction_order_def)
    with score_all_Inr [OF sc] have "m \<in> set (get_stale_candidates (rf_namespace req) cutoff (w_db u))"
      "staleness_score m now ?cfg = Some s" by auto
    moreover from this(2) staleness_bounds mem(2) have "label_of_score s t = Stale" by (auto intro: stale_label)
    ultimately show ?thesis
      using stale_candidates_nth(2) [of i now limit scored] i e 1(1)
      by (auto simp: st stale_row_def get_stale_candidates_def Let_def)
  qed
  have "evict_first (rfr_stale resp ! i) (rfr_stale resp ! j)" if ij: "i < j" "j < length (rfr_stale resp)" for i j
  proof -
    have "evicted_before (eviction_order ?xs ! i) (eviction_order ?xs ! j)"
      using eviction_sorted [of ?xs] ij len(2) by (simp add: sorted_wrt_iff_nth_less)
    with stale_candidates_nth(2) [of i now limit scored] stale_candidates_nth(2) [of j now limit scored] ij show ?thesis
      by (auto simp: st evict_first_def evicted_before_def Let_def split: prod.splits)
  qed
  then have "sorted_wrt evict_first (rfr_stale resp)" by (simp add: sorted_wrt_iff_nth_less)
  with len(1) row show ?thesis by blast
qed

section \<open>Concrete runs\<close>

definition fact_row :: "string \<Rightarrow> string \<Rightarrow> string \<Rightarrow> string \<Rightarrow> mem_row" where
  "fact_row i s p ob = memory_row (sample_memory\<lparr>mem_id := i, mem_type := Semantic, mem_content := None,
     mem_subject := Some s, mem_predicate := Some p, mem_object := Some ob, mem_normalized_predicate := Some p\<rparr>)"

definition clash_db :: db where
  "clash_db = empty_db\<lparr>memories := [fact_row ''m1'' ''bob'' ''likes'' ''tea'', fact_row ''m2'' ''bob'' ''likes'' ''coffee'',
     fact_row ''m3'' ''carl'' ''uses'' ''vim'', fact_row ''m4'' ''karl'' ''uses'' ''emacs''],
     entities := [\<lparr> er_id = ''e1'', er_name = ''carl'', er_aliases_json = Some [], er_type = None, er_created_at = 0,
       er_updated_at = 0 \<rparr>], entity_aliases := [(''e1'', ''karl'')]\<rparr>"

definition clash_request :: reflect_request where
  "clash_request = \<lparr> rf_namespace = ''default'', rf_limit = None, rf_include_contradictions = True, rf_include_stale = False \<rparr>"

lemma clash_detect:
  "map (\<lambda>p. (mem_id (cp_a p), mem_id (cp_b p), cp_match_type p)) (detect_contradictions demo_ext
      (live_semantics ''default'' clash_db) (build_entity_alias_map (get_all_entities clash_db))) =
   [(''m1'', ''m2'', ExactPredicate), (''m3'', ''m4'', SimilarSubject), (''m4'', ''m3'', SimilarSubject)]"
  by code_simp

lemma clash_ok: "db_ok clash_db"
  by code_simp

lemma clash_run:
  "\<exists>resp w'. reflect demo_ext demo_service clash_request (demo_world clash_db) = (Inr resp, w')
     \<and> map (\<lambda>p. (mem_id (cp_a p), mem_id (cp_b p), cp_match_type p)) (rfr_contradictions resp) =
       [(''m1'', ''m2'', ExactPredicate), (''m3'', ''m4'', SimilarSubject), (''m4'', ''m3'', SimilarSubject)]"
  by (simp add: reflect_def clash_request_def m_bind_def reflect_contradictions_run clash_detect)

theorem reflect_contradictions_genuine_witness:
  "\<exists>resp w' p. reflect demo_ext demo_service clash_request (demo_world clash_db) = (Inr resp, w')
     \<and> p \<in> set (rfr_contradictions resp) \<and> stored_live ''default'' clash_db (cp_a p)
     \<and> contradicts demo_ext (build_entity_alias_map (get_all_entities clash_db)) p"
proof -
  obtain resp w' where r: "reflect demo_ext demo_service clash_request (demo_world clash_db) = (Inr resp, w')"
      "rfr_contradictions resp \<noteq> []"
    using clash_run by fastforce
  then obtain p where p: "p \<in> set (rfr_contradictions resp)" by (cases "rfr_contradictions resp") auto
  have "rf_namespace clash_request = ''default''" by (simp add: clash_request_def)
  with reflect_contradictions_genuine [OF _ r(1)] clash_ok p r(1) show ?thesis by auto
qed

theorem reflect_contradictions_complete_witness:
  "\<exists>resp w'. reflect demo_ext demo_service clash_request (demo_world clash_db) = (Inr resp, w')
     \<and> ''m1'' \<in> ids_in (rfr_contradictions resp)"
proof -
  obtain resp w' where r: "reflect demo_ext demo_service clash_request (demo_world clash_db) = (Inr resp, w')"
    using clash_run by blast
  let ?r1 = "fact_row ''m1'' ''bob'' ''likes'' ''tea''" and ?r2 = "fact_row ''m2'' ''bob'' ''likes'' ''coffee''"
  have mt: "mt_from_str ''semantic'' = Inr Semantic" using mt_round_trip [of Semantic] by simp
  have row: "mem_type (row_with_entities d (fact_row i s p ob)) = Semantic"
    "group_key (row_with_entities d (fact_row i s p ob)) = Some (to_lowercase s, p)"
    "effective_object (row_with_entities d (fact_row i s p ob)) = ob"
    "r_namespace (fact_row i s p ob) = ''default''" "r_t_invalid (fact_row i s p ob) = None" "r_id (fact_row i s p ob) = i"
    for d i s p ob
    by (simp_all add: row_with_entities_def row_to_memory_def fact_row_def memory_row_def sample_memory_def mt group_key_def
        effective_object_def)
  have order: "\<And>ks. set (x_group_order demo_ext ks) = set ks" by (simp add: demo_ext_def)
  have ok: "db_ok (w_db (demo_world clash_db))" using clash_ok by simp
  have "r_id ?r1 \<in> ids_in (rfr_contradictions resp) \<and> r_id ?r2 \<in> ids_in (rfr_contradictions resp)"
    by (rule reflect_contradictions_complete [OF order ok r, where k = "(to_lowercase ''bob'', ''likes'')"])
      (simp_all add: row clash_request_def clash_db_def list_all_memory_ids_def MAX_SCAN_MEMORIES_def)
  with r row(6) show ?thesis by auto
qed

theorem reflect_alias_reported_twice_witness:
  "\<exists>resp w' p. reflect demo_ext demo_service clash_request (demo_world clash_db) = (Inr resp, w')
     \<and> p \<in> set (rfr_contradictions resp) \<and> mirrored p \<in> set (rfr_contradictions resp)"
proof -
  obtain resp w' where r: "reflect demo_ext demo_service clash_request (demo_world clash_db) = (Inr resp, w')"
      "map (\<lambda>p. (mem_id (cp_a p), mem_id (cp_b p), cp_match_type p)) (rfr_contradictions resp) =
       [(''m1'', ''m2'', ExactPredicate), (''m3'', ''m4'', SimilarSubject), (''m4'', ''m3'', SimilarSubject)]"
    using clash_run by (elim exE conjE) (rule that)
  have "rfr_contradictions resp ! 1 \<in> set (rfr_contradictions resp)"
    "cp_match_type (rfr_contradictions resp ! 1) = SimilarSubject"
    using r(2) by auto
  then obtain p where "p \<in> set (rfr_contradictions resp)" "cp_match_type p = SimilarSubject" by blast
  with reflect_alias_reported_twice [OF _ r(1)] r(1) show ?thesis by (auto simp: demo_ext_def)
qed

definition old_request :: reflect_request where
  "old_request = \<lparr> rf_namespace = ''default'', rf_limit = Some 3, rf_include_contradictions = False, rf_include_stale = True \<rparr>"

definition old_service :: service where
  "old_service = demo_service\<lparr>svc_config := demo_config\<lparr>cfg_staleness := default_staleness_config\<lparr>sc_type_config :=
     [Episodic \<mapsto> \<lparr> half_life_days = 30, stale_threshold = 0 \<rparr>]\<rparr>\<rparr>\<rparr>"

definition old_db :: db where
  "old_db = empty_db\<lparr>memories := [(memory_row sample_memory)\<lparr>r_last_accessed := - 2000000000000000\<rparr>]\<rparr>"

lemma old_run:
  "\<exists>resp w'. reflect demo_ext old_service old_request (demo_world old_db) = (Inr resp, w') \<and> length (rfr_stale resp) = 1"
proof -
  let ?cfg = "cfg_staleness (svc_config old_service)"
  have cfg: "sc_type_config ?cfg = [Episodic \<mapsto> \<lparr> half_life_days = 30, stale_threshold = 0 \<rparr>]"
    by (simp add: old_service_def)
  have half: "min_half_life_days ?cfg = Some 30" by (simp add: min_half_life_days_def cfg)
  let ?m = "sample_memory\<lparr>mem_last_accessed := - 2000000000000000\<rparr>"
  have mt: "mt_from_str ''episodic'' = Inr Episodic" using mt_round_trip [of Episodic] by simp
  have cand: "get_stale_candidates ''default'' (- 1296000000000000) old_db = [?m]"
    by (simp add: get_stale_candidates_def old_db_def sample_memory_def memory_row_def row_to_memory_def empty_db_def mt)
  have cut: "stale_cutoff demo_ext ?cfg 0 = Inr (- 1296000000000000)"
    by (simp add: stale_cutoff_def half as_i64_def demo_ext_def duration_days_def nanos_per_second_def)
  obtain s where s: "staleness_score ?m 0 ?cfg = Some s"
    using staleness_score_eq [of ?cfg ?m _ 0] by (auto simp: cfg sample_memory_def)
  have thr: "threshold_for_type ?cfg (mem_type ?m) = Some 0" by (simp add: threshold_for_type_def cfg sample_memory_def)
  have sc: "score_all ?cfg 0 [?m] = Inr [(?m, s, 0)]" using s thr by simp
  have now: "x_now demo_ext 0 = 0" "w_clock (demo_world old_db) = 0"
    by (simp_all add: demo_ext_def demo_world_def)
  have "reflect_stale demo_ext ?cfg ''default'' 3 0 ((demo_world old_db)\<lparr>w_clock := 1\<rparr>)
      = (Inr (stale_candidates_of 0 3 [(?m, s, 0)], 1), (demo_world old_db)\<lparr>w_clock := 1\<rparr>)"
    by (simp add: reflect_stale_def m_bind_def cut cand sc del: score_all.simps)
  moreover have "length (stale_candidates_of 0 3 [(?m, s, 0)]) = 1"
    using staleness_bounds [OF s] by (simp add: stale_candidates_nth)
  ultimately show ?thesis
    by (simp add: reflect_def old_request_def m_bind_def now)
qed

theorem reflect_stale_ranked_witness:
  "\<exists>resp w' now. reflect demo_ext old_service old_request (demo_world old_db) = (Inr resp, w') \<and> length (rfr_stale resp) = 1
     \<and> stale_row (cfg_staleness (svc_config old_service)) now ''default'' old_db (hd (rfr_stale resp))"
proof -
  obtain resp w' where r: "reflect demo_ext old_service old_request (demo_world old_db) = (Inr resp, w')" "length (rfr_stale resp) = 1"
    using old_run by blast
  have "rf_include_stale old_request" "rf_namespace old_request = ''default''" by (simp_all add: old_request_def)
  with reflect_stale_ranked [OF r(1) _ refl] r(2) obtain now where
    "stale_row (cfg_staleness (svc_config old_service)) now ''default'' old_db (rfr_stale resp ! 0)"
    by auto
  moreover have "hd (rfr_stale resp) = rfr_stale resp ! 0" using r(2) by (intro hd_conv_nth) auto
  ultimately show ?thesis using r by auto
qed

end
