(* ===== verification/ProxyTrack.thy ===== *)
theory ProxyTrack
  imports Wire
begin

text \<open>
  Following the JSON-RPC traffic between a client and the daemon
  (\<open>crates/server/src/proxy/track.rs\<close>): which requests are unanswered, the cached handshake,
  the first request kept for a re-send, and how a client line is handled while the link is up,
  down or being restored. The order in which a hash map is drained is a parameter.
\<close>

section \<open>Lines\<close>

definition INITIALIZE :: string where "INITIALIZE = ''initialize''"
definition INITIALIZED :: string where "INITIALIZED = ''notifications/initialized''"

record envelope =
  env_id :: "json option"
  env_method :: "string option"
  env_result :: bool
  env_error :: bool

definition ascii_space :: "char \<Rightarrow> bool" where
  "ascii_space c \<longleftrightarrow> c \<in> {CHR '' '', CHR 0x09, CHR 0x0A, CHR 0x0C, CHR 0x0D}"

text \<open>
  The derived \<open>Deserialize\<close>: a known member that occurs twice is an error, a \<open>method\<close> that is
  neither a string nor \<open>null\<close> is one too, and unknown members are skipped.
\<close>

definition member_of :: "(string \<times> json) list \<Rightarrow> string \<Rightarrow> json option" where
  "member_of ms name = map_of ms name"

definition envelope_of :: "(string \<times> json) list \<Rightarrow> envelope option" where
  "envelope_of ms =
     (if list_ex (repeated ms) [''id'', ''method'', ''result'', ''error''] then None
      else case member_of ms ''method'' of
        Some (JStr m) \<Rightarrow> Some \<lparr> env_id = member_of ms ''id'', env_method = Some m,
            env_result = (member_of ms ''result'' \<noteq> None), env_error = (member_of ms ''error'' \<noteq> None) \<rparr>
      | Some JNull \<Rightarrow> Some \<lparr> env_id = member_of ms ''id'', env_method = None,
            env_result = (member_of ms ''result'' \<noteq> None), env_error = (member_of ms ''error'' \<noteq> None) \<rparr>
      | None \<Rightarrow> Some \<lparr> env_id = member_of ms ''id'', env_method = None,
            env_result = (member_of ms ''result'' \<noteq> None), env_error = (member_of ms ''error'' \<noteq> None) \<rparr>
      | Some _ \<Rightarrow> None)"

definition parse :: "json_lib \<Rightarrow> string \<Rightarrow> envelope option" where
  "parse x line =
     (case dropWhile ascii_space line of
        [] \<Rightarrow> None
      | c # _ \<Rightarrow> if c \<noteq> CHR ''{'' then None
          else (case j_parse x line of Some (JObj ms) \<Rightarrow> envelope_of ms | _ \<Rightarrow> None))"

definition id_key :: "json_lib \<Rightarrow> json \<Rightarrow> string" where
  "id_key x i = j_print x i"

definition request_id :: "json_lib \<Rightarrow> string \<Rightarrow> json option" where
  "request_id x line =
     (case parse x line of None \<Rightarrow> None
      | Some e \<Rightarrow> (case env_method e of None \<Rightarrow> None | Some _ \<Rightarrow> env_id e))"

datatype rpc_outcome = Success | Error

definition response_outcome :: "json_lib \<Rightarrow> string \<Rightarrow> json \<Rightarrow> rpc_outcome option" where
  "response_outcome x line i =
     (case parse x line of None \<Rightarrow> None
      | Some e \<Rightarrow> (case (env_id e, env_method e) of
          (Some got, None) \<Rightarrow>
            if id_key x got \<noteq> id_key x i then None
            else if env_error e then Some Error
            else if env_result e then Some Success else None
        | _ \<Rightarrow> None))"

definition counts_for_lifecycle :: "string \<Rightarrow> bool" where
  "counts_for_lifecycle m \<longleftrightarrow> m \<noteq> ''ping'' \<and> m \<noteq> ''server/discover''"

section \<open>The tracker\<close>

datatype client_line = Request | Notification | CacheOnly | Untracked
datatype link = Up | Down | Reconnecting

record kept_request =
  kr_id :: json
  kr_line :: string
  kr_initialize :: bool
  kr_generation :: nat

text \<open>The requests in flight: the key of the id, the id, the method.\<close>

type_synonym flight = "(string \<times> json \<times> string) list"

record tracker =
  t_in_flight :: flight
  t_initialised :: bool
  t_initialize :: "string option"
  t_initialized :: "string option"
  t_kept_first :: "kept_request option"
  t_kept_generation :: nat
  t_link :: link
  t_replay_started :: bool

definition new_tracker :: tracker where
  "new_tracker = \<lparr> t_in_flight = [], t_initialised = False, t_initialize = None, t_initialized = None,
     t_kept_first = None, t_kept_generation = 0, t_link = Up, t_replay_started = False \<rparr>"

definition replays_handshake :: "tracker \<Rightarrow> bool" where
  "replays_handshake t \<longleftrightarrow> t_initialised t \<and> t_initialize t \<noteq> None"

definition keep_first :: "json \<Rightarrow> string \<Rightarrow> string \<Rightarrow> tracker \<Rightarrow> tracker" where
  "keep_first i meth line t =
     (if t_initialised t then t
      else let t' = (if meth = INITIALIZE then t\<lparr>t_initialize := Some line\<rparr> else t) in
        if t_kept_first t' = None \<and> counts_for_lifecycle meth
        then t'\<lparr>t_kept_generation := t_kept_generation t' + 1,
          t_kept_first := Some \<lparr> kr_id = i, kr_line = line, kr_initialize = (meth = INITIALIZE),
            kr_generation = t_kept_generation t' + 1 \<rparr>\<rparr>
        else t')"

definition on_client_line :: "json_lib \<Rightarrow> string \<Rightarrow> tracker \<Rightarrow> client_line \<times> tracker" where
  "on_client_line x line t =
     (case parse x line of None \<Rightarrow> (Untracked, t)
      | Some e \<Rightarrow> (case env_method e of None \<Rightarrow> (Untracked, t)
        | Some meth \<Rightarrow> (case env_id e of
            None \<Rightarrow>
              if meth = INITIALIZED
              then (let t' = t\<lparr>t_initialized := Some line\<rparr> in
                if t_link t' = Reconnecting \<and> replays_handshake t' \<and> \<not> t_replay_started t'
                then (CacheOnly, t') else (Notification, t'))
              else (Notification, t)
          | Some i \<Rightarrow>
              let t' = keep_first i meth line t in
              (Request, t'\<lparr>t_in_flight := rows_put fst (id_key x i, i, meth) (t_in_flight t')\<rparr>))))"

definition on_daemon_line :: "json_lib \<Rightarrow> string \<Rightarrow> tracker \<Rightarrow> tracker" where
  "on_daemon_line x line t =
     (case parse x line of None \<Rightarrow> t
      | Some e \<Rightarrow> (case (env_id e, env_method e) of
          (Some i, None) \<Rightarrow>
            (case rows_get fst (id_key x i) (t_in_flight t) of None \<Rightarrow> t
             | Some (_, _, meth) \<Rightarrow>
                 let t' = t\<lparr>t_in_flight := rows_del fst [id_key x i] (t_in_flight t)\<rparr> in
                 if t_initialised t' then t'
                 else if env_result e \<and> counts_for_lifecycle meth
                   then t'\<lparr>t_initialised := True, t_kept_first := None\<rparr>
                 else if env_error e \<and> (case t_kept_first t' of None \<Rightarrow> False | Some k \<Rightarrow> kr_id k = i)
                   then t'\<lparr>t_kept_first := None\<rparr>
                 else t')
        | _ \<Rightarrow> t))"

definition set_link :: "link \<Rightarrow> tracker \<Rightarrow> tracker" where
  "set_link l t = t\<lparr>t_link := l, t_replay_started := False\<rparr>"

definition mark_replay_started :: "tracker \<Rightarrow> tracker" where
  "mark_replay_started t = t\<lparr>t_replay_started := True\<rparr>"

definition take_in_flight :: "json_lib \<Rightarrow> tracker \<Rightarrow> json list \<times> tracker" where
  "take_in_flight x t = (j_drain x (map (fst \<circ> snd) (t_in_flight t)), t\<lparr>t_in_flight := []\<rparr>)"

definition take_in_flight_except :: "json_lib \<Rightarrow> json \<Rightarrow> tracker \<Rightarrow> json list \<times> tracker" where
  "take_in_flight_except x keep t =
     (j_drain x (map (fst \<circ> snd) (filter (\<lambda>r. fst r \<noteq> id_key x keep) (t_in_flight t))),
      t\<lparr>t_in_flight := filter (\<lambda>r. fst r = id_key x keep) (t_in_flight t)\<rparr>)"

definition has_in_flight :: "tracker \<Rightarrow> bool" where
  "has_in_flight t \<longleftrightarrow> t_in_flight t \<noteq> []"

definition is_in_flight :: "json_lib \<Rightarrow> json \<Rightarrow> tracker \<Rightarrow> bool" where
  "is_in_flight x i t \<longleftrightarrow> id_key x i \<in> fst ` set (t_in_flight t)"

definition kept_in_flight :: "json_lib \<Rightarrow> tracker \<Rightarrow> kept_request option" where
  "kept_in_flight x t =
     (case t_kept_first t of None \<Rightarrow> None
      | Some k \<Rightarrow> if is_in_flight x (kr_id k) t then Some k else None)"

end
