(* ===== verification/Handshake.thy ===== *)
theory Handshake
  imports Wire World
begin

text \<open>
  The hello a proxy and the daemon exchange on a new connection
  (\<open>crates/server/src/daemon/handshake.rs\<close>) and the daemon's answer to it
  (\<open>accept_hello\<close> of \<open>daemon/session.rs\<close>).
\<close>

section \<open>Messages\<close>

definition PROTOCOL_VERSION :: nat where "PROTOCOL_VERSION = 1"

record hello =
  h_version :: nat
  h_key :: string
  h_namespace :: string

datatype refusal_kind = RefuseProtocol | RefuseKey | RefuseInit | RefuseSession

record hello_reply =
  hr_ok :: bool
  hr_kind :: "refusal_kind option"
  hr_error :: "string option"

definition hello_new :: "string \<Rightarrow> string \<Rightarrow> hello" where
  "hello_new key ns = \<lparr> h_version = PROTOCOL_VERSION, h_key = key, h_namespace = ns \<rparr>"

definition refuse :: "refusal_kind \<Rightarrow> string \<Rightarrow> hello_reply" where
  "refuse kind message = \<lparr> hr_ok = False, hr_kind = Some kind, hr_error = Some message \<rparr>"

definition reply_ok :: hello_reply where
  "reply_ok = \<lparr> hr_ok = True, hr_kind = None, hr_error = None \<rparr>"

section \<open>The wire format\<close>

definition hello_json :: "hello \<Rightarrow> json" where
  "hello_json h = JObj [(''ferrex_hello'', JNum (show_nat (h_version h))), (''key'', JStr (h_key h)),
     (''namespace'', JStr (h_namespace h))]"

definition encode_hello :: "json_lib \<Rightarrow> hello \<Rightarrow> string" where
  "encode_hello x h = encode_line x (hello_json h)"

text \<open>The derived \<open>Deserialize\<close> of the three members; other members are ignored.\<close>

definition hello_of :: "json \<Rightarrow> hello option" where
  "hello_of v =
     (case (Option.bind (get_member ''ferrex_hello'' v) as_u64, Option.bind (get_member ''key'' v) as_string,
            Option.bind (get_member ''namespace'' v) as_string) of
        (Some n, Some k, Some ns) \<Rightarrow>
          if n < 2 ^ 32 then Some \<lparr> h_version = n, h_key = k, h_namespace = ns \<rparr> else None
      | _ \<Rightarrow> None)"

definition decode_hello :: "json_lib \<Rightarrow> string \<Rightarrow> hello_reply + hello" where
  "decode_hello x line =
     (case j_parse x (trim line) of
        None \<Rightarrow> Inl (refuse RefuseProtocol (''malformed hello: '' @ j_error_text x (trim line)))
      | Some v \<Rightarrow>
          let version = Option.bind (get_member ''ferrex_hello'' v) as_u64 in
          if version \<noteq> Some PROTOCOL_VERSION
          then Inl (refuse RefuseProtocol (''protocol version mismatch: proxy sent ''
                 @ (case version of None \<Rightarrow> ''missing'' | Some n \<Rightarrow> show_nat n)
                 @ '', daemon speaks '' @ show_nat PROTOCOL_VERSION))
          else (case hello_of v of
              None \<Rightarrow> Inl (refuse RefuseProtocol (''malformed hello: '' @ j_error_text x (trim line)))
            | Some h \<Rightarrow> Inr h))"

definition check_key :: "string \<Rightarrow> hello \<Rightarrow> hello_reply + unit" where
  "check_key key h =
     (if h_key h = key then Inr ()
      else Inl (refuse RefuseKey (''key mismatch: proxy sent '' @ h_key h @ '', daemon is '' @ key)))"

fun kind_name :: "refusal_kind \<Rightarrow> string" where
  "kind_name RefuseProtocol = ''protocol''"
| "kind_name RefuseKey = ''key''"
| "kind_name RefuseInit = ''init''"
| "kind_name RefuseSession = ''session''"

definition kind_of_name :: "string \<Rightarrow> refusal_kind option" where
  "kind_of_name s = find (\<lambda>k. kind_name k = s) [RefuseProtocol, RefuseKey, RefuseInit, RefuseSession]"

text \<open>A reply leaves out the members that are \<open>None\<close>.\<close>

definition reply_json :: "hello_reply \<Rightarrow> json" where
  "reply_json r = JObj ([(''ok'', JBool (hr_ok r))]
     @ (case hr_kind r of None \<Rightarrow> [] | Some k \<Rightarrow> [(''kind'', JStr (kind_name k))])
     @ (case hr_error r of None \<Rightarrow> [] | Some e \<Rightarrow> [(''error'', JStr e)]))"

definition encode_reply :: "json_lib \<Rightarrow> hello_reply \<Rightarrow> string" where
  "encode_reply x r = encode_line x (reply_json r)"

text \<open>
  The derived \<open>Deserialize\<close>, straight from the text: an optional member is absent, \<open>null\<close> or a value
  its reader accepts; a kind may also be written \<open>{kind: null}\<close>, and the whole reply as an array.
\<close>

definition opt_value :: "(json \<Rightarrow> 'a option) \<Rightarrow> json option \<Rightarrow> 'a option option" where
  "opt_value rd v =
     (case v of None \<Rightarrow> Some None | Some JNull \<Rightarrow> Some None | Some w \<Rightarrow> map_option Some (rd w))"

definition read_kind :: "json \<Rightarrow> refusal_kind option" where
  "read_kind v =
     (case v of JStr s \<Rightarrow> kind_of_name s | JObj [(s, JNull)] \<Rightarrow> kind_of_name s | _ \<Rightarrow> None)"

definition reply_fields :: "json option \<Rightarrow> json option \<Rightarrow> json option \<Rightarrow> hello_reply option" where
  "reply_fields fine kind error =
     (case (fine, opt_value read_kind kind, opt_value as_string error) of
        (Some (JBool b), Some k, Some e) \<Rightarrow> Some \<lparr> hr_ok = b, hr_kind = k, hr_error = e \<rparr>
      | _ \<Rightarrow> None)"

definition reply_of :: "json \<Rightarrow> hello_reply option" where
  "reply_of v =
     (case v of
        JObj ms \<Rightarrow> if list_ex (repeated ms) [''ok'', ''kind'', ''error''] then None
          else reply_fields (map_of ms ''ok'') (map_of ms ''kind'') (map_of ms ''error'')
      | JArr [a, b, c] \<Rightarrow> reply_fields (Some a) (Some b) (Some c)
      | _ \<Rightarrow> None)"

definition decode_reply :: "json_lib \<Rightarrow> string \<Rightarrow> string + hello_reply" where
  "decode_reply x line =
     (case Option.bind (j_parse x (trim line)) reply_of of
        None \<Rightarrow> Inl (''malformed hello reply: '' @ j_error_text x (trim line))
      | Some r \<Rightarrow> Inr r)"

section \<open>The daemon's answer\<close>

fun store_error_text :: "store_error \<Rightarrow> string" where
  "store_error_text (SqliteErr e) = ''sqlite error: '' @ e"
| "store_error_text (QdrantErr e) = ''qdrant error: '' @ e"
| "store_error_text (PoolErr e) = ''connection pool: '' @ e"
| "store_error_text (SidecarErr e) = ''sidecar error: '' @ e"
| "store_error_text (NotFoundErr e) = ''not found: '' @ e"
| "store_error_text (SerializationErr e) = ''serialization error: '' @ e"
| "store_error_text (TaskJoinErr e) = ''task join error: '' @ e"

text \<open>\<open>Inl\<close> is a refusal; \<open>Inr\<close> the service with the session's namespace.\<close>

definition accept_hello ::
    "json_lib \<Rightarrow> ('q, 'e, 'r) ext \<Rightarrow> string \<Rightarrow> string \<Rightarrow> string + service \<Rightarrow> 'q vstore \<Rightarrow>
     (hello_reply + service \<times> string) \<times> 'q vstore" where
  "accept_hello x ex key line init v =
     (case init of
        Inl e \<Rightarrow> (Inl (refuse RefuseInit e), v)
      | Inr service \<Rightarrow>
          (case decode_hello x line of
             Inl r \<Rightarrow> (Inl r, v)
           | Inr h \<Rightarrow>
               (case check_key key h of
                  Inl r \<Rightarrow> (Inl r, v)
                | Inr _ \<Rightarrow>
                    (case ensure_collection ex (h_namespace h) v of
                       (Inl e, v') \<Rightarrow> (Inl (refuse RefuseSession (''namespace '' @ debug_string (h_namespace h)
                          @ '': '' @ store_error_text e)), v')
                     | (Inr _, v') \<Rightarrow> (Inr (service, h_namespace h), v')))))"

end
