(* ===== verification/Rounds.thy ===== *)
theory Rounds
  imports Handshake
begin

text \<open>
  How a proxy reaches a daemon (\<open>crates/server/src/daemon/spawn.rs\<close>): the time budgets, the
  classes of connection errors, the decision to take over a stale socket, what the answer to
  the hello means, and a round of at most three attempts with a pause before each repeated one.
\<close>

definition MAX_ATTEMPTS :: nat where "MAX_ATTEMPTS = 3"
definition BACKOFF :: "nat list" where "BACKOFF = [500, 1000]"

text \<open>Milliseconds.\<close>

record budgets =
  bu_flock :: nat
  bu_accept :: nat
  bu_hello :: nat
  bu_replay :: nat
  bu_drain :: nat

definition budgets_from_env :: "string option \<Rightarrow> budgets" where
  "budgets_from_env ms =
     (case Option.bind ms parse_u64 of
        None \<Rightarrow> \<lparr> bu_flock = 300000, bu_accept = 30000, bu_hello = 3600000, bu_replay = 30000, bu_drain = 10000 \<rparr>
      | Some n \<Rightarrow> \<lparr> bu_flock = n, bu_accept = n, bu_hello = n, bu_replay = n, bu_drain = n \<rparr>)"

record attempt_error =
  ae_kind :: "refusal_kind option"
  ae_retryable :: bool
  ae_child_exited_early :: bool
  ae_message :: string

definition retryable :: "string \<Rightarrow> attempt_error" where
  "retryable m = \<lparr> ae_kind = None, ae_retryable = True, ae_child_exited_early = False, ae_message = m \<rparr>"

definition fatal :: "string \<Rightarrow> attempt_error" where
  "fatal m = \<lparr> ae_kind = None, ae_retryable = False, ae_child_exited_early = False, ae_message = m \<rparr>"

record round_error =
  re_last :: attempt_error
  re_any_child_exited_early :: bool

section \<open>Connecting\<close>

datatype io_kind = NotFound | ConnectionRefused | WouldBlock | Interrupted | TimedOut | OtherKind

record io_error =
  io_kind :: io_kind
  io_errno :: "int option"
  io_text :: string

datatype connect_class = StaleSocket | BusySocket | OtherSocket

text \<open>\<open>notsock\<close> is the platform's \<open>ENOTSOCK\<close>.\<close>

definition classify_connect_error :: "int \<Rightarrow> io_error \<Rightarrow> connect_class" where
  "classify_connect_error notsock e =
     (case io_kind e of
        NotFound \<Rightarrow> StaleSocket | ConnectionRefused \<Rightarrow> StaleSocket
      | WouldBlock \<Rightarrow> BusySocket | Interrupted \<Rightarrow> BusySocket | TimedOut \<Rightarrow> BusySocket
      | OtherKind \<Rightarrow> if io_errno e = Some notsock then StaleSocket else OtherSocket)"

definition log_hint :: "string \<Rightarrow> string option \<Rightarrow> string" where
  "log_hint log_file env_log =
     (case env_log of None \<Rightarrow> ''see '' @ log_file
      | Some l \<Rightarrow> ''see '' @ log_file @ '' and '' @ l)"

text \<open>
  What the second connection attempt, made with the spawn lock held, decides: use the
  connection, give up for now, or remove the socket and start a daemon.
\<close>

datatype takeover = UseStream | GiveUp attempt_error | RemoveAndSpawn

definition decide_takeover :: "int \<Rightarrow> string \<Rightarrow> bool \<Rightarrow> io_error option \<Rightarrow> takeover" where
  "decide_takeover notsock socket pid_held second =
     (case second of
        None \<Rightarrow> UseStream
      | Some e \<Rightarrow> (case classify_connect_error notsock e of
          StaleSocket \<Rightarrow>
            if io_kind e \<noteq> NotFound \<and> pid_held
            then GiveUp (retryable (''daemon at '' @ socket @ '' is alive but refused the connection: '' @ io_text e))
            else RemoveAndSpawn
        | BusySocket \<Rightarrow> GiveUp (retryable (''daemon at '' @ socket @ '' is busy: '' @ io_text e))
        | OtherSocket \<Rightarrow> GiveUp (retryable (''connect '' @ socket @ '': '' @ io_text e))))"

section \<open>The answer to the hello\<close>

datatype hello_io = HelloTimeout | HelloFailed string | HelloEof | HelloLine string

definition kind_debug :: "refusal_kind \<Rightarrow> string" where
  "kind_debug k = (case k of RefuseProtocol \<Rightarrow> ''Protocol'' | RefuseKey \<Rightarrow> ''Key'' | RefuseInit \<Rightarrow> ''Init'' | RefuseSession \<Rightarrow> ''Session'')"

definition send_hello :: "json_lib \<Rightarrow> string \<Rightarrow> string \<Rightarrow> hello_io \<Rightarrow> attempt_error + string" where
  "send_hello x timeout key io =
     (case io of
        HelloTimeout \<Rightarrow> Inl (fatal (''daemon did not answer the hello within '' @ timeout))
      | HelloFailed e \<Rightarrow> Inl (retryable (''hello exchange failed: '' @ e))
      | HelloEof \<Rightarrow> Inl (retryable ''daemon closed the connection before replying to the hello'')
      | HelloLine line \<Rightarrow>
          if line = [] \<or> last line \<noteq> CHR 0x0A
          then Inl (retryable ''daemon closed the connection mid-reply to the hello'')
          else (case decode_reply x line of
              Inl message \<Rightarrow> Inl \<lparr> ae_kind = Some RefuseProtocol, ae_retryable = False,
                ae_child_exited_early = False, ae_message = message \<rparr>
            | Inr reply \<Rightarrow>
                if hr_ok reply then Inr key
                else let kind = (case hr_kind reply of None \<Rightarrow> RefuseProtocol | Some k \<Rightarrow> k) in
                  Inl \<lparr> ae_kind = Some kind, ae_retryable = (kind = RefuseKey \<or> kind = RefuseSession),
                    ae_child_exited_early = False,
                    ae_message = ''daemon refused the hello ('' @ kind_debug kind @ ''): ''
                      @ (case hr_error reply of None \<Rightarrow> ''no reason given'' | Some e \<Rightarrow> e) \<rparr>))"

section \<open>Rounds\<close>

text \<open>The pause before an attempt, in milliseconds: none before the first.\<close>

definition backoff :: "nat \<Rightarrow> nat" where
  "backoff attempts = (if attempts = 0 then 0 else BACKOFF ! min (attempts - 1) (length BACKOFF - 1))"

definition attempt_outcome ::
    "(nat \<Rightarrow> attempt_error + 'r) \<Rightarrow> (nat \<Rightarrow> 'r \<Rightarrow> attempt_error + 'a) \<Rightarrow> nat \<Rightarrow> attempt_error + 'a" where
  "attempt_outcome res attempt n =
     (case res n of Inr r \<Rightarrow> attempt n r | Inl e \<Rightarrow> Inl (retryable (ae_message e)))"

text \<open>
  \<open>res n\<close> and \<open>attempt n\<close> are what the \<open>n\<close>-th attempt meets. The result comes with the
  attempts used and the time spent pausing.
\<close>

function run_round ::
    "(nat \<Rightarrow> attempt_error + 'r) \<Rightarrow> (nat \<Rightarrow> 'r \<Rightarrow> attempt_error + 'a) \<Rightarrow> nat \<Rightarrow> bool \<Rightarrow> nat \<Rightarrow>
      (round_error + 'a \<times> nat) \<times> nat" where
  "run_round res attempt attempts early paused =
     (let paused = paused + backoff attempts;
          n = attempts + 1
      in case attempt_outcome res attempt n of
           Inr v \<Rightarrow> (Inr (v, n), paused)
         | Inl failure \<Rightarrow>
             let early = early \<or> ae_child_exited_early failure in
             if \<not> ae_retryable failure \<or> MAX_ATTEMPTS \<le> n
             then (Inl \<lparr> re_last = failure, re_any_child_exited_early = early \<rparr>, paused)
             else run_round res attempt n early paused)"
  by pat_completeness auto
termination
  by (relation "measure (\<lambda>(_, _, attempts, _, _). MAX_ATTEMPTS - attempts)") auto

declare run_round.simps [simp del]

text \<open>What a round can return.\<close>

lemma run_round_cases:
  assumes "used < MAX_ATTEMPTS"
  obtains (done_in) v n where "run_round res attempt used early paused =
        (Inr (v, n), paused + sum_list (map backoff [used..<n]))" "used < n" "n \<le> MAX_ATTEMPTS"
        "attempt_outcome res attempt n = Inr v"
        "\<forall>j. used < j \<and> j < n \<longrightarrow> (\<exists>e. attempt_outcome res attempt j = Inl e \<and> ae_retryable e)"
    | (failed) e n where "run_round res attempt used early paused =
        (Inl e, paused + sum_list (map backoff [used..<n]))" "used < n" "n \<le> MAX_ATTEMPTS"
        "attempt_outcome res attempt n = Inl (re_last e)" "ae_retryable (re_last e) \<longrightarrow> n = MAX_ATTEMPTS"
        "\<forall>j. used < j \<and> j < n \<longrightarrow> (\<exists>e. attempt_outcome res attempt j = Inl e \<and> ae_retryable e)"
  using assms
proof (induction res attempt used early paused arbitrary: thesis rule: run_round.induct)
  case (1 res attempt used early paused)
  let ?now = "attempt_outcome res attempt (used + 1)"
  note unf = run_round.simps [of res attempt used early paused, unfolded Let_def]
  have up: "[used..<Suc used] = [used]" by simp
  show ?case
  proof (cases ?now)
    case (Inr v)
    show ?thesis
      by (rule 1(2) [of v "used + 1"]) (use 1(4) in \<open>auto simp: unf Inr [simplified]\<close>)
  next
    case (Inl e)
    define early' where "early' = (early \<or> ae_child_exited_early e)"
    show ?thesis
    proof (cases "\<not> ae_retryable e \<or> MAX_ATTEMPTS \<le> used + 1")
      case True
      show ?thesis
        by (rule 1(3) [of "\<lparr> re_last = e, re_any_child_exited_early = early' \<rparr>" "used + 1"])
          (use 1(4) True in \<open>auto simp add: unf Inl [simplified] early'_def\<close>)
    next
      case False
      then have lt: "used + 1 < MAX_ATTEMPTS" by simp
      have run: "run_round res attempt used early paused =
          run_round res attempt (used + 1) early' (paused + backoff used)"
        using False by (simp add: unf Inl [simplified] early'_def)
      have bo: "backoff used + sum_list (map backoff [used + 1..<n]) = sum_list (map backoff [used..<n])"
        if "used + 1 < n" for n using that by (simp add: upt_conv_Cons)
      have js: "\<exists>e. attempt_outcome res attempt j = Inl e \<and> ae_retryable e"
        if "\<forall>j. used + 1 < j \<and> j < n \<longrightarrow> (\<exists>e. attempt_outcome res attempt j = Inl e \<and> ae_retryable e)"
          "used < j" "j < n" for j n
        using that Inl False by (cases "j = used + 1") auto
      show ?thesis
      proof (rule 1(1) [OF refl refl Inl refl])
        show "\<not> (\<not> ae_retryable e \<or> MAX_ATTEMPTS \<le> used + 1)" by (rule False)
        show "used + 1 < MAX_ATTEMPTS" by (rule lt)
      next
        fix v n
        assume "run_round res attempt (used + 1) (early \<or> ae_child_exited_early e) (paused + backoff used) =
            (Inr (v, n), paused + backoff used + sum_list (map backoff [used + 1..<n]))"
          "used + 1 < n" "n \<le> MAX_ATTEMPTS" "attempt_outcome res attempt n = Inr v"
          "\<forall>j. used + 1 < j \<and> j < n \<longrightarrow> (\<exists>e. attempt_outcome res attempt j = Inl e \<and> ae_retryable e)"
        then show thesis
          using run bo [of n] js [of n] by (intro 1(2) [of v n]) (auto simp: early'_def add.assoc)
      next
        fix d n
        assume "run_round res attempt (used + 1) (early \<or> ae_child_exited_early e) (paused + backoff used) =
            (Inl d, paused + backoff used + sum_list (map backoff [used + 1..<n]))"
          "used + 1 < n" "n \<le> MAX_ATTEMPTS" "attempt_outcome res attempt n = Inl (re_last d)"
          "ae_retryable (re_last d) \<longrightarrow> n = MAX_ATTEMPTS"
          "\<forall>j. used + 1 < j \<and> j < n \<longrightarrow> (\<exists>e. attempt_outcome res attempt j = Inl e \<and> ae_retryable e)"
        then show thesis
          using run bo [of n] js [of n] by (intro 1(3) [of d n]) (auto simp: early'_def add.assoc)
      qed
    qed
  qed
qed

lemma backoff_values: "backoff 0 = 0" "backoff (Suc 0) = 500" "backoff (Suc (Suc 0)) = 1000"
  by (simp_all add: backoff_def BACKOFF_def)

lemma backoff_total:
  assumes "used < n" and "n \<le> MAX_ATTEMPTS"
  shows "sum_list (map backoff [used..<n]) \<le> 1500"
proof -
  have "n = 1 \<or> n = 2 \<or> n = 3" "used = 0 \<or> used = 1 \<or> used = 2"
    using assms by (auto simp: MAX_ATTEMPTS_def)
  with assms(1) show ?thesis
    by (elim disjE) (simp_all add: backoff_values upt_conv_Cons numeral_2_eq_2 numeral_3_eq_3)
qed

text \<open>
  A round makes at most three attempts, counting those an interrupted round before it has
  used, and pauses for at most a second and a half altogether. It returns the first success,
  after retryable failures only, or the failure of the last attempt, which was either not
  retryable or the third.
\<close>

theorem round_bounds:
  assumes "used < MAX_ATTEMPTS" and "run_round res attempt used False 0 = (r, paused)"
  shows "paused \<le> 1500 \<and> (\<exists>n. used < n \<and> n \<le> MAX_ATTEMPTS
    \<and> (\<forall>j. used < j \<and> j < n \<longrightarrow> (\<exists>e. attempt_outcome res attempt j = Inl e \<and> ae_retryable e))
    \<and> (case r of Inr (v, used') \<Rightarrow> used' = n \<and> attempt_outcome res attempt n = Inr v
       | Inl e \<Rightarrow> attempt_outcome res attempt n = Inl (re_last e)
           \<and> (ae_retryable (re_last e) \<longrightarrow> n = MAX_ATTEMPTS)))"
  using assms(1)
proof (cases rule: run_round_cases [of used res attempt False 0])
  case (done_in v n)
  with assms(2) backoff_total [of used n] show ?thesis by (intro conjI exI [of _ n]) auto
next
  case (failed e n)
  with assms(2) backoff_total [of used n] show ?thesis by (intro conjI exI [of _ n]) auto
qed

text \<open>A key mismatch, then a daemon that answers: two attempts and half a second.\<close>

theorem round_bounds_witness:
  "run_round (\<lambda>_. Inr ()) (\<lambda>n _. if n = 1 then Inl (retryable ''key'') else Inr n) 0 False 0 = (Inr (2, 2), 500)
   \<and> (500::nat) \<le> 1500"
proof -
  have run: "run_round (\<lambda>_. Inr ()) (\<lambda>n _. if n = 1 then Inl (retryable ''key'') else Inr n) 0 False 0 = (Inr (2, 2), 500)"
    by (simp add: run_round.simps [of _ _ 0] run_round.simps [of _ _ "Suc 0"] attempt_outcome_def retryable_def MAX_ATTEMPTS_def
        backoff_values numeral_2_eq_2 Let_def)
  from round_bounds [OF _ run] show ?thesis using run by (simp add: MAX_ATTEMPTS_def)
qed

end
