(* ===== verification/Machine.thy ===== *)
theory Machine
  imports Prelude
begin

text \<open>
  State machines whose steps are executable: an event either has a successor state or cannot
  happen. The locale states what an inductive predicate of reachable states promises; runs of
  concrete events and invariants follow once and for all.
\<close>

fun run_events :: "('e \<Rightarrow> 's \<Rightarrow> 's option) \<Rightarrow> 'e list \<Rightarrow> 's \<Rightarrow> 's option" where
  "run_events step [] s = Some s"
| "run_events step (e # es) s = Option.bind (step e s) (run_events step es)"

lemma run_events_append:
  "run_events step (es @ fs) s = Option.bind (run_events step es s) (run_events step fs)"
  by (induction es arbitrary: s) (auto intro: Option.bind_cong)

locale machine =
  fixes step :: "'e \<Rightarrow> 's \<Rightarrow> 's option" and init :: "'s \<Rightarrow> bool" and reachable :: "'s \<Rightarrow> bool"
  assumes starts: "init s \<Longrightarrow> reachable s"
    and steps: "reachable s \<Longrightarrow> step e s = Some t \<Longrightarrow> reachable t"
    and least: "reachable s \<Longrightarrow> (\<And>s. init s \<Longrightarrow> P s) \<Longrightarrow>
      (\<And>s e t. reachable s \<Longrightarrow> P s \<Longrightarrow> step e s = Some t \<Longrightarrow> P t) \<Longrightarrow> P s"
begin

lemma runs: "run_events step es s = Some t \<Longrightarrow> reachable s \<Longrightarrow> reachable t"
proof (induction es arbitrary: s)
  case (Cons e es)
  then obtain u where "step e s = Some u" "run_events step es u = Some t" by (auto simp: bind_eq_Some_conv)
  with Cons.IH [of u] Cons.prems(2) steps show ?case by blast
qed simp

lemma run_from_start: "run_events step es s = Some t \<Longrightarrow> init s \<Longrightarrow> reachable t"
  using runs starts by blast

lemma invariant:
  assumes "reachable s" and "\<And>s. init s \<Longrightarrow> P s" and "\<And>s e t. P s \<Longrightarrow> step e s = Some t \<Longrightarrow> P t"
  shows "P s"
  using least [OF assms(1), of P] assms(2,3) by blast

end

end
