(* ===== verification/ProxyLoop.thy ===== *)
theory ProxyLoop
  imports ProxyTrack Rounds Machine
begin

text \<open>
  The proxy between a client's stdio and the shared daemon (\<open>crates/server/src/proxy.rs\<close>,
  \<open>proxy/reconnect.rs\<close>, the held line of \<open>proxy/budget.rs\<close>) as a state machine. Two tasks run
  side by side: the main loop, and the pump that copies daemon lines to stdout. An event is one
  arm of a \<open>select!\<close>, one handler, or one part of the pump between two points where it can be
  interrupted; which events happen, and in which order, is the choice of the environment.
\<close>

section \<open>Reconnecting\<close>

definition RESTART_CODE :: string where "RESTART_CODE = ''-32603''"
definition RESTART_MESSAGE :: string where "RESTART_MESSAGE = ''ferrex daemon restarted, retry''"
definition MCP_HINT :: string where
  "MCP_HINT = ''run /mcp reconnect so Claude starts the new ferrex binary''"

definition LIST_CHANGED :: string where
  "LIST_CHANGED =
     ''{'' @ debug_string ''jsonrpc'' @ '':'' @ debug_string ''2.0'' @ '','' @ debug_string ''method'' @ '':''
       @ debug_string ''notifications/tools/list_changed'' @ ''}''"

datatype after_hello = ReplayDrop | ReplayForward | ResendKept | Nothing
datatype loss_action = WaitForRequest | ReconnectNow after_hello

record resend_pending =
  rp_generation :: nat
  rp_attempts_used :: nat

definition resend_pending_new :: "kept_request \<Rightarrow> nat \<Rightarrow> resend_pending" where
  "resend_pending_new kept attempts = \<lparr> rp_generation = kr_generation kept, rp_attempts_used = attempts \<rparr>"

definition attempts_carried :: "json_lib \<Rightarrow> tracker \<Rightarrow> resend_pending \<Rightarrow> nat" where
  "attempts_carried x t p =
     (case kept_in_flight x t of None \<Rightarrow> 0
      | Some kept \<Rightarrow> if kr_generation kept = rp_generation p then rp_attempts_used p else 0)"

definition needs_mcp_hint :: "attempt_error \<Rightarrow> bool \<Rightarrow> bool \<Rightarrow> bool \<Rightarrow> bool" where
  "needs_mcp_hint err exe_exists child_exited_early mtime_changed \<longleftrightarrow>
     ae_kind err = Some RefuseProtocol \<or> \<not> exe_exists \<or> (child_exited_early \<and> mtime_changed)"

definition failure_message :: "round_error \<Rightarrow> bool \<Rightarrow> bool \<Rightarrow> string" where
  "failure_message err exe_exists mtime_changed =
     (let message = ''ferrex daemon unavailable: '' @ ae_message (re_last err) in
      if needs_mcp_hint (re_last err) exe_exists (re_any_child_exited_early err) mtime_changed
      then message @ ''; '' @ MCP_HINT else message)"

section \<open>Output\<close>

datatype out = OutLine string | OutExit nat

definition rpc_error :: "json \<Rightarrow> string \<Rightarrow> string \<Rightarrow> json" where
  "rpc_error i code message =
     JObj [(''jsonrpc'', JStr ''2.0''), (''id'', i),
       (''error'', JObj [(''code'', JNum code), (''message'', JStr message)])]"

definition jsonrpc_error :: "json_lib \<Rightarrow> json \<Rightarrow> string \<Rightarrow> string \<Rightarrow> string" where
  "jsonrpc_error x i code message = j_print x (rpc_error i code message)"

definition answer_lines :: "json_lib \<Rightarrow> json list \<Rightarrow> string \<Rightarrow> out list" where
  "answer_lines x ids message = map (\<lambda>i. OutLine (jsonrpc_error x i RESTART_CODE message @ newline)) ids"

text \<open>The writer thread: it writes the lines in order and stops at the first exit.\<close>

fun written_lines :: "out list \<Rightarrow> string list" where
  "written_lines [] = []"
| "written_lines (OutLine l # rest) = l # written_lines rest"
| "written_lines (OutExit code # rest) = []"

section \<open>State\<close>

text \<open>
  The main loop: \<open>Starting n\<close> is the first round, in its \<open>n\<close>-th attempt; \<open>Flushing\<close>,
  \<open>Forwarding\<close> and \<open>Draining\<close> have a connection; \<open>Losing\<close> is about to handle its loss;
  \<open>Restoring after n early snapshot\<close> is in the \<open>n\<close>-th attempt of a later round, with the
  handshake its replay has read from the cache, if it has started. \<open>Draining\<close> tells
  whether the requests in flight were checked once.
\<close>

datatype main_state =
    Starting nat
  | Flushing
  | Forwarding
  | Draining bool
  | Losing
  | Disconnected
  | Restoring after_hello nat bool "(string \<times> string option) option"
  | Exited

text \<open>The pump: \<open>Holding l\<close> waits for the stdout budget with \<open>l\<close> held, \<open>Sending l\<close> has told the
  tracker of \<open>l\<close> and not yet queued it for stdout.\<close>

datatype pump = Stopped | Reading | Holding string | Sending string

text \<open>\<open>p_out\<close> is everything queued for stdout so far, \<open>p_sent\<close> every line written to the
  current connection, and \<open>p_client\<close> every client line read: the last two only record.\<close>

record proxy =
  p_main :: main_state
  p_pump :: pump
  p_tracker :: tracker
  p_queue :: "string list"
  p_out :: "out list"
  p_sent :: "string list"
  p_initialised_at_loss :: bool
  p_pending :: "resend_pending option"
  p_answered :: bool
  p_last_key :: string
  p_client :: "string list"

definition initial_proxy :: proxy where
  "initial_proxy = \<lparr> p_main = Starting 1, p_pump = Stopped, p_tracker = new_tracker, p_queue = [], p_out = [],
     p_sent = [], p_initialised_at_loss = False, p_pending = None, p_answered = False, p_last_key = [],
     p_client = [] \<rparr>"

section \<open>Handlers\<close>

definition exit_via_writer :: "nat \<Rightarrow> proxy \<Rightarrow> proxy" where
  "exit_via_writer code p = p\<lparr>p_main := Exited, p_out := p_out p @ [OutExit code]\<rparr>"

text \<open>A new connection on which \<open>sent\<close> was already written.\<close>

definition connected :: "string list \<Rightarrow> proxy \<Rightarrow> proxy" where
  "connected sent p =
     p\<lparr>p_main := Flushing, p_pump := Reading, p_tracker := set_link Up (p_tracker p), p_sent := sent\<rparr>"

definition fail_pending :: "json_lib \<Rightarrow> string \<Rightarrow> proxy \<Rightarrow> proxy" where
  "fail_pending x message p =
     (let (ids, t) = take_in_flight x (p_tracker p)
      in p\<lparr>p_tracker := set_link Down t, p_out := p_out p @ answer_lines x ids message\<rparr>)"

definition round_failed :: "json_lib \<Rightarrow> string \<Rightarrow> proxy \<Rightarrow> proxy" where
  "round_failed x message p =
     (if \<not> t_initialised (p_tracker p) then exit_via_writer 1 p
      else (fail_pending x message p)\<lparr>p_queue := [], p_main := Disconnected\<rparr>)"

definition announce_key :: "string \<Rightarrow> proxy \<Rightarrow> proxy" where
  "announce_key key p =
     (let p' = (if p_initialised_at_loss p \<and> key \<noteq> p_last_key p
            then p\<lparr>p_out := p_out p @ [OutLine (LIST_CHANGED @ newline)]\<rparr> else p)
      in p'\<lparr>p_last_key := key\<rparr>)"

text \<open>\<open>on_daemon_line\<close> in the tracker, then the line to stdout, without a pause between.\<close>

definition forward_line :: "json_lib \<Rightarrow> string \<Rightarrow> proxy \<Rightarrow> proxy" where
  "forward_line x line p =
     p\<lparr>p_tracker := on_daemon_line x line (p_tracker p), p_out := p_out p @ [OutLine line]\<rparr>"

definition on_daemon_loss :: "json_lib \<Rightarrow> proxy \<Rightarrow> loss_action \<times> proxy" where
  "on_daemon_loss x p =
     (case kept_in_flight x (p_tracker p) of
        None \<Rightarrow> let (ids, t) = take_in_flight x (p_tracker p) in
          (WaitForRequest, p\<lparr>p_tracker := t, p_out := p_out p @ answer_lines x ids RESTART_MESSAGE\<rparr>)
      | Some kept \<Rightarrow> let (ids, t) = take_in_flight_except x (kr_id kept) (p_tracker p) in
          (ReconnectNow (if kr_initialize kept then ReplayForward else ResendKept),
           p\<lparr>p_tracker := t, p_out := p_out p @ answer_lines x ids RESTART_MESSAGE\<rparr>))"

definition take_held :: "json_lib \<Rightarrow> proxy \<Rightarrow> proxy" where
  "take_held x p = (case p_pump p of Holding line \<Rightarrow> forward_line x line p | _ \<Rightarrow> p)\<lparr>p_pump := Stopped\<rparr>"

definition on_loss :: "json_lib \<Rightarrow> proxy \<Rightarrow> proxy" where
  "on_loss x p =
     (let p1 = (take_held x p)\<lparr>p_queue := []\<rparr>;
          t = set_link Down (p_tracker p1);
          used = (case p_pending p1 of None \<Rightarrow> 0 | Some r \<Rightarrow> attempts_carried x t r);
          p2 = p1\<lparr>p_tracker := t, p_initialised_at_loss := t_initialised t, p_pending := None\<rparr>;
          (action, p3) = on_daemon_loss x p2
      in case action of
           WaitForRequest \<Rightarrow> p3\<lparr>p_main := Disconnected\<rparr>
         | ReconnectNow after \<Rightarrow>
             if MAX_ATTEMPTS \<le> used then exit_via_writer 1 p3
             else p3\<lparr>p_main := Restoring after (used + 1) False None,
               p_tracker := set_link Reconnecting (p_tracker p3)\<rparr>)"

text \<open>A client line while a round is under way, and one while there is no connection.\<close>

definition queue_line :: "json_lib \<Rightarrow> string \<Rightarrow> proxy \<Rightarrow> proxy" where
  "queue_line x line p =
     (let (cl, t) = on_client_line x line (p_tracker p)
      in p\<lparr>p_tracker := t, p_queue := (if cl \<noteq> CacheOnly then p_queue p @ [line] else p_queue p)\<rparr>)"

definition await_request :: "json_lib \<Rightarrow> string \<Rightarrow> proxy \<Rightarrow> proxy" where
  "await_request x line p =
     (let (cl, t) = on_client_line x line (p_tracker p) in
      if cl = Request
      then (let t' = set_link Reconnecting t in
        p\<lparr>p_tracker := t', p_queue := p_queue p @ [line],
          p_main := Restoring (if replays_handshake t' then ReplayDrop else Nothing) 1 False None\<rparr>)
      else p\<lparr>p_tracker := t\<rparr>)"

definition forward_client :: "json_lib \<Rightarrow> string \<Rightarrow> bool \<Rightarrow> proxy \<Rightarrow> proxy" where
  "forward_client x line written p =
     (let (_, t) = on_client_line x line (p_tracker p)
      in if written then p\<lparr>p_tracker := t, p_sent := p_sent p @ [line]\<rparr>
         else p\<lparr>p_tracker := t, p_main := Losing\<rparr>)"

text \<open>An attempt of a round fails: the round goes on, or ends.\<close>

definition attempt_failed :: "json_lib \<Rightarrow> attempt_error \<Rightarrow> bool \<Rightarrow> bool \<Rightarrow> proxy \<Rightarrow> proxy" where
  "attempt_failed x err exe_exists mtime_changed p =
     (case p_main p of
        Starting n \<Rightarrow>
          if \<not> ae_retryable err \<or> MAX_ATTEMPTS \<le> n then exit_via_writer 1 p else p\<lparr>p_main := Starting (n + 1)\<rparr>
      | Restoring after n early snap \<Rightarrow>
          let early = early \<or> ae_child_exited_early err in
          if \<not> ae_retryable err \<or> MAX_ATTEMPTS \<le> n
          then round_failed x (failure_message \<lparr> re_last = err, re_any_child_exited_early = early \<rparr> exe_exists mtime_changed) p
          else p\<lparr>p_main := Restoring after (n + 1) early None\<rparr>
      | _ \<Rightarrow> p)"

text \<open>The replay reads the cached handshake.\<close>

definition start_replay :: "json_lib \<Rightarrow> proxy \<Rightarrow> proxy option" where
  "start_replay x p =
     (case p_main p of
        Restoring ReplayDrop n early None \<Rightarrow>
          (let t = mark_replay_started (p_tracker p) in
           case t_initialize t of None \<Rightarrow> None
           | Some line \<Rightarrow> if request_id x line = None then None
               else Some (p\<lparr>p_tracker := t, p_main := Restoring ReplayDrop n early (Some (line, t_initialized t))\<rparr>))
      | _ \<Rightarrow> None)"

text \<open>An attempt succeeds; \<open>response\<close> is the answer to a forwarded \<open>initialize\<close>.\<close>

definition attempt_succeeded :: "json_lib \<Rightarrow> string \<Rightarrow> string \<Rightarrow> proxy \<Rightarrow> proxy option" where
  "attempt_succeeded x key response p =
     (case p_main p of
        Starting n \<Rightarrow> Some (connected [] (p\<lparr>p_last_key := key\<rparr>))
      | Restoring ReplayDrop n early (Some (line, notified)) \<Rightarrow>
          Some (connected (line # (case notified of None \<Rightarrow> [] | Some l \<Rightarrow> [l])) (announce_key key p))
      | Restoring ReplayForward n early _ \<Rightarrow>
          (case t_kept_first (p_tracker p) of None \<Rightarrow> None
           | Some kept \<Rightarrow> if response_outcome x response (kr_id kept) = None then None
               else Some (connected [kr_line kept] (forward_line x response (announce_key key p))))
      | Restoring ResendKept n early _ \<Rightarrow>
          (case t_kept_first (p_tracker p) of None \<Rightarrow> None
           | Some kept \<Rightarrow> Some (connected [kr_line kept]
               ((announce_key key p)\<lparr>p_pending := Some (resend_pending_new kept n)\<rparr>)))
      | Restoring Nothing n early _ \<Rightarrow> Some (connected [] (announce_key key p))
      | _ \<Rightarrow> None)"

section \<open>Events\<close>

datatype event =
    ClientLine string bool
  | ClientEof
  | Flush bool
  | StartReplay
  | AttemptFails attempt_error bool bool
  | AttemptSucceeds string string
  | LossNoticed
  | HandleLoss
  | DrainCheck
  | DrainTimeout
  | PumpRead string
  | PumpEof
  | PumpTrack
  | PumpSend

definition note_client :: "string \<Rightarrow> proxy \<Rightarrow> proxy" where
  "note_client line p = p\<lparr>p_client := p_client p @ [line]\<rparr>"

definition on_client_event :: "json_lib \<Rightarrow> string \<Rightarrow> bool \<Rightarrow> proxy \<Rightarrow> proxy option" where
  "on_client_event x line written p =
     (case p_main p of
        Starting n \<Rightarrow> Some (queue_line x line (note_client line p))
      | Restoring a n e s \<Rightarrow> Some (queue_line x line (note_client line p))
      | Disconnected \<Rightarrow> Some (await_request x line (note_client line p))
      | Forwarding \<Rightarrow> Some (forward_client x line written (note_client line p))
      | _ \<Rightarrow> None)"

definition on_eof :: "proxy \<Rightarrow> proxy option" where
  "on_eof p =
     (case p_main p of
        Starting n \<Rightarrow> Some (exit_via_writer 0 p)
      | Restoring a n e s \<Rightarrow> Some (exit_via_writer 0 p)
      | Disconnected \<Rightarrow> Some (exit_via_writer 0 p)
      | Forwarding \<Rightarrow> Some (p\<lparr>p_main := Draining False, p_answered := False\<rparr>)
      | _ \<Rightarrow> None)"

definition flush_one :: "bool \<Rightarrow> proxy \<Rightarrow> proxy option" where
  "flush_one written p =
     (if p_main p \<noteq> Flushing then None
      else case p_queue p of
        [] \<Rightarrow> Some (p\<lparr>p_main := Forwarding\<rparr>)
      | line # rest \<Rightarrow> Some (if written then p\<lparr>p_queue := rest, p_sent := p_sent p @ [line]\<rparr>
          else p\<lparr>p_queue := rest, p_main := Losing\<rparr>))"

text \<open>The first check of \<open>drain\<close> is made at once, a later one after the pump's notification.\<close>

definition drain_check :: "proxy \<Rightarrow> proxy option" where
  "drain_check p =
     (case p_main p of
        Draining checked \<Rightarrow>
          if checked \<and> \<not> p_answered p then None
          else Some (if has_in_flight (p_tracker p) then p\<lparr>p_main := Draining True, p_answered := False\<rparr>
            else exit_via_writer 0 p)
      | _ \<Rightarrow> None)"

definition pump_event :: "json_lib \<Rightarrow> event \<Rightarrow> proxy \<Rightarrow> proxy option" where
  "pump_event x ev p =
     (case (p_pump p, ev) of
        (Reading, PumpRead line) \<Rightarrow> Some (p\<lparr>p_pump := Holding line\<rparr>)
      | (Reading, PumpEof) \<Rightarrow> Some (p\<lparr>p_pump := Stopped\<rparr>)
      | (Holding line, PumpTrack) \<Rightarrow> Some (p\<lparr>p_pump := Sending line, p_tracker := on_daemon_line x line (p_tracker p)\<rparr>)
      | (Sending line, PumpSend) \<Rightarrow> Some (p\<lparr>p_pump := Reading, p_out := p_out p @ [OutLine line],
          p_answered := (p_answered p \<or> \<not> has_in_flight (p_tracker p))\<rparr>)
      | _ \<Rightarrow> None)"

definition loss_noticed :: "proxy \<Rightarrow> proxy option" where
  "loss_noticed p =
     (if p_pump p \<noteq> Stopped then None
      else case p_main p of
        Forwarding \<Rightarrow> Some (p\<lparr>p_main := Losing\<rparr>)
      | Draining c \<Rightarrow> Some (exit_via_writer 0 p)
      | _ \<Rightarrow> None)"

text \<open>\<open>on_loss\<close> waits for the aborted pump, which only stops where it can be interrupted.\<close>

definition handle_loss :: "json_lib \<Rightarrow> proxy \<Rightarrow> proxy option" where
  "handle_loss x p =
     (if p_main p \<noteq> Losing then None
      else case p_pump p of Sending l \<Rightarrow> None | _ \<Rightarrow> Some (on_loss x p))"

fun proxy_event :: "json_lib \<Rightarrow> event \<Rightarrow> proxy \<Rightarrow> proxy option" where
  "proxy_event x (ClientLine line written) p = on_client_event x line written p"
| "proxy_event x ClientEof p = on_eof p"
| "proxy_event x (Flush written) p = flush_one written p"
| "proxy_event x StartReplay p = start_replay x p"
| "proxy_event x (AttemptFails err e m) p =
     (case p_main p of Starting n \<Rightarrow> Some (attempt_failed x err e m p)
      | Restoring a n b s \<Rightarrow> Some (attempt_failed x err e m p) | _ \<Rightarrow> None)"
| "proxy_event x (AttemptSucceeds key response) p = attempt_succeeded x key response p"
| "proxy_event x LossNoticed p = loss_noticed p"
| "proxy_event x HandleLoss p = handle_loss x p"
| "proxy_event x DrainCheck p = drain_check p"
| "proxy_event x DrainTimeout p = (case p_main p of Draining c \<Rightarrow> Some (exit_via_writer 0 p) | _ \<Rightarrow> None)"
| "proxy_event x (PumpRead line) p = pump_event x (PumpRead line) p"
| "proxy_event x PumpEof p = pump_event x PumpEof p"
| "proxy_event x PumpTrack p = pump_event x PumpTrack p"
| "proxy_event x PumpSend p = pump_event x PumpSend p"

abbreviation proxy_run :: "json_lib \<Rightarrow> event list \<Rightarrow> proxy \<Rightarrow> proxy option" where
  "proxy_run x \<equiv> run_events (proxy_event x)"

inductive proxy_reachable :: "json_lib \<Rightarrow> proxy \<Rightarrow> bool" for x where
  start: "proxy_reachable x initial_proxy"
| step: "proxy_reachable x p \<Longrightarrow> proxy_event x ev p = Some q \<Longrightarrow> proxy_reachable x q"

interpretation proxies: machine "proxy_event x" "\<lambda>p. p = initial_proxy" "proxy_reachable x" for x
proof
  show "P p" if "proxy_reachable x p" "\<And>p. p = initial_proxy \<Longrightarrow> P p"
    "\<And>p e q. proxy_reachable x p \<Longrightarrow> P p \<Longrightarrow> proxy_event x e p = Some q \<Longrightarrow> P q" for p P
    using that by (induction rule: proxy_reachable.induct) blast+
qed (auto intro: proxy_reachable.intros)

end
