(* ===== verification/ProxyLaws.thy ===== *)
theory ProxyLaws
  imports ProxyLoop
begin

text \<open>
  What the proxy guarantees in every reachable state: no request of the client is forgotten,
  a round makes at most three attempts and can always be carried out.
\<close>

section \<open>Requests and answers\<close>

definition carries :: "json_lib \<Rightarrow> string \<Rightarrow> string \<Rightarrow> bool" where
  "carries x k line \<longleftrightarrow> (\<exists>i. request_id x line = Some i \<and> id_key x i = k)"

definition answers :: "json_lib \<Rightarrow> string \<Rightarrow> string \<Rightarrow> bool" where
  "answers x k line \<longleftrightarrow>
     (\<exists>e i. parse x line = Some e \<and> env_method e = None \<and> env_id e = Some i \<and> id_key x i = k)"

definition answered_in :: "json_lib \<Rightarrow> string \<Rightarrow> out list \<Rightarrow> bool" where
  "answered_in x k outs \<longleftrightarrow> (\<exists>l. OutLine l \<in> set outs \<and> answers x k l)"

definition known_id :: "json_lib \<Rightarrow> json \<Rightarrow> bool" where
  "known_id x i \<longleftrightarrow> (\<exists>line ms. j_parse x line = Some (JObj ms) \<and> (''id'', i) \<in> set ms)"

text \<open>
  What is assumed of \<open>serde_json\<close> and of the hash map: an error object for an id that was parsed
  prints as an object that parses back, and draining a map yields its entries.
\<close>

definition wire_laws :: "json_lib \<Rightarrow> bool" where
  "wire_laws x \<longleftrightarrow> (\<forall>ids. set (j_drain x ids) = set ids) \<and>
     (\<forall>i m. known_id x i \<longrightarrow> (\<exists>rest. jsonrpc_error x i RESTART_CODE m = CHR ''{'' # rest) \<and>
        j_parse x (jsonrpc_error x i RESTART_CODE m @ newline) = Some (rpc_error i RESTART_CODE m))"

abbreviation flight_keys :: "tracker \<Rightarrow> string set" where
  "flight_keys t \<equiv> row_keys fst (t_in_flight t)"

lemma answered_append [simp]:
  "answered_in x k (xs @ ys) \<longleftrightarrow> answered_in x k xs \<or> answered_in x k ys"
  by (auto simp: answered_in_def)

lemma answered_line [simp]: "answered_in x k [OutLine l] \<longleftrightarrow> answers x k l"
  by (simp add: answered_in_def)

lemma answered_exit [simp]: "answered_in x k [OutExit c] \<longleftrightarrow> False" "answered_in x k [] \<longleftrightarrow> False"
  by (simp_all add: answered_in_def)

lemma carries_iff:
  "carries x k line \<longleftrightarrow> (\<exists>e m i. parse x line = Some e \<and> env_method e = Some m \<and> env_id e = Some i \<and> id_key x i = k)"
  by (auto simp: carries_def request_id_def split: option.splits)

lemma request_id_iff:
  "request_id x line = Some i \<longleftrightarrow> (\<exists>e m. parse x line = Some e \<and> env_method e = Some m \<and> env_id e = Some i)"
  by (auto simp: request_id_def split: option.splits)

lemma envelope_id: "envelope_of ms = Some e \<Longrightarrow> env_id e = map_of ms ''id''"
  by (auto simp: envelope_of_def member_of_def split: option.splits json.splits if_splits)

lemma parse_known:
  assumes "parse x line = Some e" and "env_id e = Some i"
  shows "known_id x i"
proof -
  from assms(1) obtain ms where "j_parse x line = Some (JObj ms)" "envelope_of ms = Some e"
    by (auto simp: parse_def split: list.splits if_splits option.splits json.splits)
  with assms(2) envelope_id [of ms e] show ?thesis
    by (auto simp: known_id_def dest: map_of_SomeD intro!: exI [of _ line] exI [of _ ms])
qed

lemma answer_line_answers:
  assumes laws: "wire_laws x" and known: "known_id x i"
  shows "answers x (id_key x i) (jsonrpc_error x i RESTART_CODE m @ newline)"
proof -
  from laws known obtain rest where
    "jsonrpc_error x i RESTART_CODE m = CHR ''{'' # rest"
    "j_parse x (jsonrpc_error x i RESTART_CODE m @ newline) = Some (rpc_error i RESTART_CODE m)"
    unfolding wire_laws_def by blast
  then have "parse x (jsonrpc_error x i RESTART_CODE m @ newline) =
      Some \<lparr> env_id = Some i, env_method = None, env_result = False, env_error = True \<rparr>"
    by (simp add: parse_def ascii_space_def rpc_error_def envelope_of_def member_of_def repeated_def)
  then show ?thesis by (simp add: answers_def)
qed

section \<open>The tracker\<close>

definition tracker_ok :: "json_lib \<Rightarrow> tracker \<Rightarrow> bool" where
  "tracker_ok x t \<longleftrightarrow> (\<forall>(k, i, m)\<in>set (t_in_flight t). k = id_key x i \<and> known_id x i)
     \<and> (\<forall>kept. t_kept_first t = Some kept \<longrightarrow> request_id x (kr_line kept) = Some (kr_id kept))
     \<and> (\<forall>line. t_initialize t = Some line \<longrightarrow> request_id x line \<noteq> None)"

lemma tracker_ok_new [simp]: "tracker_ok x new_tracker"
  by (simp add: tracker_ok_def new_tracker_def)

lemma set_link_simps [simp]:
  "t_in_flight (set_link l t) = t_in_flight t" "t_kept_first (set_link l t) = t_kept_first t"
  "t_initialize (set_link l t) = t_initialize t" "t_initialised (set_link l t) = t_initialised t"
  "t_initialized (set_link l t) = t_initialized t" "t_link (set_link l t) = l"
  "t_replay_started (set_link l t) = False" "tracker_ok x (set_link l t) = tracker_ok x t"
  "replays_handshake (set_link l t) = replays_handshake t"
  by (simp_all add: set_link_def tracker_ok_def replays_handshake_def)

lemma mark_replay_simps [simp]:
  "t_in_flight (mark_replay_started t) = t_in_flight t" "t_kept_first (mark_replay_started t) = t_kept_first t"
  "t_initialize (mark_replay_started t) = t_initialize t" "t_initialised (mark_replay_started t) = t_initialised t"
  "tracker_ok x (mark_replay_started t) = tracker_ok x t"
  "replays_handshake (mark_replay_started t) = replays_handshake t"
  by (simp_all add: mark_replay_started_def tracker_ok_def replays_handshake_def)

lemma keep_first_simps [simp]:
  "t_in_flight (keep_first i m l t) = t_in_flight t" "t_initialised (keep_first i m l t) = t_initialised t"
  by (simp_all add: keep_first_def Let_def)

lemma keep_first_kept: "t_kept_first t = Some k \<Longrightarrow> t_kept_first (keep_first i m l t) = Some k"
  by (simp add: keep_first_def Let_def)

lemma keep_first_new:
  "t_kept_first (keep_first i m l t) = Some k \<Longrightarrow> t_kept_first t = Some k \<or> (kr_id k = i \<and> kr_line k = l)"
  by (auto simp: keep_first_def Let_def split: if_splits)

lemma keep_first_initialize:
  "t_initialize (keep_first i m l t) = t_initialize t \<or> t_initialize (keep_first i m l t) = Some l"
  by (simp add: keep_first_def Let_def)

lemma keep_first_keeps_initialize:
  "t_initialize t = Some l0 \<Longrightarrow> \<exists>l1. t_initialize (keep_first i m l t) = Some l1"
  by (auto simp: keep_first_def Let_def)

text \<open>What a client line does to the tracker.\<close>

lemma client_line_keys:
  "flight_keys (snd (on_client_line x line t)) = flight_keys t \<union> {k. carries x k line}"
  by (auto simp: on_client_line_def carries_iff Let_def rows_put_def split: option.splits)

lemma client_line_request: "carries x k line \<Longrightarrow> fst (on_client_line x line t) = Request"
  by (auto simp: on_client_line_def carries_iff Let_def)

lemma client_line_request_only: "fst (on_client_line x line t) = Request \<Longrightarrow> \<exists>k. carries x k line"
  by (auto simp: on_client_line_def carries_iff Let_def split: option.splits if_splits)

lemma client_line_kept: "t_kept_first t = Some k \<Longrightarrow> t_kept_first (snd (on_client_line x line t)) = Some k"
  by (auto simp: on_client_line_def Let_def keep_first_kept split: option.splits)

lemma client_line_initialised: "t_initialised (snd (on_client_line x line t)) = t_initialised t"
  by (auto simp: on_client_line_def Let_def split: option.splits)

lemma client_line_replays:
  "replays_handshake t \<Longrightarrow> replays_handshake (snd (on_client_line x line t))"
  by (auto simp: replays_handshake_def on_client_line_def Let_def keep_first_keeps_initialize split: option.splits)

lemma client_line_ok:
  assumes ok: "tracker_ok x t"
  shows "tracker_ok x (snd (on_client_line x line t))"
proof (cases "\<exists>i. request_id x line = Some i")
  case False
  then have "t_in_flight (snd (on_client_line x line t)) = t_in_flight t \<and>
      t_kept_first (snd (on_client_line x line t)) = t_kept_first t \<and>
      t_initialize (snd (on_client_line x line t)) = t_initialize t"
    by (auto simp: on_client_line_def request_id_iff Let_def split: option.splits)
  with ok show ?thesis by (simp add: tracker_ok_def)
next
  case True
  then obtain e m i where p: "parse x line = Some e" "env_method e = Some m" "env_id e = Some i"
    by (auto simp: request_id_iff)
  then have rid: "request_id x line = Some i" by (simp add: request_id_iff)
  define t' where "t' = keep_first i m line t"
  have run: "snd (on_client_line x line t) =
      t'\<lparr>t_in_flight := rows_put fst (id_key x i, i, m) (t_in_flight t')\<rparr>"
    by (simp add: on_client_line_def p t'_def Let_def)
  have kept: "request_id x (kr_line k) = Some (kr_id k)" if "t_kept_first t' = Some k" for k
    using ok rid keep_first_new [OF that [unfolded t'_def]] by (auto simp: tracker_ok_def)
  have init: "request_id x l \<noteq> None" if "t_initialize t' = Some l" for l
    using ok rid that keep_first_initialize [of i m line t] by (auto simp: tracker_ok_def t'_def)
  have flight: "\<forall>(k, i, m)\<in>set (t_in_flight t'). k = id_key x i \<and> known_id x i"
    using ok by (simp add: tracker_ok_def t'_def)
  show ?thesis
    unfolding run tracker_ok_def
    using kept init flight parse_known [OF p(1,3)] by (auto simp: rows_put_def)
qed

text \<open>What a daemon line does to the tracker.\<close>

lemma daemon_line_cases:
  obtains (same) "on_daemon_line x line t = t"
    | (answer) i m where "answers x (id_key x i) line" "id_key x i \<in> flight_keys t"
        "t_in_flight (on_daemon_line x line t) = rows_del fst [id_key x i] (t_in_flight t)"
        "t_kept_first (on_daemon_line x line t) = t_kept_first t \<or> t_kept_first (on_daemon_line x line t) = None"
        "t_initialize (on_daemon_line x line t) = t_initialize t"
        "t_initialised t \<Longrightarrow> t_initialised (on_daemon_line x line t)"
proof (cases "on_daemon_line x line t = t")
  case True
  then show thesis by (rule same)
next
  case False
  then obtain e i k j m where p: "parse x line = Some e" "env_id e = Some i" "env_method e = None"
      "rows_get fst (id_key x i) (t_in_flight t) = Some (k, j, m)"
    by (auto simp: on_daemon_line_def split: option.splits)
  have "answers x (id_key x i) line" using p by (auto simp: answers_def)
  moreover have "id_key x i \<in> flight_keys t"
    using rows_get_Some [OF p(4)] by (force simp: row_keys_def)
  moreover have "t_in_flight (on_daemon_line x line t) = rows_del fst [id_key x i] (t_in_flight t)"
      "t_kept_first (on_daemon_line x line t) = t_kept_first t \<or> t_kept_first (on_daemon_line x line t) = None"
      "t_initialize (on_daemon_line x line t) = t_initialize t"
      "t_initialised t \<Longrightarrow> t_initialised (on_daemon_line x line t)"
    using p by (auto simp: on_daemon_line_def Let_def split: option.splits)
  ultimately show thesis by (rule answer)
qed

lemma daemon_line_ok: "tracker_ok x t \<Longrightarrow> tracker_ok x (on_daemon_line x line t)"
  by (cases rule: daemon_line_cases [of x line t]) (auto simp: tracker_ok_def)

lemma daemon_line_keys: "flight_keys (on_daemon_line x line t) \<subseteq> flight_keys t"
  by (cases rule: daemon_line_cases [of x line t]) auto

lemma daemon_line_lost:
  assumes "k \<in> flight_keys t" and "k \<notin> flight_keys (on_daemon_line x line t)"
  shows "answers x k line"
  using assms by (cases rule: daemon_line_cases [of x line t]) auto

section \<open>The invariant\<close>

definition waits_with_line :: "json_lib \<Rightarrow> string list \<Rightarrow> string \<Rightarrow> bool" where
  "waits_with_line x ls k \<longleftrightarrow> (\<exists>l\<in>set ls. carries x k l)"

text \<open>Who takes care of the request in flight under key \<open>k\<close>.\<close>

definition resends :: "json_lib \<Rightarrow> after_hello \<Rightarrow> tracker \<Rightarrow> string \<Rightarrow> bool" where
  "resends x after t k \<longleftrightarrow> (after = ReplayForward \<or> after = ResendKept) \<and>
     (case t_kept_first t of None \<Rightarrow> False | Some kept \<Rightarrow> id_key x (kr_id kept) = k)"

definition tended :: "json_lib \<Rightarrow> proxy \<Rightarrow> string \<Rightarrow> bool" where
  "tended x p k =
     (case p_main p of
        Starting n \<Rightarrow> waits_with_line x (p_queue p) k
      | Flushing \<Rightarrow> waits_with_line x (p_queue p @ p_sent p) k
      | Forwarding \<Rightarrow> waits_with_line x (p_queue p @ p_sent p) k
      | Draining c \<Rightarrow> waits_with_line x (p_queue p @ p_sent p) k
      | Losing \<Rightarrow> True
      | Disconnected \<Rightarrow> False
      | Restoring after n early snap \<Rightarrow> waits_with_line x (p_queue p) k \<or> resends x after (p_tracker p) k
      | Exited \<Rightarrow> True)"

definition round_ok :: "proxy \<Rightarrow> bool" where
  "round_ok p =
     (case p_main p of
        Starting n \<Rightarrow> 1 \<le> n \<and> n \<le> MAX_ATTEMPTS \<and> p_pump p = Stopped
      | Disconnected \<Rightarrow> p_pump p = Stopped
      | Restoring after n early snap \<Rightarrow> 1 \<le> n \<and> n \<le> MAX_ATTEMPTS \<and> p_pump p = Stopped
          \<and> (after = ReplayDrop \<longrightarrow> replays_handshake (p_tracker p))
          \<and> (after = ReplayForward \<or> after = ResendKept \<longrightarrow> t_kept_first (p_tracker p) \<noteq> None)
      | _ \<Rightarrow> True)"

definition on_its_way :: "json_lib \<Rightarrow> proxy \<Rightarrow> string \<Rightarrow> bool" where
  "on_its_way x p k \<longleftrightarrow> k \<in> flight_keys (p_tracker p) \<or> answered_in x k (p_out p)
     \<or> (\<exists>l. p_pump p = Sending l \<and> answers x k l)"

definition proxy_inv :: "json_lib \<Rightarrow> proxy \<Rightarrow> bool" where
  "proxy_inv x p \<longleftrightarrow> tracker_ok x (p_tracker p) \<and> round_ok p
     \<and> (\<forall>k\<in>flight_keys (p_tracker p). tended x p k)
     \<and> (\<forall>l\<in>set (p_client p). \<forall>k. carries x k l \<longrightarrow> on_its_way x p k)"

lemma waits_simps [simp]:
  "waits_with_line x [] k \<longleftrightarrow> False"
  "waits_with_line x (l # ls) k \<longleftrightarrow> carries x k l \<or> waits_with_line x ls k"
  "waits_with_line x (xs @ ys) k \<longleftrightarrow> waits_with_line x xs k \<or> waits_with_line x ys k"
  by (auto simp: waits_with_line_def)

lemma proxy_invI:
  assumes "tracker_ok x (p_tracker p)" and "round_ok p"
    and "\<And>k. k \<in> flight_keys (p_tracker p) \<Longrightarrow> tended x p k"
    and "\<And>l k. l \<in> set (p_client p) \<Longrightarrow> carries x k l \<Longrightarrow> on_its_way x p k"
  shows "proxy_inv x p"
  using assms by (simp add: proxy_inv_def)

lemma proxy_invD:
  assumes "proxy_inv x p"
  shows "tracker_ok x (p_tracker p)" "round_ok p"
    "\<And>k. k \<in> flight_keys (p_tracker p) \<Longrightarrow> tended x p k"
    "\<And>l k. l \<in> set (p_client p) \<Longrightarrow> carries x k l \<Longrightarrow> on_its_way x p k"
  using assms by (simp_all add: proxy_inv_def)

lemma inv_start: "proxy_inv x initial_proxy"
  by (rule proxy_invI)
    (simp_all add: initial_proxy_def round_ok_def MAX_ATTEMPTS_def new_tracker_def [THEN arg_cong [of _ _ t_in_flight]]
      row_keys_def)

lemma inv_exit: "proxy_inv x p \<Longrightarrow> proxy_inv x (exit_via_writer c p)"
  by (auto simp: proxy_inv_def exit_via_writer_def round_ok_def tended_def on_its_way_def)

text \<open>An event that leaves requests and answers alone.\<close>

lemma inv_frame:
  assumes inv: "proxy_inv x p" and same: "t_in_flight (p_tracker q) = t_in_flight (p_tracker p)" "p_pump q = p_pump p"
      "p_out q = p_out p" "p_client q = p_client p"
    and ok: "tracker_ok x (p_tracker q)" "round_ok q" and tended: "\<And>k. tended x p k \<Longrightarrow> tended x q k"
  shows "proxy_inv x q"
proof (rule proxy_invI [OF ok])
  show "tended x q k" if "k \<in> flight_keys (p_tracker q)" for k
    using tended proxy_invD(3) [OF inv, of k] that by (simp add: same)
  show "on_its_way x q k" if "l \<in> set (p_client q)" "carries x k l" for l k
    using proxy_invD(4) [OF inv, of l k] that by (simp add: same on_its_way_def)
qed

text \<open>Synthetic answers.\<close>

lemma drain_set: "wire_laws x \<Longrightarrow> set (j_drain x ids) = set ids"
  by (simp add: wire_laws_def)

lemma answer_lines_answered:
  assumes "wire_laws x" and "\<forall>i\<in>set ids. known_id x i" and "k \<in> id_key x ` set ids"
  shows "answered_in x k (answer_lines x ids message)"
  using assms answer_line_answers by (fastforce simp: answered_in_def answer_lines_def)

lemma flight_row:
  assumes "tracker_ok x t" and "k \<in> flight_keys t"
  obtains i m where "(k, i, m) \<in> set (t_in_flight t)" "k = id_key x i"
  using assms unfolding tracker_ok_def row_keys_def by fastforce

lemma take_all_answered:
  assumes "wire_laws x" and "tracker_ok x t" and "take_in_flight x t = (ids, t')" and "k \<in> flight_keys t"
  shows "answered_in x k (answer_lines x ids message)"
proof (rule answer_lines_answered [OF assms(1)])
  have ids: "set ids = (fst \<circ> snd) ` set (t_in_flight t)"
  proof -
    from assms(3) have "ids = j_drain x (map (fst \<circ> snd) (t_in_flight t))" by (simp add: take_in_flight_def)
    then show ?thesis by (simp only: drain_set [OF assms(1)] set_map)
  qed
  show "\<forall>i\<in>set ids. known_id x i"
    using assms(2) by (auto simp: ids tracker_ok_def)
  show "k \<in> id_key x ` set ids"
  proof -
    from assms(2,4) obtain i m where row: "(k, i, m) \<in> set (t_in_flight t)" "k = id_key x i" by (rule flight_row)
    then have "i \<in> set ids" unfolding ids by force
    with row show ?thesis by blast
  qed
qed

lemma take_others_answered:
  assumes "wire_laws x" and "tracker_ok x t" and "take_in_flight_except x keep t = (ids, t')"
    and "k \<in> flight_keys t" and "k \<noteq> id_key x keep"
  shows "answered_in x k (answer_lines x ids message)"
proof (rule answer_lines_answered [OF assms(1)])
  have ids: "set ids = (fst \<circ> snd) ` {r \<in> set (t_in_flight t). fst r \<noteq> id_key x keep}"
  proof -
    from assms(3) have "ids = j_drain x (map (fst \<circ> snd) (filter (\<lambda>r. fst r \<noteq> id_key x keep) (t_in_flight t)))"
      by (simp add: take_in_flight_except_def)
    then show ?thesis by (simp only: drain_set [OF assms(1)] set_map set_filter)
  qed
  show "\<forall>i\<in>set ids. known_id x i"
    using assms(2) by (auto simp: ids tracker_ok_def)
  show "k \<in> id_key x ` set ids"
  proof -
    from assms(2,4) obtain i m where row: "(k, i, m) \<in> set (t_in_flight t)" "k = id_key x i" by (rule flight_row)
    with assms(5) have "i \<in> set ids" unfolding ids by force
    with row show ?thesis by blast
  qed
qed

section \<open>Every event keeps it\<close>

lemma inv_queue_line:
  assumes inv: "proxy_inv x p" and main: "(\<exists>n. p_main p = Starting n) \<or> (\<exists>a n e s. p_main p = Restoring a n e s)"
  shows "proxy_inv x (queue_line x line (note_client line p))"
proof -
  define t where "t = snd (on_client_line x line (p_tracker p))"
  define q where "q = queue_line x line (note_client line p)"
  have run: "p_main q = p_main p" "p_pump q = p_pump p" "p_tracker q = t" "p_out q = p_out p"
      "p_client q = p_client p @ [line]"
    by (simp_all add: q_def queue_line_def note_client_def t_def case_prod_beta Let_def)
  have queue: "waits_with_line x (p_queue q) k" if "waits_with_line x (p_queue p) k \<or> carries x k line" for k
    using that client_line_request [of x k line "p_tracker p"]
    by (auto simp: q_def queue_line_def note_client_def case_prod_beta Let_def)
  have keys: "flight_keys t = flight_keys (p_tracker p) \<union> {k. carries x k line}"
    by (simp add: t_def client_line_keys)
  have resend: "resends x a t k" if "resends x a (p_tracker p) k" for a k
    using that client_line_kept [of "p_tracker p" _ x line] by (auto simp: resends_def t_def split: option.splits)
  have "proxy_inv x q"
  proof (rule proxy_invI)
    show "tracker_ok x (p_tracker q)"
      using client_line_ok [OF proxy_invD(1) [OF inv]] by (simp add: run t_def)
    show "round_ok q"
      using proxy_invD(2) [OF inv] client_line_kept [of "p_tracker p" _ x line] client_line_replays [of "p_tracker p" x line]
      by (auto simp: round_ok_def run t_def split: main_state.splits)
    show "tended x q k" if "k \<in> flight_keys (p_tracker q)" for k
      using that main queue [of k] resend [of _ k] proxy_invD(3) [OF inv, of k]
      by (auto simp: run keys tended_def)
    show "on_its_way x q k" if "l \<in> set (p_client q)" "carries x k l" for l k
      using that proxy_invD(4) [OF inv, of l k] by (auto simp: run on_its_way_def keys)
  qed
  then show ?thesis by (simp add: q_def)
qed

lemma inv_await_request:
  assumes inv: "proxy_inv x p" and main: "p_main p = Disconnected"
  shows "proxy_inv x (await_request x line (note_client line p))"
proof -
  define t where "t = snd (on_client_line x line (p_tracker p))"
  define q where "q = await_request x line (note_client line p)"
  have stopped: "p_pump p = Stopped" using proxy_invD(2) [OF inv] main by (simp add: round_ok_def)
  have idle: "flight_keys (p_tracker p) = {}" using proxy_invD(3) [OF inv] main by (auto simp: tended_def)
  have keys: "flight_keys t = {k. carries x k line}" by (simp add: t_def client_line_keys idle)
  have ok: "tracker_ok x t" using client_line_ok [OF proxy_invD(1) [OF inv]] by (simp add: t_def)
  have old: "on_its_way x p k" if "l \<in> set (p_client p)" "carries x k l" for l k
    using that by (rule proxy_invD(4) [OF inv])
  show ?thesis
  proof (cases "fst (on_client_line x line (p_tracker p)) = Request")
    case True
    then have "q = (note_client line p)\<lparr>p_tracker := set_link Reconnecting t, p_queue := p_queue p @ [line],
        p_main := Restoring (if replays_handshake t then ReplayDrop else Nothing) 1 False None\<rparr>"
      by (simp add: q_def await_request_def t_def case_prod_beta Let_def note_client_def)
    then show ?thesis using old
      unfolding q_def [symmetric]
      by (intro proxy_invI)
        (auto simp: note_client_def ok round_ok_def MAX_ATTEMPTS_def stopped tended_def keys on_its_way_def idle)
  next
    case False
    then have none: "\<not> carries x k line" for k using client_line_request by blast
    have "q = (note_client line p)\<lparr>p_tracker := t\<rparr>"
      using False by (simp add: q_def await_request_def t_def case_prod_beta Let_def note_client_def)
    then show ?thesis using old main
      unfolding q_def [symmetric]
      by (intro proxy_invI)
        (auto simp: note_client_def ok round_ok_def stopped tended_def keys on_its_way_def idle none)
  qed
qed

lemma inv_forward_client:
  assumes inv: "proxy_inv x p" and main: "p_main p = Forwarding"
  shows "proxy_inv x (forward_client x line written (note_client line p))"
  using client_line_ok [OF proxy_invD(1) [OF inv], of line] main proxy_invD(3) [OF inv] proxy_invD(4) [OF inv]
  by (intro proxy_invI)
    (auto simp: forward_client_def case_prod_beta note_client_def round_ok_def tended_def client_line_keys on_its_way_def
      split: if_splits)

lemma inv_flush:
  assumes inv: "proxy_inv x p" and run: "flush_one written p = Some q"
  shows "proxy_inv x q"
proof (rule inv_frame [OF inv])
  show "tended x q k" if "tended x p k" for k
    using run that by (auto simp: flush_one_def tended_def split: if_splits list.splits)
  show "round_ok q"
    using run by (auto simp: flush_one_def round_ok_def split: if_splits list.splits)
  show "tracker_ok x (p_tracker q)"
    using run proxy_invD(1) [OF inv] by (auto simp: flush_one_def split: if_splits list.splits)
qed (use run in \<open>auto simp: flush_one_def split: if_splits list.splits\<close>)

lemma inv_drain:
  assumes inv: "proxy_inv x p" and run: "drain_check p = Some q"
  shows "proxy_inv x q"
proof (cases "q = exit_via_writer 0 p")
  case True
  then show ?thesis using inv_exit [OF inv] by simp
next
  case False
  with run obtain c where "p_main p = Draining c" "q = p\<lparr>p_main := Draining True, p_answered := False\<rparr>"
    by (auto simp: drain_check_def split: main_state.splits if_splits)
  then show ?thesis using proxy_invD(1) [OF inv]
    by (intro inv_frame [OF inv]) (auto simp: round_ok_def tended_def)
qed

lemma inv_eof:
  assumes inv: "proxy_inv x p" and run: "on_eof p = Some q"
  shows "proxy_inv x q"
proof (cases "p_main p = Forwarding")
  case False
  with run have "q = exit_via_writer 0 p" by (auto simp: on_eof_def split: main_state.splits)
  then show ?thesis using inv_exit [OF inv] by simp
next
  case True
  with run have "q = p\<lparr>p_main := Draining False, p_answered := False\<rparr>" by (simp add: on_eof_def)
  with True show ?thesis using proxy_invD(1) [OF inv]
    by (intro inv_frame [OF inv]) (auto simp: round_ok_def tended_def)
qed

text \<open>The pump.\<close>

lemma tended_mono:
  assumes "tended x p k" and "p_main q = p_main p" and "p_queue q = p_queue p" and "p_sent q = p_sent p"
    and "\<And>a n e s. p_main p = Restoring a n e s \<Longrightarrow> p_tracker q = p_tracker p"
  shows "tended x q k"
  using assms by (auto simp: tended_def split: main_state.splits)

lemma inv_pump:
  assumes inv: "proxy_inv x p" and run: "pump_event x ev p = Some q"
  shows "proxy_inv x q"
proof (rule proxy_invI)
  let ?t = "p_tracker p"
  have pump: "p_pump p \<noteq> Stopped" using run by (auto simp: pump_event_def)
  then have live: "p_main p \<noteq> Restoring a n e s" "p_main p \<noteq> Starting n" "p_main p \<noteq> Disconnected" for a n e s
    using proxy_invD(2) [OF inv] by (auto simp: round_ok_def)
  have same: "p_main q = p_main p" "p_queue q = p_queue p" "p_sent q = p_sent p" "p_client q = p_client p"
    using run by (auto simp: pump_event_def split: pump.splits event.splits)
  have tr: "p_tracker q = ?t \<or> (\<exists>l. p_pump p = Holding l \<and> p_pump q = Sending l \<and> p_out q = p_out p \<and> p_tracker q = on_daemon_line x l ?t)"
    using run by (auto simp: pump_event_def split: pump.splits event.splits)
  show "tracker_ok x (p_tracker q)"
    using tr proxy_invD(1) [OF inv] daemon_line_ok by auto
  show "round_ok q"
    using live by (auto simp: round_ok_def same split: main_state.splits)
  show "tended x q k" if "k \<in> flight_keys (p_tracker q)" for k
  proof -
    have sub: "flight_keys (p_tracker q) \<subseteq> flight_keys ?t"
      using tr by (elim disjE exE conjE) (simp_all only: daemon_line_keys order_refl)
    from subsetD [OF sub that] have "k \<in> flight_keys ?t" .
    then have "tended x p k" by (rule proxy_invD(3) [OF inv])
    from this same(1-3) show ?thesis
      by (rule tended_mono) (use live(1) in blast)
  qed
  show "on_its_way x q k" if "l \<in> set (p_client q)" "carries x k l" for l k
    using that proxy_invD(4) [OF inv, of l k] run daemon_line_lost [of k ?t x]
    by (auto simp: pump_event_def same on_its_way_def split: pump.splits event.splits)
qed

text \<open>Rounds.\<close>

lemma inv_start_replay:
  assumes inv: "proxy_inv x p" and run: "start_replay x p = Some q"
  shows "proxy_inv x q"
proof -
  from run obtain n early line where p: "p_main p = Restoring ReplayDrop n early None"
    and q: "q = p\<lparr>p_tracker := mark_replay_started (p_tracker p),
        p_main := Restoring ReplayDrop n early (Some (line, t_initialized (mark_replay_started (p_tracker p))))\<rparr>"
    by (auto simp: start_replay_def Let_def split: main_state.splits after_hello.splits option.splits if_splits)
  show ?thesis
    using proxy_invD(1,2) [OF inv] p unfolding q
    by (intro inv_frame [OF inv]) (auto simp: round_ok_def tended_def resends_def)
qed

lemma take_in_flight_simps [simp]:
  "t_in_flight (snd (take_in_flight x t)) = []" "t_kept_first (snd (take_in_flight x t)) = t_kept_first t"
  "t_initialize (snd (take_in_flight x t)) = t_initialize t"
  "tracker_ok x t \<Longrightarrow> tracker_ok x (snd (take_in_flight x t))"
  by (simp_all add: take_in_flight_def tracker_ok_def)

lemma row_keys_Nil [simp]: "row_keys f [] = {}"
  by (simp add: row_keys_def)

lemma inv_round_failed:
  assumes laws: "wire_laws x" and inv: "proxy_inv x p" and stopped: "p_pump p = Stopped"
  shows "proxy_inv x (round_failed x message p)"
proof (cases "t_initialised (p_tracker p)")
  case False
  then show ?thesis using inv_exit [OF inv] by (simp add: round_failed_def)
next
  case True
  define q where "q = round_failed x message p"
  obtain ids t where take: "take_in_flight x (p_tracker p) = (ids, t)" by (cases "take_in_flight x (p_tracker p)")
  have q: "q = p\<lparr>p_tracker := set_link Down t, p_out := p_out p @ answer_lines x ids message, p_queue := [],
      p_main := Disconnected\<rparr>"
    using True by (simp add: q_def round_failed_def fail_pending_def take)
  have t: "t_in_flight t = []" "tracker_ok x t"
    using take_in_flight_simps [of x "p_tracker p"] proxy_invD(1) [OF inv] by (simp_all add: take)
  have "proxy_inv x q"
  proof (rule proxy_invI)
    show "on_its_way x q k" if "l \<in> set (p_client q)" "carries x k l" for l k
      using that proxy_invD(4) [OF inv, of l k] take_all_answered [OF laws proxy_invD(1) [OF inv] take, of k message]
      by (auto simp: q on_its_way_def stopped)
  qed (use t stopped in \<open>auto simp: q round_ok_def\<close>)
  then show ?thesis by (simp add: q_def)
qed

lemma inv_attempt_failed:
  assumes laws: "wire_laws x" and inv: "proxy_inv x p"
    and main: "(\<exists>n. p_main p = Starting n) \<or> (\<exists>a n e s. p_main p = Restoring a n e s)"
  shows "proxy_inv x (attempt_failed x err exe mtime p)"
  using main
proof (elim disjE exE)
  fix n assume "p_main p = Starting n"
  with proxy_invD(1,2) [OF inv] show ?thesis
    by (auto simp: attempt_failed_def inv_exit [OF inv] round_ok_def tended_def intro!: inv_frame [OF inv])
next
  fix a n e s assume p: "p_main p = Restoring a n e s"
  then have "p_pump p = Stopped" using proxy_invD(2) [OF inv] by (simp add: round_ok_def)
  with p proxy_invD(1,2) [OF inv] show ?thesis
    by (auto simp: attempt_failed_def Let_def inv_round_failed [OF laws inv] round_ok_def tended_def
        intro!: inv_frame [OF inv])
qed

text \<open>A new connection.\<close>

lemma announce_key_simps [simp]:
  "p_main (announce_key key p) = p_main p" "p_pump (announce_key key p) = p_pump p"
  "p_tracker (announce_key key p) = p_tracker p" "p_queue (announce_key key p) = p_queue p"
  "p_client (announce_key key p) = p_client p" "p_sent (announce_key key p) = p_sent p"
  "answered_in x k (p_out p) \<Longrightarrow> answered_in x k (p_out (announce_key key p))"
  by (simp_all add: announce_key_def Let_def)

lemma inv_connected:
  assumes ok: "tracker_ok x (p_tracker p)" and stopped: "p_pump p = Stopped"
    and waits: "\<And>k. k \<in> flight_keys (p_tracker p) \<Longrightarrow> waits_with_line x (p_queue p @ sent) k"
    and way: "\<And>l k. l \<in> set (p_client p) \<Longrightarrow> carries x k l \<Longrightarrow> on_its_way x p k"
  shows "proxy_inv x (connected sent p)"
  using ok waits way
  by (intro proxy_invI) (auto simp: connected_def round_ok_def tended_def on_its_way_def stopped)

lemma kept_line_carries:
  "tracker_ok x t \<Longrightarrow> t_kept_first t = Some kept \<Longrightarrow> carries x (id_key x (kr_id kept)) (kr_line kept)"
  by (auto simp: tracker_ok_def carries_def)

lemma inv_forwarded:
  assumes "tracker_ok x (p_tracker p)" and "on_its_way x p k" and "p_pump p = Stopped"
  shows "on_its_way x (forward_line x line p) k"
  using assms daemon_line_lost [of k "p_tracker p" x line] by (auto simp: forward_line_def on_its_way_def)

lemma inv_attempt_succeeded:
  assumes inv: "proxy_inv x p" and run: "attempt_succeeded x key response p = Some q"
  shows "proxy_inv x q"
proof -
  define pa where "pa = announce_key key p"
  have pa: "tracker_ok x (p_tracker pa)" "p_tracker pa = p_tracker p" "p_queue pa = p_queue p"
      "p_pump pa = p_pump p" "p_client pa = p_client p"
    using proxy_invD(1) [OF inv] by (simp_all add: pa_def)
  have way: "on_its_way x pa k" if "l \<in> set (p_client p)" "carries x k l" for l k
    using proxy_invD(4) [OF inv that] by (auto simp: on_its_way_def pa_def)
  note ok = proxy_invD(1) [OF inv]
  show ?thesis
  proof (cases "p_main p")
    case (Starting n)
    with run have q: "q = connected [] (p\<lparr>p_last_key := key\<rparr>)" by (simp add: attempt_succeeded_def)
    show ?thesis
      unfolding q using proxy_invD [OF inv] Starting
      by (intro inv_connected) (auto simp: round_ok_def tended_def on_its_way_def)
  next
    case (Restoring a n e s)
    have stopped: "p_pump p = Stopped" using proxy_invD(2) [OF inv] Restoring by (simp add: round_ok_def)
    have waits: "waits_with_line x (p_queue p) k \<or> resends x a (p_tracker p) k" if "k \<in> flight_keys (p_tracker p)" for k
      using proxy_invD(3) [OF inv that] Restoring by (simp add: tended_def)
    show ?thesis
    proof (cases a)
      case ReplayDrop
      with run Restoring obtain sent where q: "q = connected sent pa"
        by (auto simp: attempt_succeeded_def pa_def split: option.splits)
      show ?thesis unfolding q
        using waits way ReplayDrop by (intro inv_connected) (auto simp: pa stopped resends_def ok)
    next
      case Nothing
      with run Restoring have q: "q = connected [] pa" by (simp add: attempt_succeeded_def pa_def)
      show ?thesis unfolding q
        using waits way Nothing by (intro inv_connected) (auto simp: pa stopped resends_def ok)
    next
      case ResendKept
      with run Restoring obtain kept where kept: "t_kept_first (p_tracker p) = Some kept"
        and q: "q = connected [kr_line kept] (pa\<lparr>p_pending := Some (resend_pending_new kept n)\<rparr>)"
        by (auto simp: attempt_succeeded_def pa_def split: option.splits)
      show ?thesis unfolding q
        using waits way kept_line_carries [OF ok kept]
        by (intro inv_connected) (auto simp: pa stopped resends_def ok kept on_its_way_def)
    next
      case ReplayForward
      with run Restoring obtain kept where kept: "t_kept_first (p_tracker p) = Some kept"
        and q: "q = connected [kr_line kept] (forward_line x response pa)"
        by (auto simp: attempt_succeeded_def pa_def split: option.splits if_splits)
      have keys: "k \<in> flight_keys (p_tracker p)" if "k \<in> flight_keys (on_daemon_line x response (p_tracker p))" for k
        using that daemon_line_keys by blast
      show ?thesis unfolding q
        using waits keys kept_line_carries [OF ok kept] way inv_forwarded [OF pa(1)] stopped
        by (intro inv_connected) (auto simp: forward_line_def pa resends_def ok kept daemon_line_ok)
    qed
  qed (use run in \<open>simp_all add: attempt_succeeded_def\<close>)
qed

text \<open>The loss of a connection.\<close>

lemma kept_in_flight_iff:
  "kept_in_flight x t = Some kept \<longleftrightarrow> t_kept_first t = Some kept \<and> id_key x (kr_id kept) \<in> flight_keys t"
  by (auto simp: kept_in_flight_def is_in_flight_def row_keys_def split: option.splits)

definition lost_ok :: "json_lib \<Rightarrow> proxy \<Rightarrow> bool" where
  "lost_ok x p \<longleftrightarrow> tracker_ok x (p_tracker p) \<and> p_pump p = Stopped
     \<and> (\<forall>l\<in>set (p_client p). \<forall>k. carries x k l \<longrightarrow> on_its_way x p k)"

lemma take_held_ok:
  assumes inv: "proxy_inv x p" and pump: "\<And>l. p_pump p \<noteq> Sending l"
  shows "lost_ok x (take_held x p)"
proof (cases "\<exists>l. p_pump p = Holding l")
  case False
  then have q: "take_held x p = p\<lparr>p_pump := Stopped\<rparr>" by (auto simp: take_held_def split: pump.splits)
  have "on_its_way x (p\<lparr>p_pump := Stopped\<rparr>) k" if "l \<in> set (p_client p)" "carries x k l" for l k
    using proxy_invD(4) [OF inv that] pump by (auto simp: on_its_way_def)
  with q proxy_invD(1) [OF inv] show ?thesis by (simp add: lost_ok_def)
next
  case True
  then obtain line where l: "p_pump p = Holding line" by blast
  then have q: "take_held x p = (forward_line x line p)\<lparr>p_pump := Stopped\<rparr>" by (simp add: take_held_def)
  have "on_its_way x ((forward_line x line p)\<lparr>p_pump := Stopped\<rparr>) k" if "l \<in> set (p_client p)" "carries x k l" for l k
    using proxy_invD(4) [OF inv that] pump daemon_line_lost [of k "p_tracker p" x line]
    by (auto simp: on_its_way_def forward_line_def)
  with q daemon_line_ok [OF proxy_invD(1) [OF inv]] show ?thesis by (simp add: lost_ok_def forward_line_def)
qed

lemma daemon_loss_wait:
  assumes laws: "wire_laws x" and ok: "lost_ok x p" and run: "on_daemon_loss x p = (WaitForRequest, q)"
  shows "flight_keys (p_tracker q) = {} \<and> lost_ok x q"
proof -
  obtain ids t where take: "take_in_flight x (p_tracker p) = (ids, t)" by (cases "take_in_flight x (p_tracker p)")
  from run take have q: "q = p\<lparr>p_tracker := t, p_out := p_out p @ answer_lines x ids RESTART_MESSAGE\<rparr>"
    by (auto simp: on_daemon_loss_def split: option.splits prod.splits)
  have t: "t_in_flight t = []" "tracker_ok x t"
    using take_in_flight_simps [of x "p_tracker p"] ok by (simp_all add: take lost_ok_def)
  have "on_its_way x q k" if "on_its_way x p k" for k
    using that ok take_all_answered [OF laws _ take, of k RESTART_MESSAGE]
    by (auto simp: on_its_way_def q lost_ok_def)
  with ok t show ?thesis by (auto simp: lost_ok_def q)
qed

lemma daemon_loss_reconnect:
  assumes laws: "wire_laws x" and ok: "lost_ok x p" and run: "on_daemon_loss x p = (ReconnectNow after, q)"
  shows "lost_ok x q \<and> (after = ReplayForward \<or> after = ResendKept) \<and> (\<exists>kept. t_kept_first (p_tracker q) = Some kept
    \<and> (\<forall>k\<in>flight_keys (p_tracker q). k = id_key x (kr_id kept)))"
proof -
  from run obtain kept where kept: "kept_in_flight x (p_tracker p) = Some kept"
    by (auto simp: on_daemon_loss_def split: option.splits prod.splits)
  obtain ids t where take: "take_in_flight_except x (kr_id kept) (p_tracker p) = (ids, t)"
    by (cases "take_in_flight_except x (kr_id kept) (p_tracker p)")
  from run kept take have q: "q = p\<lparr>p_tracker := t, p_out := p_out p @ answer_lines x ids RESTART_MESSAGE\<rparr>"
    and after: "after = ReplayForward \<or> after = ResendKept"
    by (auto simp: on_daemon_loss_def split: if_splits)
  from take have t: "t = (p_tracker p)\<lparr>t_in_flight := filter (\<lambda>r. fst r = id_key x (kr_id kept)) (t_in_flight (p_tracker p))\<rparr>"
    by (simp add: take_in_flight_except_def)
  have keys: "flight_keys t = {k \<in> flight_keys (p_tracker p). k = id_key x (kr_id kept)}"
    by (force simp: t row_keys_def)
  have ok': "tracker_ok x t" using ok by (simp add: t lost_ok_def tracker_ok_def)
  have kept': "t_kept_first t = Some kept" using kept by (simp add: kept_in_flight_iff t)
  have "on_its_way x q k" if "on_its_way x p k" for k
    using that ok take_others_answered [OF laws _ take, of k RESTART_MESSAGE]
    by (auto simp: on_its_way_def q keys lost_ok_def)
  with ok ok' after kept' keys show ?thesis by (auto simp: lost_ok_def q)
qed

lemma inv_loss:
  assumes laws: "wire_laws x" and inv: "proxy_inv x p" and run: "handle_loss x p = Some q"
  shows "proxy_inv x q"
proof -
  from run have pump: "p_pump p \<noteq> Sending l" for l by (auto simp: handle_loss_def split: if_splits)
  define p1 where "p1 = (take_held x p)\<lparr>p_queue := []\<rparr>"
  define t where "t = set_link Down (p_tracker p1)"
  define used where "used = (case p_pending p1 of None \<Rightarrow> 0 | Some r \<Rightarrow> attempts_carried x t r)"
  define p2 where "p2 = p1\<lparr>p_tracker := t, p_initialised_at_loss := t_initialised t, p_pending := None\<rparr>"
  obtain action p3 where p3: "on_daemon_loss x p2 = (action, p3)" by (cases "on_daemon_loss x p2")
  have way: "on_its_way x p2 k = on_its_way x (take_held x p) k" for k
    by (simp add: p2_def t_def p1_def on_its_way_def)
  have ok2: "lost_ok x p2"
    using take_held_ok [OF inv pump] unfolding lost_ok_def way by (simp add: p2_def t_def p1_def)
  have q: "q = (case action of WaitForRequest \<Rightarrow> p3\<lparr>p_main := Disconnected\<rparr>
      | ReconnectNow after \<Rightarrow> if MAX_ATTEMPTS \<le> used then exit_via_writer 1 p3
          else p3\<lparr>p_main := Restoring after (used + 1) False None, p_tracker := set_link Reconnecting (p_tracker p3)\<rparr>)"
  proof -
    from run have "q = on_loss x p" by (auto simp: handle_loss_def split: if_splits pump.splits)
    then show ?thesis
      unfolding on_loss_def Let_def p1_def [symmetric] t_def [symmetric] used_def [symmetric] p2_def [symmetric] p3
      by simp
  qed
  show ?thesis
  proof (cases action)
    case WaitForRequest
    from daemon_loss_wait [OF laws ok2 p3 [unfolded WaitForRequest]] show ?thesis
      unfolding q WaitForRequest by (intro proxy_invI) (auto simp: lost_ok_def round_ok_def on_its_way_def)
  next
    case (ReconnectNow after)
    from daemon_loss_reconnect [OF laws ok2 p3 [unfolded ReconnectNow]] obtain kept where
      k: "lost_ok x p3" "after = ReplayForward \<or> after = ResendKept" "t_kept_first (p_tracker p3) = Some kept"
        "\<forall>k\<in>flight_keys (p_tracker p3). k = id_key x (kr_id kept)" by blast
    have ok3: "tracker_ok x (p_tracker p3)" "p_pump p3 = Stopped" using k(1) by (simp_all add: lost_ok_def)
    have way3: "on_its_way x p3 k" if "l \<in> set (p_client p3)" "carries x k l" for l k
      using k(1) that unfolding lost_ok_def by blast
    show ?thesis
    proof (cases "MAX_ATTEMPTS \<le> used")
      case True
      with k(2-) ok3 way3 show ?thesis unfolding q ReconnectNow
        by (intro proxy_invI) (auto simp: round_ok_def on_its_way_def tended_def exit_via_writer_def)
    next
      case False
      with k(2-) ok3 way3 show ?thesis unfolding q ReconnectNow
        by (intro proxy_invI) (auto simp: round_ok_def on_its_way_def tended_def resends_def)
    qed
  qed
qed

lemma inv_loss_noticed:
  assumes inv: "proxy_inv x p" and run: "loss_noticed p = Some q"
  shows "proxy_inv x q"
proof (cases "q = exit_via_writer 0 p")
  case True
  then show ?thesis using inv_exit [OF inv] by simp
next
  case False
  with run have "q = p\<lparr>p_main := Losing\<rparr>" by (auto simp: loss_noticed_def split: if_splits main_state.splits)
  then show ?thesis using proxy_invD(1) [OF inv]
    by (intro inv_frame [OF inv]) (auto simp: round_ok_def tended_def)
qed

lemma inv_client_event:
  assumes inv: "proxy_inv x p" and run: "on_client_event x line written p = Some q"
  shows "proxy_inv x q"
  using run inv_queue_line [OF inv] inv_await_request [OF inv] inv_forward_client [OF inv]
  by (auto simp: on_client_event_def split: main_state.splits)

theorem inv_event:
  assumes laws: "wire_laws x" and inv: "proxy_inv x p" and run: "proxy_event x ev p = Some q"
  shows "proxy_inv x q"
proof (cases ev)
  case (AttemptFails err e m)
  with run inv_attempt_failed [OF laws inv] show ?thesis by (auto split: main_state.splits)
next
  case DrainTimeout
  with run inv_exit [OF inv] show ?thesis by (auto split: main_state.splits)
qed (use run in \<open>auto intro: inv_client_event [OF inv] inv_eof [OF inv] inv_flush [OF inv] inv_start_replay [OF inv]
   inv_attempt_succeeded [OF inv] inv_loss_noticed [OF inv] inv_loss [OF laws inv] inv_drain [OF inv] inv_pump [OF inv]\<close>)

theorem inv_reachable:
  assumes "wire_laws x" and "proxy_reachable x p"
  shows "proxy_inv x p"
  using assms(2) by (induction rule: proxy_reachable.induct) (auto intro: inv_start inv_event [OF assms(1)])

end
