(* ===== verification/ProxyRuns.thy ===== *)
theory ProxyRuns
  imports ProxyLaws "HOL-Library.Sublist"
begin

text \<open>
  The order in which the daemon receives the client's lines, the properties of the proxy, and
  the runs that show two races.
\<close>

section \<open>Order\<close>

text \<open>The lines written to the connection: at most two lines repeated for a new daemon, then
  lines of the client in the client's order.\<close>

definition in_order :: "string list \<Rightarrow> string list \<Rightarrow> bool" where
  "in_order client lines \<longleftrightarrow>
     (\<exists>pre rest. lines = pre @ rest \<and> length pre \<le> 2 \<and> set pre \<subseteq> set client \<and> subseq rest client)"

definition cached_from :: "string list \<Rightarrow> tracker \<Rightarrow> bool" where
  "cached_from client t \<longleftrightarrow> (\<forall>l. t_initialize t = Some l \<longrightarrow> l \<in> set client)
     \<and> (\<forall>l. t_initialized t = Some l \<longrightarrow> l \<in> set client)
     \<and> (\<forall>kept. t_kept_first t = Some kept \<longrightarrow> kr_line kept \<in> set client)"

definition order_inv :: "proxy \<Rightarrow> bool" where
  "order_inv p \<longleftrightarrow> cached_from (p_client p) (p_tracker p) \<and>
     (case p_main p of
        Starting n \<Rightarrow> subseq (p_queue p) (p_client p)
      | Flushing \<Rightarrow> in_order (p_client p) (p_sent p @ p_queue p)
      | Forwarding \<Rightarrow> p_queue p = [] \<and> in_order (p_client p) (p_sent p)
      | Draining c \<Rightarrow> p_queue p = [] \<and> in_order (p_client p) (p_sent p)
      | Losing \<Rightarrow> True
      | Disconnected \<Rightarrow> p_queue p = []
      | Restoring a n e snap \<Rightarrow> subseq (p_queue p) (p_client p) \<and>
          (\<forall>l m. snap = Some (l, m) \<longrightarrow> l \<in> set (p_client p) \<and> (\<forall>l'. m = Some l' \<longrightarrow> l' \<in> set (p_client p)))
      | Exited \<Rightarrow> True)"

lemma cached_client:
  assumes "cached_from client t"
  shows "cached_from (client @ [line]) (snd (on_client_line x line t))"
proof -
  have "t_initialized (snd (on_client_line x line t)) = t_initialized t \<or>
      t_initialized (snd (on_client_line x line t)) = Some line"
    by (auto simp: on_client_line_def Let_def keep_first_def split: option.splits)
  moreover have "t_initialize (snd (on_client_line x line t)) = t_initialize t \<or>
      t_initialize (snd (on_client_line x line t)) = Some line"
    using keep_first_initialize by (auto simp: on_client_line_def Let_def split: option.splits)
  moreover have "t_kept_first t = Some kept \<or> kr_line kept = line"
    if "t_kept_first (snd (on_client_line x line t)) = Some kept" for kept
    using that by (auto simp: on_client_line_def Let_def dest: keep_first_new split: option.splits if_splits)
  ultimately show ?thesis using assms by (auto simp: cached_from_def)
qed

lemma cached_more: "cached_from client t \<Longrightarrow> cached_from (client @ [line]) t"
  by (auto simp: cached_from_def)

lemma cached_daemon: "cached_from client t \<Longrightarrow> cached_from client (on_daemon_line x line t)"
  by (cases "parse x line")
    (auto simp: cached_from_def on_daemon_line_def Let_def split: option.splits)

lemma cached_simps [simp]:
  "cached_from client (set_link l t) = cached_from client t"
  "cached_from client (mark_replay_started t) = cached_from client t"
  "cached_from client (t\<lparr>t_in_flight := fl\<rparr>) = cached_from client t"
  by (simp_all add: cached_from_def set_link_def mark_replay_started_def)

lemma cached_take [simp]:
  "take_in_flight x t = (ids, t') \<Longrightarrow> cached_from client t' = cached_from client t"
  "take_in_flight_except x k t = (ids, t') \<Longrightarrow> cached_from client t' = cached_from client t"
  by (auto simp: take_in_flight_def take_in_flight_except_def)

lemma subseq_more: "subseq ls client \<Longrightarrow> subseq ls (client @ [l])"
  by (rule list_emb_prefix)

lemma subseq_snoc: "subseq ls client \<Longrightarrow> subseq (ls @ [l]) (client @ [l])"
  by (simp add: subseq_append)

lemma in_order_snoc:
  assumes "in_order client ls"
  shows "in_order (client @ [l]) (ls @ [l])"
proof -
  from assms obtain pre rest where "ls = pre @ rest" "length pre \<le> 2" "set pre \<subseteq> set client" "subseq rest client"
    unfolding in_order_def by blast
  then show ?thesis
    unfolding in_order_def by (intro exI [of _ pre] exI [of _ "rest @ [l]"]) (auto simp: subseq_append)
qed

lemma in_orderI: "length pre \<le> 2 \<Longrightarrow> set pre \<subseteq> set client \<Longrightarrow> subseq rest client \<Longrightarrow> in_order client (pre @ rest)"
  unfolding in_order_def by blast

lemma order_start: "order_inv initial_proxy"
  by (simp add: order_inv_def initial_proxy_def cached_from_def new_tracker_def)

lemma order_client:
  assumes inv: "order_inv p" and run: "on_client_event x line written p = Some q"
  shows "order_inv q"
proof -
  define t where "t = snd (on_client_line x line (p_tracker p))"
  have c: "cached_from (p_client p @ [line]) t"
    using inv cached_client by (simp add: order_inv_def t_def)
  show ?thesis
  proof (cases "p_main p")
    case (Starting n)
    with run have q: "q = queue_line x line (note_client line p)" by (simp add: on_client_event_def)
    from inv Starting c show ?thesis
      by (auto simp: q order_inv_def queue_line_def note_client_def case_prod_beta t_def Let_def subseq_snoc subseq_more)
  next
    case (Restoring a n e s)
    with run have q: "q = queue_line x line (note_client line p)" by (simp add: on_client_event_def)
    from inv Restoring c show ?thesis
      by (auto simp: q order_inv_def queue_line_def note_client_def case_prod_beta t_def Let_def subseq_snoc subseq_more)
  next
    case Disconnected
    with run have q: "q = await_request x line (note_client line p)" by (simp add: on_client_event_def)
    from inv Disconnected c show ?thesis
      by (auto simp: q order_inv_def await_request_def note_client_def case_prod_beta t_def Let_def)
  next
    case Forwarding
    with run have q: "q = forward_client x line written (note_client line p)" by (simp add: on_client_event_def)
    from inv Forwarding c show ?thesis
      by (auto simp: q order_inv_def forward_client_def note_client_def case_prod_beta t_def in_order_snoc)
  qed (use run in \<open>simp_all add: on_client_event_def\<close>)
qed

lemma order_flush: "order_inv p \<Longrightarrow> flush_one written p = Some q \<Longrightarrow> order_inv q"
  by (auto simp: flush_one_def order_inv_def split: if_splits list.splits)

lemma order_eof: "order_inv p \<Longrightarrow> on_eof p = Some q \<Longrightarrow> order_inv q"
  by (auto simp: on_eof_def order_inv_def exit_via_writer_def split: main_state.splits)

lemma order_drain: "order_inv p \<Longrightarrow> drain_check p = Some q \<Longrightarrow> order_inv q"
  by (auto simp: drain_check_def order_inv_def exit_via_writer_def split: main_state.splits if_splits)

lemma order_noticed: "order_inv p \<Longrightarrow> loss_noticed p = Some q \<Longrightarrow> order_inv q"
  by (auto simp: loss_noticed_def order_inv_def exit_via_writer_def split: main_state.splits if_splits)

lemma order_pump:
  assumes "order_inv p" and "pump_event x ev p = Some q"
  shows "order_inv q"
  using assms by (auto simp: pump_event_def order_inv_def cached_daemon split: pump.splits event.splits main_state.splits)

lemma order_replay:
  assumes "order_inv p" and "start_replay x p = Some q"
  shows "order_inv q"
  using assms
  by (auto simp: start_replay_def Let_def order_inv_def mark_replay_started_def [THEN arg_cong [of _ _ t_initialized]] cached_from_def
      split: main_state.splits after_hello.splits option.splits if_splits)

lemma order_failed:
  assumes "order_inv p"
  shows "order_inv (attempt_failed x err exe mtime p)"
  using assms
  by (auto simp: attempt_failed_def round_failed_def fail_pending_def exit_via_writer_def order_inv_def Let_def
      split: main_state.splits prod.splits)

lemma order_succeeded:
  assumes inv: "order_inv p" and run: "attempt_succeeded x key response p = Some q"
  shows "order_inv q"
proof (cases "p_main p")
  case (Starting n)
  with run inv in_orderI [of "[]" "p_client p" "p_queue p"] show ?thesis
    by (auto simp: attempt_succeeded_def order_inv_def connected_def)
next
  case (Restoring a n e s)
  have kept: "kr_line kept \<in> set (p_client p)" if "t_kept_first (p_tracker p) = Some kept" for kept
    using inv that by (simp add: order_inv_def cached_from_def)
  have q: "subseq (p_queue p) (p_client p)" "cached_from (p_client p) (p_tracker p)"
    using inv Restoring by (simp_all add: order_inv_def)
  show ?thesis
  proof (cases a)
    case ReplayDrop
    with run Restoring obtain l m where s: "s = Some (l, m)"
      and r: "q = connected (l # (case m of None \<Rightarrow> [] | Some l' \<Rightarrow> [l'])) (announce_key key p)"
      by (auto simp: attempt_succeeded_def split: option.splits)
    have "in_order (p_client p) ((l # (case m of None \<Rightarrow> [] | Some l' \<Rightarrow> [l'])) @ p_queue p)"
      using inv Restoring s q by (intro in_orderI) (auto simp: order_inv_def split: option.splits)
    with q show ?thesis by (simp add: r connected_def order_inv_def)
  next
    case ReplayForward
    with run Restoring obtain kept where k: "t_kept_first (p_tracker p) = Some kept"
      and r: "q = connected [kr_line kept] (forward_line x response (announce_key key p))"
      by (auto simp: attempt_succeeded_def split: option.splits if_splits)
    show ?thesis using q kept [OF k] in_orderI [of "[kr_line kept]" "p_client p" "p_queue p"]
      by (simp add: r connected_def order_inv_def forward_line_def cached_daemon)
  next
    case ResendKept
    with run Restoring obtain kept where k: "t_kept_first (p_tracker p) = Some kept"
      and r: "q = connected [kr_line kept] ((announce_key key p)\<lparr>p_pending := Some (resend_pending_new kept n)\<rparr>)"
      by (auto simp: attempt_succeeded_def split: option.splits)
    show ?thesis using q kept [OF k] in_orderI [of "[kr_line kept]" "p_client p" "p_queue p"]
      by (simp add: r connected_def order_inv_def)
  next
    case Nothing
    with run Restoring q in_orderI [of "[]" "p_client p" "p_queue p"] show ?thesis
      by (auto simp: attempt_succeeded_def connected_def order_inv_def)
  qed
qed (use run in \<open>simp_all add: attempt_succeeded_def\<close>)

lemma cached_take_held [simp]:
  "cached_from client (p_tracker p) \<Longrightarrow> cached_from client (p_tracker (take_held x p))"
  "p_client (take_held x p) = p_client p"
  by (auto simp: take_held_def forward_line_def cached_daemon split: pump.splits)

lemma loss_frame:
  assumes "on_daemon_loss x p = (action, q)"
  shows "p_client q = p_client p" "p_queue q = p_queue p"
    "cached_from client (p_tracker p) \<Longrightarrow> cached_from client (p_tracker q)"
  using assms by (auto simp: on_daemon_loss_def split: option.splits prod.splits)

lemma order_loss:
  assumes inv: "order_inv p" and run: "handle_loss x p = Some q"
  shows "order_inv q"
proof -
  from run have q: "q = on_loss x p" by (auto simp: handle_loss_def split: if_splits pump.splits)
  define p2 where "p2 = (take_held x p)\<lparr>p_queue := [], p_tracker := set_link Down (p_tracker (take_held x p)),
      p_initialised_at_loss := t_initialised (set_link Down (p_tracker (take_held x p))), p_pending := None\<rparr>"
  obtain action p3 where p3: "on_daemon_loss x p2 = (action, p3)" by (cases "on_daemon_loss x p2")
  have c: "cached_from (p_client p3) (p_tracker p3)" "p_queue p3 = []"
    using inv loss_frame [OF p3] by (simp_all add: p2_def order_inv_def)
  have "q \<in> {p3\<lparr>p_main := Disconnected\<rparr>, exit_via_writer 1 p3} \<union>
      {p3\<lparr>p_main := Restoring after n False None, p_tracker := set_link Reconnecting (p_tracker p3)\<rparr> | after n. True}"
    using p3 by (auto simp: q on_loss_def Let_def p2_def split: loss_action.splits prod.splits)
  then show ?thesis using c by (auto simp: order_inv_def exit_via_writer_def)
qed

lemma order_event:
  assumes inv: "order_inv p" and run: "proxy_event x ev p = Some q"
  shows "order_inv q"
proof (cases ev)
  case (AttemptFails err e m)
  with run order_failed [OF inv] show ?thesis by (auto split: main_state.splits)
next
  case DrainTimeout
  with run inv show ?thesis by (auto simp: order_inv_def exit_via_writer_def split: main_state.splits)
qed (use run in \<open>auto intro: order_client [OF inv] order_eof [OF inv] order_flush [OF inv] order_replay [OF inv]
   order_succeeded [OF inv] order_noticed [OF inv] order_loss [OF inv] order_drain [OF inv] order_pump [OF inv]\<close>)

lemma order_reachable: "proxy_reachable x p \<Longrightarrow> order_inv p"
  by (induction rule: proxy_reachable.induct) (auto intro: order_start order_event)

section \<open>An example of the wire\<close>

text \<open>
  One-character ids: \<open>{q1\<close> is a call, \<open>{i1\<close> the initialize request, \<open>{n\<close> the initialized
  notification, \<open>{p1\<close> a result and \<open>{E1...\<close> an error, each followed by a newline.
\<close>

fun demo_parse :: "string \<Rightarrow> json option" where
  "demo_parse (b # k # c # rest) =
     (if k = CHR ''q'' then Some (JObj [(''id'', JNum [c]), (''method'', JStr ''tools/call'')])
      else if k = CHR ''i'' then Some (JObj [(''id'', JNum [c]), (''method'', JStr INITIALIZE)])
      else if k = CHR ''n'' then Some (JObj [(''method'', JStr INITIALIZED)])
      else if k = CHR ''p'' then Some (JObj [(''id'', JNum [c]), (''result'', JNull)])
      else if k = CHR ''E'' then Some (rpc_error (JNum [c]) RESTART_CODE (butlast rest))
      else None)"
| "demo_parse _ = None"

definition demo_print :: "json \<Rightarrow> string" where
  "demo_print v =
     (case v of
        JNum s \<Rightarrow> s
      | JObj [_, (_, JNum s), (_, JObj [_, (_, JStr m)])] \<Rightarrow> ''{E'' @ s @ m
      | _ \<Rightarrow> [])"

definition demo_wire :: json_lib where
  "demo_wire = \<lparr> j_parse = demo_parse, j_print = demo_print, j_error_text = (\<lambda>_. ''expected value''), j_drain = rev \<rparr>"

definition demo_line :: "string \<Rightarrow> string" where
  "demo_line s = s @ newline"

lemma demo_known: "known_id demo_wire i \<Longrightarrow> \<exists>c. i = JNum [c]"
proof -
  assume "known_id demo_wire i"
  then obtain line ms where "demo_parse line = Some (JObj ms)" "(''id'', i) \<in> set ms"
    by (auto simp: known_id_def demo_wire_def)
  then show ?thesis
    by (cases line rule: demo_parse.cases) (auto simp: rpc_error_def split: if_splits)
qed

lemma demo_wire_laws: "wire_laws demo_wire"
  by (auto simp: wire_laws_def demo_wire_def jsonrpc_error_def demo_print_def rpc_error_def newline_def
      RESTART_CODE_def dest!: demo_known [unfolded demo_wire_def])

lemmas demo_run_simps = demo_wire_def demo_print_def demo_line_def newline_def initial_proxy_def
  new_tracker_def attempt_succeeded_def connected_def flush_one_def on_client_event_def forward_client_def
  note_client_def on_client_line_def parse_def ascii_space_def envelope_of_def member_of_def repeated_def
  keep_first_def INITIALIZE_def INITIALIZED_def counts_for_lifecycle_def id_key_def rows_put_def rows_del_def
  rows_get_def pump_event_def on_eof_def on_daemon_line_def drain_check_def has_in_flight_def exit_via_writer_def
  set_link_def replays_handshake_def loss_noticed_def handle_loss_def on_loss_def take_held_def on_daemon_loss_def
  kept_in_flight_def is_in_flight_def take_in_flight_def await_request_def start_replay_def queue_line_def
  attempt_failed_def retryable_def MAX_ATTEMPTS_def announce_key_def mark_replay_started_def request_id_def
  answer_lines_def take_in_flight_except_def Let_def

section \<open>Properties\<close>


text \<open>
  C35. Everything the daemon receives is the client's: a new connection starts with at most two
  lines of the client repeated for the new daemon (the handshake, or the kept first request),
  and then carries lines of the client, none of them twice and in the client's order.
\<close>

theorem lines_in_order:
  assumes "proxy_reachable x p" and "p_main p = Flushing \<or> p_main p = Forwarding \<or> (\<exists>c. p_main p = Draining c)"
  shows "in_order (p_client p) (p_sent p @ p_queue p)"
  using order_reachable [OF assms(1)] assms(2) by (auto simp: order_inv_def)

text \<open>
  A reconnecting round can always be carried out: it is in one of three attempts, a handshake
  is replayed only when \<open>initialize\<close> is cached with its id, and a re-send always finds the
  kept first request, so that the errors for a missing cached line cannot occur.
\<close>

theorem reconnect_possible:
  assumes "wire_laws x" and "proxy_reachable x p" and "p_main p = Restoring after n early snap"
  shows "1 \<le> n \<and> n \<le> MAX_ATTEMPTS \<and> p_pump p = Stopped
    \<and> (after = ReplayDrop \<longrightarrow> (\<exists>line. t_initialize (p_tracker p) = Some line \<and> request_id x line \<noteq> None))
    \<and> (after = ReplayForward \<or> after = ResendKept \<longrightarrow> (\<exists>kept. t_kept_first (p_tracker p) = Some kept
         \<and> request_id x (kr_line kept) = Some (kr_id kept)))"
proof -
  note inv = inv_reachable [OF assms(1,2)]
  from proxy_invD(2) [OF inv] assms(3) have r: "1 \<le> n" "n \<le> MAX_ATTEMPTS" "p_pump p = Stopped"
      "after = ReplayDrop \<longrightarrow> replays_handshake (p_tracker p)"
      "after = ReplayForward \<or> after = ResendKept \<longrightarrow> t_kept_first (p_tracker p) \<noteq> None"
    by (simp_all add: round_ok_def)
  with proxy_invD(1) [OF inv] show ?thesis by (auto simp: tracker_ok_def replays_handshake_def)
qed

lemma new_tracker_flight: "t_in_flight new_tracker = []"
  by (simp add: new_tracker_def)

lemma answer_removes:
  assumes "answers x k line" and "flight_keys t = {k}"
  shows "t_in_flight (on_daemon_line x line t) = rows_del fst [k] (t_in_flight t)"
proof -
  from assms(1) obtain e i where p: "parse x line = Some e" "env_method e = None" "env_id e = Some i" "id_key x i = k"
    by (auto simp: answers_def)
  have "rows_get fst k (t_in_flight t) \<noteq> None"
    using assms(2) by (simp add: rows_get_None)
  then obtain r where row: "rows_get fst k (t_in_flight t) = Some r" by blast
  then show ?thesis
    by (cases r) (simp add: on_daemon_line_def p Let_def split: option.splits)
qed

text \<open>
  An exit can overtake the last answer. The daemon answers the only request while the proxy
  drains; the pump has told the tracker of the answer but not yet queued it for stdout, and
  \<open>drain\<close> finds no request in flight and queues the exit first. The client never gets the
  answer, although the daemon gave it in time.
\<close>

theorem exit_overtakes_answer:
  assumes "request_id x req = Some i" and "answers x (id_key x i) resp"
  shows "\<exists>p. proxy_run x [AttemptSucceeds key [], Flush True, ClientLine req True, ClientEof, PumpRead resp, PumpTrack,
      DrainCheck, PumpSend] initial_proxy = Some p \<and> p_out p = [OutExit 0, OutLine resp] \<and> written_lines (p_out p) = []"
proof -
  define t1 where "t1 = snd (on_client_line x req (set_link Up new_tracker))"
  have keys: "flight_keys t1 = {id_key x i}"
    unfolding t1_def client_line_keys using assms(1) by (auto simp: carries_def new_tracker_flight)
  from answer_removes [OF assms(2) keys] keys have "t_in_flight (on_daemon_line x resp t1) = []"
    by (auto simp: row_keys_def rows_del_def filter_empty_conv)
  then have idle: "\<not> has_in_flight (on_daemon_line x resp t1)" by (simp add: has_in_flight_def)
  define p3 where "p3 = initial_proxy\<lparr>p_last_key := key, p_main := Draining False, p_pump := Reading, p_tracker := t1,
      p_client := [req], p_sent := [req]\<rparr>"
  have "proxy_run x [AttemptSucceeds key [], Flush True, ClientLine req True, ClientEof] initial_proxy = Some p3"
    by (simp add: p3_def initial_proxy_def attempt_succeeded_def connected_def flush_one_def on_client_event_def
        forward_client_def note_client_def on_eof_def t1_def case_prod_beta Let_def)
  then have run: "proxy_run x ([AttemptSucceeds key [], Flush True, ClientLine req True, ClientEof] @ evs) initial_proxy =
      proxy_run x evs p3" for evs
    unfolding run_events_append by simp
  show ?thesis
    using idle run [of "[PumpRead resp, PumpTrack, DrainCheck, PumpSend]"]
    by (simp add: p3_def initial_proxy_def pump_event_def drain_check_def exit_via_writer_def)
qed

definition demo_up :: "event list" where
  "demo_up = [AttemptSucceeds ''k1'' [], Flush True]"

definition demo_call :: string where "demo_call = demo_line ''{q1''"

theorem exit_overtakes_answer_witness:
  "\<exists>p. proxy_run demo_wire [AttemptSucceeds ''k1'' [], Flush True, ClientLine demo_call True, ClientEof,
      PumpRead (demo_line ''{p1''), PumpTrack, DrainCheck, PumpSend] initial_proxy = Some p
      \<and> p_out p = [OutExit 0, OutLine (demo_line ''{p1'')] \<and> written_lines (p_out p) = []"
  by (rule exit_overtakes_answer [of _ _ "JNum ''1''"])
    (simp_all add: demo_call_def demo_run_simps answers_def)

text \<open>
  A retried replay sends \<open>notifications/initialized\<close> twice. The notification arrives after
  the first attempt has read the cached handshake, so it is queued; the attempt fails, the
  second one finds the notification in the cache and sends it, and then the queue sends it again.
\<close>

theorem initialized_sent_twice:
  assumes "parse x ini = Some \<lparr> env_id = Some i, env_method = Some INITIALIZE, env_result = False, env_error = False \<rparr>"
    and "parse x resp = Some \<lparr> env_id = Some i, env_method = None, env_result = True, env_error = False \<rparr>"
    and "parse x req = Some \<lparr> env_id = Some j, env_method = Some m, env_result = False, env_error = False \<rparr>"
    and "parse x note = Some \<lparr> env_id = None, env_method = Some INITIALIZED, env_result = False, env_error = False \<rparr>"
    and "wire_laws x"
  shows "\<exists>p. proxy_run x [AttemptSucceeds key [], Flush True, ClientLine ini True, PumpRead resp, PumpTrack, PumpSend,
      PumpEof, LossNoticed, HandleLoss, ClientLine req True, StartReplay, ClientLine note True,
      AttemptFails (retryable ''closed'') True False, StartReplay, AttemptSucceeds key [], Flush True, Flush True]
      initial_proxy = Some p \<and> p_client p = [ini, req, note] \<and> p_sent p = [ini, note, req, note]"
proof -
  have get: "rows_get fst k (rows_put fst (k, v) ([]::flight)) = Some (k, v)" "rows_del fst [k] (rows_put fst (k, v) ([]::flight)) = []"
    for k v by (simp_all add: rows_put_def rows_del_def rows_get_def)
  have none: "j_drain x [] = []" using drain_set [OF assms(5), of "[]"] by simp
  have ids: "request_id x ini = Some i" using assms(1) by (simp add: request_id_def)
  show ?thesis
    using get ids
    by (simp add: assms(1-4) none initial_proxy_def new_tracker_def attempt_succeeded_def connected_def flush_one_def on_client_event_def
        forward_client_def note_client_def on_client_line_def keep_first_def pump_event_def on_daemon_line_def
        has_in_flight_def exit_via_writer_def set_link_def Let_def counts_for_lifecycle_def INITIALIZE_def INITIALIZED_def
        loss_noticed_def handle_loss_def on_loss_def take_held_def on_daemon_loss_def kept_in_flight_def take_in_flight_def
        answer_lines_def await_request_def replays_handshake_def start_replay_def mark_replay_started_def queue_line_def
        attempt_failed_def retryable_def MAX_ATTEMPTS_def announce_key_def)
qed

section \<open>Examples\<close>


lemma demo_called:
  "\<exists>p. proxy_run demo_wire (demo_up @ [ClientLine demo_call True]) initial_proxy = Some p
     \<and> p_client p = [demo_call] \<and> p_main p = Forwarding"
  by (simp add: demo_up_def initial_proxy_def attempt_succeeded_def connected_def flush_one_def on_client_event_def
      forward_client_def note_client_def case_prod_beta)


theorem lines_in_order_witness:
  "\<exists>p. proxy_run demo_wire (demo_up @ [ClientLine demo_call True]) initial_proxy = Some p
     \<and> in_order [demo_call] (p_sent p @ p_queue p)"
proof -
  obtain p where p: "proxy_run demo_wire (demo_up @ [ClientLine demo_call True]) initial_proxy = Some p"
      "p_client p = [demo_call]" "p_main p = Forwarding" using demo_called by blast
  from lines_in_order [OF proxies.run_from_start [OF p(1) refl]] p show ?thesis by simp
qed

text \<open>The daemon dies while the first call is unanswered: it is re-sent.\<close>

theorem reconnect_possible_witness:
  "\<exists>p. proxy_run demo_wire (demo_up @ [ClientLine demo_call True, PumpEof, LossNoticed, HandleLoss]) initial_proxy = Some p
     \<and> p_main p = Restoring ResendKept 1 False None
     \<and> (\<exists>kept. t_kept_first (p_tracker p) = Some kept \<and> request_id demo_wire (kr_line kept) = Some (kr_id kept))"
proof -
  obtain p where p: "proxy_run demo_wire (demo_up @ [ClientLine demo_call True, PumpEof, LossNoticed, HandleLoss]) initial_proxy = Some p"
      "p_main p = Restoring ResendKept 1 False None"
    by (simp add: demo_up_def demo_call_def demo_run_simps)
  from reconnect_possible [OF demo_wire_laws proxies.run_from_start [OF p(1) refl] p(2)] p show ?thesis by auto
qed

theorem initialized_sent_twice_witness:
  "\<exists>p. proxy_run demo_wire [AttemptSucceeds ''k1'' [], Flush True, ClientLine (demo_line ''{i1'') True,
      PumpRead (demo_line ''{p1''), PumpTrack, PumpSend, PumpEof, LossNoticed, HandleLoss, ClientLine (demo_line ''{q2'') True,
      StartReplay, ClientLine (demo_line ''{n'') True, AttemptFails (retryable ''closed'') True False, StartReplay,
      AttemptSucceeds ''k1'' [], Flush True, Flush True] initial_proxy = Some p
      \<and> p_client p = [demo_line ''{i1'', demo_line ''{q2'', demo_line ''{n'']
      \<and> p_sent p = [demo_line ''{i1'', demo_line ''{n'', demo_line ''{q2'', demo_line ''{n'']"
  by (rule initialized_sent_twice [of _ _ "JNum ''1''" _ _ "JNum ''2''" "''tools/call''"])
    (simp_all add: demo_line_def newline_def parse_def demo_wire_def ascii_space_def envelope_of_def member_of_def repeated_def
      demo_wire_laws [unfolded demo_wire_def])

end
