(* ===== verification/ServerTools.thy ===== *)
theory ServerTools
  imports Handshake RecallLaws ReflectLaws
begin

text \<open>
  The MCP tools of a session (\<open>crates/server/src/server.rs\<close>, \<open>params.rs\<close>, \<open>hint.rs\<close>): each reads
  its parameters, calls the service with a request, and turns errors into protocol errors and
  answers into JSON. The session's namespace stands in for one that is not given.
\<close>

section \<open>Text a tool writes\<close>

text \<open>The parser of date-times and the printing of numbers and dates are parameters.\<close>

record tool_lib =
  tl_json :: json_lib
  tl_datetime :: "string \<Rightarrow> string + time"
  tl_four_decimals :: "real \<Rightarrow> string"
  tl_number :: "real \<Rightarrow> json"

section \<open>Parameters\<close>

record store_params =
  sp_content :: "string option"
  sp_memory_type :: "string option"
  sp_subject :: "string option"
  sp_predicate :: "string option"
  sp_object :: "string option"
  sp_confidence :: "real option"
  sp_source :: "string option"
  sp_context :: "json option"
  sp_entities :: "string list"
  sp_namespace :: "string option"
  sp_supersedes :: "string option"

record time_range_param =
  trp_start :: "string option"
  trp_end :: "string option"

record recall_params =
  rp_query :: string
  rp_types :: "string list option"
  rp_entities :: "string list option"
  rp_namespace :: "string option"
  rp_limit :: "nat option"
  rp_validate_ids :: "string list option"
  rp_time_range :: "time_range_param option"
  rp_as_of :: "string option"
  rp_include_invalidated :: "bool option"
  rp_include_stale :: "bool option"
  rp_explain :: bool

record timeline_params =
  tp_entity :: string
  tp_namespace :: "string option"
  tp_limit :: "nat option"
  tp_types :: "string list option"
  tp_include_invalidated :: "bool option"

record taxonomy_params =
  xp_namespace :: "string option"
  xp_limit :: "nat option"

record reflect_params =
  fp_namespace :: string
  fp_limit :: "nat option"
  fp_include_contradictions :: "bool option"
  fp_include_stale :: "bool option"

record stats_params =
  stp_namespace :: string
  stp_detailed :: "bool option"
  stp_diagnostics :: "bool option"

section \<open>Errors\<close>

text \<open>\<open>ToolPanicked\<close> is a panic of the service, which no error of the protocol stands for.\<close>

datatype tool_error = InvalidParams string "json option" | InternalError string | ToolPanicked string

fun core_error_text :: "tool_lib \<Rightarrow> core_error \<Rightarrow> string" where
  "core_error_text x (EmbedError e) = e"
| "core_error_text x (StoreError e) = store_error_text e"
| "core_error_text x (ConfigError e) = e"
| "core_error_text x (Validation e) = ''validation error: '' @ e"
| "core_error_text x (Duplicate i s) = ''duplicate memory: existing='' @ i @ '', similarity='' @ tl_four_decimals x s"
| "core_error_text x (ConflictAmbiguous i r) = ''conflict ambiguous: existing='' @ i @ '', ratio='' @ tl_four_decimals x r"
| "core_error_text x (MultiMatchConflict ids) =
     ''multi-match conflict: existing='' @ ''['' @ join '', '' (map debug_string ids) @ '']''"
| "core_error_text x (Panicked m) = m"

fun map_error :: "tool_lib \<Rightarrow> core_error \<Rightarrow> tool_error" where
  "map_error x (Validation m) = InvalidParams m None"
| "map_error x (Duplicate i s) =
     InvalidParams (''duplicate: existing_id='' @ i @ '' similarity='' @ tl_four_decimals x s)
       (Some (JObj [(''code'', JStr ''duplicate''), (''existing_id'', JStr i), (''similarity'', tl_number x s)]))"
| "map_error x (ConflictAmbiguous i r) =
     InvalidParams (''conflict_ambiguous: existing_id='' @ i @ '' ratio='' @ tl_four_decimals x r)
       (Some (JObj [(''code'', JStr ''conflict_ambiguous''), (''existing_id'', JStr i), (''ratio'', tl_number x r)]))"
| "map_error x (MultiMatchConflict ids) =
     InvalidParams (''multi_match_conflict: existing_ids='' @ ''['' @ join '', '' (map debug_string ids) @ '']'')
       (Some (JObj [(''code'', JStr ''multi_match_conflict''), (''existing_ids'', JArr (map JStr ids))]))"
| "map_error x (Panicked m) = ToolPanicked m"
| "map_error x (EmbedError e) = InternalError (core_error_text x (EmbedError e))"
| "map_error x (StoreError e) = InternalError (core_error_text x (StoreError e))"
| "map_error x (ConfigError e) = InternalError (core_error_text x (ConfigError e))"

section \<open>Reading parameters\<close>

fun parse_all_types :: "string list \<Rightarrow> string + memory_type list" where
  "parse_all_types [] = Inr []"
| "parse_all_types (s # ss) =
     (case mt_from_str s of Inl e \<Rightarrow> Inl e
      | Inr t \<Rightarrow> (case parse_all_types ss of Inl e \<Rightarrow> Inl e | Inr ts \<Rightarrow> Inr (t # ts)))"

definition parse_memory_types :: "string list option \<Rightarrow> tool_error + memory_type list option" where
  "parse_memory_types types =
     (case types of None \<Rightarrow> Inr None
      | Some ss \<Rightarrow> (case parse_all_types ss of Inl e \<Rightarrow> Inl (InvalidParams e None) | Inr ts \<Rightarrow> Inr (Some ts)))"

definition parse_datetime :: "tool_lib \<Rightarrow> string \<Rightarrow> string \<Rightarrow> tool_error + time" where
  "parse_datetime x s field =
     (case tl_datetime x s of
        Inl e \<Rightarrow> Inl (InvalidParams (''invalid '' @ field @ '': '' @ e) None)
      | Inr t \<Rightarrow> Inr t)"

definition parse_optional :: "('a \<Rightarrow> tool_error + 'b) \<Rightarrow> 'a option \<Rightarrow> tool_error + 'b option" where
  "parse_optional rd v =
     (case v of None \<Rightarrow> Inr None | Some a \<Rightarrow> (case rd a of Inl e \<Rightarrow> Inl e | Inr b \<Rightarrow> Inr (Some b)))"

definition parse_time_range :: "tool_lib \<Rightarrow> time_range_param \<Rightarrow> tool_error + time_range" where
  "parse_time_range x tr =
     (case parse_optional (\<lambda>s. parse_datetime x s ''datetime'') (trp_start tr) of
        Inl e \<Rightarrow> Inl e
      | Inr s \<Rightarrow> (case parse_optional (\<lambda>s. parse_datetime x s ''datetime'') (trp_end tr) of
          Inl e \<Rightarrow> Inl e
        | Inr e \<Rightarrow> (case (s, e) of
            (Some s', Some e') \<Rightarrow> if e' < s' then Inl (InvalidParams ''time_range start must be <= end'' None)
              else Inr \<lparr> tr_start = s, tr_end = e \<rparr>
          | _ \<Rightarrow> Inr \<lparr> tr_start = s, tr_end = e \<rparr>)))"

text \<open>The session's default namespace.\<close>

definition namespace_or_default :: "string \<Rightarrow> string option \<Rightarrow> string option" where
  "namespace_or_default ns requested = (case requested of Some n \<Rightarrow> Some n | None \<Rightarrow> Some ns)"

definition store_request_of :: "string \<Rightarrow> store_params \<Rightarrow> tool_error + store_request" where
  "store_request_of ns p =
     (case parse_optional (\<lambda>s. case mt_from_str s of Inl e \<Rightarrow> Inl (InvalidParams e None) | Inr t \<Rightarrow> Inr t) (sp_memory_type p) of
        Inl e \<Rightarrow> Inl e
      | Inr mt \<Rightarrow> Inr \<lparr> sr_content = sp_content p, sr_memory_type = mt, sr_subject = sp_subject p,
          sr_predicate = sp_predicate p, sr_object = sp_object p, sr_confidence = sp_confidence p, sr_source = sp_source p,
          sr_context = sp_context p, sr_entities = sp_entities p, sr_namespace = namespace_or_default ns (sp_namespace p),
          sr_supersedes = sp_supersedes p \<rparr>)"

definition recall_request_of :: "tool_lib \<Rightarrow> string \<Rightarrow> recall_params \<Rightarrow> tool_error + recall_request" where
  "recall_request_of x ns p =
     (case parse_memory_types (rp_types p) of
        Inl e \<Rightarrow> Inl e
      | Inr types \<Rightarrow> (case parse_optional (parse_time_range x) (rp_time_range p) of
          Inl e \<Rightarrow> Inl e
        | Inr window \<Rightarrow> (case parse_optional (\<lambda>s. parse_datetime x s ''as_of datetime'') (rp_as_of p) of
            Inl e \<Rightarrow> Inl e
          | Inr as_of \<Rightarrow> Inr \<lparr> rr_query = rp_query p, rr_types = types, rr_entities = rp_entities p,
              rr_namespace = namespace_or_default ns (rp_namespace p), rr_limit = rp_limit p,
              rr_include_stale = rp_include_stale p, rr_include_invalidated = rp_include_invalidated p,
              rr_time_range = window, rr_as_of = as_of, rr_validate_ids = rp_validate_ids p, rr_explain = rp_explain p \<rparr>)))"

definition timeline_request_of :: "string \<Rightarrow> timeline_params \<Rightarrow> tool_error + timeline_request" where
  "timeline_request_of ns p =
     (case parse_memory_types (tp_types p) of
        Inl e \<Rightarrow> Inl e
      | Inr types \<Rightarrow> Inr \<lparr> tl_entity = tp_entity p, tl_namespace = namespace_or_default ns (tp_namespace p),
          tl_limit = tp_limit p, tl_types = types, tl_include_invalidated = tp_include_invalidated p \<rparr>)"

definition taxonomy_request_of :: "string \<Rightarrow> taxonomy_params \<Rightarrow> taxonomy_request" where
  "taxonomy_request_of ns p = \<lparr> tx_namespace = xp_namespace p, tx_limit = xp_limit p, tx_default_namespace = Some ns \<rparr>"

definition reflect_request_of :: "reflect_params \<Rightarrow> reflect_request" where
  "reflect_request_of p = \<lparr> rf_namespace = fp_namespace p, rf_limit = fp_limit p,
     rf_include_contradictions = (fp_include_contradictions p \<noteq> Some False),
     rf_include_stale = (fp_include_stale p \<noteq> Some False) \<rparr>"

definition stats_request_of :: "stats_params \<Rightarrow> stats_request" where
  "stats_request_of p = \<lparr> st_namespace = stp_namespace p, st_detailed = stp_detailed p, st_diagnostics = stp_diagnostics p \<rparr>"

section \<open>The workflow hint\<close>

definition without_cr :: "string \<Rightarrow> string" where
  "without_cr l = (if l \<noteq> [] \<and> last l = CHR 0x0D then butlast l else l)"

text \<open>\<open>str::lines\<close>: a final newline does not start another line.\<close>

definition text_lines :: "string \<Rightarrow> string list" where
  "text_lines s =
     (let ls = split_on (CHR 0x0A) s in map without_cr (if last ls = [] then butlast ls else ls))"

definition numbered_line :: "string \<Rightarrow> bool" where
  "numbered_line line =
     (let trimmed = trim_start line; s = dropWhile is_digit trimmed
      in length s < length trimmed \<and> s \<noteq> [] \<and> (hd s = CHR ''.'' \<or> hd s = CHR '')''))"

definition looks_like_workflow :: "string \<Rightarrow> bool" where
  "looks_like_workflow content =
     (let lower = to_lowercase content in
      find_sub ''step 1'' lower \<or> find_sub ''step 2'' lower \<or> 3 \<le> length (filter numbered_line (text_lines content)))"

section \<open>The tools\<close>

type_synonym ('q, 'e, 'r, 'a) tool = "(('q, 'e, 'r) world, tool_error, 'a) sm"

definition call_service :: "tool_lib \<Rightarrow> ('q, 'e, 'r, 'a) op \<Rightarrow> ('q, 'e, 'r, 'a) tool" where
  "call_service x m = (\<lambda>w. case m w of (Inl e, w') \<Rightarrow> (Inl (map_error x e), w') | (Inr a, w') \<Rightarrow> (Inr a, w'))"

definition WORKFLOW_HINT :: string where
  "WORKFLOW_HINT = ''This looks like a workflow. Procedural memories persist 12x longer (365d vs 30d half-life). Re-store with memory_type: '' @ [CHR 0x27] @ ''procedural'' @ [CHR 0x27] @ '' if this should be long-lived.''"

definition store_json :: "store_params \<Rightarrow> store_response \<Rightarrow> json" where
  "store_json p r =
     JObj ([(''stored'', JBool True), (''id'', JStr (srs_id r)), (''type'', JStr (srs_memory_type r)),
        (''superseded'', JArr (map JStr (srs_superseded r)))]
      @ (case sp_content p of
           Some content \<Rightarrow> if srs_memory_type r = ''episodic'' \<and> looks_like_workflow content
             then [(''hint'', JStr WORKFLOW_HINT)] else []
         | None \<Rightarrow> []))"

definition opt_json :: "string option \<Rightarrow> json" where
  "opt_json s = (case s of None \<Rightarrow> JNull | Some t \<Rightarrow> JStr t)"

fun label_json :: "freshness_label \<Rightarrow> json" where
  "label_json Fresh = JStr ''fresh''"
| "label_json Aging = JStr ''aging''"
| "label_json Stale = JStr ''stale''"

definition scoring_json :: "tool_lib \<Rightarrow> scoring_breakdown \<Rightarrow> json" where
  "scoring_json x s =
     JObj [(''rrf_rank'', JNum (show_nat (sb_rrf_rank s))), (''rrf_score'', tl_number x (sb_rrf_score s)),
       (''rerank_score'', tl_number x (sb_rerank_score s)), (''recency_boost'', tl_number x (sb_recency_boost s)),
       (''boosted_score'', tl_number x (sb_boosted_score s)), (''staleness'', tl_number x (sb_staleness s)),
       (''staleness_label'', label_json (sb_staleness_label s)), (''final_rank'', JNum (show_nat (sb_final_rank s)))]"

definition result_json :: "tool_lib \<Rightarrow> (time \<Rightarrow> string) \<Rightarrow> recall_result \<Rightarrow> json" where
  "result_json x rfc3339 r =
     (let m = rcr_memory r in
      JObj ([(''id'', JStr (mem_id m)), (''type'', JStr (mt_as_str (mem_type m))), (''content'', opt_json (mem_content m)),
        (''subject'', opt_json (mem_subject m)), (''predicate'', opt_json (mem_predicate m)),
        (''object'', opt_json (mem_object m)), (''score'', tl_number x (rcr_relevance_score r)),
        (''staleness_score'', tl_number x (rcr_staleness_score r)), (''freshness'', label_json (rcr_freshness_label r)),
        (''entities'', JArr (map JStr (mem_entities m))), (''created_at'', JStr (rfc3339 (mem_created_at m)))]
       @ (case rcr_scoring r of None \<Rightarrow> [] | Some s \<Rightarrow> [(''scoring'', scoring_json x s)])))"

definition store_tool ::
    "tool_lib \<Rightarrow> ('q, 'e, 'r) ext \<Rightarrow> service \<Rightarrow> string \<Rightarrow> store_params \<Rightarrow> ('q, 'e, 'r, json) tool" where
  "store_tool x ex svc ns p =
     m_bind (m_of (store_request_of ns p)) (\<lambda>req.
     m_bind (call_service x (store ex svc req)) (\<lambda>resp. m_ret (store_json p resp)))"

definition recall_tool ::
    "tool_lib \<Rightarrow> ('q, 'e, 'r) ext \<Rightarrow> service \<Rightarrow> string \<Rightarrow> recall_params \<Rightarrow> ('q, 'e, 'r, json) tool" where
  "recall_tool x ex svc ns p =
     m_bind (m_of (recall_request_of x ns p)) (\<lambda>req.
     m_bind (call_service x (recall ex svc req)) (\<lambda>results.
     m_ret (JArr (map (result_json x (x_rfc3339 ex)) results))))"

definition forget_tool ::
    "tool_lib \<Rightarrow> ('q, 'e, 'r) ext \<Rightarrow> string list \<Rightarrow> ('q, 'e, 'r, forget_response) tool" where
  "forget_tool x ex ids = call_service x (forget ex \<lparr> fr_ids = ids, fr_cascade = None \<rparr>)"

definition reflect_tool ::
    "tool_lib \<Rightarrow> ('q, 'e, 'r) ext \<Rightarrow> service \<Rightarrow> reflect_params \<Rightarrow> ('q, 'e, 'r, reflect_response) tool" where
  "reflect_tool x ex svc p = call_service x (reflect ex svc (reflect_request_of p))"

definition stats_tool ::
    "tool_lib \<Rightarrow> ('q, 'e, 'r) ext \<Rightarrow> service \<Rightarrow> stats_params \<Rightarrow> ('q, 'e, 'r, stats_response) tool" where
  "stats_tool x ex svc p = call_service x (stats ex svc (stats_request_of p))"

definition timeline_tool ::
    "tool_lib \<Rightarrow> service \<Rightarrow> string \<Rightarrow> timeline_params \<Rightarrow> ('q, 'e, 'r, timeline_response) tool" where
  "timeline_tool x svc ns p =
     m_bind (m_of (timeline_request_of ns p)) (\<lambda>req. call_service x (timeline svc req))"

definition taxonomy_tool ::
    "tool_lib \<Rightarrow> service \<Rightarrow> string \<Rightarrow> taxonomy_params \<Rightarrow> ('q, 'e, 'r, taxonomy_response) tool" where
  "taxonomy_tool x svc ns p = call_service x (taxonomy svc (taxonomy_request_of ns p))"

section \<open>What reaches the service\<close>

text \<open>The parsed form of each parameter, as a relation.\<close>

definition reads_type :: "string \<Rightarrow> memory_type \<Rightarrow> bool" where
  "reads_type s t \<longleftrightarrow> mt_from_str s = Inr t"

definition reads_time :: "tool_lib \<Rightarrow> string \<Rightarrow> time \<Rightarrow> bool" where
  "reads_time x s t \<longleftrightarrow> tl_datetime x s = Inr t"

definition ordered_window :: "time_range \<Rightarrow> bool" where
  "ordered_window r \<longleftrightarrow> (case (tr_start r, tr_end r) of (Some s, Some e) \<Rightarrow> s \<le> e | _ \<Rightarrow> True)"

definition reads_window :: "tool_lib \<Rightarrow> time_range_param \<Rightarrow> time_range \<Rightarrow> bool" where
  "reads_window x p r \<longleftrightarrow> rel_option (reads_time x) (trp_start p) (tr_start r)
     \<and> rel_option (reads_time x) (trp_end p) (tr_end r) \<and> ordered_window r"

text \<open>A request that says what the parameters say, field by field.\<close>

definition reads_recall :: "tool_lib \<Rightarrow> string \<Rightarrow> recall_params \<Rightarrow> recall_request \<Rightarrow> bool" where
  "reads_recall x ns p req \<longleftrightarrow> rr_query req = rp_query p
     \<and> rel_option (list_all2 reads_type) (rp_types p) (rr_types req)
     \<and> rr_entities req = rp_entities p
     \<and> rr_namespace req = Some (case rp_namespace p of None \<Rightarrow> ns | Some n \<Rightarrow> n)
     \<and> rr_limit req = rp_limit p
     \<and> rr_include_stale req = rp_include_stale p
     \<and> rr_include_invalidated req = rp_include_invalidated p
     \<and> rel_option (reads_window x) (rp_time_range p) (rr_time_range req)
     \<and> rel_option (reads_time x) (rp_as_of p) (rr_as_of req)
     \<and> rr_validate_ids req = rp_validate_ids p
     \<and> rr_explain req = rp_explain p"

lemma parse_all_types_Inr: "parse_all_types ss = Inr ts \<longleftrightarrow> list_all2 reads_type ss ts"
proof (induction ss arbitrary: ts)
  case (Cons s ss)
  have "reads_type s t \<longleftrightarrow> mt_from_str s = Inr t" for t by (simp add: reads_type_def)
  then show ?case
    by (cases "mt_from_str s"; cases "parse_all_types ss"; cases ts) (auto simp flip: Cons.IH)
qed auto

lemma parse_memory_types_Inr:
  "parse_memory_types v = Inr ts \<longleftrightarrow> rel_option (list_all2 reads_type) v ts"
  by (cases v; cases ts) (auto simp: parse_memory_types_def parse_all_types_Inr [symmetric] split: sum.splits)

lemma parse_datetime_Inr: "parse_datetime x s f = Inr t \<longleftrightarrow> reads_time x s t"
  by (auto simp: parse_datetime_def reads_time_def split: sum.splits)

lemma parse_optional_Inr:
  assumes "\<And>a b. rd a = Inr b \<longleftrightarrow> R a b"
  shows "parse_optional rd v = Inr r \<longleftrightarrow> rel_option R v r"
  by (cases v; cases r) (auto simp: parse_optional_def assms [symmetric] split: sum.splits)

lemma parse_times_Inr:
  "parse_optional (\<lambda>s. parse_datetime x s f) v = Inr r \<longleftrightarrow> rel_option (reads_time x) v r"
  by (rule parse_optional_Inr) (rule parse_datetime_Inr)

lemma parse_time_range_Inr: "parse_time_range x p = Inr r \<longleftrightarrow> reads_window x p r"
  by (cases r)
    (auto simp: parse_time_range_def reads_window_def ordered_window_def parse_times_Inr [of x "''datetime''", symmetric] not_less
      split: sum.splits option.splits if_splits)

lemma parse_windows_Inr:
  "parse_optional (parse_time_range x) v = Inr r \<longleftrightarrow> rel_option (reads_window x) v r"
  by (rule parse_optional_Inr) (rule parse_time_range_Inr)

text \<open>A parameter that does not parse is reported without data.\<close>

definition refused_param :: "tool_error \<Rightarrow> bool" where
  "refused_param e \<longleftrightarrow> (case e of InvalidParams m None \<Rightarrow> True | _ \<Rightarrow> False)"

lemma parse_memory_types_Inl: "parse_memory_types v = Inl e \<Longrightarrow> refused_param e"
  by (auto simp: parse_memory_types_def refused_param_def split: option.splits sum.splits)

lemma parse_datetime_Inl: "parse_datetime x s f = Inl e \<Longrightarrow> refused_param e"
  by (auto simp: parse_datetime_def refused_param_def split: sum.splits)

lemma parse_optional_Inl:
  assumes "parse_optional rd v = Inl e" and "\<And>a. rd a = Inl e \<Longrightarrow> refused_param e"
  shows "refused_param e"
  using assms by (auto simp: parse_optional_def split: option.splits sum.splits)

lemma parse_time_range_Inl: "parse_time_range x p = Inl e \<Longrightarrow> refused_param e"
  by (auto simp: parse_time_range_def split: sum.splits option.splits if_splits
    dest: parse_optional_Inl [OF _ parse_datetime_Inl]) (simp_all add: refused_param_def)

lemma recall_request_of_Inl: "recall_request_of x ns p = Inl e \<Longrightarrow> refused_param e"
  by (auto simp: recall_request_of_def split: sum.splits
    dest: parse_memory_types_Inl parse_optional_Inl [OF _ parse_datetime_Inl] parse_optional_Inl [OF _ parse_time_range_Inl])

lemma recall_request_of_Inr: "recall_request_of x ns p = Inr req \<Longrightarrow> reads_recall x ns p req"
  by (auto simp: recall_request_of_def reads_recall_def namespace_or_default_def parse_memory_types_Inr
      parse_times_Inr parse_windows_Inr
    split: sum.splits option.splits)

lemma recall_request_of_exists: "reads_recall x ns p req \<Longrightarrow> \<exists>req'. recall_request_of x ns' p = Inr req'"
  by (auto simp: recall_request_of_def reads_recall_def parse_memory_types_Inr [symmetric]
      parse_times_Inr [of x "''as_of datetime''", symmetric] parse_windows_Inr [symmetric])

text \<open>
  C37. The recall tool types its parameters. Either each of them has the typed form the service
  works with - memory types, date-times, a window that does not end before it starts - and the
  service is called with exactly these values, every other parameter in its own field as it was
  given, under the requested namespace or else the session's; or no typed request says what the
  parameters say, the tool answers with an invalid-params error without data, and the state of the
  server is untouched.
\<close>

theorem recall_tool_typed:
  "case recall_request_of x ns p of
     Inr req \<Rightarrow> reads_recall x ns p req
       \<and> recall_tool x ex svc ns p w =
           (case recall ex svc req w of
              (Inl e, w') \<Rightarrow> (Inl (map_error x e), w')
            | (Inr rs, w') \<Rightarrow> (Inr (JArr (map (result_json x (x_rfc3339 ex)) rs)), w'))
   | Inl e \<Rightarrow> recall_tool x ex svc ns p w = (Inl e, w) \<and> refused_param e \<and> (\<nexists>req. reads_recall x ns p req)"
proof (cases "recall_request_of x ns p")
  case (Inl e)
  moreover have "\<nexists>req. reads_recall x ns p req"
    using recall_request_of_exists [of x ns p _ ns] Inl by fastforce
  ultimately show ?thesis
    using recall_request_of_Inl [OF Inl] by (simp add: recall_tool_def m_bind_def m_of_def)
next
  case (Inr req)
  with recall_request_of_Inr [OF Inr] show ?thesis
    by (simp add: recall_tool_def m_bind_def m_of_def m_ret_def call_service_def split: prod.split sum.split)
qed

end
