(* ===== verification/Spawning.thy ===== *)
theory Spawning
  imports Rounds
begin

text \<open>
  Connecting to the daemon or starting one (\<open>connect_or_spawn\<close> and \<open>wait_for_accept\<close> of
  \<open>crates/server/src/daemon/spawn.rs\<close>), given what each system call returns, with the effects on
  the lock, the socket and the child in the order in which they happen.
\<close>

section \<open>System calls and effects\<close>

datatype lock_result = LockHeld | LockTimeout | LockFails string

text \<open>
  One turn of the accept loop: the connection, then the child's exit status (an error is only
  logged), then whether the deadline has passed.
\<close>

record poll =
  po_connected :: bool
  po_exited :: "string option"
  po_past_deadline :: bool

record spawn_io =
  si_first :: bool
  si_run_dir :: "string option"
  si_lock :: lock_result
  si_second :: "io_error option"
  si_pid_held :: bool
  si_remove :: "io_error option"
  si_open_log :: "string option"
  si_spawn :: "string option"
  si_polls :: "poll list"

datatype effect = TakesLock | ReleasesLock | RemovesSocket | SpawnsChild | KillsChild | LeavesChild

record spawn_names =
  sn_socket :: string
  sn_lock_file :: string
  sn_log_file :: string
  sn_exe :: string
  sn_env_log :: "string option"
  sn_accept_budget :: string

section \<open>The functions\<close>

definition acquire_lock :: "spawn_names \<Rightarrow> lock_result \<Rightarrow> attempt_error option" where
  "acquire_lock names r =
     (case r of LockHeld \<Rightarrow> None
      | LockTimeout \<Rightarrow> Some (fatal (''timed out waiting for spawn lock '' @ sn_lock_file names))
      | LockFails e \<Rightarrow> Some (retryable (''lock '' @ sn_lock_file names @ '': '' @ e)))"

definition remove_stale_socket :: "spawn_names \<Rightarrow> io_error option \<Rightarrow> attempt_error option" where
  "remove_stale_socket names r =
     (case r of None \<Rightarrow> None
      | Some e \<Rightarrow> if io_kind e \<noteq> NotFound
          then Some (retryable (''remove stale socket '' @ sn_socket names @ '': '' @ io_text e)) else None)"

definition spawn_daemon :: "spawn_names \<Rightarrow> spawn_io \<Rightarrow> attempt_error option" where
  "spawn_daemon names io =
     (case si_open_log io of
        Some e \<Rightarrow> Some (retryable (''open '' @ sn_log_file names @ '': '' @ e))
      | None \<Rightarrow> (case si_spawn io of
          Some e \<Rightarrow> Some (retryable (''spawn '' @ sn_exe names @ '': '' @ e))
        | None \<Rightarrow> None))"

text \<open>
  The guard owns the child and the lock: disarming leaves the child running, dropping kills it,
  and both release the lock afterwards. \<open>None\<close> is a loop that is still polling.
\<close>

definition disarm :: "effect list" where "disarm = [LeavesChild, ReleasesLock]"
definition drop_guard :: "effect list" where "drop_guard = [KillsChild, ReleasesLock]"

fun wait_for_accept :: "spawn_names \<Rightarrow> poll list \<Rightarrow> (attempt_error option \<times> effect list) option" where
  "wait_for_accept names [] = None"
| "wait_for_accept names (p # ps) =
     (if po_connected p then Some (None, disarm)
      else case po_exited p of
        Some status \<Rightarrow> Some (Some \<lparr> ae_kind = None, ae_retryable = True, ae_child_exited_early = True,
          ae_message = ''daemon exited before accepting connections ('' @ status @ ''); ''
            @ log_hint (sn_log_file names) (sn_env_log names) \<rparr>, drop_guard)
      | None \<Rightarrow>
          if po_past_deadline p
          then Some (Some (retryable (''daemon did not accept connections on '' @ sn_socket names @ '' within ''
            @ sn_accept_budget names @ ''; '' @ log_hint (sn_log_file names) (sn_env_log names))), drop_guard)
          else wait_for_accept names ps)"

text \<open>The result is the error, or \<open>None\<close> for a connection.\<close>

definition connect_or_spawn ::
    "int \<Rightarrow> spawn_names \<Rightarrow> spawn_io \<Rightarrow> (attempt_error option \<times> effect list) option" where
  "connect_or_spawn notsock names io =
     (if si_first io then Some (None, [])
      else case si_run_dir io of
        Some e \<Rightarrow> Some (Some (fatal e), [])
      | None \<Rightarrow> (case acquire_lock names (si_lock io) of
          Some e \<Rightarrow> Some (Some e, [])
        | None \<Rightarrow> (case decide_takeover notsock (sn_socket names) (si_pid_held io) (si_second io) of
            UseStream \<Rightarrow> Some (None, [TakesLock, ReleasesLock])
          | GiveUp e \<Rightarrow> Some (Some e, [TakesLock, ReleasesLock])
          | RemoveAndSpawn \<Rightarrow>
              (case remove_stale_socket names (si_remove io) of
                 Some e \<Rightarrow> Some (Some e, [TakesLock, ReleasesLock])
               | None \<Rightarrow> (case spawn_daemon names io of
                   Some e \<Rightarrow> Some (Some e, [TakesLock, RemovesSocket, ReleasesLock])
                 | None \<Rightarrow> map_option (\<lambda>(r, effs). (r, [TakesLock, RemovesSocket, SpawnsChild] @ effs))
                     (wait_for_accept names (si_polls io)))))))"

section \<open>What is safe about it\<close>

lemma wait_for_accept_cases:
  "wait_for_accept names ps = Some (r, effs) \<Longrightarrow> (r = None \<and> effs = disarm) \<or> (r \<noteq> None \<and> effs = drop_guard)"
  by (induction ps) (auto split: if_splits option.splits)

lemma wait_for_accept_returns: "\<exists>p\<in>set ps. po_past_deadline p \<Longrightarrow> wait_for_accept names ps \<noteq> None"
  by (induction ps) (auto split: option.splits)

text \<open>
  C19. Starting a daemon is done under the spawn lock and leaves nothing behind. The socket is
  removed and a child started only with the lock held, after a second connection has failed in
  a way that means nobody listens, and never while a live daemon holds the pid file of an
  existing socket; the lock is released last, and by then the child has been killed unless it
  accepts connections. The call returns once the deadline has passed.
\<close>

theorem spawn_safe:
  assumes "connect_or_spawn notsock names io = Some (r, effs)"
  shows "(SpawnsChild \<in> set effs \<or> RemovesSocket \<in> set effs \<longrightarrow>
      si_lock io = LockHeld \<and> hd effs = TakesLock \<and>
      (\<exists>e. si_second io = Some e \<and> classify_connect_error notsock e = StaleSocket \<and> (io_kind e = NotFound \<or> \<not> si_pid_held io)))
    \<and> (TakesLock \<in> set effs \<longrightarrow> last effs = ReleasesLock \<and> count_list effs ReleasesLock = 1)
    \<and> (SpawnsChild \<in> set effs \<longrightarrow> (r = None \<longleftrightarrow> LeavesChild \<in> set effs) \<and> (r \<noteq> None \<longleftrightarrow> KillsChild \<in> set effs))"
  using assms wait_for_accept_cases [of names "si_polls io"]
  by (auto simp: connect_or_spawn_def decide_takeover_def acquire_lock_def disarm_def drop_guard_def
      split: if_splits option.splits takeover.splits connect_class.splits lock_result.splits)

text \<open>A refused connection to a socket nobody owns: the daemon is started and accepts.\<close>

theorem spawn_safe_witness:
  "\<exists>io names effs. connect_or_spawn 88 names io = Some (None, effs) \<and> SpawnsChild \<in> set effs \<and> last effs = ReleasesLock"
proof -
  let ?names = "\<lparr> sn_socket = ''k.sock'', sn_lock_file = ''k.lock'', sn_log_file = ''d.log'', sn_exe = ''ferrex'', sn_env_log = None,
      sn_accept_budget = ''30s'' \<rparr>"
  let ?io = "\<lparr> si_first = False, si_run_dir = None, si_lock = LockHeld,
      si_second = Some \<lparr> io_kind = ConnectionRefused, io_errno = Some 111, io_text = ''refused'' \<rparr>, si_pid_held = False,
      si_remove = None, si_open_log = None, si_spawn = None,
      si_polls = [\<lparr> po_connected = False, po_exited = None, po_past_deadline = False \<rparr>,
        \<lparr> po_connected = True, po_exited = None, po_past_deadline = False \<rparr>] \<rparr>"
  have run: "connect_or_spawn 88 ?names ?io = Some (None, [TakesLock, RemovesSocket, SpawnsChild] @ disarm)"
    by (simp add: connect_or_spawn_def acquire_lock_def decide_takeover_def classify_connect_error_def remove_stale_socket_def
        spawn_daemon_def)
  from spawn_safe [OF run] run show ?thesis by (intro exI [of _ ?io] exI [of _ ?names] exI conjI) auto
qed

end
