(* ===== verification/IdleTimer.thy ===== *)
theory IdleTimer
  imports Wire
begin

text \<open>
  The daemon's idle-exit deadline (\<open>crates/server/src/daemon/idle.rs\<close>), the reading of its
  time limits (\<open>daemon/env.rs\<close>), and the proof that the timer implements a simpler machine that
  remembers since when nobody has used the daemon.
\<close>

section \<open>Time limits\<close>

text \<open>\<open>usual\<close> is the default; \<open>reason\<close> is the parser's message for a rejected value.\<close>

definition parse_secs :: "(string \<Rightarrow> string) \<Rightarrow> string option \<Rightarrow> nat \<Rightarrow> nat option \<Rightarrow> nat \<times> string option" where
  "parse_secs reason raw usual cap =
     (case raw of None \<Rightarrow> (usual, None)
      | Some s \<Rightarrow> (case parse_u64 (trim s) of
          Some 0 \<Rightarrow> (usual, Some (''rejected value '' @ debug_string s @ '', using '' @ show_nat usual))
        | None \<Rightarrow> (usual, Some (''rejected value '' @ debug_string s @ '' ('' @ reason (trim s) @ ''), using ''
             @ show_nat usual))
        | Some secs \<Rightarrow> (case cap of
            None \<Rightarrow> (secs, None)
          | Some c \<Rightarrow> if c < secs then (c, Some (show_nat secs @ '' is above the cap, using '' @ show_nat c))
              else (secs, None))))"

lemma parse_secs_bounds:
  assumes "0 < usual" and "\<And>c. cap = Some c \<Longrightarrow> usual \<le> c"
  shows "0 < fst (parse_secs reason raw usual cap) \<and> (\<forall>c. cap = Some c \<longrightarrow> fst (parse_secs reason raw usual cap) \<le> c)"
  using assms by (auto simp: parse_secs_def split: option.splits nat.splits)

section \<open>The timer\<close>

datatype conn_event = HelloPassed | HelloFailed | Ended

record idle_state =
  is_init_ok :: bool
  is_in_hello :: nat
  is_active :: nat

definition should_arm_state :: "idle_state \<Rightarrow> bool" where
  "should_arm_state s \<longleftrightarrow> is_init_ok s \<and> is_in_hello s = 0 \<and> is_active s = 0"

text \<open>\<open>checked_sub\<close> with 0 in place of an underflow: subtraction of naturals.\<close>

definition decrement :: "nat \<Rightarrow> nat" where
  "decrement count = count - 1"

fun apply_state :: "conn_event \<Rightarrow> idle_state \<Rightarrow> idle_state" where
  "apply_state HelloPassed s = s\<lparr>is_in_hello := decrement (is_in_hello s), is_active := is_active s + 1\<rparr>"
| "apply_state HelloFailed s = s\<lparr>is_in_hello := decrement (is_in_hello s)\<rparr>"
| "apply_state Ended s = s\<lparr>is_active := decrement (is_active s)\<rparr>"

record idle_timer =
  it_state :: idle_state
  it_timeout :: time
  it_deadline :: "time option"
  it_suspended :: "time option"

definition idle_new :: "time \<Rightarrow> idle_timer" where
  "idle_new timeout = \<lparr> it_state = \<lparr> is_init_ok = False, is_in_hello = 0, is_active = 0 \<rparr>, it_timeout = timeout,
     it_deadline = None, it_suspended = None \<rparr>"

definition should_arm :: "idle_timer \<Rightarrow> bool" where
  "should_arm t = should_arm_state (it_state t)"

definition init_succeeded :: "idle_timer \<Rightarrow> idle_timer" where
  "init_succeeded t = t\<lparr>it_state := (it_state t)\<lparr>is_init_ok := True\<rparr>\<rparr>"

definition accepted :: "idle_timer \<Rightarrow> idle_timer" where
  "accepted t =
     (let t' = (case it_deadline t of None \<Rightarrow> t | Some d \<Rightarrow> t\<lparr>it_deadline := None, it_suspended := Some d\<rparr>)
      in t'\<lparr>it_state := (it_state t')\<lparr>is_in_hello := is_in_hello (it_state t') + 1\<rparr>\<rparr>)"

definition apply_event :: "conn_event \<Rightarrow> idle_timer \<Rightarrow> idle_timer" where
  "apply_event ev t =
     (let t' = (if ev = HelloPassed then t\<lparr>it_suspended := None\<rparr> else t)
      in t'\<lparr>it_state := apply_state ev (it_state t')\<rparr>)"

definition update_timer :: "time \<Rightarrow> idle_timer \<Rightarrow> idle_timer" where
  "update_timer now t =
     (case (should_arm t, it_deadline t) of
        (True, None) \<Rightarrow> t\<lparr>it_deadline := Some (case it_suspended t of Some d \<Rightarrow> d | None \<Rightarrow> now + it_timeout t),
          it_suspended := None\<rparr>
      | (False, Some _) \<Rightarrow> t\<lparr>it_deadline := None\<rparr>
      | _ \<Rightarrow> t)"

definition postpone :: "time \<Rightarrow> idle_timer \<Rightarrow> idle_timer" where
  "postpone now t = t\<lparr>it_deadline := Some (now + it_timeout t)\<rparr>"

section \<open>What it promises\<close>

text \<open>
  The specification remembers one date, when the daemon may exit if nobody uses it until then.
  A user, that is, a connection whose hello passed, clears the date; a connection that never
  gets that far does not touch it. The date is set when the daemon is idle and has none.
\<close>

record idle_spec =
  sp_init :: bool
  sp_hello :: nat
  sp_users :: nat
  sp_due :: "time option"

definition spec_idle :: "idle_spec \<Rightarrow> bool" where
  "spec_idle s \<longleftrightarrow> sp_init s \<and> sp_hello s = 0 \<and> sp_users s = 0"

datatype timer_op = OpInit | OpAccept | OpEvent conn_event | OpUpdate time | OpPostpone time

fun spec_step :: "time \<Rightarrow> timer_op \<Rightarrow> idle_spec \<Rightarrow> idle_spec" where
  "spec_step timeout OpInit s = s\<lparr>sp_init := True\<rparr>"
| "spec_step timeout OpAccept s = s\<lparr>sp_hello := sp_hello s + 1\<rparr>"
| "spec_step timeout (OpEvent HelloPassed) s = s\<lparr>sp_hello := sp_hello s - 1, sp_users := sp_users s + 1, sp_due := None\<rparr>"
| "spec_step timeout (OpEvent HelloFailed) s = s\<lparr>sp_hello := sp_hello s - 1\<rparr>"
| "spec_step timeout (OpEvent Ended) s = s\<lparr>sp_users := sp_users s - 1\<rparr>"
| "spec_step timeout (OpUpdate now) s =
     (if spec_idle s \<and> sp_due s = None then s\<lparr>sp_due := Some (now + timeout)\<rparr> else s)"
| "spec_step timeout (OpPostpone now) s = s\<lparr>sp_due := Some (now + timeout)\<rparr>"

text \<open>When the daemon would exit: only while idle.\<close>

definition spec_deadline :: "idle_spec \<Rightarrow> time option" where
  "spec_deadline s = (if spec_idle s then sp_due s else None)"

text \<open>What the daemon does: a connection is in its hello before it passes or fails, is in use
  before it ends, and the exit is only postponed when it was due.\<close>

fun spec_allows :: "timer_op \<Rightarrow> idle_spec \<Rightarrow> bool" where
  "spec_allows (OpEvent HelloPassed) s = (0 < sp_hello s)"
| "spec_allows (OpEvent HelloFailed) s = (0 < sp_hello s)"
| "spec_allows (OpEvent Ended) s = (0 < sp_users s)"
| "spec_allows (OpPostpone now) s = (spec_deadline s \<noteq> None)"
| "spec_allows _ s = True"

fun timer_step :: "timer_op \<Rightarrow> idle_timer \<Rightarrow> idle_timer" where
  "timer_step OpInit t = init_succeeded t"
| "timer_step OpAccept t = accepted t"
| "timer_step (OpEvent ev) t = apply_event ev t"
| "timer_step (OpUpdate now) t = update_timer now t"
| "timer_step (OpPostpone now) t = postpone now t"

fun spec_runs :: "time \<Rightarrow> timer_op list \<Rightarrow> idle_spec \<Rightarrow> idle_spec option" where
  "spec_runs timeout [] s = Some s"
| "spec_runs timeout (o1 # ops) s = (if spec_allows o1 s then spec_runs timeout ops (spec_step timeout o1 s) else None)"

definition spec_start :: idle_spec where
  "spec_start = \<lparr> sp_init = False, sp_hello = 0, sp_users = 0, sp_due = None \<rparr>"

section \<open>The timer implements it\<close>

definition abs_timer :: "idle_timer \<Rightarrow> idle_spec" where
  "abs_timer t = \<lparr> sp_init = is_init_ok (it_state t), sp_hello = is_in_hello (it_state t), sp_users = is_active (it_state t),
     sp_due = (case it_deadline t of Some d \<Rightarrow> Some d | None \<Rightarrow> it_suspended t) \<rparr>"

definition timer_ok :: "idle_timer \<Rightarrow> bool" where
  "timer_ok t \<longleftrightarrow> it_deadline t \<noteq> None \<longrightarrow> should_arm t"

lemmas timer_defs = abs_timer_def timer_ok_def should_arm_def should_arm_state_def spec_idle_def

lemma timer_step_refines:
  assumes "timer_ok t" and "spec_allows o1 (abs_timer t)"
  shows "timer_ok (timer_step o1 t) \<and> abs_timer (timer_step o1 t) = spec_step (it_timeout t) o1 (abs_timer t)
    \<and> it_timeout (timer_step o1 t) = it_timeout t"
proof (cases o1)
  case (OpEvent ev)
  with assms show ?thesis
    by (cases ev) (auto simp: timer_defs apply_event_def decrement_def split: option.splits)
next
  case (OpPostpone now)
  with assms show ?thesis
    by (auto simp: timer_defs postpone_def spec_deadline_def split: option.splits if_splits)
qed (use assms in \<open>auto simp: timer_defs init_succeeded_def accepted_def update_timer_def split: option.splits bool.splits\<close>)

lemma timer_runs_refine:
  assumes "timer_ok t" and "spec_runs (it_timeout t) ops (abs_timer t) = Some s"
  shows "timer_ok (fold timer_step ops t) \<and> abs_timer (fold timer_step ops t) = s
    \<and> it_timeout (fold timer_step ops t) = it_timeout t"
  using assms
proof (induction ops arbitrary: t)
  case (Cons o1 ops)
  then have allowed: "spec_allows o1 (abs_timer t)" and
    rest: "spec_runs (it_timeout t) ops (spec_step (it_timeout t) o1 (abs_timer t)) = Some s"
    by (simp_all split: if_splits)
  from timer_step_refines [OF Cons.prems(1) allowed] rest Cons.IH [of "timer_step o1 t"] show ?case by simp
qed simp

text \<open>
  C29. The idle timer implements its specification: after any course of events the daemon can
  take, the deadline armed by the next \<open>update\<close> is the date the specification prescribes. So the
  daemon is due to exit only while it is initialised and has no connection, the countdown runs
  from the moment the last user left, and connections that never pass the hello, such as a
  probe, do not extend it.
\<close>

theorem idle_timer_refines:
  assumes "spec_runs timeout ops spec_start = Some s"
  shows "abs_timer (fold timer_step ops (idle_new timeout)) = s
    \<and> it_deadline (update_timer now (fold timer_step ops (idle_new timeout)))
        = spec_deadline (spec_step timeout (OpUpdate now) s)"
proof -
  define t where "t = fold timer_step ops (idle_new timeout)"
  have "timer_ok (idle_new timeout)" "abs_timer (idle_new timeout) = spec_start" "it_timeout (idle_new timeout) = timeout"
    by (simp_all add: timer_defs idle_new_def spec_start_def)
  from timer_runs_refine [of "idle_new timeout" ops s] this assms
  have t: "timer_ok t" "abs_timer t = s" "it_timeout t = timeout" by (simp_all add: t_def)
  then have "it_deadline (update_timer now t) = spec_deadline (spec_step timeout (OpUpdate now) s)"
    by (auto simp: timer_defs update_timer_def spec_deadline_def split: option.splits bool.splits)
  with t show ?thesis by (simp add: t_def)
qed

text \<open>A user leaves at 100, a probe comes at 150 and goes: the daemon is still due at 110.\<close>

theorem idle_timer_refines_witness:
  "it_deadline (update_timer 160 (fold timer_step
     [OpInit, OpUpdate 0, OpAccept, OpEvent HelloPassed, OpUpdate 50, OpEvent Ended, OpUpdate 100, OpAccept, OpUpdate 150,
      OpEvent HelloFailed] (idle_new 10))) = Some 110"
proof -
  have "\<exists>s. spec_runs 10 [OpInit, OpUpdate 0, OpAccept, OpEvent HelloPassed, OpUpdate 50, OpEvent Ended, OpUpdate 100,
      OpAccept, OpUpdate 150, OpEvent HelloFailed] spec_start = Some s
      \<and> spec_deadline (spec_step 10 (OpUpdate 160) s) = Some 110"
    by (simp add: spec_start_def spec_idle_def spec_deadline_def)
  then obtain s where s: "spec_runs 10 [OpInit, OpUpdate 0, OpAccept, OpEvent HelloPassed, OpUpdate 50, OpEvent Ended,
      OpUpdate 100, OpAccept, OpUpdate 150, OpEvent HelloFailed] spec_start = Some s"
      and due: "spec_deadline (spec_step 10 (OpUpdate 160) s) = Some 110" by (elim exE conjE)
  show ?thesis by (rule trans [OF conjunct2 [OF idle_timer_refines [OF s]] due])
qed

end
