(* ===== verification/Daemon.thy ===== *)
theory Daemon
  imports IdleTimer Machine
begin

text \<open>
  The daemon's life (\<open>crates/server/src/daemon.rs\<close>; the phases of a session of
  \<open>daemon/session.rs\<close>): the accept loop, the outcome of the initialisation, and the shutdown that
  an idle exit cancels when a connection arrives late. Clients connect and sessions move on
  their own; what they report reaches the loop through a queue, possibly much later.
\<close>

section \<open>State\<close>

definition INIT_TIMEOUT_DEFAULT_SECS :: nat where "INIT_TIMEOUT_DEFAULT_SECS = 1800"
definition INIT_TIMEOUT_CAP_SECS :: nat where "INIT_TIMEOUT_CAP_SECS = 3000"
definition IDLE_TIMEOUT_DEFAULT_SECS :: nat where "IDLE_TIMEOUT_DEFAULT_SECS = 600"
definition INIT_FAIL_GRACE :: time where "INIT_FAIL_GRACE = 60 * nanos_per_second"

datatype init_state = InitPending | InitReady | InitFailed string
datatype trigger = IdleTrigger | SignalTrigger string | InitFailedGrace

text \<open>\<open>Closing t\<close> waits for the spawn lock; \<open>Committed t lock\<close> is past the point of no return.\<close>

datatype phase = Serving | Closing trigger | Committed trigger bool

text \<open>
  \<open>d_backlog\<close> counts connections waiting to be accepted, \<open>d_hellos\<close> and \<open>d_users\<close> the sessions
  before and after a passed hello, and \<open>d_events\<close> is what they reported and the loop has not
  read yet. \<open>d_shut_out\<close> only records: the connections that a shutdown which went through accepted
  and closed without a session.
\<close>

record daemon =
  d_phase :: phase
  d_init :: init_state
  d_init_timeout :: time
  d_init_deadline :: time
  d_grace :: "time option"
  d_idle :: idle_timer
  d_backlog :: nat
  d_hellos :: nat
  d_users :: nat
  d_events :: "conn_event list"
  d_shut_out :: nat

text \<open>Seconds of the two limits, from the environment.\<close>

definition bind_daemon :: "(string \<Rightarrow> string) \<Rightarrow> string option \<Rightarrow> string option \<Rightarrow> time \<Rightarrow> daemon" where
  "bind_daemon reason init_env idle_env now =
     (let init_timeout = int (fst (parse_secs reason init_env INIT_TIMEOUT_DEFAULT_SECS (Some INIT_TIMEOUT_CAP_SECS))) * nanos_per_second;
          idle_timeout = int (fst (parse_secs reason idle_env IDLE_TIMEOUT_DEFAULT_SECS None)) * nanos_per_second
      in \<lparr> d_phase = Serving, d_init = InitPending, d_init_timeout = init_timeout, d_init_deadline = now + init_timeout,
        d_grace = None, d_idle = idle_new idle_timeout, d_backlog = 0, d_hellos = 0, d_users = 0, d_events = [],
        d_shut_out = 0 \<rparr>)"

section \<open>Handlers\<close>

definition spawn_session :: "daemon \<Rightarrow> daemon" where
  "spawn_session d = d\<lparr>d_idle := accepted (d_idle d), d_hellos := d_hellos d + 1\<rparr>"

definition fail_init :: "string \<Rightarrow> time \<Rightarrow> daemon \<Rightarrow> daemon" where
  "fail_init error now d = d\<lparr>d_init := InitFailed error, d_grace := Some (now + INIT_FAIL_GRACE)\<rparr>"

text \<open>\<open>None\<close> is an init thread that went away without a result.\<close>

definition on_init_result :: "(string + unit) option \<Rightarrow> time \<Rightarrow> daemon \<Rightarrow> daemon" where
  "on_init_result result now d =
     (case result of
        Some (Inr _) \<Rightarrow> d\<lparr>d_init := InitReady, d_idle := init_succeeded (d_idle d)\<rparr>
      | Some (Inl e) \<Rightarrow> fail_init e now d
      | None \<Rightarrow> fail_init ''init thread exited without a result'' now d)"

text \<open>
  The second half of \<open>begin_shutdown\<close>, with the spawn lock taken or not. The connections that
  have queued up are accepted, which may stop early at \<open>accepts\<close> of them; \<open>adopted\<close> of those can be
  served.
\<close>

definition begin_shutdown :: "trigger \<Rightarrow> bool \<Rightarrow> nat \<Rightarrow> nat \<Rightarrow> time \<Rightarrow> daemon \<Rightarrow> daemon" where
  "begin_shutdown trigger lock accepts adopted now d =
     (if trigger \<noteq> IdleTrigger
      then (if lock then d\<lparr>d_backlog := d_backlog d - accepts, d_shut_out := min accepts (d_backlog d), d_phase := Committed trigger True\<rparr>
            else d\<lparr>d_phase := Committed trigger False\<rparr>)
      else if \<not> lock then d\<lparr>d_idle := postpone now (d_idle d), d_phase := Serving\<rparr>
      else let drained = min accepts (d_backlog d);
             d' = d\<lparr>d_backlog := d_backlog d - drained, d_idle := fold apply_event (d_events d) (d_idle d), d_events := []\<rparr>
           in if drained = 0 \<and> should_arm (d_idle d') then d'\<lparr>d_shut_out := drained, d_phase := Committed IdleTrigger True\<rparr>
              else (((spawn_session ^^ min adopted drained) d')\<lparr>d_phase := Serving\<rparr>))"

section \<open>Events\<close>

datatype daemon_move =
    Connects
  | HelloPasses
  | HelloFails
  | UserEnds
  | Accepts
  | AcceptFails
  | InitResult "(string + unit) option"
  | InitTimesOut
  | ReadsEvent
  | GraceOver
  | IdleDue
  | Signalled string
  | LockTried bool nat nat

text \<open>\<open>update\<close> starts every turn of the loop.\<close>

definition turn :: "time \<Rightarrow> daemon \<Rightarrow> daemon" where
  "turn now d = d\<lparr>d_idle := update_timer now (d_idle d)\<rparr>"

text \<open>Clients and sessions. A hello passes only once the initialisation has succeeded.\<close>

definition session_event :: "daemon_move \<Rightarrow> daemon \<Rightarrow> daemon option" where
  "session_event ev d =
     (case ev of
        Connects \<Rightarrow> Some (d\<lparr>d_backlog := d_backlog d + 1\<rparr>)
      | HelloPasses \<Rightarrow>
          if 0 < d_hellos d \<and> d_init d = InitReady
          then Some (d\<lparr>d_hellos := d_hellos d - 1, d_users := d_users d + 1, d_events := d_events d @ [HelloPassed]\<rparr>)
          else None
      | HelloFails \<Rightarrow>
          if 0 < d_hellos d then Some (d\<lparr>d_hellos := d_hellos d - 1, d_events := d_events d @ [HelloFailed]\<rparr>) else None
      | UserEnds \<Rightarrow>
          if 0 < d_users d then Some (d\<lparr>d_users := d_users d - 1, d_events := d_events d @ [Ended]\<rparr>) else None
      | _ \<Rightarrow> None)"

text \<open>One arm of the loop's \<open>select!\<close>.\<close>

definition loop_event :: "time \<Rightarrow> daemon_move \<Rightarrow> daemon \<Rightarrow> daemon option" where
  "loop_event now ev d =
     (case ev of
        Accepts \<Rightarrow> if 0 < d_backlog d then Some (spawn_session (d\<lparr>d_backlog := d_backlog d - 1\<rparr>)) else None
      | AcceptFails \<Rightarrow> Some d
      | InitResult r \<Rightarrow> if d_init d = InitPending then Some (on_init_result r now d) else None
      | InitTimesOut \<Rightarrow>
          if d_init d = InitPending \<and> d_init_deadline d \<le> now
          then Some (fail_init (''init timed out after '' @ show_int (d_init_timeout d div nanos_per_second) @ ''s'') now d)
          else None
      | ReadsEvent \<Rightarrow> (case d_events d of [] \<Rightarrow> None
          | e # es \<Rightarrow> Some (d\<lparr>d_idle := apply_event e (d_idle d), d_events := es\<rparr>))
      | GraceOver \<Rightarrow> (case d_grace d of None \<Rightarrow> None
          | Some g \<Rightarrow> if g \<le> now then Some (d\<lparr>d_phase := Closing InitFailedGrace\<rparr>) else None)
      | IdleDue \<Rightarrow> (case it_deadline (d_idle d) of None \<Rightarrow> None
          | Some g \<Rightarrow> if g \<le> now then Some (d\<lparr>d_phase := Closing IdleTrigger\<rparr>) else None)
      | Signalled s \<Rightarrow> Some (d\<lparr>d_phase := Closing (SignalTrigger s)\<rparr>)
      | _ \<Rightarrow> None)"

definition daemon_event :: "time \<Rightarrow> daemon_move \<Rightarrow> daemon \<Rightarrow> daemon option" where
  "daemon_event now ev d =
     (if ev \<in> {Connects, HelloPasses, HelloFails, UserEnds} then session_event ev d
      else case d_phase d of
        Serving \<Rightarrow> loop_event now ev (turn now d)
      | Closing trigger \<Rightarrow> (case ev of LockTried lock accepts adopted \<Rightarrow> Some (begin_shutdown trigger lock accepts adopted now d) | _ \<Rightarrow> None)
      | Committed trigger lock \<Rightarrow> None)"

inductive daemon_reachable :: "daemon \<Rightarrow> bool" where
  bound: "daemon_reachable (bind_daemon reason init_env idle_env now)"
| moves: "daemon_reachable d \<Longrightarrow> daemon_event now ev d = Some d' \<Longrightarrow> daemon_reachable d'"

abbreviation timed_event :: "time \<times> daemon_move \<Rightarrow> daemon \<Rightarrow> daemon option" where
  "timed_event \<equiv> \<lambda>(now, ev). daemon_event now ev"

interpretation daemons: machine timed_event "\<lambda>d. \<exists>reason init_env idle_env now. d = bind_daemon reason init_env idle_env now"
  daemon_reachable
proof
  show "P d" if "daemon_reachable d" "\<And>d. \<exists>reason init_env idle_env now. d = bind_daemon reason init_env idle_env now \<Longrightarrow> P d"
    "\<And>d e d'. daemon_reachable d \<Longrightarrow> P d \<Longrightarrow> timed_event e d = Some d' \<Longrightarrow> P d'" for d P
    using that(1)
  proof (induction rule: daemon_reachable.induct)
    case (moves d now ev d')
    with that(3) [of d "(now, ev)" d'] show ?case by simp
  qed (use that(2) in blast)
qed (auto intro: daemon_reachable.intros)

section \<open>Leaving\<close>

text \<open>
  \<open>finish\<close>: with the lock held, the pid file and the socket are removed if they are still this
  daemon's. A file is \<open>None\<close> when it is missing.
\<close>

record run_files =
  rf_pid :: "nat option"
  rf_socket :: "(nat \<times> nat) option"

definition finish :: "nat \<Rightarrow> nat \<times> nat \<Rightarrow> bool \<Rightarrow> run_files \<Rightarrow> run_files" where
  "finish pid socket_id lock fs =
     (if lock then fs\<lparr>rf_pid := (if rf_pid fs = Some pid then None else rf_pid fs),
        rf_socket := (if rf_socket fs = Some socket_id then None else rf_socket fs)\<rparr>
      else fs)"

section \<open>Counting connections\<close>

abbreviation passed :: "conn_event list \<Rightarrow> nat" where "passed q \<equiv> count_list q HelloPassed"
abbreviation ended :: "conn_event list \<Rightarrow> nat" where "ended q \<equiv> count_list q Ended"
abbreviation failed :: "conn_event list \<Rightarrow> nat" where "failed q \<equiv> count_list q HelloFailed"

text \<open>The timer's counts are those of the sessions, once everything reported is read; and
  whatever is read first, no count goes below zero.\<close>

definition counts_ok :: "idle_timer \<Rightarrow> conn_event list \<Rightarrow> nat \<Rightarrow> nat \<Rightarrow> bool" where
  "counts_ok t q hellos users \<longleftrightarrow>
     is_in_hello (it_state t) = hellos + passed q + failed q
     \<and> is_active (it_state t) + passed q = users + ended q
     \<and> (\<forall>n. ended (take n q) \<le> is_active (it_state t) + passed (take n q))"

definition daemon_inv :: "daemon \<Rightarrow> bool" where
  "daemon_inv d \<longleftrightarrow> counts_ok (d_idle d) (d_events d) (d_hellos d) (d_users d) \<and> timer_ok (d_idle d)
     \<and> (is_init_ok (it_state (d_idle d)) \<longleftrightarrow> d_init d = InitReady)
     \<and> (d_phase d = Closing IdleTrigger \<longrightarrow> it_deadline (d_idle d) \<noteq> None)
     \<and> (\<forall>lock. d_phase d = Committed IdleTrigger lock \<longrightarrow> lock \<and> d_init d = InitReady \<and> d_hellos d = 0 \<and> d_users d = 0 \<and> d_shut_out d = 0)"

lemma counts_push:
  assumes "counts_ok t q hellos users"
  shows "0 < hellos \<Longrightarrow> counts_ok t (q @ [HelloPassed]) (hellos - 1) (users + 1)"
    and "0 < hellos \<Longrightarrow> counts_ok t (q @ [HelloFailed]) (hellos - 1) users"
    and "0 < users \<Longrightarrow> counts_ok t (q @ [Ended]) hellos (users - 1)"
proof -
  have all: "ended (take n q) \<le> is_active (it_state t) + passed (take n q)" for n
    using assms by (simp add: counts_ok_def)
  have cut: "take n (q @ [e]) = take n q \<or> take n (q @ [e]) = q @ [e]" for n e
    by (cases "n \<le> length q") auto
  have full: "ended q \<le> is_active (it_state t) + passed q" using all [of "length q"] by simp
  have "ended (take n (q @ [e])) \<le> is_active (it_state t) + passed (take n (q @ [e]))" if "e \<noteq> Ended" for n e
    using cut [of n e] all [of n] full that by (auto simp del: take_append)
  moreover have "ended (take n (q @ [Ended])) \<le> is_active (it_state t) + passed (take n (q @ [Ended]))" if "0 < users" for n
    using cut [of n Ended] all [of n] assms that by (auto simp: counts_ok_def simp del: take_append)
  ultimately show "0 < hellos \<Longrightarrow> counts_ok t (q @ [HelloPassed]) (hellos - 1) (users + 1)"
    and "0 < hellos \<Longrightarrow> counts_ok t (q @ [HelloFailed]) (hellos - 1) users"
    and "0 < users \<Longrightarrow> counts_ok t (q @ [Ended]) hellos (users - 1)"
    using assms by (auto simp: counts_ok_def)
qed

lemma counts_state:
  "counts_ok t q hellos users \<Longrightarrow> is_in_hello (it_state t') = is_in_hello (it_state t) \<Longrightarrow>
     is_active (it_state t') = is_active (it_state t) \<Longrightarrow> counts_ok t' q hellos users"
  by (simp add: counts_ok_def)

lemma counts_pop:
  assumes "counts_ok t (e # q) hellos users"
  shows "counts_ok (apply_event e t) q hellos users \<and> spec_allows (OpEvent e) (abs_timer t)"
proof -
  have all: "ended (take n (e # q)) \<le> is_active (it_state t) + passed (take n (e # q))" for n
    using assms by (simp add: counts_ok_def)
  have "ended (take n q) + (if e = Ended then 1 else 0) \<le> is_active (it_state t) + passed (take n q) + (if e = HelloPassed then 1 else 0)" for n
    using all [of "Suc n"] by auto
  with assms show ?thesis
    using all [of "Suc 0"]
    by (cases e) (auto simp: counts_ok_def apply_event_def decrement_def abs_timer_def le_diff_conv2)
qed

lemma timer_read:
  assumes "timer_ok t" and "counts_ok t (e # q) hellos users"
  shows "timer_ok (apply_event e t) \<and> is_init_ok (it_state (apply_event e t)) = is_init_ok (it_state t)"
  using timer_step_refines [OF assms(1) conjunct2 [OF counts_pop [OF assms(2)]]]
  by (cases e) (auto simp: apply_event_def)

lemma read_all:
  assumes "timer_ok t" and "counts_ok t q hellos users"
  shows "counts_ok (fold apply_event q t) [] hellos users \<and> timer_ok (fold apply_event q t)
    \<and> is_init_ok (it_state (fold apply_event q t)) = is_init_ok (it_state t)"
  using assms
proof (induction q arbitrary: t)
  case (Cons e q)
  from timer_read [OF Cons.prems] counts_pop [OF Cons.prems(2)] Cons.IH [of "apply_event e t"] show ?case by auto
qed simp

section \<open>Every event keeps the counts\<close>

lemma daemon_invD:
  assumes "daemon_inv d"
  shows "counts_ok (d_idle d) (d_events d) (d_hellos d) (d_users d)" "timer_ok (d_idle d)"
    "is_init_ok (it_state (d_idle d)) \<longleftrightarrow> d_init d = InitReady"
    "d_phase d = Closing IdleTrigger \<Longrightarrow> it_deadline (d_idle d) \<noteq> None"
    "d_phase d = Committed IdleTrigger lock \<Longrightarrow> lock \<and> d_init d = InitReady \<and> d_hellos d = 0 \<and> d_users d = 0 \<and> d_shut_out d = 0"
  using assms by (auto simp: daemon_inv_def)

lemma inv_bound: "daemon_inv (bind_daemon reason init_env idle_env now)"
  by (simp add: daemon_inv_def bind_daemon_def Let_def idle_new_def counts_ok_def timer_defs)

lemma no_reports:
  assumes "passed q = 0" and "failed q = 0" and "ended q = 0"
  shows "q = []"
proof (cases q)
  case (Cons e es)
  with assms show ?thesis by (cases e) auto
qed

text \<open>While the daemon waits for the lock to exit idle there is no session that could report.\<close>

lemma closing_is_quiet:
  assumes "daemon_inv d" and "d_phase d = Closing IdleTrigger"
  shows "d_hellos d = 0 \<and> d_users d = 0 \<and> d_events d = []"
proof -
  have idle: "should_arm (d_idle d)" using daemon_invD(2,4) [OF assms(1)] assms(2) by (simp add: timer_ok_def)
  then have hello: "passed (d_events d) = 0" "failed (d_events d) = 0" "d_hellos d = 0"
    using daemon_invD(1) [OF assms(1)] by (auto simp: counts_ok_def timer_defs)
  then have users: "ended (d_events d) = 0" "d_users d = 0"
    using idle daemon_invD(1) [OF assms(1)] by (auto simp: counts_ok_def timer_defs)
  with hello no_reports show ?thesis by simp
qed

lemma inv_session:
  assumes inv: "daemon_inv d" and run: "session_event ev d = Some d'"
  shows "daemon_inv d'"
proof -
  note D = daemon_invD(1-3) [OF inv]
  have phase: "d_phase d' = d_phase d" "d_init d' = d_init d" "d_idle d' = d_idle d" "d_shut_out d' = d_shut_out d"
    using run by (auto simp: session_event_def split: daemon_move.splits if_splits)
  have counts: "counts_ok (d_idle d) (d_events d') (d_hellos d') (d_users d')"
    using run D(1) counts_push [OF D(1)] by (auto simp: session_event_def split: daemon_move.splits if_splits)
  have idle: "(d_hellos d' = d_hellos d \<and> d_users d' = d_users d) \<or> 0 < d_hellos d \<or> 0 < d_users d"
    using run by (auto simp: session_event_def split: daemon_move.splits if_splits)
  have left: "lock \<and> d_init d = InitReady \<and> d_hellos d' = 0 \<and> d_users d' = 0 \<and> d_shut_out d = 0" if "d_phase d = Committed IdleTrigger lock" for lock
    using daemon_invD(5) [OF inv that] idle by auto
  show ?thesis
    unfolding daemon_inv_def phase using D counts left daemon_invD(4) [OF inv] by (intro conjI allI impI) simp_all
qed

lemma turn_ok:
  assumes "counts_ok t q hellos users" and "timer_ok t"
  shows "counts_ok (update_timer now t) q hellos users \<and> timer_ok (update_timer now t)
    \<and> is_init_ok (it_state (update_timer now t)) = is_init_ok (it_state t)"
  using assms by (auto simp: counts_ok_def update_timer_def timer_defs split: option.splits bool.splits)

lemma accept_ok:
  assumes "counts_ok t q hellos users" and "timer_ok t"
  shows "counts_ok (accepted t) q (hellos + 1) users \<and> timer_ok (accepted t)
    \<and> is_init_ok (it_state (accepted t)) = is_init_ok (it_state t)"
  using assms by (auto simp: counts_ok_def accepted_def timer_defs Let_def split: option.splits)

lemma spawn_keeps:
  assumes "counts_ok (d_idle d) (d_events d) (d_hellos d) (d_users d)" and "timer_ok (d_idle d)"
  shows "counts_ok (d_idle ((spawn_session ^^ n) d)) (d_events ((spawn_session ^^ n) d)) (d_hellos ((spawn_session ^^ n) d))
      (d_users ((spawn_session ^^ n) d)) \<and> timer_ok (d_idle ((spawn_session ^^ n) d))
    \<and> is_init_ok (it_state (d_idle ((spawn_session ^^ n) d))) = is_init_ok (it_state (d_idle d))
    \<and> d_init ((spawn_session ^^ n) d) = d_init d"
  using assms
proof (induction n)
  case (Suc n)
  define e where "e = (spawn_session ^^ n) d"
  have E: "counts_ok (d_idle e) (d_events e) (d_hellos e) (d_users e)" "timer_ok (d_idle e)"
      "is_init_ok (it_state (d_idle e)) = is_init_ok (it_state (d_idle d))" "d_init e = d_init d"
    using Suc by (simp_all add: e_def)
  have eq: "(spawn_session ^^ Suc n) d = spawn_session e" by (simp add: e_def)
  show ?case unfolding eq using accept_ok [OF E(1,2)] E(3,4) by (simp add: spawn_session_def)
qed simp

lemma inv_loop:
  assumes inv: "daemon_inv d" and serving: "d_phase d = Serving" and run: "loop_event now ev (turn now d) = Some d'"
  shows "daemon_inv d'"
proof -
  define e where "e = turn now d"
  have E: "counts_ok (d_idle e) (d_events e) (d_hellos e) (d_users e)" "timer_ok (d_idle e)"
      "is_init_ok (it_state (d_idle e)) \<longleftrightarrow> d_init e = InitReady" "d_phase e = Serving"
    using turn_ok [OF daemon_invD(1,2) [OF inv], of now] daemon_invD(3) [OF inv] serving by (simp_all add: e_def turn_def)
  from run have run: "loop_event now ev e = Some d'" by (simp add: e_def)
  show ?thesis
  proof (cases ev)
    case Accepts
    with run E accept_ok [OF E(1,2)] show ?thesis
      by (auto simp: loop_event_def spawn_session_def daemon_inv_def split: if_splits)
  next
    case (InitResult r)
    with run E show ?thesis
      by (auto simp: loop_event_def on_init_result_def fail_init_def daemon_inv_def init_succeeded_def counts_ok_def timer_defs
          split: if_splits option.splits sum.splits)
  next
    case InitTimesOut
    with run E show ?thesis
      by (auto simp: loop_event_def fail_init_def daemon_inv_def split: if_splits)
  next
    case ReadsEvent
    with run obtain e1 q where q: "d_events e = e1 # q" "d' = e\<lparr>d_idle := apply_event e1 (d_idle e), d_events := q\<rparr>"
      by (auto simp: loop_event_def split: list.splits)
    with E counts_pop [of "d_idle e" e1 q "d_hellos e" "d_users e"] timer_read [of "d_idle e" e1 q "d_hellos e" "d_users e"]
    show ?thesis by (simp add: daemon_inv_def)
  qed (use run E in \<open>auto simp: loop_event_def daemon_inv_def split: option.splits if_splits\<close>)
qed

lemma inv_begin_shutdown:
  assumes inv: "daemon_inv d" and closing: "d_phase d = Closing trigger"
  shows "daemon_inv (begin_shutdown trigger lock accepts adopted now d)"
proof (cases "trigger = IdleTrigger \<and> lock")
  case False
  then show ?thesis
    using inv closing daemon_invD [OF inv]
    by (auto simp: begin_shutdown_def daemon_inv_def postpone_def counts_ok_def timer_defs)
next
  case True
  define drained where "drained = min accepts (d_backlog d)"
  define d1 where "d1 = d\<lparr>d_backlog := d_backlog d - drained, d_idle := fold apply_event (d_events d) (d_idle d), d_events := []\<rparr>"
  have quiet: "d_hellos d = 0" "d_users d = 0" "d_events d = []"
    using closing_is_quiet [OF inv] closing True by auto
  have D1: "counts_ok (d_idle d1) (d_events d1) (d_hellos d1) (d_users d1)" "timer_ok (d_idle d1)"
      "is_init_ok (it_state (d_idle d1)) \<longleftrightarrow> d_init d1 = InitReady"
    using read_all [OF daemon_invD(2,1) [OF inv]] daemon_invD(3) [OF inv] by (auto simp: d1_def)
  have run: "begin_shutdown trigger lock accepts adopted now d =
      (if drained = 0 \<and> should_arm (d_idle d1) then d1\<lparr>d_shut_out := drained, d_phase := Committed IdleTrigger True\<rparr>
       else ((spawn_session ^^ min adopted drained) d1)\<lparr>d_phase := Serving\<rparr>)"
    using True by (auto simp: begin_shutdown_def d1_def drained_def Let_def min_def)
  show ?thesis
    unfolding run using D1 spawn_keeps [OF D1(1,2), of "min adopted drained"] quiet
    by (auto simp: daemon_inv_def timer_defs) (simp_all add: d1_def)
qed

lemma inv_daemon_event:
  assumes inv: "daemon_inv d" and run: "daemon_event now ev d = Some d'"
  shows "daemon_inv d'"
proof (cases "ev \<in> {Connects, HelloPasses, HelloFails, UserEnds}")
  case True
  with run inv_session [OF inv] show ?thesis by (auto simp: daemon_event_def)
next
  case False
  show ?thesis
  proof (cases "d_phase d")
    case Serving
    with False run inv_loop [OF inv Serving] show ?thesis by (auto simp: daemon_event_def)
  next
    case (Closing t)
    with False run inv_begin_shutdown [OF inv Closing] show ?thesis
      by (auto simp: daemon_event_def split: daemon_move.splits)
  qed (use False run in \<open>auto simp: daemon_event_def\<close>)
qed

lemma inv_daemon: "daemon_reachable d \<Longrightarrow> daemon_inv d"
  by (erule daemons.invariant) (auto intro: inv_bound inv_daemon_event)

lemma spawn_hellos: "d_hellos ((spawn_session ^^ n) d) = d_hellos d + n"
  by (induction n) (simp_all add: spawn_session_def)

lemma shutdown_decides:
  assumes inv: "daemon_inv d" and closing: "d_phase d = Closing IdleTrigger"
  shows "let d' = begin_shutdown IdleTrigger lock accepts adopted now d; late = min accepts (d_backlog d) in
    if lock \<and> late = 0 then d_phase d' = Committed IdleTrigger True \<and> d_backlog d' = d_backlog d
    else d_phase d' = Serving \<and> d_hellos d' = (if lock then min adopted late else 0)"
proof -
  have quiet: "d_hellos d = 0" "d_events d = []" using closing_is_quiet [OF assms] by auto
  have "should_arm (d_idle d)" using daemon_invD(2,4) [OF inv] closing by (simp add: timer_ok_def)
  with quiet show ?thesis by (auto simp: begin_shutdown_def Let_def spawn_hellos min_def)
qed

text \<open>
  C14. The daemon never leaves a user behind. When it has committed to an idle exit it is initialised,
  holds the spawn lock, no connection is left, neither one that waits for its hello nor one in use,
  and none was accepted on the way out and closed. The decision is made under the lock: if a
  connection has queued up, the exit is off and the connection gets its session (if the socket can be
  adopted); otherwise, with the lock, the daemon goes. That holds whatever the order in which
  connections come and go and their reports reach the loop, because the timer's counts never go below
  zero and are those of the sessions up to the reports on their way.
\<close>

theorem idle_exit_leaves_nobody:
  assumes "daemon_reachable d"
  shows "(d_phase d = Committed IdleTrigger lock \<longrightarrow>
      lock \<and> d_init d = InitReady \<and> d_hellos d = 0 \<and> d_users d = 0 \<and> d_shut_out d = 0)
    \<and> (d_phase d = Closing IdleTrigger \<and> daemon_event now (LockTried locked accepts adopted) d = Some d' \<longrightarrow>
        (let late = min accepts (d_backlog d) in
         if locked \<and> late = 0 then d_phase d' = Committed IdleTrigger True \<and> d_backlog d' = d_backlog d
         else d_phase d' = Serving \<and> d_hellos d' = (if locked then min adopted late else 0)))
    \<and> is_in_hello (it_state (d_idle d)) = d_hellos d + passed (d_events d) + failed (d_events d)
    \<and> is_active (it_state (d_idle d)) + passed (d_events d) = d_users d + ended (d_events d)
    \<and> (\<forall>e q. d_events d = e # q \<longrightarrow> spec_allows (OpEvent e) (abs_timer (d_idle d)))"
proof -
  note inv = inv_daemon [OF assms]
  have "spec_allows (OpEvent e) (abs_timer (d_idle d))" if "d_events d = e # q" for e q
    using counts_pop [of "d_idle d" e q "d_hellos d" "d_users d"] daemon_invD(1) [OF inv] that by simp
  moreover have "let late = min accepts (d_backlog d) in
      if locked \<and> late = 0 then d_phase d' = Committed IdleTrigger True \<and> d_backlog d' = d_backlog d
      else d_phase d' = Serving \<and> d_hellos d' = (if locked then min adopted late else 0)"
    if "d_phase d = Closing IdleTrigger" "daemon_event now (LockTried locked accepts adopted) d = Some d'"
  proof -
    have "d' = begin_shutdown IdleTrigger locked accepts adopted now d" using that by (simp add: daemon_event_def)
    then show ?thesis using shutdown_decides [OF inv that(1), of locked accepts adopted now] by (simp only: Let_def)
  qed
  ultimately show ?thesis using daemon_invD(1,5) [OF inv] by (auto simp: counts_ok_def)
qed

text \<open>A user comes and goes, and a second later the daemon exits.\<close>

theorem idle_exit_leaves_nobody_witness:
  "\<exists>d. run_events timed_event [(0, InitResult (Some (Inr ()))), (1, Connects), (2, Accepts), (3, HelloPasses), (4, ReadsEvent), (5, UserEnds),
      (6, ReadsEvent), (7, AcceptFails), (2000000000, IdleDue), (2000000001, LockTried True 9 0)]
      (bind_daemon id None (Some ''1'') 0) = Some d
    \<and> d_phase d = Committed IdleTrigger True \<and> d_hellos d = 0 \<and> d_users d = 0 \<and> d_shut_out d = 0"
proof -
  let ?d0 = "bind_daemon id None (Some ''1'') 0"
  let ?evs = "[(0, InitResult (Some (Inr ()))), (1, Connects), (2, Accepts), (3, HelloPasses), (4, ReadsEvent), (5, UserEnds),
      (6, ReadsEvent), (7, AcceptFails), (2000000000, IdleDue), (2000000001, LockTried True 9 0)]"
  obtain d where d: "run_events timed_event ?evs ?d0 = Some d" "d_phase d = Committed IdleTrigger True"
    by (simp add: bind_daemon_def parse_secs_def parse_u64_def is_digit_def digits_value_def digit_value_def trim_def trim_start_def
        is_ws_def nanos_per_second_def idle_new_def daemon_event_def turn_def update_timer_def should_arm_def should_arm_state_def
        loop_event_def on_init_result_def init_succeeded_def session_event_def spawn_session_def accepted_def apply_event_def
        decrement_def begin_shutdown_def INIT_TIMEOUT_DEFAULT_SECS_def INIT_TIMEOUT_CAP_SECS_def Let_def)
  from idle_exit_leaves_nobody [OF daemons.runs [OF d(1) daemon_reachable.bound], of True] d show ?thesis by blast
qed

end
