(* ===== verification/RunDir.thy ===== *)
theory RunDir
  imports Machine Spawning Daemon
begin

text \<open>
  The run directory shared by all proxies and daemons of one key: who may take the spawn lock,
  remove the socket, start, bind and leave, step by step and in any interleaving
  (\<open>connect_or_spawn\<close> and \<open>SpawnGuard\<close> of \<open>crates/server/src/daemon/spawn.rs\<close>; \<open>bind\<close>,
  \<open>begin_shutdown\<close> and \<open>finish\<close> of \<open>daemon.rs\<close>). The decisions and the effects of a proxy are those
  of \<open>Rounds\<close> and \<open>Spawning\<close>, the files a daemon removes those of \<open>Daemon\<close>.
\<close>

section \<open>State\<close>

text \<open>
  A proxy waits for the child it has started in \<open>PWait\<close>, and carries out the remaining effects
  of its guard in \<open>PEffects\<close>.
\<close>

datatype proxy_at = PStart | PNoDaemon | PLocked | PRemove | PSpawn | PWait nat | PEffects "effect list" "nat option" | PDone

text \<open>
  A daemon checks for another one, binds, listens and writes its pid file. With the spawn lock
  (\<open>DDeciding\<close>) it decides whether to leave; \<open>DLeaving lock\<close> is committed, \<open>DClosed lock\<close> has closed
  its listener, \<open>DExiting\<close> is past the removal of its files.
\<close>

datatype daemon_at = DChecking | DBinding | DBound | DListening | DServing | DDeciding | DLeaving bool | DClosed bool | DExiting

datatype holder = HProxy nat | HDaemon nat

text \<open>The socket and the pid file of daemon \<open>d\<close> are known by \<open>(0, d)\<close> and \<open>d\<close>.\<close>

record run_state =
  rs_files :: run_files
  rs_lock :: "holder option"
  rs_proxies :: "nat \<Rightarrow> proxy_at"
  rs_daemons :: "nat \<rightharpoonup> daemon_at"
  rs_born :: "nat set"

definition empty_run :: run_state where
  "empty_run = \<lparr> rs_files = \<lparr> rf_pid = None, rf_socket = None \<rparr>, rs_lock = None, rs_proxies = (\<lambda>_. PStart),
     rs_daemons = Map.empty, rs_born = {} \<rparr>"

definition set_proxy :: "nat \<Rightarrow> proxy_at \<Rightarrow> run_state \<Rightarrow> run_state" where
  "set_proxy p a s = s\<lparr>rs_proxies := (rs_proxies s)(p := a)\<rparr>"

definition set_daemon :: "nat \<Rightarrow> daemon_at \<Rightarrow> run_state \<Rightarrow> run_state" where
  "set_daemon d a s = s\<lparr>rs_daemons := (rs_daemons s)(d \<mapsto> a)\<rparr>"

definition listens :: "daemon_at \<Rightarrow> bool" where
  "listens a \<longleftrightarrow> a \<in> {DListening, DServing, DDeciding, DLeaving True, DLeaving False}"

definition starting :: "daemon_at \<Rightarrow> bool" where
  "starting a \<longleftrightarrow> a \<in> {DChecking, DBinding, DBound}"

text \<open>The lock on the pid file is held from the moment it is written until the process ends.\<close>

definition holds_pid_lock :: "daemon_at \<Rightarrow> bool" where
  "holds_pid_lock a \<longleftrightarrow> \<not> starting a \<and> a \<noteq> DListening"

definition pid_held :: "run_state \<Rightarrow> bool" where
  "pid_held s \<longleftrightarrow> (case rf_pid (rs_files s) of None \<Rightarrow> False
     | Some d \<Rightarrow> (case rs_daemons s d of None \<Rightarrow> False | Some a \<Rightarrow> holds_pid_lock a))"

definition listening :: "run_state \<Rightarrow> nat \<Rightarrow> bool" where
  "listening s d \<longleftrightarrow> (case rs_daemons s d of None \<Rightarrow> False | Some a \<Rightarrow> listens a)"

definition release :: "holder \<Rightarrow> run_state \<Rightarrow> run_state" where
  "release h s = (if rs_lock s = Some h then s\<lparr>rs_lock := None\<rparr> else s)"

text \<open>The end of a process: a lock it holds is gone, the files stay.\<close>

definition end_daemon :: "nat \<Rightarrow> run_state \<Rightarrow> run_state" where
  "end_daemon d s = release (HDaemon d) (s\<lparr>rs_daemons := (rs_daemons s)(d := None)\<rparr>)"

section \<open>Connecting\<close>

text \<open>
  What connecting can return. \<open>refuses\<close> tells in which states a live listener may refuse a
  connection, as macOS does when the backlog is full; elsewhere it never does.
\<close>

definition connect_allowed :: "int \<Rightarrow> (daemon_at \<Rightarrow> bool) \<Rightarrow> run_state \<Rightarrow> io_error option \<Rightarrow> bool" where
  "connect_allowed notsock refuses s r \<longleftrightarrow>
     (case (r, rf_socket (rs_files s)) of
        (None, None) \<Rightarrow> False
      | (None, Some (_, d)) \<Rightarrow> listening s d
      | (Some e, None) \<Rightarrow> classify_connect_error notsock e \<noteq> StaleSocket \<or> io_kind e = NotFound
      | (Some e, Some (_, d)) \<Rightarrow> classify_connect_error notsock e \<noteq> StaleSocket
          \<or> io_kind e \<noteq> NotFound \<and> (case rs_daemons s d of None \<Rightarrow> True | Some a \<Rightarrow> \<not> listens a \<or> refuses a))"

section \<open>Proxies\<close>

definition run_effect :: "nat \<Rightarrow> nat option \<Rightarrow> effect \<Rightarrow> run_state \<Rightarrow> run_state" where
  "run_effect p child eff s =
     (case eff of
        ReleasesLock \<Rightarrow> release (HProxy p) s
      | KillsChild \<Rightarrow> (case child of None \<Rightarrow> s | Some d \<Rightarrow> end_daemon d s)
      | RemovesSocket \<Rightarrow> s\<lparr>rs_files := (rs_files s)\<lparr>rf_socket := None\<rparr>\<rparr>
      | _ \<Rightarrow> s)"

datatype run_event =
    FirstConnect nat "io_error option"
  | TakeLock nat
  | LockFailed nat
  | SecondConnect nat "io_error option"
  | RemoveSocket nat bool
  | Spawn nat "nat option"
  | Poll nat poll
  | Effect nat
  | TryAgain nat
  | ProxyDies nat
  | DaemonChecks nat "io_error option"
  | DaemonBinds nat
  | DaemonListens nat
  | DaemonWritesPid nat bool
  | DaemonLocks nat
  | DaemonStays nat
  | DaemonCommits nat
  | DaemonLeavesUnlocked nat
  | DaemonCloses nat
  | DaemonFinishes nat
  | DaemonEnds nat

text \<open>The socket's path plays no role in the decision.\<close>

definition proxy_step :: "int \<Rightarrow> (daemon_at \<Rightarrow> bool) \<Rightarrow> run_event \<Rightarrow> run_state \<Rightarrow> run_state option" where
  "proxy_step notsock refuses ev s =
     (case ev of
        FirstConnect p r \<Rightarrow>
          if rs_proxies s p = PStart \<and> connect_allowed notsock refuses s r
          then Some (set_proxy p (if r = None then PDone else PNoDaemon) s) else None
      | TakeLock p \<Rightarrow>
          if rs_proxies s p = PNoDaemon \<and> rs_lock s = None
          then Some (set_proxy p PLocked (s\<lparr>rs_lock := Some (HProxy p)\<rparr>)) else None
      | LockFailed p \<Rightarrow> if rs_proxies s p = PNoDaemon then Some (set_proxy p PDone s) else None
      | SecondConnect p r \<Rightarrow>
          if rs_proxies s p = PLocked \<and> connect_allowed notsock refuses s r
          then Some (set_proxy p (case decide_takeover notsock [] (pid_held s) r of
              RemoveAndSpawn \<Rightarrow> PRemove | _ \<Rightarrow> PEffects [ReleasesLock] None) s)
          else None
      | RemoveSocket p gone \<Rightarrow>
          if rs_proxies s p = PRemove
          then Some (if gone then set_proxy p PSpawn (run_effect p None RemovesSocket s)
            else set_proxy p (PEffects [ReleasesLock] None) s)
          else None
      | Spawn p child \<Rightarrow>
          if rs_proxies s p \<noteq> PSpawn then None
          else (case child of None \<Rightarrow> Some (set_proxy p (PEffects [ReleasesLock] None) s)
            | Some d \<Rightarrow> if d \<in> rs_born s then None
                else Some (set_daemon d DChecking (set_proxy p (PWait d) (s\<lparr>rs_born := insert d (rs_born s)\<rparr>))))
      | Poll p po \<Rightarrow>
          (case rs_proxies s p of
             PWait d \<Rightarrow>
               if (po_connected po \<longrightarrow> connect_allowed notsock refuses s None)
                 \<and> (po_exited po \<noteq> None \<longrightarrow> rs_daemons s d = None)
               then Some (case wait_for_accept \<lparr> sn_socket = [], sn_lock_file = [], sn_log_file = [], sn_exe = [],
                     sn_env_log = None, sn_accept_budget = [] \<rparr> [po] of
                   None \<Rightarrow> s
                 | Some (_, effs) \<Rightarrow> set_proxy p (PEffects effs (Some d)) s)
               else None
           | _ \<Rightarrow> None)
      | Effect p \<Rightarrow>
          (case rs_proxies s p of
             PEffects [] child \<Rightarrow> Some (set_proxy p PDone s)
           | PEffects (e # es) child \<Rightarrow> Some (set_proxy p (PEffects es child) (run_effect p child e s))
           | _ \<Rightarrow> None)
      | TryAgain p \<Rightarrow> if rs_proxies s p = PDone then Some (set_proxy p PStart s) else None
      | ProxyDies p \<Rightarrow> Some (set_proxy p PDone (release (HProxy p) s))
      | _ \<Rightarrow> None)"

section \<open>Daemons\<close>

definition own_socket_gone :: "nat \<Rightarrow> run_files \<Rightarrow> run_files" where
  "own_socket_gone d fs = fs\<lparr>rf_socket := (if rf_socket fs = Some (0, d) then None else rf_socket fs)\<rparr>"

definition daemon_step :: "int \<Rightarrow> (daemon_at \<Rightarrow> bool) \<Rightarrow> run_event \<Rightarrow> run_state \<Rightarrow> run_state option" where
  "daemon_step notsock refuses ev s =
     (case ev of
        DaemonChecks d r \<Rightarrow>
          if rs_daemons s d = Some DChecking \<and> connect_allowed notsock refuses s r
          then Some (if r = None then end_daemon d s else set_daemon d DBinding s) else None
      | DaemonBinds d \<Rightarrow>
          if rs_daemons s d \<noteq> Some DBinding then None
          else if rf_socket (rs_files s) = None
            then Some (set_daemon d DBound (s\<lparr>rs_files := (rs_files s)\<lparr>rf_socket := Some (0, d)\<rparr>\<rparr>))
          else Some (end_daemon d s)
      | DaemonListens d \<Rightarrow> if rs_daemons s d = Some DBound then Some (set_daemon d DListening s) else None
      | DaemonWritesPid d wrote \<Rightarrow>
          if rs_daemons s d \<noteq> Some DListening then None
          else if wrote then Some (set_daemon d DServing (s\<lparr>rs_files := (rs_files s)\<lparr>rf_pid := Some d\<rparr>\<rparr>))
          else Some (end_daemon d (s\<lparr>rs_files := own_socket_gone d (rs_files s)\<rparr>))
      | DaemonLocks d \<Rightarrow>
          if rs_daemons s d = Some DServing \<and> rs_lock s = None
          then Some (set_daemon d DDeciding (s\<lparr>rs_lock := Some (HDaemon d)\<rparr>)) else None
      | DaemonStays d \<Rightarrow>
          if rs_daemons s d = Some DDeciding then Some (set_daemon d DServing (release (HDaemon d) s)) else None
      | DaemonCommits d \<Rightarrow> if rs_daemons s d = Some DDeciding then Some (set_daemon d (DLeaving True) s) else None
      | DaemonLeavesUnlocked d \<Rightarrow> if rs_daemons s d = Some DServing then Some (set_daemon d (DLeaving False) s) else None
      | DaemonCloses d \<Rightarrow>
          (case rs_daemons s d of Some (DLeaving lock) \<Rightarrow> Some (set_daemon d (DClosed lock) s) | _ \<Rightarrow> None)
      | DaemonFinishes d \<Rightarrow>
          (case rs_daemons s d of
             Some (DClosed lock) \<Rightarrow> Some (set_daemon d DExiting (release (HDaemon d)
                 (s\<lparr>rs_files := finish d (0, d) lock (rs_files s)\<rparr>)))
           | _ \<Rightarrow> None)
      | DaemonEnds d \<Rightarrow> if rs_daemons s d = None then None else Some (end_daemon d s)
      | _ \<Rightarrow> None)"

definition run_dir_step :: "int \<Rightarrow> (daemon_at \<Rightarrow> bool) \<Rightarrow> run_event \<Rightarrow> run_state \<Rightarrow> run_state option" where
  "run_dir_step notsock refuses ev s =
     (case proxy_step notsock refuses ev s of Some t \<Rightarrow> Some t | None \<Rightarrow> daemon_step notsock refuses ev s)"

text \<open>
  A proxy that is killed while its child is starting leaves the child behind without the lock.
  An orderly course has no such death.
\<close>

definition orderly :: "run_event \<Rightarrow> run_state \<Rightarrow> bool" where
  "orderly ev s \<longleftrightarrow> (case ev of
     ProxyDies p \<Rightarrow> (case rs_proxies s p of
         PWait d \<Rightarrow> (case rs_daemons s d of None \<Rightarrow> True | Some a \<Rightarrow> \<not> starting a)
       | PEffects effs (Some d) \<Rightarrow> (case rs_daemons s d of None \<Rightarrow> True | Some a \<Rightarrow> \<not> starting a)
       | _ \<Rightarrow> True)
   | _ \<Rightarrow> True)"

definition orderly_step :: "int \<Rightarrow> (daemon_at \<Rightarrow> bool) \<Rightarrow> run_event \<Rightarrow> run_state \<Rightarrow> run_state option" where
  "orderly_step notsock refuses ev s = (if orderly ev s then run_dir_step notsock refuses ev s else None)"

inductive run_reachable :: "int \<Rightarrow> (daemon_at \<Rightarrow> bool) \<Rightarrow> run_state \<Rightarrow> bool" for notsock refuses where
  empty: "run_reachable notsock refuses empty_run"
| step: "run_reachable notsock refuses s \<Longrightarrow> orderly_step notsock refuses ev s = Some t \<Longrightarrow> run_reachable notsock refuses t"

interpretation run_dirs: machine "orderly_step notsock refuses" "\<lambda>s. s = empty_run" "run_reachable notsock refuses"
  for notsock refuses
proof
  show "P s" if "run_reachable notsock refuses s" "\<And>s. s = empty_run \<Longrightarrow> P s"
    "\<And>s e t. run_reachable notsock refuses s \<Longrightarrow> P s \<Longrightarrow> orderly_step notsock refuses e s = Some t \<Longrightarrow> P t" for s P
    using that by (induction rule: run_reachable.induct) blast+
qed (auto intro: run_reachable.intros)

end
