(* ===== verification/RunDirLaws.thy ===== *)
theory RunDirLaws
  imports RunDir
begin

text \<open>
  The run directory has one daemon at a time: the spawn lock covers everything between the second
  connection of a proxy and the first connection its child accepts, and a daemon that leaves
  removes its socket under the same lock.
\<close>

section \<open>Who holds the lock\<close>

definition in_lock :: "proxy_at \<Rightarrow> bool" where
  "in_lock a = (case a of PLocked \<Rightarrow> True | PRemove \<Rightarrow> True | PSpawn \<Rightarrow> True | PWait _ \<Rightarrow> True
     | PEffects effs _ \<Rightarrow> effs \<noteq> [] | _ \<Rightarrow> False)"

definition daemon_in_lock :: "daemon_at option \<Rightarrow> bool" where
  "daemon_in_lock a \<longleftrightarrow> a \<in> {Some DDeciding, Some (DLeaving True), Some (DClosed True)}"

fun holds :: "run_state \<Rightarrow> holder \<Rightarrow> bool" where
  "holds s (HProxy p) = in_lock (rs_proxies s p)"
| "holds s (HDaemon d) = daemon_in_lock (rs_daemons s d)"

text \<open>Until the daemon a proxy has started accepts connections, the proxy keeps the lock and the child.\<close>

definition guards :: "proxy_at \<Rightarrow> nat \<Rightarrow> bool" where
  "guards a d \<longleftrightarrow> a = PWait d \<or> a = PEffects drop_guard (Some d)"

definition plausible :: "proxy_at \<Rightarrow> bool" where
  "plausible a = (case a of
     PEffects effs None \<Rightarrow> effs \<in> {[], [ReleasesLock]}
   | PEffects effs (Some _) \<Rightarrow> effs \<in> {[], [ReleasesLock], drop_guard, disarm}
   | _ \<Rightarrow> True)"

definition up :: "run_state \<Rightarrow> nat \<Rightarrow> bool" where
  "up s d \<longleftrightarrow> (case rs_daemons s d of None \<Rightarrow> False | Some a \<Rightarrow> starting a \<or> listens a)"

definition coming :: "run_state \<Rightarrow> nat \<Rightarrow> bool" where
  "coming s d \<longleftrightarrow> (case rs_daemons s d of None \<Rightarrow> False | Some a \<Rightarrow> starting a)"

definition bound :: "run_state \<Rightarrow> nat \<Rightarrow> bool" where
  "bound s d \<longleftrightarrow> rs_daemons s d = Some DBound \<or> listening s d"

definition lock_ok :: "run_state \<Rightarrow> bool" where
  "lock_ok s \<longleftrightarrow> (\<forall>h. holds s h \<longleftrightarrow> rs_lock s = Some h) \<and> (\<forall>p. plausible (rs_proxies s p))"

definition starts_ok :: "run_state \<Rightarrow> bool" where
  "starts_ok s \<longleftrightarrow> (\<forall>d. coming s d \<longrightarrow> (\<exists>p. guards (rs_proxies s p) d))
    \<and> (\<forall>p d. up s d \<longrightarrow> rs_proxies s p \<noteq> PRemove \<and> rs_proxies s p \<noteq> PSpawn)
    \<and> (\<forall>p c d. up s d \<longrightarrow> guards (rs_proxies s p) c \<longrightarrow> d = c)"

definition files_ok :: "run_state \<Rightarrow> bool" where
  "files_ok s \<longleftrightarrow> (\<forall>d. bound s d \<longrightarrow> rf_socket (rs_files s) = Some (0, d))
    \<and> (\<forall>d a. rs_daemons s d = Some a \<longrightarrow> listens a \<longrightarrow> holds_pid_lock a \<longrightarrow> rf_pid (rs_files s) = Some d)"

lemma lock_unique: "lock_ok s \<Longrightarrow> holds s h \<Longrightarrow> holds s h' \<Longrightarrow> h = h'"
  by (metis lock_ok_def option.inject)

lemmas at_defs = in_lock_def daemon_in_lock_def guards_def plausible_def up_def coming_def bound_def listening_def
  listens_def starting_def holds_pid_lock_def drop_guard_def disarm_def

lemmas effect_defs = set_proxy_def set_daemon_def end_daemon_def release_def run_effect_def own_socket_gone_def finish_def

section \<open>The lock\<close>

lemma poll_outcomes:
  "wait_for_accept names [po] = Some (r, effs) \<Longrightarrow> effs = disarm \<and> po_connected po \<or> effs = drop_guard \<and> \<not> po_connected po"
  by (auto split: if_splits option.splits)

lemma lock_okI:
  assumes "\<And>p. in_lock (rs_proxies s p) \<longleftrightarrow> rs_lock s = Some (HProxy p)"
    and "\<And>d. daemon_in_lock (rs_daemons s d) \<longleftrightarrow> rs_lock s = Some (HDaemon d)"
    and "\<And>p. plausible (rs_proxies s p)"
  shows "lock_ok s"
  using assms unfolding lock_ok_def by (metis holder.exhaust holds.simps)

lemma lock_okD:
  assumes "lock_ok s"
  shows "in_lock (rs_proxies s p) \<longleftrightarrow> rs_lock s = Some (HProxy p)"
    "daemon_in_lock (rs_daemons s d) \<longleftrightarrow> rs_lock s = Some (HDaemon d)" "plausible (rs_proxies s p)"
  using assms by (auto simp: lock_ok_def simp flip: holds.simps)

lemma lock_set_proxy:
  assumes ok: "lock_ok s" and t: "rs_proxies t = (rs_proxies s)(p := a)" "rs_daemons t = rs_daemons s"
    and lock: "if in_lock a then (rs_lock s = None \<or> rs_lock s = Some (HProxy p)) \<and> rs_lock t = Some (HProxy p)
      else rs_lock t = (if rs_lock s = Some (HProxy p) then None else rs_lock s)"
    and a: "plausible a"
  shows "lock_ok t"
  using lock lock_okD [OF ok] a by (intro lock_okI) (auto simp: t split: if_splits)

lemma lock_set_daemon:
  assumes ok: "lock_ok s" and t: "rs_proxies t = rs_proxies s" "rs_daemons t = (rs_daemons s)(d := a)"
    and lock: "if daemon_in_lock a then (rs_lock s = None \<or> rs_lock s = Some (HDaemon d)) \<and> rs_lock t = Some (HDaemon d)
      else rs_lock t = (if rs_lock s = Some (HDaemon d) then None else rs_lock s)"
  shows "lock_ok t"
  using lock lock_okD [OF ok] by (intro lock_okI) (auto simp: t split: if_splits)

lemma lock_proxy:
  assumes ok: "lock_ok s" and run: "proxy_step notsock refuses ev s = Some t"
  shows "lock_ok t"
proof -
  note D = lock_okD [OF ok]
  show ?thesis
  proof (cases ev)
    case (FirstConnect p r)
    with run D(1) [of p] show ?thesis
      by (intro lock_set_proxy [OF ok, of t p "if r = None then PDone else PNoDaemon"])
        (auto simp: proxy_step_def effect_defs in_lock_def plausible_def split: if_splits)
  next
    case (TakeLock p)
    with run show ?thesis
      by (intro lock_set_proxy [OF ok, of t p PLocked])
        (auto simp: proxy_step_def effect_defs in_lock_def plausible_def split: if_splits)
  next
    case (LockFailed p)
    with run D(1) [of p] show ?thesis
      by (intro lock_set_proxy [OF ok, of t p PDone])
        (auto simp: proxy_step_def effect_defs in_lock_def plausible_def split: if_splits)
  next
    case (SecondConnect p r)
    with run D(1) [of p] show ?thesis
      by (intro lock_set_proxy [OF ok, of t p "rs_proxies t p"])
        (auto simp: proxy_step_def effect_defs in_lock_def plausible_def split: if_splits takeover.splits)
  next
    case (RemoveSocket p gone)
    with run D(1) [of p] show ?thesis
      by (intro lock_set_proxy [OF ok, of t p "rs_proxies t p"])
        (auto simp: proxy_step_def effect_defs in_lock_def plausible_def split: if_splits)
  next
    case (Spawn p child)
    show ?thesis
    proof (cases child)
      case None
      with Spawn run D(1) [of p] show ?thesis
        by (intro lock_set_proxy [OF ok, of t p "PEffects [ReleasesLock] None"])
          (auto simp: proxy_step_def effect_defs in_lock_def plausible_def split: if_splits)
    next
      case (Some d)
      with Spawn run D(1) [of p] have "lock_ok (set_daemon d DChecking s)" "rs_lock s = Some (HProxy p)"
        by (auto intro!: lock_set_daemon [OF ok] simp: proxy_step_def effect_defs in_lock_def daemon_in_lock_def split: if_splits)
      with Spawn Some run show ?thesis
        by (intro lock_set_proxy [of "set_daemon d DChecking s" t p "PWait d"])
          (auto simp: proxy_step_def effect_defs in_lock_def plausible_def split: if_splits)
    qed
  next
    case (Poll p po)
    with run obtain d where d: "rs_proxies s p = PWait d"
      and t: "t = s \<or> t = set_proxy p (PEffects drop_guard (Some d)) s \<or> t = set_proxy p (PEffects disarm (Some d)) s"
      by (auto simp: proxy_step_def dest: poll_outcomes split: proxy_at.splits if_splits option.splits)
    from t show ?thesis
      using ok D(1) [of p] d
      by (auto simp: set_proxy_def in_lock_def plausible_def drop_guard_def disarm_def
          intro!: lock_set_proxy [OF ok, of _ p "PEffects _ (Some d)"])
  next
    case (Effect p)
    with run obtain effs child where at: "rs_proxies s p = PEffects effs child" and
      t: "effs = [] \<and> t = set_proxy p PDone s \<or>
        (\<exists>e es. effs = e # es \<and> t = set_proxy p (PEffects es child) (run_effect p child e s))"
      by (auto simp: proxy_step_def split: proxy_at.splits list.splits)
    have lock: "effs \<noteq> [] \<longleftrightarrow> rs_lock s = Some (HProxy p)" and "plausible (PEffects effs child)"
      using D(1) [of p] D(3) [of p] at by (simp_all add: in_lock_def)
    then have shape: "effs \<in> {[], [ReleasesLock], disarm} \<or> (\<exists>d. effs = drop_guard \<and> child = Some d)"
      by (auto simp: plausible_def split: option.splits)
    show ?thesis
    proof (cases "effs = drop_guard")
      case True
      with shape obtain d where d: "child = Some d" by (auto simp: drop_guard_def disarm_def)
      have "lock_ok (end_daemon d s)"
        using True lock by (intro lock_set_daemon [OF ok, of _ d None]) (auto simp: effect_defs daemon_in_lock_def drop_guard_def)
      then show ?thesis
        using True t d lock
        by (intro lock_set_proxy [of "end_daemon d s" t p "PEffects [ReleasesLock] (Some d)"])
          (auto simp: effect_defs drop_guard_def in_lock_def plausible_def)
    next
      case False
      with t shape lock show ?thesis
        by (intro lock_set_proxy [OF ok, of t p "rs_proxies t p"])
          (auto simp: effect_defs disarm_def in_lock_def plausible_def split: option.splits)
    qed
  next
    case (TryAgain p)
    with run D(1) [of p] show ?thesis
      by (intro lock_set_proxy [OF ok, of t p PStart])
        (auto simp: proxy_step_def effect_defs in_lock_def plausible_def split: if_splits)
  next
    case (ProxyDies p)
    with run D(1) [of p] show ?thesis
      by (intro lock_set_proxy [OF ok, of t p PDone])
        (auto simp: proxy_step_def effect_defs in_lock_def plausible_def split: if_splits)
  qed (use run in \<open>simp_all add: proxy_step_def\<close>)
qed

fun subject :: "run_event \<Rightarrow> nat" where
  "subject (DaemonChecks d _) = d"
| "subject (DaemonBinds d) = d"
| "subject (DaemonListens d) = d"
| "subject (DaemonWritesPid d _) = d"
| "subject (DaemonLocks d) = d"
| "subject (DaemonStays d) = d"
| "subject (DaemonCommits d) = d"
| "subject (DaemonLeavesUnlocked d) = d"
| "subject (DaemonCloses d) = d"
| "subject (DaemonFinishes d) = d"
| "subject (DaemonEnds d) = d"
| "subject _ = 0"

lemma daemon_step_local:
  assumes run: "daemon_step notsock refuses ev s = Some t" and d: "d = subject ev"
    and lock: "daemon_in_lock (rs_daemons s d) \<longleftrightarrow> rs_lock s = Some (HDaemon d)"
  shows "rs_proxies t = rs_proxies s \<and> rs_daemons t = (rs_daemons s)(d := rs_daemons t d) \<and>
    (if daemon_in_lock (rs_daemons t d)
     then (rs_lock s = None \<or> rs_lock s = Some (HDaemon d)) \<and> rs_lock t = Some (HDaemon d)
     else rs_lock t = (if rs_lock s = Some (HDaemon d) then None else rs_lock s))"
  using assms
  by (cases ev) (auto simp: daemon_step_def effect_defs daemon_in_lock_def fun_upd_def split: if_splits option.splits daemon_at.splits)

lemma lock_daemon:
  assumes ok: "lock_ok s" and run: "daemon_step notsock refuses ev s = Some t"
  shows "lock_ok t"
  using daemon_step_local [OF run refl lock_okD(2) [OF ok]] by (blast intro: lock_set_daemon [OF ok])

section \<open>Starting\<close>

lemma starts_set_proxy:
  assumes ok: "starts_ok s" and t: "rs_proxies t = (rs_proxies s)(p := a)" "rs_daemons t = rs_daemons s"
    and a: "\<And>d. up s d \<Longrightarrow> a \<noteq> PRemove \<and> a \<noteq> PSpawn \<and> (\<forall>c. guards a c \<longrightarrow> d = c)"
    and keeps: "\<And>d. coming s d \<Longrightarrow> guards (rs_proxies s p) d \<Longrightarrow> guards a d"
  shows "starts_ok t"
proof -
  have [simp]: "up t d = up s d" "coming t d = coming s d" for d by (simp_all add: up_def coming_def t)
  have "\<exists>q. guards (rs_proxies t q) d" if "coming s d" for d
  proof -
    from ok that obtain q where "guards (rs_proxies s q) d" by (auto simp: starts_ok_def)
    with keeps [OF that] show ?thesis by (cases "q = p") (auto simp: t)
  qed
  then show ?thesis
    using ok a unfolding starts_ok_def by (auto simp: t)
qed

lemma starts_set_daemon:
  assumes ok: "starts_ok s" and t: "rs_proxies t = rs_proxies s"
    and less: "\<And>d. up t d \<Longrightarrow> up s d" "\<And>d. coming t d \<Longrightarrow> coming s d"
  shows "starts_ok t"
  using ok less unfolding starts_ok_def t by blast

lemma coming_up: "coming s d \<Longrightarrow> up s d"
  by (auto simp: coming_def up_def split: option.splits)

lemma bound_up: "bound s d \<Longrightarrow> up s d"
  by (auto simp: at_defs split: option.splits)

lemma guards_in_lock: "guards a d \<Longrightarrow> in_lock a"
  by (auto simp: guards_def in_lock_def drop_guard_def)

text \<open>The proxy with the lock is the one that watches over a starting daemon.\<close>

lemma coming_guarded:
  assumes "lock_ok s" and "starts_ok s" and "coming s d" and "rs_lock s = Some (HProxy p)"
  shows "guards (rs_proxies s p) d"
proof -
  obtain q where q: "guards (rs_proxies s q) d" using assms(2,3) by (auto simp: starts_ok_def)
  with lock_okD(1) [OF assms(1)] guards_in_lock assms(4) have "q = p" by fastforce
  with q show ?thesis by simp
qed

lemma alone:
  assumes "starts_ok s" and "coming s d" and "up s d'"
  shows "d' = d"
  using assms unfolding starts_ok_def by metis

text \<open>
  When the second connection of a proxy lets it take over, no daemon is starting or listening, as
  long as a listener refuses connections only once its pid file is there.
\<close>

lemma takeover_alone:
  assumes ok: "lock_ok s" "starts_ok s" "files_ok s" and refuses: "\<And>a. refuses a \<Longrightarrow> holds_pid_lock a"
    and at: "rs_proxies s p = PLocked" and r: "connect_allowed notsock refuses s r"
    and take: "decide_takeover notsock [] (pid_held s) r = RemoveAndSpawn"
  shows "\<not> up s d"
proof
  assume up: "up s d"
  have lock: "rs_lock s = Some (HProxy p)" using lock_okD(1) [OF ok(1), of p] at by (simp add: in_lock_def)
  have "\<not> coming s d" using coming_guarded [OF ok(1,2) _ lock] at by (auto simp: guards_def)
  with up obtain a where a: "rs_daemons s d = Some a" "listens a"
    by (auto simp: up_def coming_def split: option.splits)
  then have socket: "rf_socket (rs_files s) = Some (0, d)"
    using ok(3) by (simp add: files_ok_def bound_def listening_def)
  from take obtain e where e: "r = Some e" "classify_connect_error notsock e = StaleSocket" "io_kind e = NotFound \<or> \<not> pid_held s"
    by (auto simp: decide_takeover_def split: option.splits connect_class.splits if_splits)
  with r socket a have "refuses a" "io_kind e \<noteq> NotFound" by (auto simp: connect_allowed_def)
  moreover have "pid_held s" if "holds_pid_lock a"
    using ok(3) a that by (simp add: files_ok_def pid_held_def)
  ultimately show False using e refuses by blast
qed

lemma starts_proxy:
  assumes ok: "lock_ok s" "starts_ok s" "files_ok s" and refuses: "\<And>a. refuses a \<Longrightarrow> holds_pid_lock a"
    and calm: "orderly ev s" and run: "proxy_step notsock refuses ev s = Some t"
  shows "starts_ok t"
proof (cases ev)
  case (FirstConnect p r)
  with run show ?thesis
    by (intro starts_set_proxy [OF ok(2), of t p "rs_proxies t p"])
      (auto simp: proxy_step_def effect_defs guards_def split: if_splits)
next
  case (TakeLock p)
  with run show ?thesis
    by (intro starts_set_proxy [OF ok(2), of t p "rs_proxies t p"])
      (auto simp: proxy_step_def effect_defs guards_def split: if_splits)
next
  case (LockFailed p)
  with run show ?thesis
    by (intro starts_set_proxy [OF ok(2), of t p "rs_proxies t p"])
      (auto simp: proxy_step_def effect_defs guards_def split: if_splits)
next
  case (SecondConnect p r)
  with run takeover_alone [OF ok, of refuses p notsock r] refuses show ?thesis
    by (intro starts_set_proxy [OF ok(2), of t p "rs_proxies t p"])
      (auto simp: proxy_step_def effect_defs guards_def drop_guard_def split: if_splits takeover.splits)
next
  case (RemoveSocket p gone)
  with run ok(2) show ?thesis
    by (intro starts_set_proxy [OF ok(2), of t p "rs_proxies t p"])
      (auto simp: proxy_step_def effect_defs guards_def drop_guard_def starts_ok_def split: if_splits)
next
  case (Spawn p child)
  then have at: "rs_proxies s p = PSpawn" using run by (auto simp: proxy_step_def split: if_splits)
  with ok(2) have none: "\<not> up s d" for d by (auto simp: starts_ok_def)
  show ?thesis
  proof (cases child)
    case None
    with Spawn at run none show ?thesis
      by (intro starts_set_proxy [OF ok(2), of t p "rs_proxies t p"])
        (auto simp: proxy_step_def effect_defs guards_def split: if_splits)
  next
    case (Some d)
    with Spawn at run have t: "rs_proxies t = (rs_proxies s)(p := PWait d)" "rs_daemons t = (rs_daemons s)(d \<mapsto> DChecking)"
      by (auto simp: proxy_step_def effect_defs split: if_splits)
    have up: "up t c \<Longrightarrow> c = d" for c using none [of c] by (auto simp: up_def t split: if_splits)
    have one: "in_lock (rs_proxies s q) \<Longrightarrow> q = p" for q
      using lock_okD(1) [OF ok(1), of q] lock_okD(1) [OF ok(1), of p] at by (simp add: in_lock_def)
    have lock: "guards (rs_proxies t q) c \<Longrightarrow> q = p" "rs_proxies t q \<noteq> PRemove" "rs_proxies t q \<noteq> PSpawn" for q c
    proof -
      have "\<not> in_lock (rs_proxies t q)" if "q \<noteq> p"
        using one [of q] that by (auto simp: t)
      with guards_in_lock show "guards (rs_proxies t q) c \<Longrightarrow> q = p" by blast
      show "rs_proxies t q \<noteq> PRemove" "rs_proxies t q \<noteq> PSpawn"
        using one [of q] by (auto simp: t in_lock_def)
    qed
    have d: "guards (rs_proxies t p) d" by (simp add: t guards_def)
    have "c = d" if g: "guards (rs_proxies t q) c" for q c
      using lock(1) [OF g] g by (simp add: t guards_def)
    then show ?thesis
      unfolding starts_ok_def using d lock(2,3) by (intro conjI allI impI) (metis coming_up up)+
  qed
next
  case (Poll p po)
  with run obtain d where d: "rs_proxies s p = PWait d"
    and t: "t = s \<or> t = set_proxy p (PEffects drop_guard (Some d)) s \<or>
      t = set_proxy p (PEffects disarm (Some d)) s \<and> connect_allowed notsock refuses s None"
    by (auto simp: proxy_step_def dest: poll_outcomes split: proxy_at.splits if_splits option.splits)
  have one: "up s c \<Longrightarrow> c = d" for c using ok(2) d by (auto simp: starts_ok_def guards_def)
  have "\<not> coming s d" if answered: "connect_allowed notsock refuses s None"
  proof -
    from answered obtain i c where c: "rf_socket (rs_files s) = Some (i, c)" "listening s c"
      by (auto simp: connect_allowed_def split: option.splits)
    with one [of c] have "listening s d" using bound_up [of s c] by (auto simp: bound_def)
    then show ?thesis by (auto simp: listening_def coming_def listens_def starting_def split: option.splits)
  qed
  with t d one ok(2) show ?thesis
    by (auto simp: set_proxy_def guards_def disarm_def drop_guard_def intro!: starts_set_proxy [OF ok(2), of _ p "PEffects _ (Some d)"])
next
  case (Effect p)
  with run obtain effs child where at: "rs_proxies s p = PEffects effs child" and
    t: "effs = [] \<and> t = set_proxy p PDone s \<or>
      (\<exists>e es. effs = e # es \<and> t = set_proxy p (PEffects es child) (run_effect p child e s))"
    by (auto simp: proxy_step_def split: proxy_at.splits list.splits)
  have shape: "effs \<in> {[], [ReleasesLock], disarm} \<or> (\<exists>d. effs = drop_guard \<and> child = Some d)"
    using lock_okD(3) [OF ok(1), of p] at by (auto simp: plausible_def split: option.splits)
  show ?thesis
  proof (cases "effs = drop_guard")
    case True
    with shape obtain d where d: "child = Some d" by (auto simp: drop_guard_def disarm_def)
    have "starts_ok (end_daemon d s)"
      by (intro starts_set_daemon [OF ok(2)]) (auto simp: effect_defs up_def coming_def split: if_splits)
    then show ?thesis
      using True t d at
      by (intro starts_set_proxy [of "end_daemon d s" t p "PEffects [ReleasesLock] (Some d)"])
        (auto simp: effect_defs drop_guard_def guards_def coming_def split: if_splits)
  next
    case False
    with t shape at show ?thesis
      by (intro starts_set_proxy [OF ok(2), of t p "rs_proxies t p"])
        (auto simp: effect_defs disarm_def drop_guard_def guards_def split: option.splits)
  qed
next
  case (TryAgain p)
  with run show ?thesis
    by (intro starts_set_proxy [OF ok(2), of t p "rs_proxies t p"])
      (auto simp: proxy_step_def effect_defs guards_def split: if_splits)
next
  case (ProxyDies p)
  with run calm show ?thesis
    by (intro starts_set_proxy [OF ok(2), of t p PDone])
      (auto simp: proxy_step_def effect_defs guards_def orderly_def coming_def split: if_splits option.splits)
qed (use run in \<open>simp_all add: proxy_step_def\<close>)

lemma daemon_step_shape:
  assumes "daemon_step notsock refuses ev s = Some t"
  shows "rs_proxies t = rs_proxies s \<and> rs_daemons t = (rs_daemons s)(subject ev := rs_daemons t (subject ev))"
  using assms
  by (cases ev) (auto simp: daemon_step_def effect_defs fun_upd_def split: if_splits option.splits daemon_at.splits)

text \<open>A daemon's step never makes it start, and only a starting daemon begins to listen.\<close>

lemma daemon_step_less:
  assumes "daemon_step notsock refuses ev s = Some t" and "rs_daemons t (subject ev) = Some a"
  shows "\<exists>b. rs_daemons s (subject ev) = Some b \<and> (starting a \<longrightarrow> starting b) \<and> (listens a \<longrightarrow> starting b \<or> listens b)"
  using assms
  by (cases ev) (auto simp: daemon_step_def effect_defs starting_def listens_def split: if_splits option.splits daemon_at.splits)

lemma starts_daemon:
  assumes ok: "starts_ok s" and run: "daemon_step notsock refuses ev s = Some t"
  shows "starts_ok t"
proof (rule starts_set_daemon [OF ok])
  note shape = daemon_step_shape [OF run]
  then show "rs_proxies t = rs_proxies s" by simp
  have at: "\<exists>b. rs_daemons s d = Some b \<and> (starting a \<longrightarrow> starting b) \<and> (listens a \<longrightarrow> starting b \<or> listens b)"
    if "rs_daemons t d = Some a" for d a
  proof (cases "d = subject ev")
    case True
    with daemon_step_less [OF run] that show ?thesis by blast
  next
    case False
    with shape that have "rs_daemons s d = Some a" by (metis fun_upd_other)
    then show ?thesis by blast
  qed
  show "up s d" if "up t d" for d using that at [of d] by (auto simp: up_def split: option.splits)
  show "coming s d" if "coming t d" for d using that at [of d] by (auto simp: coming_def split: option.splits)
qed

section \<open>Files\<close>

lemma files_same:
  assumes ok: "files_ok s" and files: "rs_files t = rs_files s"
    and daemons: "\<And>d. rs_daemons t d \<in> {rs_daemons s d, None, Some DChecking}"
  shows "files_ok t"
proof -
  have "rs_daemons s d = Some a" if "rs_daemons t d = Some a" "a \<noteq> DChecking" for d a
    using daemons [of d] that by auto
  moreover have "bound t d \<Longrightarrow> bound s d" for d
    using daemons [of d] by (auto simp: bound_def listening_def listens_def)
  moreover have "\<not> listens DChecking" by (simp add: listens_def)
  ultimately show ?thesis using ok unfolding files_ok_def files by metis
qed

lemma run_effect_files:
  "e \<noteq> RemovesSocket \<Longrightarrow> rs_files (run_effect p child e s) = rs_files s"
  "rs_daemons (run_effect p child e s) d = rs_daemons s d \<or> rs_daemons (run_effect p child e s) d = None"
  by (cases e; auto simp: effect_defs split: option.splits)+

lemma files_proxy:
  assumes ok: "lock_ok s" "starts_ok s" "files_ok s" and run: "proxy_step notsock refuses ev s = Some t"
  shows "files_ok t"
proof (cases ev)
  case (RemoveSocket p gone)
  then have up: "\<not> up s d" for d using run ok(2) by (auto simp: proxy_step_def starts_ok_def split: if_splits)
  have none: "\<not> bound s d" "rs_daemons s d = Some a \<Longrightarrow> \<not> listens a" for d a
    using bound_up [of s d] up [of d] by (auto simp: up_def)
  with ok(3) RemoveSocket run show ?thesis
    by (auto simp: proxy_step_def effect_defs files_ok_def bound_def listening_def split: if_splits)
next
  case (Effect p)
  with run obtain effs child where at: "rs_proxies s p = PEffects effs child" and
    t: "t = set_proxy p PDone s \<or> (\<exists>e es. effs = e # es \<and> t = set_proxy p (PEffects es child) (run_effect p child e s))"
    by (auto simp: proxy_step_def split: proxy_at.splits list.splits)
  have "RemovesSocket \<notin> set effs"
    using lock_okD(3) [OF ok(1), of p] at by (auto simp: plausible_def drop_guard_def disarm_def split: option.splits)
  with t have "rs_files t = rs_files s \<and> (\<exists>e. rs_daemons t = rs_daemons s \<or> rs_daemons t = rs_daemons (run_effect p child e s))"
    by (auto simp: set_proxy_def run_effect_files(1))
  with run_effect_files(2) have "rs_files t = rs_files s \<and> (\<forall>d. rs_daemons t d \<in> {rs_daemons s d, None})"
    by (metis insertCI)
  then show ?thesis by (intro files_same [OF ok(3)]) auto
qed (use run in \<open>auto simp: proxy_step_def effect_defs intro!: files_same [OF ok(3)]
      split: if_splits option.splits takeover.splits proxy_at.splits\<close>)

lemma bound_unique: "files_ok s \<Longrightarrow> bound s d \<Longrightarrow> bound s d' \<Longrightarrow> d = d'"
  unfolding files_ok_def by (metis option.inject prod.inject)

lemma files_set_daemon:
  assumes ok: "files_ok s" and t: "rs_daemons t = (rs_daemons s)(d := x)"
    and others: "\<And>c. c \<noteq> d \<Longrightarrow> bound s c \<Longrightarrow> rf_socket (rs_files s) = Some (0, c) \<Longrightarrow> rf_socket (rs_files t) = Some (0, c)"
      "\<And>c. c \<noteq> d \<Longrightarrow> bound s c \<Longrightarrow> rf_pid (rs_files s) = Some c \<Longrightarrow> rf_pid (rs_files t) = Some c"
    and own: "x = Some DBound \<or> (\<exists>a. x = Some a \<and> listens a) \<Longrightarrow> rf_socket (rs_files t) = Some (0, d)"
      "\<And>a. x = Some a \<Longrightarrow> listens a \<Longrightarrow> holds_pid_lock a \<Longrightarrow> rf_pid (rs_files t) = Some d"
  shows "files_ok t"
  unfolding files_ok_def
proof (intro conjI allI impI)
  fix c assume c: "bound t c"
  show "rf_socket (rs_files t) = Some (0, c)"
  proof (cases "c = d")
    case True
    with c own(1) show ?thesis by (auto simp: t bound_def listening_def split: option.splits)
  next
    case False
    with c have "bound s c" by (simp add: t bound_def listening_def)
    with others(1) [OF False] ok show ?thesis by (simp add: files_ok_def)
  qed
next
  fix c a assume a: "rs_daemons t c = Some a" "listens a" "holds_pid_lock a"
  show "rf_pid (rs_files t) = Some c"
  proof (cases "c = d")
    case True
    with a own(2) show ?thesis by (simp add: t)
  next
    case False
    with a have "rs_daemons s c = Some a" "bound s c" by (simp_all add: t bound_def listening_def)
    with a others(2) [OF False] ok show ?thesis by (simp add: files_ok_def)
  qed
qed

lemma files_daemon:
  assumes ok: "starts_ok s" "files_ok s" and run: "daemon_step notsock refuses ev s = Some t"
  shows "files_ok t"
proof -
  define d where "d = subject ev"
  have own: "bound s d \<Longrightarrow> rf_socket (rs_files s) = Some (0, d)"
    "\<And>a. rs_daemons s d = Some a \<Longrightarrow> listens a \<Longrightarrow> holds_pid_lock a \<Longrightarrow> rf_pid (rs_files s) = Some d"
    using ok(2) by (auto simp: files_ok_def)
  have binding: "\<not> bound s c" if "rs_daemons s d = Some DBinding" "c \<noteq> d" for c
    using alone [OF ok(1), of d c] bound_up [of s c] that by (auto simp: coming_def starting_def)
  have writing: "\<not> bound s c" if "rs_daemons s d = Some DListening" "c \<noteq> d" for c
    using bound_unique [OF ok(2), of d c] that by (auto simp: bound_def listening_def listens_def)
  have t: "rs_daemons t = (rs_daemons s)(d := rs_daemons t d)"
    using daemon_step_shape [OF run] by (simp add: d_def)
  show ?thesis
    using run own binding writing
    by (intro files_set_daemon [OF ok(2) t]; cases ev;
      auto simp: d_def daemon_step_def effect_defs bound_def listening_def listens_def holds_pid_lock_def starting_def
        split: if_splits option.splits daemon_at.splits)
qed

section \<open>One daemon at a time\<close>

definition owner_ok :: "run_state \<Rightarrow> bool" where
  "owner_ok s \<longleftrightarrow> lock_ok s \<and> starts_ok s \<and> files_ok s"

lemma owner_empty: "owner_ok empty_run"
proof -
  have [simp]: "\<not> up empty_run d" "\<not> coming empty_run d" "\<not> bound empty_run d" "rs_daemons empty_run = Map.empty" for d
    by (simp_all add: at_defs empty_run_def)
  have "lock_ok empty_run"
    by (intro lock_okI) (simp_all add: empty_run_def in_lock_def daemon_in_lock_def plausible_def)
  then show ?thesis by (simp add: owner_ok_def starts_ok_def files_ok_def)
qed

lemma owner_step:
  assumes "\<And>a. refuses a \<Longrightarrow> holds_pid_lock a" and "owner_ok s" and "orderly_step notsock refuses ev s = Some t"
  shows "owner_ok t"
proof -
  have ok: "lock_ok s" "starts_ok s" "files_ok s" using assms(2) by (simp_all add: owner_ok_def)
  from assms(3) have calm: "orderly ev s" and "proxy_step notsock refuses ev s = Some t \<or> daemon_step notsock refuses ev s = Some t"
    by (auto simp: orderly_step_def run_dir_step_def split: if_splits option.splits)
  then show ?thesis
  proof (elim disjE)
    assume run: "proxy_step notsock refuses ev s = Some t"
    show ?thesis
      unfolding owner_ok_def
      by (intro conjI lock_proxy [OF ok(1) run] starts_proxy [OF ok assms(1) calm run] files_proxy [OF ok run])
  next
    assume run: "daemon_step notsock refuses ev s = Some t"
    show ?thesis
      unfolding owner_ok_def
      by (intro conjI lock_daemon [OF ok(1) run] starts_daemon [OF ok(2) run] files_daemon [OF ok(2,3) run])
  qed
qed

text \<open>
  C8. One daemon per key. In whatever order proxies and daemons of a run directory take their
  steps, fail and are killed, at most one daemon listens, and the socket file is its own; what is
  asked for is that a listener refuses connections only once its pid file is written and that no
  proxy is killed outright between starting a daemon and its first connection.
\<close>

theorem one_daemon:
  assumes "run_reachable notsock refuses s" and "\<And>a. refuses a \<Longrightarrow> holds_pid_lock a" and "listening s d"
  shows "rf_socket (rs_files s) = Some (0, d) \<and> (\<forall>d'. listening s d' \<longrightarrow> d' = d)"
proof -
  have "owner_ok s"
    by (rule run_dirs.invariant [OF assms(1)]) (simp_all add: owner_empty owner_step [OF assms(2)])
  then have ok: "files_ok s" by (simp add: owner_ok_def)
  with assms(3) show ?thesis
    using bound_unique [OF ok, of _ d] by (auto simp: files_ok_def bound_def)
qed

text \<open>
  Two proxies race: the first starts a daemon, the second waits for the lock, and then finds that
  daemon and uses it.
\<close>

theorem one_daemon_witness:
  "\<exists>s. run_events (orderly_step 88 (\<lambda>_. False))
      [FirstConnect 0 (Some \<lparr> io_kind = NotFound, io_errno = Some 2, io_text = [] \<rparr>),
       FirstConnect 1 (Some \<lparr> io_kind = NotFound, io_errno = Some 2, io_text = [] \<rparr>), TakeLock 0,
       SecondConnect 0 (Some \<lparr> io_kind = NotFound, io_errno = Some 2, io_text = [] \<rparr>), RemoveSocket 0 True, Spawn 0 (Some 7),
       DaemonChecks 7 (Some \<lparr> io_kind = NotFound, io_errno = Some 2, io_text = [] \<rparr>), DaemonBinds 7, DaemonListens 7,
       DaemonWritesPid 7 True, Poll 0 \<lparr> po_connected = True, po_exited = None, po_past_deadline = False \<rparr>, Effect 0, Effect 0,
       TakeLock 1, SecondConnect 1 None] empty_run = Some s
    \<and> listening s 7 \<and> rf_socket (rs_files s) = Some (0, 7)"
proof -
  let ?absent = "\<lparr> io_kind = NotFound, io_errno = Some 2, io_text = [] \<rparr>"
  let ?evs = "[FirstConnect 0 (Some ?absent), FirstConnect 1 (Some ?absent), TakeLock 0, SecondConnect 0 (Some ?absent),
    RemoveSocket 0 True, Spawn 0 (Some 7), DaemonChecks 7 (Some ?absent), DaemonBinds 7, DaemonListens 7, DaemonWritesPid 7 True,
    Poll 0 \<lparr> po_connected = True, po_exited = None, po_past_deadline = False \<rparr>, Effect 0, Effect 0, TakeLock 1, SecondConnect 1 None]"
  obtain s where run: "run_events (orderly_step 88 (\<lambda>_. False)) ?evs empty_run = Some s" and up: "listening s 7"
    by (simp add: orderly_step_def orderly_def run_dir_step_def proxy_step_def daemon_step_def effect_defs empty_run_def
        connect_allowed_def decide_takeover_def classify_connect_error_def disarm_def listening_def listens_def starting_def)
  have "run_reachable 88 (\<lambda>_. False) s" by (rule run_dirs.run_from_start [OF run refl])
  from one_daemon [OF this _ up] run up show ?thesis by blast
qed

text \<open>
  The second condition is needed: a proxy that is killed outright runs no guard, its lock is gone
  with it, and the child it leaves behind binds its socket next to a second proxy that is about to
  remove it. Two daemons listen.
\<close>

lemma killed_proxy_two_daemons:
  "\<exists>s. run_events (run_dir_step 88 (\<lambda>_. False))
      [FirstConnect 0 (Some \<lparr> io_kind = NotFound, io_errno = Some 2, io_text = [] \<rparr>), TakeLock 0,
       SecondConnect 0 (Some \<lparr> io_kind = NotFound, io_errno = Some 2, io_text = [] \<rparr>), RemoveSocket 0 True, Spawn 0 (Some 7),
       DaemonChecks 7 (Some \<lparr> io_kind = NotFound, io_errno = Some 2, io_text = [] \<rparr>), ProxyDies 0,
       FirstConnect 1 (Some \<lparr> io_kind = NotFound, io_errno = Some 2, io_text = [] \<rparr>), TakeLock 1,
       SecondConnect 1 (Some \<lparr> io_kind = NotFound, io_errno = Some 2, io_text = [] \<rparr>), DaemonBinds 7, DaemonListens 7,
       RemoveSocket 1 True, Spawn 1 (Some 8),
       DaemonChecks 8 (Some \<lparr> io_kind = NotFound, io_errno = Some 2, io_text = [] \<rparr>), DaemonBinds 8, DaemonListens 8]
      empty_run = Some s \<and> listening s 7 \<and> listening s 8"
  by (simp add: run_dir_step_def proxy_step_def daemon_step_def effect_defs empty_run_def
      connect_allowed_def decide_takeover_def classify_connect_error_def listening_def listens_def)

end
