(* ===== verification/Addr.thy ===== *)
theory Addr
  imports Spawning
begin

text \<open>
  Where a daemon lives (\<open>crates/server/src/daemon/addr.rs\<close>): the run directory, the key of a
  configuration, the paths made from both, pid files and the search for live daemons; and the
  guard of the administration commands (\<open>admin_guard.rs\<close>). What a system call or the hash returns
  is an argument; paths are their byte strings.
\<close>

section \<open>Locks\<close>

text \<open>One turn of the polling loop: the attempt, then whether the deadline has passed.\<close>

datatype lock_try = TryOk | TryBusy | TryError string

fun lock_loop :: "(lock_try \<times> bool) list \<Rightarrow> lock_result option" where
  "lock_loop [] = None"
| "lock_loop ((TryOk, late) # rest) = Some LockHeld"
| "lock_loop ((TryError e, late) # rest) = Some (LockFails e)"
| "lock_loop ((TryBusy, late) # rest) = (if late then Some LockTimeout else lock_loop rest)"

definition try_lock_until :: "string option \<Rightarrow> (lock_try \<times> bool) list \<Rightarrow> lock_result option" where
  "try_lock_until open_error tries =
     (case open_error of Some e \<Rightarrow> Some (LockFails e) | None \<Rightarrow> lock_loop tries)"

section \<open>The run directory\<close>

definition is_absolute :: "string \<Rightarrow> bool" where
  "is_absolute p \<longleftrightarrow> p \<noteq> [] \<and> hd p = CHR ''/''"

text \<open>\<open>Path::join\<close>.\<close>

definition path_join :: "string \<Rightarrow> string \<Rightarrow> string" where
  "path_join dir name =
     (if is_absolute name then name
      else if dir = [] then name
      else if last dir = CHR ''/'' then dir @ name
      else dir @ ''/'' @ name)"

definition run_dir :: "string option \<Rightarrow> string option \<Rightarrow> string + string \<Rightarrow> string + string" where
  "run_dir env home cwd =
     (case env of
        None \<Rightarrow> Inr (path_join (path_join (case home of None \<Rightarrow> ''.'' | Some h \<Rightarrow> h) ''.ferrex'') ''run'')
      | Some dir \<Rightarrow>
          if is_absolute dir then Inr dir
          else (case cwd of
              Inl e \<Rightarrow> Inl (''FERREX_RUN_DIR '' @ dir @ '' is relative and the current directory is unavailable: '' @ e)
            | Inr c \<Rightarrow> Inr (path_join c dir)))"

fun show_oct :: "nat \<Rightarrow> string" where
  "show_oct n = (if n < 8 then [char_of (48 + n)] else show_oct (n div 8) @ [char_of (48 + n mod 8)])"

text \<open>Owner and mode of the directory, once it has been created or was there.\<close>

definition ensure_run_dir ::
    "string \<Rightarrow> string option \<Rightarrow> string + (nat \<times> 32 word) \<Rightarrow> nat \<Rightarrow> string + unit" where
  "ensure_run_dir dir created meta uid =
     (case created of
        Some e \<Rightarrow> Inl (''create run dir '' @ dir @ '': '' @ e)
      | None \<Rightarrow> (case meta of
          Inl e \<Rightarrow> Inl (''stat run dir '' @ dir @ '': '' @ e)
        | Inr (owner, mode) \<Rightarrow>
            if owner \<noteq> uid
            then Inl (''run dir '' @ dir @ '' is owned by uid '' @ show_nat owner @ '', not '' @ show_nat uid
              @ ''; point FERREX_RUN_DIR at a directory of your own'')
            else if and mode 0x3F \<noteq> 0
            then Inl (''run dir '' @ dir @ '' is accessible to other users (mode '' @ show_oct (unat (and mode 0x1FF))
              @ ''); run `chmod 700 '' @ dir @ ''` or point FERREX_RUN_DIR elsewhere'')
            else Inr ()))"

section \<open>The key\<close>

type_synonym bytes = "8 word list"

definition bytes_of :: "string \<Rightarrow> bytes" where
  "bytes_of s = map (\<lambda>c. word_of_nat (of_char c)) s"

fun le_bytes :: "nat \<Rightarrow> nat \<Rightarrow> bytes" where
  "le_bytes 0 n = []"
| "le_bytes (Suc k) n = word_of_nat n # le_bytes k (n div 256)"

definition hex2 :: "8 word \<Rightarrow> string" where
  "hex2 b = [hex_digit (unat b div 16), hex_digit (unat b mod 16)]"

definition hex16 :: "bytes \<Rightarrow> string" where
  "hex16 digest = concat (map hex2 (take 8 digest))"

text \<open>
  \<open>canonical\<close> is \<open>canonicalize\<close>, \<open>runs\<close> the test for an executable file, \<open>dirs\<close> the directories of
  \<open>PATH\<close> if it is set.
\<close>

definition resolve_on_path ::
    "(string \<Rightarrow> string option) \<Rightarrow> (string \<Rightarrow> bool) \<Rightarrow> string list option \<Rightarrow> string \<Rightarrow> string option" where
  "resolve_on_path canonical runs dirs bin =
     (if CHR ''/'' \<in> set bin then canonical bin
      else case dirs of None \<Rightarrow> None
        | Some ds \<Rightarrow> Option.bind (find runs (map (\<lambda>d. path_join d bin) ds)) canonical)"

text \<open>
  The environment of a key: the hash, the printer, the path search, and what the file system says
  of the executable's time of modification in nanoseconds since the epoch.
\<close>

record key_env =
  ke_sha256 :: "bytes \<Rightarrow> bytes"
  ke_print :: "json \<Rightarrow> string"
  ke_canonical :: "string \<Rightarrow> string option"
  ke_runs :: "string \<Rightarrow> bool"
  ke_path :: "string list option"
  ke_mtime :: "string \<Rightarrow> string + nat"

text \<open>
  \<open>FerrexConfig\<close> as it is serialised. A field that is a structure of its own is given as the JSON its
  derived \<open>Serialize\<close> makes of it.
\<close>

record key_config =
  kc_qdrant_url :: "string option"
  kc_qdrant_bin :: string
  kc_qdrant_port :: nat
  kc_model_tier :: json
  kc_reranker_tier :: json
  kc_namespace :: string
  kc_db_path :: string
  kc_config_path :: "string option"
  kc_deduplication :: json
  kc_conflict :: json
  kc_predicates :: json
  kc_reconciliation :: json
  kc_staleness :: json
  kc_reader_pool_size :: nat
  kc_cache :: json

definition opt_string_json :: "string option \<Rightarrow> json" where
  "opt_string_json s = (case s of None \<Rightarrow> JNull | Some t \<Rightarrow> JStr t)"

text \<open>The members in the order of the source; an object of the library may keep them in another one.\<close>

definition config_members :: "key_config \<Rightarrow> (string \<times> json) list" where
  "config_members c =
     [(''qdrant_url'', opt_string_json (kc_qdrant_url c)), (''qdrant_bin'', JStr (kc_qdrant_bin c)),
      (''qdrant_port'', JNum (show_nat (kc_qdrant_port c))), (''model_tier'', kc_model_tier c),
      (''reranker_tier'', kc_reranker_tier c), (''namespace'', JStr (kc_namespace c)), (''db_path'', JStr (kc_db_path c)),
      (''config_path'', opt_string_json (kc_config_path c)), (''deduplication'', kc_deduplication c),
      (''conflict'', kc_conflict c), (''predicates'', kc_predicates c), (''reconciliation'', kc_reconciliation c),
      (''staleness'', kc_staleness c), (''reader_pool_size'', JNum (show_nat (kc_reader_pool_size c))),
      (''cache'', kc_cache c)]"

definition set_member :: "string \<Rightarrow> json \<Rightarrow> (string \<times> json) list \<Rightarrow> (string \<times> json) list" where
  "set_member name v ms =
     (if name \<in> fst ` set ms then map (\<lambda>m. if fst m = name then (name, v) else m) ms else ms @ [(name, v)])"

definition key_members :: "key_env \<Rightarrow> key_config \<Rightarrow> (string \<times> json) list" where
  "key_members env c =
     (let ms = filter (\<lambda>m. fst m \<noteq> ''namespace'') (config_members c) in
      if kc_qdrant_url c \<noteq> None then ms
      else case resolve_on_path (ke_canonical env) (ke_runs env) (ke_path env) (kc_qdrant_bin c) of
        None \<Rightarrow> ms
      | Some p \<Rightarrow> set_member ''qdrant_bin'' (JStr p) ms)"

definition key_input :: "key_env \<Rightarrow> key_config \<Rightarrow> string \<Rightarrow> nat \<Rightarrow> bytes" where
  "key_input env c exe mtime =
     bytes_of exe @ [0] @ le_bytes 16 mtime @ bytes_of (ke_print env (JObj (key_members env c)))"

definition compute_key :: "key_env \<Rightarrow> key_config \<Rightarrow> string \<Rightarrow> string + string" where
  "compute_key env c exe =
     (case ke_mtime env exe of Inl e \<Rightarrow> Inl e
      | Inr mtime \<Rightarrow> Inr (hex16 (ke_sha256 env (key_input env c exe mtime))))"

section \<open>Paths\<close>

definition MAX_SUN_PATH :: "bool \<Rightarrow> nat" where
  "MAX_SUN_PATH macos = (if macos then 103 else 107)"

record daemon_paths =
  dp_run_dir :: string
  dp_key :: string
  dp_socket :: string
  dp_pid_file :: string
  dp_lock_file :: string
  dp_log_file :: string

definition for_config :: "bool \<Rightarrow> key_env \<Rightarrow> string + string \<Rightarrow> key_config \<Rightarrow> string \<Rightarrow> string + daemon_paths" where
  "for_config macos env dir c exe =
     (case dir of Inl e \<Rightarrow> Inl e
      | Inr d \<Rightarrow> (case compute_key env c exe of Inl e \<Rightarrow> Inl e
        | Inr key \<Rightarrow>
            let socket = path_join d (key @ ''.sock'') in
            if MAX_SUN_PATH macos < length socket
            then Inl (''socket path is '' @ show_nat (length socket) @ '' bytes, over the '' @ show_nat (MAX_SUN_PATH macos)
              @ '' limit: '' @ socket @ '' (set FERREX_RUN_DIR to a shorter directory)'')
            else Inr \<lparr> dp_run_dir = d, dp_key = key, dp_socket = socket, dp_pid_file = path_join d (key @ ''.pid''),
              dp_lock_file = path_join d (key @ ''.lock''), dp_log_file = path_join d ''ferrexd.log'' \<rparr>))"

section \<open>Pid files and live daemons\<close>

record pid_file =
  pf_pid :: nat
  pf_db_path :: string

definition pid_json :: "pid_file \<Rightarrow> json" where
  "pid_json p = JObj [(''pid'', JNum (show_nat (pf_pid p))), (''db_path'', JStr (pf_db_path p))]"

definition tmp_path :: "string \<Rightarrow> string" where
  "tmp_path p = p @ ''.tmp''"

text \<open>The derived \<open>Deserialize\<close> from text: an object, or an array of the two fields.\<close>

definition pid_fields :: "json option \<Rightarrow> json option \<Rightarrow> pid_file option" where
  "pid_fields p d =
     (case (Option.bind p as_u64, Option.bind d as_string) of
        (Some n, Some s) \<Rightarrow> if n < 2 ^ 32 then Some \<lparr> pf_pid = n, pf_db_path = s \<rparr> else None
      | _ \<Rightarrow> None)"

definition pid_of :: "json \<Rightarrow> pid_file option" where
  "pid_of v =
     (case v of
        JObj ms \<Rightarrow> if list_ex (repeated ms) [''pid'', ''db_path''] then None
          else pid_fields (map_of ms ''pid'') (map_of ms ''db_path'')
      | JArr [a, b] \<Rightarrow> pid_fields (Some a) (Some b)
      | _ \<Rightarrow> None)"

definition pid_read :: "json_lib \<Rightarrow> string option \<Rightarrow> pid_file option" where
  "pid_read x content = Option.bind (Option.bind content (j_parse x)) pid_of"

text \<open>A file of the run directory: its name, whether a lock is held on it, and what it holds.\<close>

record run_entry =
  re_name :: string
  re_held :: bool
  re_content :: "string option"

text \<open>\<open>Path::extension\<close> is \<open>pid\<close>: the text after the last dot, which is not the first character.\<close>

definition has_pid_extension :: "string \<Rightarrow> bool" where
  "has_pid_extension name \<longleftrightarrow> 4 < length name \<and> drop (length name - 4) name = ''.pid''"

definition pid_file_held :: "run_entry option \<Rightarrow> bool" where
  "pid_file_held e = (case e of None \<Rightarrow> False | Some r \<Rightarrow> re_held r)"

definition live_daemons :: "json_lib \<Rightarrow> run_entry list \<Rightarrow> pid_file list" where
  "live_daemons x es =
     List.map_filter (\<lambda>e. pid_read x (re_content e))
       (filter (\<lambda>e. pid_file_held (Some e)) (filter (\<lambda>e. has_pid_extension (re_name e)) es))"

definition live_for_db :: "json_lib \<Rightarrow> run_entry list \<Rightarrow> string \<Rightarrow> nat option" where
  "live_for_db x es db = map_option pf_pid (find (\<lambda>p. pf_db_path p = db) (live_daemons x es))"

definition any_live :: "json_lib \<Rightarrow> run_entry list \<Rightarrow> nat option" where
  "any_live x es = (case live_daemons x es of [] \<Rightarrow> None | p # ps \<Rightarrow> Some (pf_pid p))"

section \<open>The guard of the administration commands\<close>

definition refuse_live :: "nat option \<Rightarrow> string \<Rightarrow> string + unit" where
  "refuse_live live_pid target =
     (case live_pid of None \<Rightarrow> Inr ()
      | Some pid \<Rightarrow> Inl (''a ferrex daemon (pid '' @ show_nat pid @ '') is using '' @ target
          @ ''. Close your Claude sessions or wait for the daemon to exit when idle (FERREX_IDLE_TIMEOUT), then retry.''))"

definition refuse_if_live :: "json_lib \<Rightarrow> string + string \<Rightarrow> run_entry list \<Rightarrow> string \<Rightarrow> string + unit" where
  "refuse_if_live x dir es db =
     (if is_memory_path db then Inr ()
      else case dir of Inl e \<Rightarrow> Inl e | Inr _ \<Rightarrow> refuse_live (live_for_db x es db) db)"

definition refuse_if_any_live :: "json_lib \<Rightarrow> string + string \<Rightarrow> run_entry list \<Rightarrow> string + unit" where
  "refuse_if_any_live x dir es =
     (case dir of Inl e \<Rightarrow> Inl e | Inr _ \<Rightarrow> refuse_live (any_live x es) ''the qdrant sidecar in ~/.ferrex'')"

end
