(* ===== verification/Sidecar.thy ===== *)
theory Sidecar
  imports Addr Machine
begin

text \<open>
  The Qdrant process beside the daemons (\<open>crates/store/src/sidecar.rs\<close>): its pid and port files,
  the tests that decide whether a process is the sidecar, the decision to reuse or to replace it,
  the health check, the watcher with its restart budget, and the starters of all processes as one
  step relation over their lock and their files.
\<close>

section \<open>Limits\<close>

definition HEALTH_CHECK_INITIAL_DELAY :: time where "HEALTH_CHECK_INITIAL_DELAY = 200 * 1000000"
definition HEALTH_CHECK_MAX_TIMEOUT :: time where "HEALTH_CHECK_MAX_TIMEOUT = 30 * nanos_per_second"
definition HEALTH_CHECK_MAX_DELAY :: time where "HEALTH_CHECK_MAX_DELAY = 2 * nanos_per_second"
definition MIN_PORT :: nat where "MIN_PORT = 2"
definition COMM_MATCH_LEN :: nat where "COMM_MATCH_LEN = 15"
definition PID_FILE :: string where "PID_FILE = ''qdrant.pid''"
definition PORT_FILE :: string where "PORT_FILE = ''qdrant.port''"
definition LOCK_FILE :: string where "LOCK_FILE = ''qdrant.lock''"
definition RESTART_LIMIT :: nat where "RESTART_LIMIT = 3"
definition RESTART_WINDOW :: time where "RESTART_WINDOW = 600 * nanos_per_second"

section \<open>Pid and port file\<close>

text \<open>\<open>str::parse\<close> for an unsigned type of \<open>w\<close> bits, at most 64.\<close>

definition parse_uint :: "nat \<Rightarrow> string \<Rightarrow> nat option" where
  "parse_uint w s = (case parse_u64 s of None \<Rightarrow> None | Some n \<Rightarrow> if n < 2 ^ w then Some n else None)"

text \<open>\<open>None\<close> is a file that is missing, or not text.\<close>

definition read_pid :: "string option \<Rightarrow> nat option" where
  "read_pid content = Option.bind content (\<lambda>s. parse_uint 32 (trim s))"

fun split_once :: "char \<Rightarrow> string \<Rightarrow> (string \<times> string) option" where
  "split_once c [] = None"
| "split_once c (d # ds) = (if d = c then Some ([], ds) else map_option (apfst ((#) d)) (split_once c ds))"

definition read_port_file :: "string option \<Rightarrow> (nat \<times> nat) option" where
  "read_port_file content =
     Option.bind content (\<lambda>s. Option.bind (split_once CHR '' '' (trim s)) (\<lambda>(pid, port).
       case (parse_uint 32 pid, parse_uint 16 (trim port)) of
         (Some p, Some q) \<Rightarrow> Some (p, q)
       | _ \<Rightarrow> None))"

record sidecar_files =
  sf_pid :: "string option"
  sf_port :: "string option"

definition recorded_port :: "nat \<Rightarrow> sidecar_files \<Rightarrow> nat option" where
  "recorded_port pid fs =
     (case read_port_file (sf_port fs) of None \<Rightarrow> None
      | Some (recorded_pid, port) \<Rightarrow> if recorded_pid = pid then Some port else None)"

definition check_recorded_port :: "nat \<Rightarrow> nat option \<Rightarrow> nat \<Rightarrow> store_error + unit" where
  "check_recorded_port pid recorded port =
     (case recorded of
        Some r \<Rightarrow> if r \<noteq> port
          then Inl (SidecarErr (''qdrant sidecar (pid '' @ show_nat pid @ '') is running on port '' @ show_nat r
            @ '', but qdrant_port is '' @ show_nat port @ ''. Set qdrant_port = '' @ show_nat r
            @ '', or close the sessions still using the old config (or kill their ferrex daemons), then stop qdrant''))
          else Inr ()
      | None \<Rightarrow> Inr ())"

text \<open>The age of the file, \<open>None\<close> if it cannot be told.\<close>

definition pid_file_is_fresh :: "time option \<Rightarrow> bool" where
  "pid_file_is_fresh age = (case age of None \<Rightarrow> False | Some a \<Rightarrow> a < HEALTH_CHECK_MAX_TIMEOUT)"

definition pid_text :: "nat \<Rightarrow> string" where "pid_text pid = show_nat pid"
definition port_text :: "nat \<Rightarrow> nat \<Rightarrow> string" where "port_text pid port = show_nat pid @ '' '' @ show_nat port"

text \<open>
  A write that fails leaves behind what it has got to: \<open>Some (error, left)\<close>. The first error ends
  the function.
\<close>

definition write_pid_files ::
    "(string \<times> string option) option \<Rightarrow> (string \<times> string option) option \<Rightarrow> nat \<Rightarrow> nat \<Rightarrow> sidecar_files
       \<Rightarrow> (store_error + unit) \<times> sidecar_files" where
  "write_pid_files fails_pid fails_port pid port fs =
     (case fails_pid of
        Some (e, left) \<Rightarrow> (Inl (SidecarErr (''failed to write PID file: '' @ e)), fs\<lparr>sf_pid := left\<rparr>)
      | None \<Rightarrow> (case fails_port of
          Some (e, left) \<Rightarrow> (Inl (SidecarErr (''failed to write port file: '' @ e)),
            fs\<lparr>sf_pid := Some (pid_text pid), sf_port := left\<rparr>)
        | None \<Rightarrow> (Inr (), fs\<lparr>sf_pid := Some (pid_text pid), sf_port := Some (port_text pid port)\<rparr>)))"

definition remove_pid_files :: "sidecar_files \<Rightarrow> sidecar_files" where
  "remove_pid_files fs = fs\<lparr>sf_pid := None, sf_port := None\<rparr>"

text \<open>With the lock or without it, if it could not be taken in time.\<close>

definition remove_pid_files_if_ours :: "bool \<Rightarrow> nat \<Rightarrow> sidecar_files \<Rightarrow> sidecar_files" where
  "remove_pid_files_if_ours locked pid fs =
     (if locked \<and> read_pid (sf_pid fs) = Some pid then remove_pid_files fs else fs)"

section \<open>Which process it is\<close>

datatype kill_result = KillOk | KillPerm | KillOther

text \<open>The state letter follows the last closing parenthesis of \<open>/proc/<pid>/stat\<close> (Linux).\<close>

definition is_zombie :: "string option \<Rightarrow> bool" where
  "is_zombie stat =
     (case stat of None \<Rightarrow> False
      | Some s \<Rightarrow> CHR '')'' \<in> set s
          \<and> (case trim_start (rev (takeWhile (\<lambda>c. c \<noteq> CHR '')'') (rev s))) of [] \<Rightarrow> False | c # _ \<Rightarrow> c = CHR ''Z''))"

definition pid_alive :: "nat \<Rightarrow> kill_result \<Rightarrow> string option \<Rightarrow> bool" where
  "pid_alive pid kill stat =
     (if pid = 0 \<or> 2 ^ 31 \<le> pid then False
      else case kill of KillOk \<Rightarrow> \<not> is_zombie stat | KillPerm \<Rightarrow> True | KillOther \<Rightarrow> False)"

definition process_comm :: "string option \<Rightarrow> string option" where
  "process_comm content =
     (case content of None \<Rightarrow> None | Some s \<Rightarrow> if trim s = [] then None else Some (trim s))"

text \<open>\<open>Path::file_name\<close>, or the whole path without one.\<close>

definition file_name :: "string \<Rightarrow> string option" where
  "file_name path =
     (let parts = filter (\<lambda>p. p \<noteq> [] \<and> p \<noteq> ''.'') (split_on CHR ''/'' path) in
      if parts = [] \<or> last parts = ''..'' then None else Some (last parts))"

definition basename :: "string \<Rightarrow> string" where
  "basename path = (case file_name path of None \<Rightarrow> path | Some name \<Rightarrow> name)"

definition strip_prefix :: "string \<Rightarrow> string \<Rightarrow> string" where
  "strip_prefix p s = (if take (length p) s = p then drop (length p) s else s)"

definition strip_suffix :: "string \<Rightarrow> string \<Rightarrow> string" where
  "strip_suffix p s =
     (if length p \<le> length s \<and> drop (length s - length p) s = p then take (length s - length p) s else s)"

text \<open>\<open>chars().take(n)\<close> on the bytes of a text: a character starts at each byte that continues none.\<close>

fun take_chars :: "nat \<Rightarrow> string \<Rightarrow> string" where
  "take_chars n [] = []"
| "take_chars n (c # cs) =
     (if of_char c div 64 = (2 :: nat) then c # take_chars n cs
      else case n of 0 \<Rightarrow> [] | Suc m \<Rightarrow> c # take_chars m cs)"

definition matches_qdrant_name :: "string \<Rightarrow> string \<Rightarrow> bool" where
  "matches_qdrant_name comm bin =
     (take_chars COMM_MATCH_LEN (strip_suffix ''-wrapped'' (strip_prefix ''.'' (basename comm)))
      = take_chars COMM_MATCH_LEN (basename bin))"

definition is_qdrant :: "string option \<Rightarrow> string \<Rightarrow> bool" where
  "is_qdrant content bin = (case process_comm content of None \<Rightarrow> False | Some comm \<Rightarrow> matches_qdrant_name comm bin)"

section \<open>Health check\<close>

text \<open>
  One turn of the loop: the child's exit status before the request, the error of the request,
  the exit status afterwards, and the time since the start. Without a child there is no status.
\<close>

record health_poll =
  hp_before :: "string option"
  hp_error :: "string option"
  hp_after :: "string option"
  hp_elapsed :: time

definition ensure_running :: "string option \<Rightarrow> store_error + unit" where
  "ensure_running status =
     (case status of Some st \<Rightarrow> Inl (SidecarErr (''qdrant exited during health check ('' @ st @ '')'')) | None \<Rightarrow> Inr ())"

definition next_delay :: "time \<Rightarrow> time" where
  "next_delay d = min (d * 2) HEALTH_CHECK_MAX_DELAY"

fun health_loop :: "health_poll list \<Rightarrow> (store_error + unit) option" where
  "health_loop [] = None"
| "health_loop (p # ps) =
     (case ensure_running (hp_before p) of
        Inl e \<Rightarrow> Some (Inl e)
      | Inr _ \<Rightarrow> (case hp_error p of
          None \<Rightarrow> Some (ensure_running (hp_after p))
        | Some e \<Rightarrow>
            if HEALTH_CHECK_MAX_TIMEOUT < hp_elapsed p
            then Some (Inl (SidecarErr (''Qdrant health check timed out after 30s: '' @ e)))
            else health_loop ps))"

definition health_check :: "string option \<Rightarrow> health_poll list \<Rightarrow> (store_error + unit) option" where
  "health_check client ps = (case client of Some e \<Rightarrow> Some (Inl (SidecarErr e)) | None \<Rightarrow> health_loop ps)"

definition probe_qdrant :: "string option \<Rightarrow> string option \<Rightarrow> bool" where
  "probe_qdrant client answer \<longleftrightarrow> client = None \<and> answer = None"

section \<open>Reuse or replace\<close>

text \<open>
  What the files and the process they name lead to with the lock held: spawn after removing the
  files or without, reuse, fail, or let go of the lock and ask the port.
\<close>

datatype look = LookSpawn bool | LookReuse nat | LookError store_error | LookProbe nat "nat option"

definition resolve_look :: "(nat \<Rightarrow> bool) \<Rightarrow> (nat \<Rightarrow> bool) \<Rightarrow> nat \<Rightarrow> sidecar_files \<Rightarrow> look" where
  "resolve_look alive qdrant port fs =
     (case read_pid (sf_pid fs) of
        None \<Rightarrow> LookSpawn False
      | Some existing \<Rightarrow>
          if \<not> alive existing then LookSpawn True
          else let recorded = recorded_port existing fs in
            if qdrant existing
            then (case check_recorded_port existing recorded port of
                Inl e \<Rightarrow> LookError e | Inr _ \<Rightarrow> LookReuse existing)
            else LookProbe existing recorded)"

text \<open>A fresh pid file gets the full health check, an old one a single request.\<close>

definition probe_answers :: "time option \<Rightarrow> (store_error + unit) \<Rightarrow> bool \<Rightarrow> bool" where
  "probe_answers age checked probed = (if pid_file_is_fresh age then \<not> isl checked else probed)"

definition probe_port :: "nat option \<Rightarrow> nat \<Rightarrow> nat" where
  "probe_port recorded port = (case recorded of Some r \<Rightarrow> r | None \<Rightarrow> port)"

definition after_probe :: "nat \<Rightarrow> nat option \<Rightarrow> nat \<Rightarrow> bool \<Rightarrow> look option" where
  "after_probe existing recorded port answers =
     (if answers then (case check_recorded_port existing recorded port of
          Inl e \<Rightarrow> Some (LookError e) | Inr _ \<Rightarrow> Some (LookReuse existing))
      else None)"

text \<open>With the lock again: the file still names the process and is removed, or all starts over.\<close>

definition replaces :: "nat \<Rightarrow> sidecar_files \<Rightarrow> bool" where
  "replaces existing fs \<longleftrightarrow> read_pid (sf_pid fs) = Some existing"

section \<open>Spawning\<close>

definition qdrant_config :: "string \<Rightarrow> nat \<Rightarrow> string" where
  "qdrant_config dir port =
     ''storage:'' @ newline @ ''  storage_path: '' @ path_join dir ''qdrant-data'' @ newline
     @ ''  snapshots_path: '' @ path_join dir ''qdrant-snapshots'' @ newline @ ''service:'' @ newline
     @ ''  grpc_port: '' @ show_nat port @ newline @ ''  http_port: '' @ show_nat (port - 1) @ newline"

text \<open>What keeps a child from being started, in the order of the checks.\<close>

definition spawn_refused :: "nat \<Rightarrow> string option \<Rightarrow> string option \<Rightarrow> string option \<Rightarrow> store_error option" where
  "spawn_refused port data_dir config child =
     (if port < MIN_PORT
      then Some (SidecarErr (''port must be >= 2 (got '' @ show_nat port @ ''), http_port is port - 1''))
      else case data_dir of Some e \<Rightarrow> Some (SidecarErr (''failed to create qdrant-data: '' @ e))
      | None \<Rightarrow> (case config of Some e \<Rightarrow> Some (SidecarErr (''failed to write qdrant config: '' @ e))
      | None \<Rightarrow> map_option (\<lambda>e. SidecarErr (''failed to spawn qdrant: '' @ e)) child))"

section \<open>The watcher\<close>

text \<open>Times of the restarts that counted, oldest first.\<close>

definition available :: "time \<Rightarrow> time list \<Rightarrow> bool \<times> time list" where
  "available now spent =
     (let kept = dropWhile (\<lambda>t. RESTART_WINDOW < max 0 (now - t)) spent in (length kept < RESTART_LIMIT, kept))"

definition spend :: "time \<Rightarrow> time list \<Rightarrow> time list" where
  "spend now spent = spent @ [now]"

record started =
  sd_pid :: nat
  sd_child :: bool

text \<open>
  \<open>wt_current\<close> is the process waited for, \<open>None\<close> while it is being restarted; \<open>wt_charged\<close> keeps
  all times at which the budget was spent, and \<open>wt_clock\<close> the last time looked at.
\<close>

record watcher =
  wt_current :: "started option"
  wt_pid :: nat
  wt_spent :: "time list"
  wt_over :: bool
  wt_charged :: "time list"
  wt_clock :: time

definition new_watcher :: "started \<Rightarrow> time \<Rightarrow> watcher" where
  "new_watcher st now = \<lparr> wt_current = Some st, wt_pid = sd_pid st, wt_spent = [], wt_over = False, wt_charged = [], wt_clock = now \<rparr>"

datatype watch_event =
    ExitSeen bool
  | Attempt bool time "store_error + started"

definition charge :: "time \<Rightarrow> watcher \<Rightarrow> watcher" where
  "charge now w = w\<lparr>wt_spent := spend now (wt_spent w), wt_charged := wt_charged w @ [now]\<rparr>"

definition wait_for_exit :: "bool \<Rightarrow> watcher \<Rightarrow> watcher option" where
  "wait_for_exit stopped w =
     (if wt_over w \<or> wt_current w = None then None
      else Some (if stopped then w\<lparr>wt_over := True\<rparr> else w\<lparr>wt_current := None\<rparr>))"

text \<open>One turn of the restart loop; the start is made only when the budget allows it.\<close>

definition restart :: "bool \<Rightarrow> time \<Rightarrow> store_error + started \<Rightarrow> watcher \<Rightarrow> watcher option" where
  "restart stopped now start w =
     (if wt_over w \<or> wt_current w \<noteq> None \<or> now < wt_clock w then None
      else if stopped then Some (w\<lparr>wt_over := True\<rparr>)
      else let (ok, kept) = available now (wt_spent w); v = w\<lparr>wt_spent := kept, wt_clock := now\<rparr> in
        if \<not> ok then Some v
        else (case start of
            Inr st \<Rightarrow> Some ((if sd_child st then charge now v else v)\<lparr>wt_current := Some st, wt_pid := sd_pid st\<rparr>)
          | Inl _ \<Rightarrow> Some (charge now v)))"

definition watch_step :: "watch_event \<Rightarrow> watcher \<Rightarrow> watcher option" where
  "watch_step ev w = (case ev of ExitSeen stopped \<Rightarrow> wait_for_exit stopped w | Attempt stopped now start \<Rightarrow> restart stopped now start w)"

inductive watch_reachable :: "watcher \<Rightarrow> bool" where
  started: "watch_reachable (new_watcher st now)"
| turns: "watch_reachable w \<Longrightarrow> watch_step ev w = Some w' \<Longrightarrow> watch_reachable w'"

interpretation watchers: machine watch_step "\<lambda>w. \<exists>st now. w = new_watcher st now" watch_reachable
proof
  show "P w" if "watch_reachable w" "\<And>w. \<exists>st now. w = new_watcher st now \<Longrightarrow> P w"
    "\<And>w e v. watch_reachable w \<Longrightarrow> P w \<Longrightarrow> watch_step e w = Some v \<Longrightarrow> P v" for w P
    using that by (induction rule: watch_reachable.induct) blast+
qed (auto intro: watch_reachable.intros)

section \<open>All starters\<close>

text \<open>
  Where a process stands with the sidecar. In \<open>Resolving\<close>, \<open>Relooking\<close>, \<open>ToSpawn\<close>, \<open>Spawned\<close>,
  \<open>Named\<close> and \<open>Removing\<close> it holds the lock; \<open>Killing\<close> is about to kill its child.
\<close>

datatype starter_at =
    NotStarting | Waiting | Resolving | Probing nat "nat option" | Retaking nat | Relooking nat | ToSpawn
  | Spawned nat | Named nat | Checking nat | Owner nat | Reuser nat | Killing nat | Unnaming nat | Removing nat

record sidecar_state =
  sc_files :: sidecar_files
  sc_lock :: "nat option"
  sc_at :: "nat \<Rightarrow> starter_at"
  sc_live :: "nat set"
  sc_born :: "nat set"

datatype sidecar_event =
    Starts nat
  | TakesLock nat
  | LockTimesOut nat
  | Looks nat
  | Probes nat bool
  | LooksAgain nat
  | SpawnFails nat
  | Spawns nat nat
  | Writes nat "(string \<times> string option) option" "(string \<times> string option) option"
  | DropsLock nat
  | Healthy nat
  | Unhealthy nat
  | LetsGo nat
  | ShutsDown nat
  | Kills nat
  | Unnames nat
  | Exits nat
  | OtherStarts nat
  | StarterDies nat

definition sc_goto :: "nat \<Rightarrow> starter_at \<Rightarrow> sidecar_state \<Rightarrow> sidecar_state" where
  "sc_goto i a s = s\<lparr>sc_at := (sc_at s)(i := a)\<rparr>"

definition sc_unlock :: "nat \<Rightarrow> sidecar_state \<Rightarrow> sidecar_state" where
  "sc_unlock i s = s\<lparr>sc_lock := (if sc_lock s = Some i then None else sc_lock s)\<rparr>"

definition sc_free :: "nat \<Rightarrow> sidecar_state \<Rightarrow> bool" where
  "sc_free pid s \<longleftrightarrow> 0 < pid \<and> pid < 2 ^ 31 \<and> pid \<notin> sc_live s \<and> pid \<notin> sc_born s"

text \<open>
  \<open>knows i e\<close> is starter \<open>i\<close>'s \<open>is_qdrant\<close> on process \<open>e\<close>, \<open>ports i\<close> the port it is configured with.
  No process gets the pid of a sidecar that has run.
\<close>

definition sidecar_step :: "(nat \<Rightarrow> nat \<Rightarrow> bool) \<Rightarrow> (nat \<Rightarrow> nat) \<Rightarrow> sidecar_event \<Rightarrow> sidecar_state \<Rightarrow> sidecar_state option" where
  "sidecar_step knows ports ev s =
     (case ev of
        Starts i \<Rightarrow> if sc_at s i = NotStarting then Some (sc_goto i Waiting s) else None
      | TakesLock i \<Rightarrow>
          if sc_lock s \<noteq> None then None
          else let t = s\<lparr>sc_lock := Some i\<rparr> in (case sc_at s i of
              Waiting \<Rightarrow> Some (sc_goto i Resolving t)
            | Retaking e \<Rightarrow> Some (sc_goto i (Relooking e) t)
            | Unnaming d \<Rightarrow> Some (sc_goto i (Removing d) t)
            | _ \<Rightarrow> None)
      | LockTimesOut i \<Rightarrow> (case sc_at s i of
            Waiting \<Rightarrow> Some (sc_goto i NotStarting s)
          | Retaking e \<Rightarrow> Some (sc_goto i NotStarting s)
          | Unnaming d \<Rightarrow> Some (sc_goto i NotStarting (s\<lparr>sc_files := remove_pid_files_if_ours False d (sc_files s)\<rparr>))
          | _ \<Rightarrow> None)
      | Looks i \<Rightarrow>
          if sc_at s i \<noteq> Resolving then None
          else Some (case resolve_look (\<lambda>e. e \<in> sc_live s) (knows i) (ports i) (sc_files s) of
              LookSpawn stale \<Rightarrow> sc_goto i ToSpawn (if stale then s\<lparr>sc_files := remove_pid_files (sc_files s)\<rparr> else s)
            | LookReuse e \<Rightarrow> sc_goto i (Reuser e) (sc_unlock i s)
            | LookError _ \<Rightarrow> sc_goto i NotStarting (sc_unlock i s)
            | LookProbe e recorded \<Rightarrow> sc_goto i (Probing e recorded) (sc_unlock i s))
      | Probes i answers \<Rightarrow> (case sc_at s i of
            Probing e recorded \<Rightarrow> Some (case after_probe e recorded (ports i) answers of
                Some (LookReuse d) \<Rightarrow> sc_goto i (Reuser d) s
              | Some _ \<Rightarrow> sc_goto i NotStarting s
              | None \<Rightarrow> sc_goto i (Retaking e) s)
          | _ \<Rightarrow> None)
      | LooksAgain i \<Rightarrow> (case sc_at s i of
            Relooking e \<Rightarrow> Some (if replaces e (sc_files s)
                then sc_goto i ToSpawn (s\<lparr>sc_files := remove_pid_files (sc_files s)\<rparr>) else sc_goto i Resolving s)
          | _ \<Rightarrow> None)
      | SpawnFails i \<Rightarrow> if sc_at s i = ToSpawn then Some (sc_goto i NotStarting (sc_unlock i s)) else None
      | Spawns i d \<Rightarrow>
          if sc_at s i = ToSpawn \<and> sc_free d s \<and> MIN_PORT \<le> ports i
          then Some (sc_goto i (Spawned d) (s\<lparr>sc_live := insert d (sc_live s), sc_born := insert d (sc_born s)\<rparr>)) else None
      | Writes i fails_pid fails_port \<Rightarrow> (case sc_at s i of
            Spawned d \<Rightarrow>
              (case write_pid_files fails_pid fails_port d (ports i) (sc_files s) of
                 (Inl _, fs) \<Rightarrow> Some (sc_goto i (Killing d) (sc_unlock i (s\<lparr>sc_files := fs\<rparr>)))
               | (Inr _, fs) \<Rightarrow> Some (sc_goto i (Named d) (s\<lparr>sc_files := fs\<rparr>)))
          | _ \<Rightarrow> None)
      | DropsLock i \<Rightarrow> (case sc_at s i of Named d \<Rightarrow> Some (sc_goto i (Checking d) (sc_unlock i s)) | _ \<Rightarrow> None)
      | Healthy i \<Rightarrow> (case sc_at s i of Checking d \<Rightarrow> Some (sc_goto i (Owner d) s) | _ \<Rightarrow> None)
      | Unhealthy i \<Rightarrow> (case sc_at s i of
            Checking d \<Rightarrow> Some (sc_goto i (Killing d) s) | Reuser e \<Rightarrow> Some (sc_goto i NotStarting s) | _ \<Rightarrow> None)
      | LetsGo i \<Rightarrow> (case sc_at s i of
            Owner d \<Rightarrow> Some (sc_goto i NotStarting s) | Reuser e \<Rightarrow> Some (sc_goto i NotStarting s) | _ \<Rightarrow> None)
      | ShutsDown i \<Rightarrow> (case sc_at s i of Owner d \<Rightarrow> Some (sc_goto i (Killing d) s) | _ \<Rightarrow> None)
      | Kills i \<Rightarrow> (case sc_at s i of
            Killing d \<Rightarrow> Some (sc_goto i (Unnaming d) (s\<lparr>sc_live := sc_live s - {d}\<rparr>)) | _ \<Rightarrow> None)
      | Unnames i \<Rightarrow> (case sc_at s i of
            Removing d \<Rightarrow> Some (sc_goto i NotStarting (sc_unlock i
              (s\<lparr>sc_files := remove_pid_files_if_ours True d (sc_files s)\<rparr>)))
          | _ \<Rightarrow> None)
      | Exits d \<Rightarrow> Some (s\<lparr>sc_live := sc_live s - {d}\<rparr>)
      | OtherStarts e \<Rightarrow> if sc_free e s then Some (s\<lparr>sc_live := insert e (sc_live s)\<rparr>) else None
      | StarterDies i \<Rightarrow> Some (sc_goto i NotStarting (sc_unlock i s)))"

text \<open>
  A starter that dies between starting its child and naming it, or between giving it up and
  killing it, leaves a process no file names. An orderly course has no such death.
\<close>

definition sc_orderly :: "sidecar_event \<Rightarrow> sidecar_state \<Rightarrow> bool" where
  "sc_orderly ev s \<longleftrightarrow> (case ev of
     StarterDies i \<Rightarrow> (case sc_at s i of Spawned d \<Rightarrow> d \<notin> sc_live s | Killing d \<Rightarrow> d \<notin> sc_live s | _ \<Rightarrow> True)
   | _ \<Rightarrow> True)"

definition sidecar_orderly :: "(nat \<Rightarrow> nat \<Rightarrow> bool) \<Rightarrow> (nat \<Rightarrow> nat) \<Rightarrow> sidecar_event \<Rightarrow> sidecar_state \<Rightarrow> sidecar_state option" where
  "sidecar_orderly knows ports ev s = (if sc_orderly ev s then sidecar_step knows ports ev s else None)"

definition sc_quiet :: "sidecar_state \<Rightarrow> bool" where
  "sc_quiet s \<longleftrightarrow> sc_lock s = None \<and> sc_born s = {} \<and> (\<forall>i. sc_at s i = NotStarting)"

inductive sidecar_reachable :: "(nat \<Rightarrow> nat \<Rightarrow> bool) \<Rightarrow> (nat \<Rightarrow> nat) \<Rightarrow> sidecar_state \<Rightarrow> bool" for knows ports where
  quiet: "sc_quiet s \<Longrightarrow> sidecar_reachable knows ports s"
| step: "sidecar_reachable knows ports s \<Longrightarrow> sidecar_orderly knows ports ev s = Some t \<Longrightarrow> sidecar_reachable knows ports t"

interpretation starters: machine "sidecar_orderly knows ports" sc_quiet "sidecar_reachable knows ports" for knows ports
proof
  show "P s" if "sidecar_reachable knows ports s" "\<And>s. sc_quiet s \<Longrightarrow> P s"
    "\<And>s e t. sidecar_reachable knows ports s \<Longrightarrow> P s \<Longrightarrow> sidecar_orderly knows ports e s = Some t \<Longrightarrow> P t" for s P
    using that by (induction rule: sidecar_reachable.induct) blast+
qed (auto intro: sidecar_reachable.intros)

end
