(* ===== verification/Commands.thy ===== *)
theory Commands
  imports AdminOps Sidecar
begin

text \<open>
  The administration commands (\<open>crates/server/src/commands.rs\<close>, \<open>audit.rs\<close>, \<open>backfill.rs\<close>) and the
  configuration they are given (\<open>cli.rs\<close>). What a command prints is part of its result; members of
  printed objects are in the order of the source, which the library's printer may change.
\<close>

section \<open>Paths and configuration\<close>

text \<open>\<open>Path::parent\<close>, on the reversed path: trailing separators and \<open>.\<close> components do not count.\<close>

fun trim_tail :: "string \<Rightarrow> string" where
  "trim_tail [] = []"
| "trim_tail (c # cs) =
     (if c = CHR ''/'' then (if cs = [] then [c] else trim_tail cs)
      else if c = CHR ''.'' \<and> cs \<noteq> [] \<and> hd cs = CHR ''/'' then trim_tail cs else c # cs)"

definition path_parent :: "string \<Rightarrow> string option" where
  "path_parent path =
     (let name = trim_tail (rev path) in
      if name = [] \<or> name = ''/'' then None
      else Some (rev (trim_tail (dropWhile (\<lambda>c. c \<noteq> CHR ''/'') name))))"

text \<open>The directory that exists or is created, then its real path.\<close>

definition absolutize ::
    "string + string \<Rightarrow> (string \<Rightarrow> string option) \<Rightarrow> (string \<Rightarrow> string + string) \<Rightarrow> string \<Rightarrow> string + string" where
  "absolutize cwd create canonicalize path =
     (case (case path_parent path of Some p \<Rightarrow> if p \<noteq> [] then Inr p else cwd | None \<Rightarrow> cwd) of
        Inl e \<Rightarrow> Inl e
      | Inr dir \<Rightarrow> (case create dir of
          Some e \<Rightarrow> Inl (''create '' @ dir @ '': '' @ e)
        | None \<Rightarrow> (case canonicalize dir of
            Inl e \<Rightarrow> Inl (''resolve '' @ dir @ '': '' @ e)
          | Inr full \<Rightarrow> (case file_name path of
              None \<Rightarrow> Inl (''path has no file name: '' @ path)
            | Some name \<Rightarrow> Inr (path_join full name)))))"

definition default_dir :: "string option \<Rightarrow> string" where
  "default_dir home = path_join (case home of None \<Rightarrow> ''.'' | Some h \<Rightarrow> h) ''.ferrex''"

text \<open>The paths of \<open>build_config\<close>: the database's and the configuration file's.\<close>

definition config_paths ::
    "string option \<Rightarrow> (string \<Rightarrow> string + string) \<Rightarrow> (string \<Rightarrow> string option) \<Rightarrow> string option \<Rightarrow> string option
       \<Rightarrow> string + (string \<times> string)" where
  "config_paths home full_path load db_arg config_arg =
     (let db = (case db_arg of Some p \<Rightarrow> p | None \<Rightarrow> path_join (default_dir home) ''ferrex.db'');
          cfg = (case config_arg of Some p \<Rightarrow> p | None \<Rightarrow> path_join (default_dir home) ''ferrex.toml'')
      in case (if is_memory_path db then Inr db else full_path db) of
        Inl e \<Rightarrow> Inl e
      | Inr db_path \<Rightarrow> (case load cfg of
          Some e \<Rightarrow> Inl (''config load: '' @ e)
        | None \<Rightarrow> (case full_path cfg of Inl e \<Rightarrow> Inl e | Inr config_path \<Rightarrow> Inr (db_path, config_path))))"

definition use_standalone :: "bool \<Rightarrow> string \<Rightarrow> bool" where
  "use_standalone no_daemon db_path \<longleftrightarrow> no_daemon \<or> is_memory_path db_path"

section \<open>Commands on the service\<close>

datatype command_error = Refused string | BadArgument string | ServiceFailed core_error

type_synonym ('q, 'e, 'r, 'a) cmd = "(('q, 'e, 'r) world, command_error, 'a) sm"

definition on_service :: "('q, 'e, 'r, 'a) op \<Rightarrow> ('q, 'e, 'r, 'a) cmd" where
  "on_service m = m_zoom (\<lambda>w. w) (\<lambda>w _. w) ServiceFailed m"

definition checked :: "string + unit \<Rightarrow> ('q, 'e, 'r, unit) cmd" where
  "checked r = m_of (case r of Inl e \<Rightarrow> Inl (Refused e) | Inr u \<Rightarrow> Inr u)"

datatype printed = Lines "string list" | Json json

definition json_strings :: "string list \<Rightarrow> json" where
  "json_strings ss = JArr (map JStr ss)"

definition is_json_format :: "string \<Rightarrow> bool" where
  "is_json_format format \<longleftrightarrow> to_lowercase format = ''json''"

definition listed :: "string list \<Rightarrow> string list" where
  "listed ids = (if ids = [] then [] else [''  '' @ join '', '' ids])"

definition audit_output :: "bool \<Rightarrow> string \<Rightarrow> audit_report \<Rightarrow> printed" where
  "audit_output fix_it format report =
     (if is_json_format format
      then Json (JObj [(''sqlite_only'', json_strings (ar_sqlite_only report)), (''qdrant_only'', json_strings (ar_qdrant_only report)),
        (''fixed'', json_strings (ar_fixed report))])
      else Lines ([''Qdrant-only orphans (no SQLite row):  '' @ show_nat (length (ar_qdrant_only report))]
        @ listed (ar_qdrant_only report)
        @ [[], ''SQLite-only orphans (no Qdrant point): '' @ show_nat (length (ar_sqlite_only report))]
        @ listed (ar_sqlite_only report) @ [[]]
        @ (if fix_it then [''Fixed: '' @ show_nat (length (ar_fixed report)) @ '' Qdrant orphans deleted'']
           else let total = length (ar_qdrant_only report) + length (ar_sqlite_only report) in
             [''Total: '' @ show_nat total @ '' inconsistencies found'']
             @ (if 0 < total then [''Run with --fix to resolve.''] else []))))"

text \<open>
  What the guard looks at: the parser of pid files, the run directory and its entries, at the moment
  the command asks.
\<close>

record guard_view =
  gv_json :: json_lib
  gv_run_dir :: "string + string"
  gv_entries :: "run_entry list"

definition guarded :: "guard_view \<Rightarrow> service \<Rightarrow> ('q, 'e, 'r, unit) cmd" where
  "guarded gv svc = checked (refuse_if_live (gv_json gv) (gv_run_dir gv) (gv_entries gv) (cfg_db_path (svc_config svc)))"

text \<open>\<open>None\<close> is an audit out of fuel.\<close>

definition run_reconcile ::
    "('q, 'e, 'r) ext \<Rightarrow> guard_view \<Rightarrow> service \<Rightarrow> nat \<Rightarrow> bool \<Rightarrow> string \<Rightarrow> ('q, 'e, 'r, printed option) cmd" where
  "run_reconcile x gv svc fuel fix_it format =
     m_then (if fix_it then guarded gv svc else m_ret ())
    (m_bind (on_service (start_up x svc)) (\<lambda>_.
     m_bind (on_service (audit_reconcile x svc fuel fix_it (audit_fix_limit (cfg_reconciliation (svc_config svc))))) (\<lambda>report.
     m_then (on_service (shutdown x)) (m_ret (map_option (audit_output fix_it format) report)))))"

definition show_bool :: "bool \<Rightarrow> string" where
  "show_bool b = (if b then ''true'' else ''false'')"

definition run_normalized_predicates ::
    "('q, 'e, 'r) ext \<Rightarrow> guard_view \<Rightarrow> service \<Rightarrow> string option \<Rightarrow> bool \<Rightarrow> ('q, 'e, 'r, printed) cmd" where
  "run_normalized_predicates x gv svc ns dry_run =
     m_then (if dry_run then m_ret () else guarded gv svc)
    (m_bind (on_service (start_up x svc)) (\<lambda>_.
     m_bind (on_service (backfill_normalized_predicates x svc ns dry_run)) (\<lambda>report.
     m_ret (Lines [''backfill: scanned='' @ show_nat (bf_scanned report) @ '' updated='' @ show_nat (bf_updated report)
       @ '' dry_run='' @ show_bool dry_run]))))"

section \<open>The journal\<close>

definition parse_since :: "time \<Rightarrow> string \<Rightarrow> string + time" where
  "parse_since now s =
     (if s = ''1h'' then Inr (now - 3600 * nanos_per_second)
      else if s = ''24h'' then Inr (now - 24 * 3600 * nanos_per_second)
      else if s = ''7d'' then Inr (now - duration_days 7)
      else Inl (''invalid --since value: '' @ s @ ''. Use 1h, 24h, or 7d.''))"

definition show_pending :: "string option \<Rightarrow> bool" where
  "show_pending status \<longleftrightarrow> status = None \<or> status = Some ''pending''"

definition show_completed :: "string option \<Rightarrow> bool" where
  "show_completed status \<longleftrightarrow> status = None \<or> status = Some ''completed'' \<or> status = Some ''failed''"

definition pending_json :: "('q, 'e, 'r) ext \<Rightarrow> pending_op \<Rightarrow> json" where
  "pending_json x op = JObj [(''op_id'', JStr (po_op_id op)), (''kind'', JStr (kind_as_str (po_kind op))),
     (''memory_id'', JStr (po_memory_id op)), (''namespace'', JStr (po_namespace op)),
     (''started_at'', JStr (x_rfc3339 x (po_started_at op)))]"

definition completed_json :: "('q, 'e, 'r) ext \<Rightarrow> completed_op \<Rightarrow> json" where
  "completed_json x op = JObj [(''op_id'', JStr (co_op_id op)), (''kind'', JStr (kind_as_str (co_kind op))),
     (''memory_id'', JStr (co_memory_id op)), (''outcome'', JStr (co_outcome op)),
     (''duration_ms'', JNum (show_int (co_duration_ms op))), (''completed_at'', JStr (x_rfc3339 x (co_completed_at op)))]"

definition print_journal_json ::
    "('q, 'e, 'r) ext \<Rightarrow> string option \<Rightarrow> nat \<Rightarrow> time option \<Rightarrow> ('q, 'e, 'r, printed) op" where
  "print_journal_json x status limit since =
     m_bind (if show_pending status then m_bind list_pending_ops_op (\<lambda>ops. m_ret [(''pending'', JArr (map (pending_json x) ops))])
             else m_ret []) (\<lambda>pending.
     m_bind (if show_completed status
             then m_bind (list_completed_ops_op status limit since) (\<lambda>ops. m_ret [(''completed'', JArr (map (completed_json x) ops))])
             else m_ret []) (\<lambda>completed.
     m_ret (Json (JObj (pending @ completed)))))"

text \<open>\<open>{:>n}\<close>.\<close>

definition pad_left :: "nat \<Rightarrow> string \<Rightarrow> string" where
  "pad_left n s = replicate (n - length s) CHR '' '' @ s"

text \<open>\<open>stamp\<close> prints a time as \<open>%Y-%m-%d %H:%M:%S\<close>.\<close>

definition pending_line :: "(time \<Rightarrow> string) \<Rightarrow> pending_op \<Rightarrow> string" where
  "pending_line stamp op = ''  '' @ kind_as_str (po_kind op) @ ''  '' @ po_memory_id op @ ''  '' @ po_namespace op
     @ ''  since '' @ stamp (po_started_at op)"

definition completed_line :: "(time \<Rightarrow> string) \<Rightarrow> completed_op \<Rightarrow> string" where
  "completed_line stamp op = ''  '' @ stamp (co_completed_at op) @ ''  '' @ kind_as_str (co_kind op) @ ''  '' @ co_memory_id op
     @ ''  '' @ pad_left 5 (co_outcome op) @ ''  '' @ pad_left 6 (show_int (co_duration_ms op)) @ ''ms''"

definition print_journal_text ::
    "(time \<Rightarrow> string) \<Rightarrow> string option \<Rightarrow> nat \<Rightarrow> time option \<Rightarrow> ('q, 'e, 'r, printed) op" where
  "print_journal_text stamp status limit since =
     m_bind (if show_pending status
             then m_bind list_pending_ops_op (\<lambda>ops. m_ret ([''Pending ('' @ show_nat (length ops) @ ''):'']
               @ (if ops = [] then [''  (none)''] else map (pending_line stamp) ops) @ [[]]))
             else m_ret []) (\<lambda>pending.
     m_bind (if show_completed status
             then m_bind (list_completed_ops_op status limit since) (\<lambda>ops.
               m_ret ((''Completed (last '' @ show_nat (length ops) @ ''):'') # map (completed_line stamp) ops))
             else m_ret []) (\<lambda>completed.
     m_ret (Lines (pending @ completed))))"

text \<open>The service is up, and the journal recovered, before \<open>--since\<close> is read.\<close>

definition journal_show ::
    "('q, 'e, 'r) ext \<Rightarrow> (time \<Rightarrow> string) \<Rightarrow> service \<Rightarrow> string option \<Rightarrow> nat \<Rightarrow> string option \<Rightarrow> string \<Rightarrow>
     ('q, 'e, 'r, printed) cmd" where
  "journal_show x stamp svc status limit since format =
     m_bind (on_service (start_up x svc)) (\<lambda>_.
     m_bind (case since of None \<Rightarrow> m_ret None
       | Some s \<Rightarrow> m_bind (on_service (now_op x)) (\<lambda>now. m_of (case parse_since now s of
           Inl e \<Rightarrow> Inl (BadArgument e) | Inr t \<Rightarrow> Inr (Some t)))) (\<lambda>since_dt.
     m_then (on_service (prune_journal x))
    (m_bind (on_service (if is_json_format format then print_journal_json x status limit since_dt
       else print_journal_text stamp status limit since_dt)) (\<lambda>out.
     m_then (on_service (shutdown x)) (m_ret out)))))"

section \<open>Diagnostics\<close>

definition ago_text :: "time \<Rightarrow> string" where
  "ago_text ago =
     (let secs = num_seconds ago; mins = trunc_div secs 60; hours = trunc_div secs 3600 in
      if secs < 60 then show_int secs @ ''s ago''
      else if mins < 60 then show_int mins @ ''m ago''
      else show_int hours @ ''h ago'')"

definition hit_rate :: "nat \<Rightarrow> nat \<Rightarrow> real" where
  "hit_rate hits misses = (if 0 < hits + misses then real hits / real (hits + misses) * 100 else 0)"

definition diagnose :: "('q, 'e, 'r) ext \<Rightarrow> service \<Rightarrow> ('q, 'e, 'r, diagnostics_report) cmd" where
  "diagnose x svc =
     m_bind (on_service (start_up x svc)) (\<lambda>_.
     m_bind (on_service (diagnostics x svc (cfg_namespace (svc_config svc)))) (\<lambda>report.
     m_then (on_service (shutdown x)) (m_ret report)))"

definition daemon_paths_output :: "string + daemon_paths \<Rightarrow> string + unit \<Rightarrow> string + printed" where
  "daemon_paths_output paths ensured =
     (case paths of Inl e \<Rightarrow> Inl e
      | Inr p \<Rightarrow> (case ensured of Inl e \<Rightarrow> Inl e
        | Inr _ \<Rightarrow> Inr (Json (JObj [(''key'', JStr (dp_key p)), (''socket'', JStr (dp_socket p)), (''pid_file'', JStr (dp_pid_file p)),
            (''lock_file'', JStr (dp_lock_file p)), (''run_dir'', JStr (dp_run_dir p))]))))"

end
