(* ===== verification/AddrLaws.thy ===== *)
theory AddrLaws
  imports Addr
begin

text \<open>
  What the addresses guarantee: proxies share a daemon exactly when executable and configuration
  agree, a socket path fits into an address, and the guard sees every live daemon of a database.
\<close>

section \<open>Keys\<close>

lemma byte_eq_iff: "(word_of_nat m :: 8 word) = word_of_nat n \<longleftrightarrow> m mod 256 = n mod 256"
  by (simp add: word_of_nat_eq_iff take_bit_eq_mod)

lemma le_bytes_inj: "m < 256 ^ k \<Longrightarrow> n < 256 ^ k \<Longrightarrow> le_bytes k m = le_bytes k n \<Longrightarrow> m = n"
proof (induction k arbitrary: m n)
  case (Suc k)
  from Suc.prems(3) have low: "m mod 256 = n mod 256" and rest: "le_bytes k (m div 256) = le_bytes k (n div 256)"
    by (simp_all add: byte_eq_iff)
  have "m div 256 < 256 ^ k" "n div 256 < 256 ^ k" using Suc.prems(1,2) by (auto simp: less_mult_imp_div_less mult.commute)
  from Suc.IH [OF this rest] low show ?case by (metis div_mult_mod_eq)
qed simp

lemma length_le_bytes [simp]: "length (le_bytes k n) = k"
  by (induction k n rule: le_bytes.induct) simp_all

lemma char_byte_eq: "(word_of_nat (of_char c) :: 8 word) = word_of_nat (of_char d) \<longleftrightarrow> c = d"
  by (simp add: byte_eq_iff)

lemma bytes_of_inj: "bytes_of s = bytes_of t \<longleftrightarrow> s = t"
  unfolding bytes_of_def by (rule inj_eq) (auto simp: inj_map_eq_map intro!: injI simp: char_byte_eq inj_def)

lemma bytes_of_zero: "0 \<in> set (bytes_of s) \<longleftrightarrow> CHR 0x00 \<in> set s"
proof -
  have "(word_of_nat (of_char c) :: 8 word) = 0 \<longleftrightarrow> c = CHR 0x00" for c :: char
    using char_byte_eq [of c "CHR 0x00"] by simp
  then show ?thesis by (auto simp: bytes_of_def image_iff)
qed

lemma split_at_zero:
  assumes "a @ 0 # b = c @ 0 # d" and "0 \<notin> set a" and "0 \<notin> set c"
  shows "a = c \<and> b = (d :: 'a :: zero list)"
  using assms
proof (induction a arbitrary: c)
  case Nil
  then show ?case by (cases c) auto
next
  case (Cons x a)
  then show ?case by (cases c) auto
qed

lemma key_input_inj:
  assumes "key_input env c exe m = key_input env c' exe' m'"
    and "CHR 0x00 \<notin> set exe" and "CHR 0x00 \<notin> set exe'" and "m < 2 ^ 128" and "m' < 2 ^ 128"
    and "inj_on (ke_print env) {JObj (key_members env c), JObj (key_members env c')}"
  shows "exe = exe' \<and> m = m' \<and> key_members env c = key_members env c'"
proof -
  have "bytes_of exe @ 0 # (le_bytes 16 m @ bytes_of (ke_print env (JObj (key_members env c)))) =
      bytes_of exe' @ 0 # (le_bytes 16 m' @ bytes_of (ke_print env (JObj (key_members env c'))))"
    using assms(1) by (simp add: key_input_def)
  from split_at_zero [OF this] have "exe = exe'" "le_bytes 16 m = le_bytes 16 m'"
      "ke_print env (JObj (key_members env c)) = ke_print env (JObj (key_members env c'))"
    using assms(2,3) by (simp_all add: bytes_of_zero bytes_of_inj)
  moreover have "m = m'" using le_bytes_inj [of m 16 m'] calculation(2) assms(4,5) by simp
  ultimately show ?thesis using assms(6) by (auto dest: inj_onD)
qed

section \<open>Paths\<close>

lemma path_join_inj: "path_join d a = path_join d b \<Longrightarrow> \<not> is_absolute a \<Longrightarrow> \<not> is_absolute b \<Longrightarrow> a = b"
  by (auto simp: path_join_def split: if_splits)

lemma hex_digit_values: "n < 16 \<Longrightarrow> hex_digit n \<in> set ''0123456789abcdef''"
proof -
  assume "n < 16"
  moreover have "list_all (\<lambda>n. hex_digit n \<in> set ''0123456789abcdef'') [0..<16]" by code_simp
  ultimately show ?thesis by (simp add: list_all_iff)
qed

lemma hex16_chars: "set (hex16 digest) \<subseteq> set ''0123456789abcdef''"
proof -
  have "unat b < 256" for b :: "8 word" using unsigned_less [of b] by simp
  then have "set (hex2 b) \<subseteq> set ''0123456789abcdef''" for b
    using hex_digit_values [of "unat b div 16"] hex_digit_values [of "unat b mod 16"]
    by (simp add: hex2_def less_mult_imp_div_less)
  then show ?thesis by (fastforce simp: hex16_def)
qed

lemma hex16_length: "length (hex16 digest) = 2 * min 8 (length digest)"
  by (simp add: hex16_def length_concat comp_def hex2_def sum_list_triv min.commute)

lemma key_relative: "\<not> is_absolute (hex16 digest @ suffix)" if "suffix \<noteq> []" "hd suffix = CHR ''.''"
proof -
  have "hd (hex16 digest @ suffix) \<noteq> CHR ''/''"
    using that hex16_chars [of digest] by (cases "hex16 digest") auto
  then show ?thesis using that by (simp add: is_absolute_def)
qed

lemma for_config_Inr:
  assumes "for_config macos env dir c exe = Inr p"
  obtains d m key where "dir = Inr d" "ke_mtime env exe = Inr m" "key = hex16 (ke_sha256 env (key_input env c exe m))"
    "dp_run_dir p = d" "dp_key p = key" "dp_socket p = path_join d (key @ ''.sock'')" "dp_pid_file p = path_join d (key @ ''.pid'')"
    "dp_lock_file p = path_join d (key @ ''.lock'')" "dp_log_file p = path_join d ''ferrexd.log''"
    "length (dp_socket p) \<le> MAX_SUN_PATH macos"
  using assms by (auto simp: for_config_def compute_key_def Let_def split: sum.splits if_splits)

text \<open>
  The paths of a daemon fit: the socket's path is short enough for an address of the platform,
  the key has sixteen hexadecimal digits, and the four files are different ones.
\<close>

lemma paths_fit:
  assumes "for_config macos env dir c exe = Inr p" and "\<forall>i. length (ke_sha256 env i) = 32"
  shows "length (dp_socket p) \<le> MAX_SUN_PATH macos \<and> length (dp_key p) = 16
    \<and> set (dp_key p) \<subseteq> set ''0123456789abcdef''
    \<and> distinct [dp_socket p, dp_pid_file p, dp_lock_file p, dp_log_file p]"
  using assms(1)
proof (rule for_config_Inr)
  fix d m key
  assume p: "key = hex16 (ke_sha256 env (key_input env c exe m))" "dp_key p = key"
    "dp_socket p = path_join d (key @ ''.sock'')" "dp_pid_file p = path_join d (key @ ''.pid'')"
    "dp_lock_file p = path_join d (key @ ''.lock'')" "dp_log_file p = path_join d ''ferrexd.log''"
    and fits: "length (dp_socket p) \<le> MAX_SUN_PATH macos"
  have len: "length key = 16" using p(1) assms(2) by (simp add: hex16_length)
  have rel: "\<not> is_absolute (key @ ''.sock'')" "\<not> is_absolute (key @ ''.pid'')" "\<not> is_absolute (key @ ''.lock'')"
      "\<not> is_absolute ''ferrexd.log''"
    using key_relative p(1) by (auto simp: is_absolute_def)
  have "key @ s \<noteq> ''ferrexd.log''" for s
  proof
    assume "key @ s = ''ferrexd.log''"
    from arg_cong [OF this, of length] len show False by simp
  qed
  then have "distinct [dp_socket p, dp_pid_file p, dp_lock_file p, dp_log_file p]"
    unfolding p(3-6) using rel by (auto dest: path_join_inj)
  with fits len hex16_chars p(1,2) show ?thesis by auto
qed

text \<open>
  The Qdrant binary a configuration means: the file its name resolves to, unless the sidecar is not
  used or nothing is found.
\<close>

definition bin_used :: "key_env \<Rightarrow> key_config \<Rightarrow> string" where
  "bin_used env c =
     (if kc_qdrant_url c \<noteq> None then kc_qdrant_bin c
      else case resolve_on_path (ke_canonical env) (ke_runs env) (ke_path env) (kc_qdrant_bin c) of
        None \<Rightarrow> kc_qdrant_bin c | Some p \<Rightarrow> p)"

lemma key_members_eq:
  "key_members env c = filter (\<lambda>m. fst m \<noteq> ''namespace'') (config_members (c\<lparr>kc_qdrant_bin := bin_used env c\<rparr>))"
  by (simp add: key_members_def config_members_def bin_used_def set_member_def Let_def split: option.splits)

lemma show_nat_inj: "show_nat m = show_nat n \<longleftrightarrow> m = n"
  using show_nat_digits [of m] show_nat_digits [of n] by metis

lemma opt_string_json_inj: "opt_string_json s = opt_string_json t \<longleftrightarrow> s = t"
  by (simp add: opt_string_json_def split: option.splits)

lemma key_members_same:
  "key_members env c = key_members env c' \<longleftrightarrow>
     c\<lparr>kc_qdrant_bin := bin_used env c, kc_namespace := []\<rparr> = c'\<lparr>kc_qdrant_bin := bin_used env c', kc_namespace := []\<rparr>"
proof -
  have "filter (\<lambda>m. fst m \<noteq> ''namespace'') (config_members a) = filter (\<lambda>m. fst m \<noteq> ''namespace'') (config_members b)
      \<longleftrightarrow> a\<lparr>kc_namespace := []\<rparr> = b\<lparr>kc_namespace := []\<rparr>" for a b
    by (cases a; cases b) (simp add: config_members_def show_nat_inj opt_string_json_inj)
  then show ?thesis unfolding key_members_eq by simp
qed

text \<open>
  C23. Proxies share a daemon exactly when they should. Two configurations of one run directory
  have the same socket if and only if the executable's path and time of modification are the same
  and the configurations are the same in every field, where only the namespace does not count and
  the Qdrant binary counts as the file it resolves to, as long as the hash and the printer tell the
  two inputs apart.
\<close>

theorem daemon_shared_iff:
  assumes "for_config macos env dir c exe = Inr p" and "for_config macos env dir c' exe' = Inr p'"
    and "ke_mtime env exe = Inr m" and "ke_mtime env exe' = Inr m'" and "m < 2 ^ 128" and "m' < 2 ^ 128"
    and "CHR 0x00 \<notin> set exe" and "CHR 0x00 \<notin> set exe'"
    and "inj_on (ke_print env) {JObj (key_members env c), JObj (key_members env c')}"
    and "inj_on (\<lambda>i. hex16 (ke_sha256 env i)) {key_input env c exe m, key_input env c' exe' m'}"
  shows "dp_socket p = dp_socket p' \<longleftrightarrow> exe = exe' \<and> m = m'
    \<and> c\<lparr>kc_qdrant_bin := bin_used env c, kc_namespace := []\<rparr> = c'\<lparr>kc_qdrant_bin := bin_used env c', kc_namespace := []\<rparr>"
proof -
  obtain d where p: "dir = Inr d" "dp_socket p = path_join d (hex16 (ke_sha256 env (key_input env c exe m)) @ ''.sock'')"
    using for_config_Inr [OF assms(1)] assms(3) by (metis sum.inject(2))
  have p': "dp_socket p' = path_join d (hex16 (ke_sha256 env (key_input env c' exe' m')) @ ''.sock'')"
    using for_config_Inr [OF assms(2)] assms(4) p(1) by (metis sum.inject(2))
  have "dp_socket p = dp_socket p' \<longleftrightarrow>
      hex16 (ke_sha256 env (key_input env c exe m)) = hex16 (ke_sha256 env (key_input env c' exe' m'))"
    unfolding p(2) p' using path_join_inj key_relative by fastforce
  also have "\<dots> \<longleftrightarrow> key_input env c exe m = key_input env c' exe' m'"
    using assms(10) by (auto dest: inj_onD)
  also have "\<dots> \<longleftrightarrow> exe = exe' \<and> m = m' \<and> key_members env c = key_members env c'"
    using key_input_inj [OF _ assms(7,8,5,6,9)] by (auto simp: key_input_def)
  finally show ?thesis unfolding key_members_same .
qed

section \<open>The guard\<close>

lemma find_None: "find P xs = None \<longleftrightarrow> (\<forall>y\<in>set xs. \<not> P y)"
  by (induction xs) auto

lemma live_daemons_set:
  "p \<in> set (live_daemons x es) \<longleftrightarrow>
     (\<exists>e\<in>set es. has_pid_extension (re_name e) \<and> re_held e \<and> pid_read x (re_content e) = Some p)"
  unfolding live_daemons_def set_map_filter by (auto simp: pid_file_held_def)

text \<open>A live daemon of the run directory, as its pid file shows it.\<close>

definition live_in :: "json_lib \<Rightarrow> run_entry list \<Rightarrow> pid_file \<Rightarrow> bool" where
  "live_in x es p \<longleftrightarrow>
     (\<exists>e\<in>set es. has_pid_extension (re_name e) \<and> re_held e \<and> pid_read x (re_content e) = Some p)"

lemma live_daemons_live [simp]: "set (live_daemons x es) = Collect (live_in x es)"
  by (auto simp: live_daemons_set live_in_def)

lemma refuse_if_live_iff:
  "refuse_if_live x dir es db = Inr () \<longleftrightarrow>
     is_memory_path db \<or> (\<exists>d. dir = Inr d) \<and> (\<nexists>p. live_in x es p \<and> pf_db_path p = db)"
proof -
  have "live_for_db x es db = None \<longleftrightarrow> (\<nexists>p. live_in x es p \<and> pf_db_path p = db)"
    by (auto simp: live_for_db_def find_None)
  then show ?thesis by (cases dir) (auto simp: refuse_if_live_def refuse_live_def split: option.splits)
qed

lemma refuse_if_any_live_iff:
  "refuse_if_any_live x dir es = Inr () \<longleftrightarrow> (\<exists>d. dir = Inr d) \<and> (\<nexists>p. live_in x es p)"
proof -
  have "any_live x es = None \<longleftrightarrow> set (live_daemons x es) = {}"
    by (auto simp: any_live_def simp del: live_daemons_live split: list.splits)
  then show ?thesis by (cases dir) (auto simp: refuse_if_any_live_def refuse_live_def split: option.splits)
qed

text \<open>
  Two configurations that differ in a field, a third that differs in the namespace only, and a toy
  hash and printer.
\<close>

definition toy_env :: key_env where
  "toy_env = \<lparr> ke_sha256 = (\<lambda>i. take 32 (rev i @ replicate 32 0)), ke_print = (\<lambda>v. case v of
       JObj ms \<Rightarrow> (case map_of ms ''db_path'' of Some (JStr b) \<Rightarrow> b | _ \<Rightarrow> []) | _ \<Rightarrow> []), ke_canonical = Some,
     ke_runs = (\<lambda>_. True), ke_path = None, ke_mtime = (\<lambda>_. Inr 7) \<rparr>"

definition toy_config :: "string \<Rightarrow> string \<Rightarrow> key_config" where
  "toy_config db ns = \<lparr> kc_qdrant_url = None, kc_qdrant_bin = ''qdrant'', kc_qdrant_port = 6334, kc_model_tier = JStr ''Best'',
     kc_reranker_tier = JStr ''Default'', kc_namespace = ns, kc_db_path = db, kc_config_path = None,
     kc_deduplication = JObj [], kc_conflict = JObj [], kc_predicates = JObj [], kc_reconciliation = JObj [],
     kc_staleness = JObj [], kc_reader_pool_size = 4, kc_cache = JObj [] \<rparr>"

theorem daemon_shared_iff_witness:
  "\<exists>p p'. for_config False toy_env (Inr ''/run'') (toy_config ''a'' ''n'') ''/ferrex'' = Inr p
     \<and> for_config False toy_env (Inr ''/run'') (toy_config ''b'' ''n'') ''/ferrex'' = Inr p' \<and> dp_socket p \<noteq> dp_socket p'"
proof -
  let ?a = "toy_config ''a'' ''n''" and ?b = "toy_config ''b'' ''n''"
  have print: "ke_print toy_env (JObj (key_members toy_env (toy_config db ''n''))) = db" for db
    by (simp add: toy_env_def toy_config_def key_members_def config_members_def resolve_on_path_def)
  have input: "key_input toy_env (toy_config db ''n'') ''/ferrex'' 7 = bytes_of ''/ferrex'' @ [0] @ le_bytes 16 7 @ bytes_of db" for db
    by (simp add: key_input_def print)
  have digests: "hex16 (ke_sha256 toy_env (bytes_of ''/ferrex'' @ 0 # le_bytes 16 7 @ bytes_of ''a'')) = ''6100000000000000''"
    "hex16 (ke_sha256 toy_env (bytes_of ''/ferrex'' @ 0 # le_bytes 16 7 @ bytes_of ''b'')) = ''6200000000000000''"
    by code_simp+
  have keys: "hex16 (ke_sha256 toy_env (key_input toy_env ?a ''/ferrex'' 7)) \<noteq> hex16 (ke_sha256 toy_env (key_input toy_env ?b ''/ferrex'' 7))"
    by (simp add: input digests)
  have mtime: "ke_mtime toy_env ''/ferrex'' = Inr 7" by (simp add: toy_env_def)
  obtain p p' where p: "for_config False toy_env (Inr ''/run'') ?a ''/ferrex'' = Inr p"
      "for_config False toy_env (Inr ''/run'') ?b ''/ferrex'' = Inr p'"
    by (simp add: for_config_def compute_key_def mtime input digests MAX_SUN_PATH_def path_join_def is_absolute_def)
  have sep: "inj_on (\<lambda>i. hex16 (ke_sha256 toy_env i)) {key_input toy_env ?a ''/ferrex'' 7, key_input toy_env ?b ''/ferrex'' 7}"
    using keys by (auto simp: inj_on_def)
  have "inj_on (ke_print toy_env) {JObj (key_members toy_env ?a), JObj (key_members toy_env ?b)}"
    using print [of "''a''"] print [of "''b''"] by (simp add: inj_on_def)
  then have "dp_socket p \<noteq> dp_socket p'"
    using daemon_shared_iff [OF p mtime mtime _ _ _ _ _ sep] by (simp add: toy_config_def)
  with p show ?thesis by blast
qed

end
