(* ===== verification/CommandLaws.thy ===== *)
theory CommandLaws
  imports Commands AddrLaws
begin

text \<open>
  Which administration commands stop short of a database that a daemon is using, and which do not
  look.
\<close>

lemma on_service_err: "m w = (Inl e, w') \<Longrightarrow> on_service m w = (Inl (ServiceFailed e), w')"
  by (simp add: on_service_def m_zoom_def)

lemma checked_refuses: "r \<noteq> Inr () \<Longrightarrow> \<exists>e. m_then (checked r) m w = (Inl (Refused e), w)"
  by (cases r) (auto simp: checked_def m_then_def m_bind_def m_of_def)

lemma checked_passes: "m_then (checked (Inr ())) m = m"
  by (simp add: checked_def m_then_def m_bind_def m_of_def fun_eq_iff)

lemma guarded_refuses:
  assumes "live_in (gv_json gv) (gv_entries gv) p" and "pf_db_path p = cfg_db_path (svc_config svc)"
    and "\<not> is_memory_path (cfg_db_path (svc_config svc))"
  shows "\<exists>e. m_then (guarded gv svc) m w = (Inl (Refused e), w)"
  unfolding guarded_def by (rule checked_refuses) (use assms in \<open>auto simp: refuse_if_live_iff\<close>)

lemma guarded_passes:
  assumes "gv_run_dir gv = Inr d" and "\<nexists>p. live_in (gv_json gv) (gv_entries gv) p \<and> pf_db_path p = cfg_db_path (svc_config svc)"
  shows "m_then (guarded gv svc) m = m"
proof -
  have "refuse_if_live (gv_json gv) (gv_run_dir gv) (gv_entries gv) (cfg_db_path (svc_config svc)) = Inr ()"
    using assms by (auto simp: refuse_if_live_iff)
  then show ?thesis by (simp add: guarded_def checked_passes)
qed

text \<open>
  C24. An audit with \<open>--fix\<close> and a backfill that is not a dry run keep off a database in use. If a
  daemon is live on the database of their configuration (its pid file is locked and names it), they
  end with a refusal, and the database, Qdrant and all else are as they were: the service has not even
  been started. If none is, they run as if there were no guard. The same commands without \<open>--fix\<close>, or
  as a dry run, do not look for a daemon at all, although they start the service and with it recovery.
\<close>

theorem writers_refused:
  assumes "gv_run_dir gv = Inr dir" and "\<not> is_memory_path (cfg_db_path (svc_config svc))"
  shows "(if \<exists>p. live_in (gv_json gv) (gv_entries gv) p \<and> pf_db_path p = cfg_db_path (svc_config svc)
    then (\<exists>e. run_reconcile x gv svc fuel True format w = (Inl (Refused e), w))
      \<and> (\<exists>e. run_normalized_predicates x gv svc ns False w = (Inl (Refused e), w))
    else run_reconcile x gv svc fuel True format =
        m_bind (on_service (start_up x svc)) (\<lambda>_.
        m_bind (on_service (audit_reconcile x svc fuel True (audit_fix_limit (cfg_reconciliation (svc_config svc))))) (\<lambda>report.
        m_then (on_service (shutdown x)) (m_ret (map_option (audit_output True format) report))))
      \<and> run_normalized_predicates x gv svc ns False =
        m_bind (on_service (start_up x svc)) (\<lambda>_.
        m_bind (on_service (backfill_normalized_predicates x svc ns False)) (\<lambda>report.
        m_ret (Lines [''backfill: scanned='' @ show_nat (bf_scanned report) @ '' updated='' @ show_nat (bf_updated report)
          @ '' dry_run=false'']))))
    \<and> run_reconcile x gv svc fuel False format = run_reconcile x gv' svc fuel False format
    \<and> run_normalized_predicates x gv svc ns True = run_normalized_predicates x gv' svc ns True"
proof (cases "\<exists>p. live_in (gv_json gv) (gv_entries gv) p \<and> pf_db_path p = cfg_db_path (svc_config svc)")
  case True
  then obtain p where live: "live_in (gv_json gv) (gv_entries gv) p" "pf_db_path p = cfg_db_path (svc_config svc)" by blast
  show ?thesis
    unfolding if_P [OF True] run_reconcile_def run_normalized_predicates_def if_True if_False
    by (intro conjI guarded_refuses [OF live assms(2)] refl)
next
  case False
  show ?thesis
    unfolding if_not_P [OF False] run_reconcile_def run_normalized_predicates_def if_True if_False guarded_passes [OF assms(1) False]
    by (simp add: show_bool_def)
qed

definition toy_entry :: run_entry where
  "toy_entry = \<lparr> re_name = ''k.pid'', re_held = True, re_content = Some ''pid'' \<rparr>"

definition toy_json :: json_lib where
  "toy_json = \<lparr> j_parse = (\<lambda>_. Some (pid_json \<lparr> pf_pid = 9, pf_db_path = ''/f.db'' \<rparr>)), j_print = (\<lambda>_. []),
     j_error_text = id, j_drain = (\<lambda>_. []) \<rparr>"

definition toy_view :: guard_view where
  "toy_view = \<lparr> gv_json = toy_json, gv_run_dir = Inr ''/run'', gv_entries = [toy_entry] \<rparr>"

definition file_service :: service where
  "file_service = demo_service\<lparr>svc_config := demo_config\<lparr>cfg_db_path := ''/f.db''\<rparr>\<rparr>"

theorem writers_refused_witness:
  "(\<exists>e. run_reconcile demo_ext toy_view file_service 9 True ''text'' (demo_world empty_db) = (Inl (Refused e), demo_world empty_db))
   \<and> run_reconcile demo_ext toy_view file_service 9 False ''text''
     = run_reconcile demo_ext (toy_view\<lparr>gv_entries := []\<rparr>) file_service 9 False ''text''"
proof -
  have "pid_of (pid_json \<lparr> pf_pid = 9, pf_db_path = ''/f.db'' \<rparr>) = Some \<lparr> pf_pid = 9, pf_db_path = ''/f.db'' \<rparr>"
    by (simp add: pid_of_def pid_json_def repeated_def pid_fields_def as_u64_show as_string_def)
  then have live: "\<exists>p. live_in (gv_json toy_view) (gv_entries toy_view) p \<and> pf_db_path p = cfg_db_path (svc_config file_service)"
    by (intro exI [of _ "\<lparr> pf_pid = 9, pf_db_path = ''/f.db'' \<rparr>"])
      (simp add: live_in_def toy_view_def toy_entry_def toy_json_def pid_read_def has_pid_extension_def file_service_def)
  have path: "\<not> is_memory_path (cfg_db_path (svc_config file_service))" by code_simp
  have dir: "gv_run_dir toy_view = Inr ''/run''" by (simp add: toy_view_def)
  from writers_refused [OF dir path, where x = demo_ext and fuel = 9 and format = "''text''" and w = "demo_world empty_db"
      and gv' = "toy_view\<lparr>gv_entries := []\<rparr>"] live
  show ?thesis by simp
qed

end
