(* ===== verification/SidecarLaws.thy ===== *)
theory SidecarLaws
  imports Sidecar
begin

text \<open>
  What the sidecar's pid files say, how often it is restarted, and that the processes which start
  it side by side end up with one of it.
\<close>

section \<open>Files\<close>

lemma digit_not_ws: "is_digit c \<Longrightarrow> \<not> is_ws c"
  by (auto simp: is_digit_def is_ws_def Let_def)

lemma show_nat_chars: "c \<in> set (show_nat n) \<Longrightarrow> is_digit c"
  using show_nat_digits [of n] by (auto simp: list_all_iff)

lemma trim_start_id: "s = [] \<or> \<not> is_ws (hd s) \<Longrightarrow> trim_start s = s"
  by (cases s) (auto simp: trim_start_def)

lemma trim_id: "s \<noteq> [] \<Longrightarrow> \<not> is_ws (hd s) \<Longrightarrow> \<not> is_ws (last s) \<Longrightarrow> trim s = s"
  by (simp add: trim_def trim_start_id hd_rev)

lemma ws_show_nat: "\<not> is_ws (hd (show_nat n))" "\<not> is_ws (last (show_nat n))"
  using show_nat_digits [of n] by (metis digit_not_ws show_nat_chars hd_in_set) (metis digit_not_ws show_nat_chars show_nat_digits last_in_set)

lemma trim_show_nat: "trim (show_nat n) = show_nat n"
  using show_nat_digits [of n] by (simp add: trim_id ws_show_nat)

lemma parse_uint_show: "n < 2 ^ w \<Longrightarrow> w \<le> 64 \<Longrightarrow> parse_uint w (show_nat n) = Some n"
proof -
  assume n: "n < 2 ^ w" "w \<le> 64"
  then have "n < 2 ^ 64" by (meson less_le_trans one_le_numeral power_increasing)
  with n show ?thesis by (simp add: parse_uint_def parse_u64_show)
qed

lemma read_pid_text: "pid < 2 ^ 32 \<Longrightarrow> read_pid (Some (pid_text pid)) = Some pid"
  by (simp add: read_pid_def pid_text_def trim_show_nat parse_uint_show)

lemma split_once_found: "c \<notin> set s \<Longrightarrow> split_once c (s @ c # t) = Some (s, t)"
  by (induction s) auto

lemma read_port_text:
  assumes "pid < 2 ^ 32" and "port < 2 ^ 16"
  shows "read_port_file (Some (port_text pid port)) = Some (pid, port)"
proof -
  have "CHR '' '' \<notin> set (show_nat pid)"
    using show_nat_chars [of "CHR '' ''" pid] by (auto simp: is_digit_def)
  moreover have "trim (port_text pid port) = port_text pid port"
    using show_nat_digits by (intro trim_id) (simp_all add: port_text_def hd_append ws_show_nat)
  ultimately show ?thesis
    using assms by (simp add: read_port_file_def port_text_def split_once_found trim_show_nat parse_uint_show)
qed

text \<open>
  C32. What a starter records is what the next one reads: the pid of the sidecar, and its port
  under that pid only.
\<close>

theorem pid_files_roundtrip:
  assumes "write_pid_files None None pid port fs = (Inr (), fs')" and "pid < 2 ^ 32" and "port < 2 ^ 16"
  shows "read_pid (sf_pid fs') = Some pid
    \<and> (\<forall>other. recorded_port other fs' = (if other = pid then Some port else None))"
proof -
  have fs: "fs' = fs\<lparr>sf_pid := Some (pid_text pid), sf_port := Some (port_text pid port)\<rparr>"
    using assms(1) by (simp add: write_pid_files_def)
  show ?thesis using assms(2,3) by (auto simp: fs read_pid_text read_port_text recorded_port_def)
qed

theorem pid_files_roundtrip_witness:
  "\<exists>fs'. read_pid (sf_pid fs') = Some 4711 \<and> recorded_port 4711 fs' = Some 6334 \<and> recorded_port 4712 fs' = None"
proof -
  let ?fs = "\<lparr> sf_pid = Some ''12'', sf_port = None \<rparr>"
  obtain fs' where run: "write_pid_files None None 4711 6334 ?fs = (Inr (), fs')" by (simp add: write_pid_files_def)
  from pid_files_roundtrip [OF run] show ?thesis by (intro exI [of _ fs']) simp
qed

section \<open>Restarts\<close>

definition budget_ok :: "watcher \<Rightarrow> bool" where
  "budget_ok w \<longleftrightarrow> (\<exists>gone. wt_charged w = gone @ wt_spent w \<and> (\<forall>t\<in>set gone. RESTART_WINDOW < wt_clock w - t))
    \<and> (\<forall>i. i + RESTART_LIMIT < length (wt_charged w) \<longrightarrow> RESTART_WINDOW < wt_charged w ! (i + RESTART_LIMIT) - wt_charged w ! i)"

lemma trimmed:
  assumes "xs = dropWhile p ys"
  shows "ys = takeWhile p ys @ xs" "\<forall>t\<in>set (takeWhile p ys). p t" "length xs \<le> length ys"
  using assms by (auto simp: length_dropWhile_le dest: set_takeWhileD)

lemma budget_turn:
  assumes ok: "budget_ok w" and now: "wt_clock w \<le> now" and kept: "available now (wt_spent w) = (free, kept)"
  shows "budget_ok (w\<lparr>wt_spent := kept, wt_clock := now\<rparr>)"
    and "free \<Longrightarrow> budget_ok (charge now (w\<lparr>wt_spent := kept, wt_clock := now\<rparr>))"
proof -
  let ?w = "w\<lparr>wt_spent := kept, wt_clock := now\<rparr>"
  from ok obtain gone where gone: "wt_charged w = gone @ wt_spent w" "\<forall>t\<in>set gone. RESTART_WINDOW < wt_clock w - t"
    by (auto simp: budget_ok_def)
  have window: "0 \<le> RESTART_WINDOW" by (simp add: RESTART_WINDOW_def nanos_per_second_def)
  define old where "old = takeWhile (\<lambda>t. RESTART_WINDOW < max 0 (now - t)) (wt_spent w)"
  have kept': "kept = dropWhile (\<lambda>t. RESTART_WINDOW < max 0 (now - t)) (wt_spent w)" "free \<longleftrightarrow> length kept < RESTART_LIMIT"
    using kept by (auto simp: available_def Let_def)
  have split: "wt_charged w = (gone @ old) @ kept" "\<forall>t\<in>set (gone @ old). RESTART_WINDOW < now - t"
    "length kept \<le> length (wt_spent w)"
    using trimmed [OF kept'(1)] gone now window by (force simp: old_def)+
  show turn: "budget_ok ?w"
    using ok split unfolding budget_ok_def by (intro conjI exI [of _ "gone @ old"]) simp_all
  assume free
  with kept' have room: "length kept < RESTART_LIMIT" by simp
  have "RESTART_WINDOW < (wt_charged w @ [now]) ! (i + RESTART_LIMIT) - (wt_charged w @ [now]) ! i"
    if i: "i + RESTART_LIMIT < length (wt_charged w @ [now])" for i
  proof (cases "i + RESTART_LIMIT < length (wt_charged w)")
    case True
    with ok show ?thesis by (simp add: budget_ok_def nth_append)
  next
    case False
    with i have last: "i + RESTART_LIMIT = length (wt_charged w)" by simp
    with split(1) room have "i < length (gone @ old)" by simp
    with split have "RESTART_WINDOW < now - wt_charged w ! i" by (metis nth_append nth_mem)
    with last show ?thesis by (simp add: nth_append RESTART_LIMIT_def)
  qed
  with split show "budget_ok (charge now ?w)"
    unfolding budget_ok_def charge_def spend_def by (intro conjI exI [of _ "gone @ old"]) simp_all
qed

lemma budget_same:
  "budget_ok w \<Longrightarrow> wt_charged v = wt_charged w \<Longrightarrow> wt_spent v = wt_spent w \<Longrightarrow> wt_clock v = wt_clock w \<Longrightarrow> budget_ok v"
  by (simp add: budget_ok_def)

lemma budget_new: "budget_ok (new_watcher st now)"
  by (simp add: budget_ok_def new_watcher_def)

lemma budget_step:
  assumes ok: "budget_ok w" and run: "watch_step ev w = Some v"
  shows "budget_ok v"
proof (cases ev)
  case (ExitSeen stopped)
  with run show ?thesis
    by (intro budget_same [OF ok]) (auto simp: watch_step_def wait_for_exit_def split: if_splits)
next
  case (Attempt stopped now start)
  obtain free kept where kept: "available now (wt_spent w) = (free, kept)" by fastforce
  define u where "u = w\<lparr>wt_spent := kept, wt_clock := now\<rparr>"
  from Attempt run kept have "wt_clock w \<le> now" and
    "v = w\<lparr>wt_over := True\<rparr> \<or> v = u \<or> free \<and> v = charge now u \<or>
     (\<exists>st. v = u\<lparr>wt_current := Some st, wt_pid := sd_pid st\<rparr> \<or> free \<and> v = (charge now u)\<lparr>wt_current := Some st, wt_pid := sd_pid st\<rparr>)"
    by (auto simp: watch_step_def restart_def u_def Let_def split: if_splits sum.splits)
  with budget_turn [OF ok _ kept, folded u_def] show ?thesis
    by (auto intro: budget_same [OF ok] budget_same [of u] budget_same [of "charge now u"])
qed

text \<open>
  C25. A watcher does not restart Qdrant in a loop: of the starts and failed starts it is charged
  for, any four in a row are spread over more than ten minutes. Finding a Qdrant that another
  process has restarted is free.
\<close>

theorem restart_rate:
  assumes "watch_reachable w" and "i + 3 < length (wt_charged w)"
  shows "600 * nanos_per_second < wt_charged w ! (i + 3) - wt_charged w ! i"
proof -
  have "budget_ok w"
    by (rule watchers.invariant [OF assms(1)]) (auto intro: budget_new budget_step)
  with assms(2) show ?thesis by (simp add: budget_ok_def RESTART_LIMIT_def RESTART_WINDOW_def)
qed

text \<open>Four attempts: three fail within seconds, the fourth has to wait.\<close>

theorem restart_rate_witness:
  "\<exists>w. run_events watch_step
      [ExitSeen False, Attempt False 1 (Inl (SidecarErr ''a'')), Attempt False 2 (Inl (SidecarErr ''b'')),
       Attempt False 3 (Inl (SidecarErr ''c'')), Attempt False 600000000001 (Inr \<lparr> sd_pid = 8, sd_child = True \<rparr>),
       Attempt False 600000000002 (Inr \<lparr> sd_pid = 9, sd_child = True \<rparr>)]
      (new_watcher \<lparr> sd_pid = 7, sd_child = True \<rparr> 0) = Some w
    \<and> wt_charged w = [1, 2, 3, 600000000002] \<and> 600 * nanos_per_second < wt_charged w ! 3 - wt_charged w ! 0"
proof -
  let ?evs = "[ExitSeen False, Attempt False 1 (Inl (SidecarErr ''a'')), Attempt False 2 (Inl (SidecarErr ''b'')),
       Attempt False 3 (Inl (SidecarErr ''c'')), Attempt False 600000000001 (Inr \<lparr> sd_pid = 8, sd_child = True \<rparr>),
       Attempt False 600000000002 (Inr \<lparr> sd_pid = 9, sd_child = True \<rparr>)]"
  let ?w = "new_watcher \<lparr> sd_pid = 7, sd_child = True \<rparr> 0"
  obtain w where run: "run_events watch_step ?evs ?w = Some w" and charged: "wt_charged w = [1, 2, 3, 600000000002]"
    by (simp add: watch_step_def wait_for_exit_def restart_def new_watcher_def available_def charge_def spend_def Let_def
        RESTART_WINDOW_def RESTART_LIMIT_def nanos_per_second_def)
  have "watch_reachable w" by (rule watchers.run_from_start [OF run]) blast
  from restart_rate [OF this, of 0] run charged show ?thesis by simp
qed

section \<open>One sidecar\<close>

text \<open>The sidecars that run and are not about to be killed by the process that has started them.\<close>

definition settled :: "sidecar_state \<Rightarrow> nat set" where
  "settled s = {d \<in> sc_live s \<inter> sc_born s. \<forall>i. sc_at s i \<noteq> Killing d}"

definition named :: "sidecar_state \<Rightarrow> nat \<Rightarrow> bool" where
  "named s d \<longleftrightarrow> read_pid (sf_pid (sc_files s)) = Some d"

definition has_lock :: "starter_at \<Rightarrow> bool" where
  "has_lock a = (case a of Resolving \<Rightarrow> True | Relooking _ \<Rightarrow> True | ToSpawn \<Rightarrow> True | Spawned _ \<Rightarrow> True
     | Named _ \<Rightarrow> True | Removing _ \<Rightarrow> True | _ \<Rightarrow> False)"

text \<open>What a starter relies on in each of its states.\<close>

definition at_ok :: "(nat \<Rightarrow> nat \<Rightarrow> bool) \<Rightarrow> sidecar_state \<Rightarrow> nat \<Rightarrow> starter_at \<Rightarrow> bool" where
  "at_ok knows s i a = (case a of
     Probing e _ \<Rightarrow> \<not> knows i e | Retaking e \<Rightarrow> \<not> knows i e | Relooking e \<Rightarrow> \<not> knows i e
   | ToSpawn \<Rightarrow> settled s = {}
   | Spawned d \<Rightarrow> settled s \<subseteq> {d} \<and> d \<in> sc_born s \<and> d < 2 ^ 31
   | Killing d \<Rightarrow> d \<in> sc_born s
   | Named d \<Rightarrow> d \<in> sc_born s | Checking d \<Rightarrow> d \<in> sc_born s | Owner d \<Rightarrow> d \<in> sc_born s
   | Unnaming d \<Rightarrow> d \<in> sc_born s - sc_live s | Removing d \<Rightarrow> d \<in> sc_born s - sc_live s
   | _ \<Rightarrow> True)"

definition starters_ok :: "(nat \<Rightarrow> nat \<Rightarrow> bool) \<Rightarrow> sidecar_state \<Rightarrow> bool" where
  "starters_ok knows s \<longleftrightarrow> (\<forall>i. has_lock (sc_at s i) \<longleftrightarrow> sc_lock s = Some i) \<and> (\<forall>i. at_ok knows s i (sc_at s i))
    \<and> (\<forall>d\<in>settled s. named s d \<or> (\<exists>i. sc_at s i = Spawned d))"

text \<open>
  A step that moves starter \<open>i\<close> to \<open>a\<close>: the lock follows its state, nothing becomes settled
  unless it is named or the child of \<open>i\<close>, and what the others rely on stays.
\<close>

lemma starters_okI:
  assumes ok: "starters_ok knows s" and at: "sc_at t = (sc_at s)(i := a)"
    and lock: "if has_lock a then (sc_lock s = None \<or> sc_lock s = Some i) \<and> sc_lock t = Some i
      else sc_lock t = (if sc_lock s = Some i then None else sc_lock s)"
    and less: "settled t \<subseteq> settled s \<or> has_lock (sc_at s i) \<and> has_lock a" "sc_born s \<subseteq> sc_born t"
      "sc_live t \<inter> sc_born s \<subseteq> sc_live s"
    and a: "at_ok knows t i a"
    and named: "\<And>d. d \<in> settled t \<Longrightarrow> named t d \<or> a = Spawned d \<or> (\<exists>j. j \<noteq> i \<and> sc_at s j = Spawned d)"
  shows "starters_ok knows t"
proof -
  have locks: "has_lock (sc_at s j) \<longleftrightarrow> sc_lock s = Some j" for j using ok by (simp add: starters_ok_def)
  have "at_ok knows t j (sc_at t j)" for j
  proof (cases "j = i")
    case True
    with a show ?thesis by (simp add: at)
  next
    case False
    have "settled t \<subseteq> settled s \<or> \<not> has_lock (sc_at s j)"
      using less(1) locks [of i] locks [of j] False by auto
    moreover have "at_ok knows s j (sc_at s j)" using ok by (simp add: starters_ok_def)
    ultimately show ?thesis
      using less(2,3) False by (auto simp: at at_ok_def has_lock_def split: starter_at.splits)
  qed
  moreover have "has_lock (sc_at t j) \<longleftrightarrow> sc_lock t = Some j" for j
    using lock locks [of j] by (cases "j = i") (auto simp: at split: if_splits)
  moreover have "named t d \<or> (\<exists>j. sc_at t j = Spawned d)" if "d \<in> settled t" for d
    using named [OF that] by (auto simp: at)
  ultimately show ?thesis by (simp add: starters_ok_def)
qed

lemma settled_less:
  assumes "sc_at t = (sc_at s)(i := a)" and "sc_live t \<subseteq> sc_live s" and "sc_born t = sc_born s"
    and "\<And>d. sc_at s i = Killing d \<Longrightarrow> d \<notin> sc_live t \<or> a = Killing d"
  shows "settled t \<subseteq> settled s"
proof
  fix d assume d: "d \<in> settled t"
  have "sc_at s j \<noteq> Killing d" for j
    using d assms(1,4) by (cases "j = i") (auto simp: settled_def split: if_splits)
  with d assms(2,3) show "d \<in> settled s" by (auto simp: settled_def)
qed

text \<open>A step that changes neither the processes nor the files.\<close>

lemma starters_move:
  assumes ok: "starters_ok knows s" and at: "sc_at t = (sc_at s)(i := a)"
    and same: "sc_live t = sc_live s" "sc_born t = sc_born s" "sc_files t = sc_files s"
    and lock: "if has_lock a then (sc_lock s = None \<or> sc_lock s = Some i) \<and> sc_lock t = Some i
      else sc_lock t = (if sc_lock s = Some i then None else sc_lock s)"
    and killing: "\<And>d. sc_at s i = Killing d \<Longrightarrow> d \<notin> sc_live s \<or> a = Killing d"
    and spawned: "\<And>d. sc_at s i = Spawned d \<Longrightarrow> d \<notin> settled t"
    and a: "at_ok knows t i a"
  shows "starters_ok knows t"
proof -
  have less: "settled t \<subseteq> settled s" by (rule settled_less [OF at]) (use same killing in auto)
  show ?thesis
  proof (rule starters_okI [OF ok at lock])
    fix d assume d: "d \<in> settled t"
    with less ok have "named s d \<or> (\<exists>j. sc_at s j = Spawned d)" by (auto simp: starters_ok_def)
    with spawned [of d] d show "named t d \<or> a = Spawned d \<or> (\<exists>j. j \<noteq> i \<and> sc_at s j = Spawned d)"
      by (auto simp: named_def same) metis
  qed (use less same a in auto)
qed

lemma lock_free: "starters_ok knows s \<Longrightarrow> \<not> has_lock (sc_at s i) \<Longrightarrow> sc_lock s \<noteq> Some i"
  by (simp add: starters_ok_def)

lemma lock_held: "starters_ok knows s \<Longrightarrow> has_lock (sc_at s i) \<Longrightarrow> sc_lock s = Some i"
  by (simp add: starters_ok_def)

lemma at_okD: "starters_ok knows s \<Longrightarrow> at_ok knows s i (sc_at s i)"
  by (simp add: starters_ok_def)

lemma settledD: "starters_ok knows s \<Longrightarrow> d \<in> settled s \<Longrightarrow> named s d \<or> (\<exists>i. sc_at s i = Spawned d)"
  by (simp add: starters_ok_def)

lemma only_child: "starters_ok knows s \<Longrightarrow> sc_at s i = Spawned d \<Longrightarrow> settled s \<subseteq> {d}"
  using at_okD [of knows s i] by (simp add: at_ok_def)

lemma settled_one:
  assumes ok: "starters_ok knows s" and c: "c \<in> settled s" and d: "d \<in> settled s"
  shows "c = d"
proof (cases "named s c \<and> named s d")
  case True
  then show ?thesis unfolding named_def by (metis option.inject)
next
  case False
  then obtain i where "sc_at s i = Spawned c \<or> sc_at s i = Spawned d"
    using settledD [OF ok c] settledD [OF ok d] by blast
  then show ?thesis using only_child [OF ok] c d by blast
qed

text \<open>To the holder of the lock a settled sidecar is its own child or the one in the file.\<close>

lemma holder_sees:
  assumes "starters_ok knows s" and "has_lock (sc_at s i)" and "d \<in> settled s" and "sc_at s i \<noteq> Spawned d"
  shows "named s d"
proof -
  from assms(1,3) consider "named s d" | j where "sc_at s j = Spawned d" by (auto simp: starters_ok_def)
  then show ?thesis
  proof cases
    case (2 j)
    with assms(1,2) have "j = i" by (auto simp: starters_ok_def has_lock_def)
    with 2 assms(4) show ?thesis by simp
  qed
qed

lemmas sc_defs = sc_goto_def sc_unlock_def has_lock_def at_ok_def

lemma starters_goto:
  assumes ok: "starters_ok knows s" and lock: "has_lock a \<longleftrightarrow> has_lock (sc_at s i)"
    and simple: "\<And>d. sc_at s i \<noteq> Spawned d \<and> sc_at s i \<noteq> Killing d" and a: "at_ok knows (sc_goto i a s) i a"
  shows "starters_ok knows (sc_goto i a s)"
  using lock_free [OF ok, of i] lock_held [OF ok, of i] lock simple a
  by (intro starters_move [OF ok, of _ i a]) (auto simp: sc_goto_def)

lemma starters_goto_unlock:
  assumes ok: "starters_ok knows s" and lock: "\<not> has_lock a"
    and simple: "\<And>d. sc_at s i = Spawned d \<or> sc_at s i = Killing d \<Longrightarrow> d \<notin> sc_live s" and a: "at_ok knows (sc_goto i a (sc_unlock i s)) i a"
  shows "starters_ok knows (sc_goto i a (sc_unlock i s))"
  using lock simple a
  by (intro starters_move [OF ok, of _ i a]) (auto simp: sc_goto_def sc_unlock_def settled_def)

lemma starters_goto_lock:
  assumes ok: "starters_ok knows s" and free: "sc_lock s = None" and lock: "has_lock a"
    and simple: "\<And>d. sc_at s i \<noteq> Killing d" and a: "at_ok knows (sc_goto i a (s\<lparr>sc_lock := Some i\<rparr>)) i a"
  shows "starters_ok knows (sc_goto i a (s\<lparr>sc_lock := Some i\<rparr>))"
  using free lock simple a lock_held [OF ok, of i]
  by (intro starters_move [OF ok, of _ i a]) (auto simp: sc_goto_def has_lock_def)

lemmas goto_simps = sc_goto_def sc_unlock_def at_ok_def has_lock_def

lemma starters_step_lock:
  assumes ok: "starters_ok knows s" and run: "sidecar_step knows ports (TakesLock i) s = Some t"
  shows "starters_ok knows t"
  using run at_okD [OF ok, of i]
  by (auto simp: sidecar_step_def Let_def at_ok_def split: if_splits starter_at.splits
      intro!: starters_goto_lock [OF ok]) (auto simp: goto_simps)

lemma starters_step_simple:
  assumes ok: "starters_ok knows s"
    and ev: "ev \<in> {Starts i, LockTimesOut i, Probes i b, SpawnFails i, DropsLock i, Healthy i, LetsGo i}"
    and run: "sidecar_step knows ports ev s = Some t"
  shows "starters_ok knows t"
  using run ev at_okD [OF ok, of i]
  by (auto simp: sidecar_step_def at_ok_def remove_pid_files_if_ours_def after_probe_def
      split: if_splits starter_at.splits option.splits sum.splits look.splits
      intro!: starters_goto [OF ok] starters_goto_unlock [OF ok]) (auto simp: goto_simps)

text \<open>Giving the child up: it is no longer settled.\<close>

lemma starters_give_up:
  assumes ok: "starters_ok knows s" and at: "sc_at s i \<in> {Spawned d, Checking d, Owner d}"
  shows "starters_ok knows (sc_goto i (Killing d) (sc_unlock i s))"
  using at at_okD [OF ok, of i]
  by (intro starters_move [OF ok, of _ i "Killing d"]) (auto simp: goto_simps settled_def)

lemma unlock_free: "starters_ok knows s \<Longrightarrow> \<not> has_lock (sc_at s i) \<Longrightarrow> sc_unlock i s = s"
  using lock_free [of knows s i] by (simp add: sc_unlock_def)

lemma starters_step_give_up:
  assumes ok: "starters_ok knows s" and ev: "ev \<in> {Unhealthy i, ShutsDown i}" and run: "sidecar_step knows ports ev s = Some t"
  shows "starters_ok knows t"
proof -
  from ev run consider e where "sc_at s i = Reuser e" "t = sc_goto i NotStarting s"
    | d where "sc_at s i \<in> {Checking d, Owner d}" "t = sc_goto i (Killing d) s"
    by (auto simp: sidecar_step_def split: starter_at.splits)
  then show ?thesis
  proof cases
    case (1 e)
    with starters_goto [OF ok, of NotStarting i] show ?thesis by (simp add: has_lock_def at_ok_def)
  next
    case (2 d)
    then have "sc_unlock i s = s" by (auto intro!: unlock_free [OF ok] simp: has_lock_def)
    with 2 starters_give_up [OF ok, of i d] show ?thesis by auto
  qed
qed

text \<open>Only the child a starter has just put into the file can be settled.\<close>

lemma starters_step_writes:
  assumes ok: "starters_ok knows s" and run: "sidecar_step knows ports (Writes i fails_pid fails_port) s = Some t"
  shows "starters_ok knows t"
proof -
  from run obtain d where at: "sc_at s i = Spawned d" by (auto simp: sidecar_step_def split: starter_at.splits)
  with at_okD [OF ok, of i] have only: "settled s \<subseteq> {d}" and d: "d < 2 ^ 31" "d \<in> sc_born s" by (auto simp: at_ok_def)
  have less: "settled t \<subseteq> settled s"
    using run at by (intro settled_less [of t s i "sc_at t i"])
      (auto simp: sidecar_step_def goto_simps split: option.splits sum.splits prod.splits)
  have "d \<notin> settled t" if "sc_at t i = Killing d" using that by (auto simp: settled_def)
  with less only have killed: "settled t = {}" if "sc_at t i = Killing d" using that by blast
  have lock: "sc_lock s = Some i" using lock_held [OF ok] at by (simp add: has_lock_def)
  have cases: "sc_at t i = Killing d \<and> sc_lock t = None \<or> sc_at t i = Named d \<and> sc_lock t = Some i \<and> named t d"
    using run at lock read_pid_text [of d] d
    by (auto simp: sidecar_step_def sc_goto_def sc_unlock_def write_pid_files_def named_def split: option.splits)
  show ?thesis
  proof (rule starters_okI [OF ok, of t i "sc_at t i"])
    show "sc_at t = (sc_at s)(i := sc_at t i)" "sc_born s \<subseteq> sc_born t" "sc_live t \<inter> sc_born s \<subseteq> sc_live s"
      using run at by (auto simp: sidecar_step_def sc_goto_def sc_unlock_def split: option.splits sum.splits prod.splits)
    then show "at_ok knows t i (sc_at t i)" using cases d by (auto simp: at_ok_def)
    show "if has_lock (sc_at t i) then (sc_lock s = None \<or> sc_lock s = Some i) \<and> sc_lock t = Some i
      else sc_lock t = (if sc_lock s = Some i then None else sc_lock s)"
      using cases lock by (auto simp: has_lock_def)
    show "named t c \<or> sc_at t i = Spawned c \<or> (\<exists>j. j \<noteq> i \<and> sc_at s j = Spawned c)" if "c \<in> settled t" for c
      using that killed cases less only by auto
  qed (use less in simp)
qed

lemma starters_step_spawns:
  assumes ok: "starters_ok knows s" and run: "sidecar_step knows ports (Spawns i d) s = Some t"
  shows "starters_ok knows t"
proof -
  from run have at: "sc_at s i = ToSpawn" and free: "sc_free d s"
    and t: "t = sc_goto i (Spawned d) (s\<lparr>sc_live := insert d (sc_live s), sc_born := insert d (sc_born s)\<rparr>)"
    by (auto simp: sidecar_step_def split: if_splits)
  have none: "settled s = {}" using at_okD [OF ok, of i] at by (simp add: at_ok_def)
  have only: "settled t \<subseteq> {d}"
  proof
    fix c assume c: "c \<in> settled t"
    show "c \<in> {d}"
    proof (rule ccontr)
      assume "c \<notin> {d}"
      with c at have "c \<in> settled s"
        by (auto simp: settled_def t sc_goto_def split: if_splits) (metis starter_at.distinct(148) starter_at.simps)
      with none show False by simp
    qed
  qed
  show ?thesis
    using only at free lock_held [OF ok, of i]
    by (intro starters_okI [OF ok, of t i "Spawned d"]) (auto simp: t goto_simps sc_free_def)
qed

text \<open>Removing the files of a sidecar that is not settled, with the lock held.\<close>

lemma starters_to_spawn:
  assumes ok: "starters_ok knows s" and at: "sc_at s i = Resolving \<or> sc_at s i = Relooking e"
    and gone: "\<And>d. d \<in> settled s \<Longrightarrow> \<not> named s d"
    and t: "t = sc_goto i ToSpawn (s\<lparr>sc_files := fs\<rparr>)"
  shows "starters_ok knows t"
proof -
  have none: "settled s = {}" using holder_sees [OF ok, of i] at gone by (auto simp: has_lock_def)
  have "settled t \<subseteq> settled s" using at by (intro settled_less [of t s i ToSpawn]) (auto simp: t sc_goto_def)
  with none have "settled t = {}" by simp
  with at lock_held [OF ok, of i] show ?thesis
    by (intro starters_okI [OF ok, of t i ToSpawn]) (auto simp: t goto_simps)
qed

lemma starters_step_looks:
  assumes ok: "starters_ok knows s" and run: "sidecar_step knows ports (Looks i) s = Some t"
  shows "starters_ok knows t"
proof -
  from run have at: "sc_at s i = Resolving" by (auto simp: sidecar_step_def split: if_splits)
  then have simple: "sc_at s i \<noteq> Spawned d \<and> sc_at s i \<noteq> Killing d" for d by simp
  show ?thesis
  proof (cases "resolve_look (\<lambda>e. e \<in> sc_live s) (knows i) (ports i) (sc_files s)")
    case (LookSpawn stale)
    then have "\<not> named s d" if "d \<in> settled s" for d
      using that by (auto simp: resolve_look_def named_def settled_def Let_def split: option.splits if_splits sum.splits)
    moreover have "t = sc_goto i ToSpawn (s\<lparr>sc_files := if stale then remove_pid_files (sc_files s) else sc_files s\<rparr>)"
      using run at LookSpawn by (cases stale) (simp_all add: sidecar_step_def)
    ultimately show ?thesis using starters_to_spawn [OF ok] at by blast
  next
    case (LookProbe e recorded)
    then have "\<not> knows i e" by (auto simp: resolve_look_def Let_def split: option.splits if_splits sum.splits)
    with run at LookProbe simple show ?thesis
      by (simp add: sidecar_step_def) (auto intro!: starters_goto_unlock [OF ok] simp: has_lock_def at_ok_def)
  qed (use run at simple in \<open>auto simp: sidecar_step_def has_lock_def at_ok_def intro!: starters_goto_unlock [OF ok]\<close>)
qed

lemma starters_step_looks_again:
  assumes ok: "starters_ok knows s" and known: "\<And>d. d \<in> sc_born s \<Longrightarrow> knows i d"
    and run: "sidecar_step knows ports (LooksAgain i) s = Some t"
  shows "starters_ok knows t"
proof -
  from run obtain e where at: "sc_at s i = Relooking e" by (auto simp: sidecar_step_def split: starter_at.splits)
  then have e: "\<not> knows i e" using at_okD [OF ok, of i] by (simp add: at_ok_def)
  show ?thesis
  proof (cases "replaces e (sc_files s)")
    case True
    with e known have "\<not> named s d" if "d \<in> settled s" for d
      using that by (auto simp: replaces_def named_def settled_def)
    moreover have "t = sc_goto i ToSpawn (s\<lparr>sc_files := remove_pid_files (sc_files s)\<rparr>)"
      using run at True by (simp add: sidecar_step_def)
    ultimately show ?thesis using starters_to_spawn [OF ok] at by blast
  next
    case False
    with run at starters_goto [OF ok, of Resolving i] show ?thesis by (simp add: sidecar_step_def has_lock_def at_ok_def)
  qed
qed

lemma starters_step_kills:
  assumes ok: "starters_ok knows s" and run: "sidecar_step knows ports (Kills i) s = Some t"
  shows "starters_ok knows t"
proof -
  from run obtain d where at: "sc_at s i = Killing d" and t: "t = sc_goto i (Unnaming d) (s\<lparr>sc_live := sc_live s - {d}\<rparr>)"
    by (auto simp: sidecar_step_def split: starter_at.splits)
  have less: "settled t \<subseteq> settled s"
    using at by (intro settled_less [of t s i "Unnaming d"]) (auto simp: t sc_goto_def)
  show ?thesis
  proof (rule starters_okI [OF ok, of t i "Unnaming d"])
    fix c assume "c \<in> settled t"
    with less have "c \<in> settled s" by blast
    then consider "named s c" | j where "sc_at s j = Spawned c" using settledD [OF ok] by blast
    then show "named t c \<or> Unnaming d = Spawned c \<or> (\<exists>j. j \<noteq> i \<and> sc_at s j = Spawned c)"
    proof cases
      case (2 j)
      with at have "j \<noteq> i" by auto
      with 2 show ?thesis by blast
    qed (simp add: t sc_goto_def named_def)
  qed (use at less at_okD [OF ok, of i] lock_free [OF ok, of i] in \<open>auto simp: t goto_simps\<close>)
qed

lemma starters_step_unnames:
  assumes ok: "starters_ok knows s" and run: "sidecar_step knows ports (Unnames i) s = Some t"
  shows "starters_ok knows t"
proof -
  from run obtain d where at: "sc_at s i = Removing d"
    and t: "t = sc_goto i NotStarting (sc_unlock i (s\<lparr>sc_files := remove_pid_files_if_ours True d (sc_files s)\<rparr>))"
    by (auto simp: sidecar_step_def split: starter_at.splits)
  have less: "settled t \<subseteq> settled s"
    using at by (intro settled_less [of t s i NotStarting]) (auto simp: t sc_goto_def sc_unlock_def)
  have d: "d \<notin> settled s" using at_okD [OF ok, of i] at by (auto simp: at_ok_def settled_def)
  show ?thesis
  proof (rule starters_okI [OF ok, of t i NotStarting])
    fix c assume c: "c \<in> settled t"
    with less holder_sees [OF ok, of i c] at have "named s c" by (auto simp: has_lock_def)
    with d c less show "named t c \<or> NotStarting = Spawned c \<or> (\<exists>j. j \<noteq> i \<and> sc_at s j = Spawned c)"
      by (auto simp: t sc_goto_def sc_unlock_def named_def remove_pid_files_if_ours_def)
  qed (use at less lock_held [OF ok, of i] in \<open>auto simp: t goto_simps\<close>)
qed

text \<open>A process that ends, and one that starts under a pid no sidecar has had.\<close>

lemma starters_step_process:
  assumes ok: "starters_ok knows s" and ev: "ev \<in> {Exits d, OtherStarts d}" and run: "sidecar_step knows ports ev s = Some t"
  shows "starters_ok knows t"
proof -
  have at: "sc_at t = (sc_at s)(0 := sc_at s 0)" "sc_lock t = sc_lock s" "sc_born t = sc_born s" "sc_files t = sc_files s"
    "sc_live t \<inter> sc_born s \<subseteq> sc_live s"
    using ev run by (auto simp: sidecar_step_def sc_free_def split: if_splits)
  then have less: "settled t \<subseteq> settled s" by (auto simp: settled_def)
  show ?thesis
  proof (rule starters_okI [OF ok at(1)])
    show "at_ok knows t 0 (sc_at s 0)"
      using at_okD [OF ok, of 0] less at(3,5) by (auto simp: at_ok_def split: starter_at.splits)
    fix c assume "c \<in> settled t"
    with less ok at(4) have "named t c \<or> (\<exists>j. sc_at s j = Spawned c)" by (auto simp: starters_ok_def named_def)
    then show "named t c \<or> sc_at s 0 = Spawned c \<or> (\<exists>j. j \<noteq> 0 \<and> sc_at s j = Spawned c)" by metis
  qed (use at less lock_held [OF ok, of 0] lock_free [OF ok, of 0] in auto)
qed

lemma starters_step_dies:
  assumes ok: "starters_ok knows s" and calm: "sc_orderly (StarterDies i) s"
  shows "starters_ok knows (sc_goto i NotStarting (sc_unlock i s))"
  using calm by (intro starters_goto_unlock [OF ok]) (auto simp: sc_orderly_def has_lock_def at_ok_def)

lemma starters_step:
  assumes ok: "starters_ok knows s" and known: "\<And>i d. d \<in> sc_born s \<Longrightarrow> knows i d"
    and run: "sidecar_orderly knows ports ev s = Some t"
  shows "starters_ok knows t"
proof -
  from run have calm: "sc_orderly ev s" and step: "sidecar_step knows ports ev s = Some t"
    by (auto simp: sidecar_orderly_def split: if_splits)
  show ?thesis
  proof (cases ev)
    case (StarterDies i)
    with calm step starters_step_dies [OF ok] show ?thesis by (auto simp: sidecar_step_def)
  next
    case (LooksAgain i)
    with step starters_step_looks_again [OF ok known] show ?thesis by simp
  qed (use step in \<open>auto intro: starters_step_simple [OF ok] starters_step_lock [OF ok] starters_step_looks [OF ok]
      starters_step_spawns [OF ok] starters_step_writes [OF ok] starters_step_give_up [OF ok] starters_step_kills [OF ok]
      starters_step_unnames [OF ok] starters_step_process [OF ok]\<close>)
qed

lemma born_grows: "sidecar_orderly knows ports ev s = Some t \<Longrightarrow> sc_born s \<subseteq> sc_born t"
  by (cases ev) (auto simp: sidecar_orderly_def sidecar_step_def Let_def sc_goto_def sc_unlock_def
      split: if_splits starter_at.splits option.splits look.splits sum.splits prod.splits)

lemma starters_start: "sc_quiet s \<Longrightarrow> starters_ok knows s"
  by (simp add: sc_quiet_def starters_ok_def settled_def has_lock_def at_ok_def)

text \<open>
  C15. One sidecar. However many processes start, share, restart, shut down and lose Qdrant at the
  same time, at most one Qdrant runs that its starter is not about to kill, and the pid file names
  it as soon as the starter has let go of the lock. It is asked that every starter recognises the
  sidecars by the name of their process, that pids are not used twice, and that no starter dies
  while its child is not in the file.
\<close>

theorem one_sidecar:
  assumes "sidecar_reachable knows ports s" and "\<And>i d. d \<in> sc_born s \<Longrightarrow> knows i d" and "d \<in> settled s"
  shows "settled s = {d} \<and> (read_pid (sf_pid (sc_files s)) = Some d \<or> (\<exists>i. sc_lock s = Some i \<and> sc_at s i = Spawned d))"
proof -
  have "(\<forall>i. \<forall>d\<in>sc_born s. knows i d) \<longrightarrow> starters_ok knows s"
  proof (rule starters.invariant [OF assms(1)])
    fix s e t
    assume "(\<forall>i. \<forall>d\<in>sc_born s. knows i d) \<longrightarrow> starters_ok knows s" "sidecar_orderly knows ports e s = Some t"
    then show "(\<forall>i. \<forall>d\<in>sc_born t. knows i d) \<longrightarrow> starters_ok knows t"
      using starters_step born_grows by blast
  qed (simp add: starters_start)
  with assms(2) have ok: "starters_ok knows s" by blast
  have "sc_lock s = Some i" if "sc_at s i = Spawned d" for i
    using lock_held [OF ok, of i] that by (simp add: has_lock_def)
  with settledD [OF ok assms(3)] have "read_pid (sf_pid (sc_files s)) = Some d \<or> (\<exists>i. sc_lock s = Some i \<and> sc_at s i = Spawned d)"
    unfolding named_def by blast
  moreover have "settled s = {d}" using settled_one [OF ok _ assms(3)] assms(3) by blast
  ultimately show ?thesis by simp
qed

text \<open>
  Two starters race: the first spawns and names its child, the second finds it in the file. Then
  the child dies, and the second starts another one.
\<close>

theorem one_sidecar_witness:
  "\<exists>s. run_events (sidecar_orderly (\<lambda>_ _. True) (\<lambda>_. 6334))
      [Starts 0, Starts 1, TakesLock 0, Looks 0, Spawns 0 700, Writes 0 None None, DropsLock 0, TakesLock 1, Looks 1, Healthy 0,
       Exits 700, Unhealthy 1, Starts 1, TakesLock 1, Looks 1, Spawns 1 701, Writes 1 None None]
      \<lparr> sc_files = \<lparr> sf_pid = None, sf_port = None \<rparr>, sc_lock = None, sc_at = (\<lambda>_. NotStarting), sc_live = {}, sc_born = {} \<rparr> = Some s
    \<and> settled s = {701} \<and> read_pid (sf_pid (sc_files s)) = Some 701"
proof -
  let ?evs = "[Starts 0, Starts 1, TakesLock 0, Looks 0, Spawns 0 700, Writes 0 None None, DropsLock 0, TakesLock 1, Looks 1, Healthy 0,
       Exits 700, Unhealthy 1, Starts 1, TakesLock 1, Looks 1, Spawns 1 701, Writes 1 None None]"
  let ?s = "\<lparr> sc_files = \<lparr> sf_pid = None, sf_port = None \<rparr>, sc_lock = None, sc_at = (\<lambda>_. NotStarting), sc_live = {}, sc_born = {} \<rparr>"
  have none [simp]: "read_pid None = None" by (simp add: read_pid_def)
  have port [simp]: "recorded_port 700 \<lparr> sf_pid = p, sf_port = Some (port_text 700 6334) \<rparr> = Some 6334" for p
    by (simp add: recorded_port_def read_port_text)
  obtain s where run: "run_events (sidecar_orderly (\<lambda>_ _. True) (\<lambda>_. 6334)) ?evs ?s = Some s" and up: "701 \<in> settled s"
      and names: "read_pid (sf_pid (sc_files s)) = Some 701"
    by (simp add: sidecar_orderly_def sc_orderly_def sidecar_step_def Let_def sc_goto_def sc_unlock_def sc_free_def settled_def
        resolve_look_def write_pid_files_def check_recorded_port_def remove_pid_files_def MIN_PORT_def read_pid_text)
  have "sidecar_reachable (\<lambda>_ _. True) (\<lambda>_. 6334) s"
    by (rule starters.run_from_start [OF run]) (simp add: sc_quiet_def)
  from one_sidecar [OF this _ up] run names show ?thesis by blast
qed

end
