(* ===== verification/Nuke.thy ===== *)
theory Nuke
  imports Commands AddrLaws SidecarLaws
begin

text \<open>
  The command that deletes everything (\<open>nuke\<close> of \<open>crates/server/src/commands.rs\<close>): its two guards,
  the confirmation, the stopping of the sidecar and the deletions, with the signals it sends and
  the files it deletes in the order in which it does.
\<close>

section \<open>Stopping the sidecar\<close>

datatype signal_result = SignalSent | NoProcess | SignalFails string

definition signal_gone :: "signal_result \<Rightarrow> string + bool" where
  "signal_gone r =
     (case r of SignalSent \<Rightarrow> Inr False | NoProcess \<Rightarrow> Inr True | SignalFails e \<Rightarrow> Inl (''failed to signal qdrant: '' @ e))"

text \<open>
  One turn: whether the process is alive, then whether the grace has run out; \<open>alive\<close> is the last
  look after the loop.
\<close>

fun wait_until_gone :: "(bool \<times> bool) list \<Rightarrow> bool \<Rightarrow> bool option" where
  "wait_until_gone [] alive = None"
| "wait_until_gone ((running, late) # rest) alive =
     (if running \<and> \<not> late then wait_until_gone rest alive else Some (\<not> alive))"

datatype nuke_effect = SendsTerm nat | SendsKill nat | Deletes string

record stop_io =
  st_term :: signal_result
  st_term_polls :: "(bool \<times> bool) list"
  st_term_alive :: bool
  st_kill :: signal_result
  st_kill_polls :: "(bool \<times> bool) list"
  st_kill_alive :: bool

text \<open>Whether the process is gone after the second wait is not looked at.\<close>

definition kill_and_wait :: "nat \<Rightarrow> stop_io \<Rightarrow> ((string + unit) \<times> nuke_effect list) option" where
  "kill_and_wait pid io =
     (if pid = 0 \<or> 2 ^ 31 \<le> pid then Some (Inr (), [])
      else case signal_gone (st_term io) of
        Inl e \<Rightarrow> Some (Inl e, [SendsTerm pid])
      | Inr True \<Rightarrow> Some (Inr (), [SendsTerm pid])
      | Inr False \<Rightarrow> (case wait_until_gone (st_term_polls io) (st_term_alive io) of
            None \<Rightarrow> None
          | Some True \<Rightarrow> Some (Inr (), [SendsTerm pid])
          | Some False \<Rightarrow> (case signal_gone (st_kill io) of
              Inl e \<Rightarrow> Some (Inl e, [SendsTerm pid, SendsKill pid])
            | Inr _ \<Rightarrow> (case wait_until_gone (st_kill_polls io) (st_kill_alive io) of
                None \<Rightarrow> None
              | Some _ \<Rightarrow> Some (Inr (), [SendsTerm pid, SendsKill pid])))))"

record nuke_io =
  nk_home :: "string option"
  nk_canonical :: "string \<Rightarrow> string option"
  nk_run_dir :: "string + string"
  nk_first :: "run_entry list"
  nk_second :: "run_entry list"
  nk_listed :: "string \<Rightarrow> bool"
  nk_input :: "string + string"
  nk_pid_file :: "string option"
  nk_signal0 :: kill_result
  nk_stat :: "string option"
  nk_comm :: "string option"
  nk_stop :: stop_io
  nk_exists :: "string \<Rightarrow> bool"
  nk_remove :: "string \<Rightarrow> string option"

definition live_sidecar :: "nuke_io \<Rightarrow> nat option" where
  "live_sidecar io =
     (case read_pid (nk_pid_file io) of None \<Rightarrow> None
      | Some pid \<Rightarrow> if pid_alive pid (nk_signal0 io) (nk_stat io) then Some pid else None)"

definition stop_sidecar :: "nuke_io \<Rightarrow> string \<Rightarrow> string \<Rightarrow> ((string + unit) \<times> nuke_effect list) option" where
  "stop_sidecar io bin dir =
     (case live_sidecar io of None \<Rightarrow> Some (Inr (), [])
      | Some pid \<Rightarrow>
          if \<not> is_qdrant (nk_comm io) bin
          then Some (Inl (''qdrant pid '' @ show_nat pid @ '' (from '' @ path_join dir ''qdrant.pid''
            @ '') is alive but could not be confirmed as ferrex's sidecar; nothing was deleted. Stop that process or remove qdrant.pid, then retry.''), [])
          else kill_and_wait pid (nk_stop io))"

section \<open>The command\<close>

definition ferrex_dir :: "string \<Rightarrow> string" where
  "ferrex_dir db_path = (case path_parent db_path of None \<Rightarrow> ''.'' | Some p \<Rightarrow> p)"

definition is_sidecar_dir :: "nuke_io \<Rightarrow> string \<Rightarrow> bool" where
  "is_sidecar_dir io dir =
     (case nk_home io of None \<Rightarrow> False
      | Some home \<Rightarrow> (case (nk_canonical io dir, nk_canonical io (path_join home ''.ferrex'')) of
            (Some a, Some b) \<Rightarrow> a = b | _ \<Rightarrow> False))"

definition nuke_guard :: "json_lib \<Rightarrow> nuke_io \<Rightarrow> bool \<Rightarrow> run_entry list \<Rightarrow> string \<Rightarrow> string + unit" where
  "nuke_guard x io owns es db_path =
     (if owns then refuse_if_any_live x (nk_run_dir io) es else refuse_if_live x (nk_run_dir io) es db_path)"

definition db_files :: "string \<Rightarrow> string list" where
  "db_files db_path = [db_path, db_path @ ''-wal'', db_path @ ''-shm'']"

definition sidecar_paths :: "string \<Rightarrow> string list" where
  "sidecar_paths dir = map (path_join dir) [''qdrant-data'', ''qdrant.pid'', ''qdrant.port'', ''qdrant.lock'', ''qdrant-config.yaml'']"

definition nuke_paths :: "string \<Rightarrow> string list" where
  "nuke_paths db_path = db_files db_path @ sidecar_paths (ferrex_dir db_path)"

text \<open>The lock and the Qdrant configuration do not count as something to delete.\<close>

definition has_anything :: "nuke_io \<Rightarrow> string \<Rightarrow> bool" where
  "has_anything io db_path \<longleftrightarrow>
     (\<exists>p\<in>set (db_files db_path @ take 3 (sidecar_paths (ferrex_dir db_path))). nk_listed io p)"

text \<open>Files that exist are deleted until one deletion fails.\<close>

fun delete_all :: "nuke_io \<Rightarrow> string list \<Rightarrow> (string + unit) \<times> nuke_effect list" where
  "delete_all io [] = (Inr (), [])"
| "delete_all io (p # ps) =
     (if \<not> nk_exists io p then delete_all io ps
      else case nk_remove io p of
        Some e \<Rightarrow> (Inl e, [Deletes p])
      | None \<Rightarrow> apsnd ((#) (Deletes p)) (delete_all io ps))"

datatype nuke_end = NothingFound | Aborted | AllRemoved

definition confirmed :: "string \<Rightarrow> bool" where
  "confirmed input \<longleftrightarrow> to_lowercase (trim input) = ''y''"

text \<open>From the second guard on.\<close>

definition nuke_now :: "json_lib \<Rightarrow> nuke_io \<Rightarrow> string \<Rightarrow> string \<Rightarrow> ((string + nuke_end) \<times> nuke_effect list) option" where
  "nuke_now x io bin db_path =
     (let dir = ferrex_dir db_path; owns = is_sidecar_dir io dir in
      case nuke_guard x io owns (nk_second io) db_path of
        Inl e \<Rightarrow> Some (Inl e, [])
      | Inr _ \<Rightarrow> (case (if owns then stop_sidecar io bin dir else Some (Inr (), [])) of
            None \<Rightarrow> None
          | Some (Inl e, signals) \<Rightarrow> Some (Inl e, signals)
          | Some (Inr _, signals) \<Rightarrow>
              (case delete_all io (nuke_paths db_path) of
                 (Inl e, dels) \<Rightarrow> Some (Inl e, signals @ dels)
               | (Inr _, dels) \<Rightarrow> Some (Inr AllRemoved, signals @ dels))))"

definition nuke :: "json_lib \<Rightarrow> nuke_io \<Rightarrow> string \<Rightarrow> string \<Rightarrow> bool \<Rightarrow> ((string + nuke_end) \<times> nuke_effect list) option" where
  "nuke x io bin db_path force =
     (case nuke_guard x io (is_sidecar_dir io (ferrex_dir db_path)) (nk_first io) db_path of
        Inl e \<Rightarrow> Some (Inl e, [])
      | Inr _ \<Rightarrow>
          if \<not> has_anything io db_path then Some (Inr NothingFound, [])
          else if force then nuke_now x io bin db_path
          else (case nk_input io of
              Inl e \<Rightarrow> Some (Inl e, [])
            | Inr input \<Rightarrow> if confirmed input then nuke_now x io bin db_path else Some (Inr Aborted, [])))"

section \<open>Nothing is deleted under a running daemon\<close>

lemma delete_all_effects:
  assumes "delete_all io ps = (r, effs)"
  shows "(e \<in> set effs \<longrightarrow> (\<exists>p\<in>set ps. e = Deletes p \<and> nk_exists io p))
    \<and> (r = Inr () \<longrightarrow> (\<forall>p\<in>set ps. nk_exists io p \<longrightarrow> Deletes p \<in> set effs \<and> nk_remove io p = None))"
  using assms
proof (induction ps arbitrary: r effs)
  case (Cons p ps)
  obtain r' effs' where "delete_all io ps = (r', effs')" by fastforce
  with Cons show ?case by (fastforce split: if_splits option.splits)
qed simp

text \<open>What became of the sidecar before the first deletion.\<close>

definition sidecar_dealt_with :: "nuke_io \<Rightarrow> string \<Rightarrow> nuke_effect list \<Rightarrow> bool" where
  "sidecar_dealt_with io bin signals \<longleftrightarrow>
     (case live_sidecar io of None \<Rightarrow> signals = []
      | Some pid \<Rightarrow> is_qdrant (nk_comm io) bin \<and> hd signals = SendsTerm pid \<and>
          (st_term (nk_stop io) = NoProcess \<or> \<not> st_term_alive (nk_stop io) \<or> SendsKill pid \<in> set signals))"

lemma wait_gone: "wait_until_gone polls alive = Some g \<Longrightarrow> g = (\<not> alive)"
  by (induction polls alive rule: wait_until_gone.induct) (auto split: if_splits)

lemma live_sidecar_range: "live_sidecar io = Some pid \<Longrightarrow> 0 < pid \<and> pid < 2 ^ 31"
  by (auto simp: live_sidecar_def pid_alive_def split: option.splits if_splits)

lemma stop_sidecar_ok:
  assumes "stop_sidecar io bin dir = Some (r, signals)"
  shows "Deletes p \<notin> set signals \<and> (r = Inr () \<longrightarrow> sidecar_dealt_with io bin signals)"
proof (cases "live_sidecar io")
  case None
  with assms show ?thesis by (simp add: stop_sidecar_def sidecar_dealt_with_def)
next
  case (Some pid)
  with assms live_sidecar_range [OF Some] show ?thesis
    by (auto simp: stop_sidecar_def sidecar_dealt_with_def kill_and_wait_def signal_gone_def
        dest: wait_gone split: if_splits signal_result.splits option.splits bool.splits)
qed

text \<open>
  C18. Deleting everything is guarded. A file is deleted only if no live daemon used the database,
  or any sidecar data, both when the command started and after the confirmation; only after a
  yes, or with \<open>--force\<close>; only files of the list are touched, and only after a live sidecar has been
  told to end and was gone or has been killed. If the command reports success, nothing of the
  list that existed is left.
\<close>

theorem nuke_safe:
  assumes "nuke x io bin db_path force = Some (r, effs)"
  defines "owns \<equiv> is_sidecar_dir io (ferrex_dir db_path)"
  shows "\<exists>signals dels. effs = signals @ dels \<and> (\<forall>p. Deletes p \<notin> set signals)
    \<and> (\<forall>e\<in>set dels. \<exists>p\<in>set (nuke_paths db_path). e = Deletes p \<and> nk_exists io p)
    \<and> (dels \<noteq> [] \<longrightarrow> (force \<or> (\<exists>input. nk_input io = Inr input \<and> confirmed input))
        \<and> (\<forall>es\<in>{nk_first io, nk_second io}. \<forall>p. live_in x es p \<longrightarrow>
              \<not> owns \<and> (is_memory_path db_path \<or> pf_db_path p \<noteq> db_path))
        \<and> (owns \<longrightarrow> sidecar_dealt_with io bin signals))
    \<and> (r = Inr AllRemoved \<longrightarrow> (\<forall>p\<in>set (nuke_paths db_path). nk_exists io p \<longrightarrow> Deletes p \<in> set dels \<and> nk_remove io p = None))"
proof (cases "nuke_guard x io owns (nk_first io) db_path = Inr () \<and> nuke_now x io bin db_path = Some (r, effs)
    \<and> (force \<or> (\<exists>input. nk_input io = Inr input \<and> confirmed input))
    \<and> nuke_guard x io owns (nk_second io) db_path = Inr ()")
  case False
  have "effs = [] \<and> r \<noteq> Inr AllRemoved"
    using assms(1) False by (auto simp: nuke_def nuke_now_def owns_def [symmetric] Let_def split: sum.splits if_splits)
  then show ?thesis by (intro exI [of _ "[]"]) simp
next
  case True
  have guards: "\<not> owns \<and> (is_memory_path db_path \<or> pf_db_path p \<noteq> db_path)"
    if "es \<in> {nk_first io, nk_second io}" "live_in x es p" for es p
    using True that by (auto simp: nuke_guard_def refuse_if_live_iff refuse_if_any_live_iff split: if_splits)
  obtain stopped signals where stop: "(if owns then stop_sidecar io bin (ferrex_dir db_path) else Some (Inr (), [])) = Some (stopped, signals)"
      and rest: "r \<noteq> Inr AllRemoved \<and> effs = signals \<or> stopped = Inr () \<and>
        (\<exists>dels res. delete_all io (nuke_paths db_path) = (res, dels) \<and> effs = signals @ dels \<and> (r = Inr AllRemoved \<longrightarrow> res = Inr ()))"
    using True by (auto simp: nuke_now_def owns_def [symmetric] Let_def split: option.splits prod.splits sum.splits)
  have signals: "Deletes p \<notin> set signals" "stopped = Inr () \<longrightarrow> owns \<longrightarrow> sidecar_dealt_with io bin signals" for p
    using stop stop_sidecar_ok [of io bin "ferrex_dir db_path" stopped signals] by (auto split: if_splits)
  from rest show ?thesis
  proof (elim disjE conjE exE)
    assume "r \<noteq> Inr AllRemoved" "effs = signals"
    with signals(1) show ?thesis by (intro exI [of _ signals] exI [of _ "[]"]) simp
  next
    fix dels res
    assume del: "delete_all io (nuke_paths db_path) = (res, dels)" "effs = signals @ dels" "r = Inr AllRemoved \<longrightarrow> res = Inr ()"
      "stopped = Inr ()"
    with signals guards True delete_all_effects [OF del(1)] show ?thesis
      by (intro exI [of _ signals] exI [of _ dels]) auto
  qed
qed

text \<open>The data in the home directory, with a sidecar that has to be killed, and the user's yes.\<close>

definition toy_nuke :: nuke_io where
  "toy_nuke = \<lparr> nk_home = Some ''/home/u'', nk_canonical = Some, nk_run_dir = Inr ''/home/u/.ferrex/run'', nk_first = [], nk_second = [],
     nk_listed = (\<lambda>_. True), nk_input = Inr ''Y '', nk_pid_file = Some ''77'', nk_signal0 = KillOk, nk_stat = Some ''77 (qdrant) S'',
     nk_comm = Some ''qdrant'', nk_stop = \<lparr> st_term = SignalSent, st_term_polls = [(True, False), (True, True)], st_term_alive = True,
       st_kill = SignalSent, st_kill_polls = [(False, False)], st_kill_alive = False \<rparr>,
     nk_exists = (\<lambda>p. p \<in> {''/home/u/.ferrex/f.db'', ''/home/u/.ferrex/qdrant-data''}), nk_remove = (\<lambda>_. None) \<rparr>"

theorem nuke_safe_witness:
  "\<exists>r effs x. nuke x toy_nuke ''/usr/bin/qdrant'' ''/home/u/.ferrex/f.db'' False = Some (r, effs) \<and> r = Inr AllRemoved
     \<and> Deletes ''/home/u/.ferrex/f.db'' \<in> set effs \<and> SendsKill 77 \<in> set effs"
proof -
  define x :: json_lib where "x = \<lparr> j_parse = (\<lambda>_. None), j_print = (\<lambda>_. []), j_error_text = id, j_drain = (\<lambda>_. []) \<rparr>"
  have "read_pid (Some ''77'') = Some 77"
    by (simp add: read_pid_def parse_uint_def parse_u64_def trim_def trim_start_def is_ws_def is_digit_def digits_value_def digit_value_def)
  moreover have "\<not> is_zombie (Some ''77 (qdrant) S'')" by code_simp
  ultimately have live: "live_sidecar toy_nuke = Some 77"
    by (simp add: live_sidecar_def toy_nuke_def pid_alive_def)
  have dir: "ferrex_dir ''/home/u/.ferrex/f.db'' = ''/home/u/.ferrex''" by code_simp
  have owns: "is_sidecar_dir toy_nuke ''/home/u/.ferrex''"
    by (simp add: is_sidecar_dir_def toy_nuke_def path_join_def is_absolute_def)
  have qdrant: "is_qdrant (nk_comm toy_nuke) ''/usr/bin/qdrant''" by code_simp
  have paths: "nuke_paths ''/home/u/.ferrex/f.db'' = [''/home/u/.ferrex/f.db'', ''/home/u/.ferrex/f.db-wal'', ''/home/u/.ferrex/f.db-shm'',
      ''/home/u/.ferrex/qdrant-data'', ''/home/u/.ferrex/qdrant.pid'', ''/home/u/.ferrex/qdrant.port'', ''/home/u/.ferrex/qdrant.lock'',
      ''/home/u/.ferrex/qdrant-config.yaml'']" by code_simp
  have yes: "confirmed ''Y ''" by code_simp
  have del: "delete_all toy_nuke (nuke_paths ''/home/u/.ferrex/f.db'')
      = (Inr (), [Deletes ''/home/u/.ferrex/f.db'', Deletes ''/home/u/.ferrex/qdrant-data''])"
    unfolding paths by (simp add: toy_nuke_def)
  have fields: "nk_first toy_nuke = []" "nk_second toy_nuke = []" "nk_run_dir toy_nuke = Inr ''/home/u/.ferrex/run''"
    "nk_input toy_nuke = Inr ''Y ''" "nk_listed toy_nuke p" for p by (simp_all add: toy_nuke_def)
  have guard: "nuke_guard x toy_nuke True [] db = Inr ()" for db
    by (simp add: nuke_guard_def fields refuse_if_any_live_iff live_in_def)
  have stop: "stop_sidecar toy_nuke ''/usr/bin/qdrant'' dir = Some (Inr (), [SendsTerm 77, SendsKill 77])" for dir
    using live qdrant by (simp add: stop_sidecar_def) (simp add: toy_nuke_def kill_and_wait_def signal_gone_def)
  have something: "has_anything toy_nuke db" for db by (auto simp: has_anything_def db_files_def fields)
  obtain effs where run: "nuke x toy_nuke ''/usr/bin/qdrant'' ''/home/u/.ferrex/f.db'' False = Some (Inr AllRemoved, effs)"
      and kill: "SendsKill 77 \<in> set effs"
    by (simp only: nuke_def nuke_now_def Let_def dir owns guard fields stop something yes del sum.case option.case prod.case if_True
        not_True_eq_False if_False) simp
  from nuke_safe [OF run] have "Deletes ''/home/u/.ferrex/f.db'' \<in> set effs"
    unfolding paths by (auto simp: toy_nuke_def)
  with run kill show ?thesis by blast
qed

end
