(* ===== verification/Stdout.thy ===== *)
theory Stdout
  imports Machine
begin

text \<open>
  The proxy's way to the client (\<open>crates/server/src/proxy/budget.rs\<close>, the pump and the writer
  thread of \<open>proxy.rs\<close>): daemon lines are metered by a semaphore of \<open>STDOUT_BUDGET\<close> permits, a
  line carries its share until the writer thread has written it, and a drain that finds the pump
  parked for \<open>STALL_GRACE\<close> gives up. Three threads of control meet here: the pump, the writer and
  the \<open>stalled\<close> loop; an event is what one of them does between two points where another can run.
  Times are milliseconds, strings are bytes.
\<close>

section \<open>State\<close>

definition STDOUT_BUDGET :: nat where "STDOUT_BUDGET = 4 * 1024 * 1024"
definition STALL_GRACE :: nat where "STALL_GRACE = 1000"

record park =
  pk_seq :: nat
  pk_since :: "nat option"

text \<open>\<open>OutMsg\<close> without a credit is a line of the proxy itself, or the one held at a loss.\<close>

datatype out_msg = OutMsg string "nat option" | OutStop nat

text \<open>
  The pump: \<open>MeterReading\<close> is in \<open>read_until\<close>; \<open>Parking\<close> has set the park and not yet notified;
  \<open>Parked\<close> waits in the semaphore's queue; \<open>Given\<close> has its permits and is not yet running again;
  \<open>Crediting\<close> runs on with its permits up to the send, with no point where it can be aborted.
\<close>

datatype meter_pump = MeterOff | MeterReading | Parking nat | Parked nat | Given nat | Crediting nat

text \<open>The \<open>stalled\<close> loop: \<open>Look\<close> has created its notification, \<open>Await\<close> waits for it.\<close>

datatype stall_watch = NoWatch | Look | Await | SleepOn park | Stalled

text \<open>
  The last three fields only record: the whole lines read from daemons, the proxy's own lines, and
  the lines written to stdout.
\<close>

record meter =
  m_now :: nat
  m_free :: nat
  m_held :: "string option"
  m_park :: park
  m_pump :: meter_pump
  m_queue :: "out_msg list"
  m_writing :: "(string \<times> nat option) option"
  m_watch :: stall_watch
  m_notified :: bool
  m_exit :: "nat option"
  m_read :: "string list"
  m_own :: "string list"
  m_stdout :: "string list"

definition new_meter :: "nat \<Rightarrow> meter" where
  "new_meter now = \<lparr> m_now = now, m_free = STDOUT_BUDGET, m_held = None, m_park = \<lparr> pk_seq = 0, pk_since = None \<rparr>,
     m_pump = MeterOff, m_queue = [], m_writing = None, m_watch = NoWatch, m_notified = False, m_exit = None, m_read = [], m_own = [], m_stdout = [] \<rparr>"

section \<open>Operations\<close>

text \<open>A line over the whole budget takes all of it, so it still gets through alone.\<close>

definition line_cost :: "string \<Rightarrow> nat" where
  "line_cost line =
     (let c = min (length line) STDOUT_BUDGET in if c < 2 ^ 32 then c else 2 ^ 32 - 1)"

definition park_start :: "nat \<Rightarrow> park \<Rightarrow> park" where
  "park_start now pk = pk\<lparr>pk_seq := pk_seq pk + 1, pk_since := Some now\<rparr>"

definition park_end :: "park \<Rightarrow> park" where
  "park_end pk = pk\<lparr>pk_since := None\<rparr>"

definition hold_until_free :: "string \<Rightarrow> meter \<Rightarrow> meter" where
  "hold_until_free line m =
     (let cost = line_cost line; h = m\<lparr>m_held := Some line, m_read := m_read m @ [line]\<rparr> in
      if cost \<le> m_free h then h\<lparr>m_free := m_free h - cost, m_pump := Crediting cost\<rparr>
      else h\<lparr>m_park := park_start (m_now h) (m_park h), m_pump := Parking cost\<rparr>)"

definition notify_parked :: "nat \<Rightarrow> meter \<Rightarrow> meter" where
  "notify_parked cost m = m\<lparr>m_notified := True, m_pump := Parked cost\<rparr>"

definition meter_take_held :: "meter \<Rightarrow> string option \<times> meter" where
  "meter_take_held m = (m_held m, m\<lparr>m_held := None\<rparr>)"

definition send_line :: "string \<Rightarrow> meter \<Rightarrow> meter" where
  "send_line line m = m\<lparr>m_queue := m_queue m @ [OutMsg line None]\<rparr>"

definition pump_send :: "nat \<Rightarrow> meter \<Rightarrow> meter" where
  "pump_send credit m =
     (case meter_take_held m of
        (Some line, n) \<Rightarrow> n\<lparr>m_queue := m_queue n @ [OutMsg line (Some credit)], m_pump := MeterReading\<rparr>
      | (None, n) \<Rightarrow> n\<lparr>m_free := m_free n + credit, m_pump := MeterOff\<rparr>)"

text \<open>
  \<open>reader.abort()\<close> and waiting for it: the future is dropped where it waits, so permits it was given
  go back and the park ends; then the held line is forwarded. \<open>Parking\<close> and \<open>Crediting\<close> run on first.
\<close>

definition meter_drop_pump :: "meter \<Rightarrow> meter option" where
  "meter_drop_pump m =
     (case m_pump m of
        MeterOff \<Rightarrow> Some m
      | MeterReading \<Rightarrow> Some (m\<lparr>m_pump := MeterOff\<rparr>)
      | Parked cost \<Rightarrow> Some (m\<lparr>m_park := park_end (m_park m), m_pump := MeterOff\<rparr>)
      | Given cost \<Rightarrow> Some (m\<lparr>m_free := m_free m + cost, m_park := park_end (m_park m), m_pump := MeterOff\<rparr>)
      | _ \<Rightarrow> None)"

definition meter_loss :: "meter \<Rightarrow> meter option" where
  "meter_loss m =
     (case meter_drop_pump m of None \<Rightarrow> None
      | Some n \<Rightarrow> Some (case meter_take_held n of (Some line, k) \<Rightarrow> send_line line k | (None, k) \<Rightarrow> k))"

text \<open>What \<open>read_until\<close> returned: a line cut short by the end of the stream is never forwarded.\<close>

definition read_line :: "string \<Rightarrow> meter \<Rightarrow> meter" where
  "read_line line m =
     (if line = [] \<or> last line \<noteq> CHR 0x0A then m\<lparr>m_pump := MeterOff\<rparr> else hold_until_free line m)"

text \<open>The writer thread takes a message, and has written it. A failed write ends the process.\<close>

definition writer_take :: "meter \<Rightarrow> meter option" where
  "writer_take m =
     (case (m_writing m, m_queue m) of
        (None, OutMsg line credit # rest) \<Rightarrow> Some (m\<lparr>m_writing := Some (line, credit), m_queue := rest\<rparr>)
      | (None, OutStop code # rest) \<Rightarrow> Some (m\<lparr>m_queue := rest, m_exit := Some code\<rparr>)
      | _ \<Rightarrow> None)"

definition exit_on_stdout_error :: "bool \<Rightarrow> nat" where
  "exit_on_stdout_error broken_pipe = (if broken_pipe then 0 else 1)"

definition writer_wrote :: "bool option \<Rightarrow> meter \<Rightarrow> meter option" where
  "writer_wrote failed m =
     (case m_writing m of None \<Rightarrow> None
      | Some (line, credit) \<Rightarrow> Some (case failed of
          Some broken_pipe \<Rightarrow> m\<lparr>m_exit := Some (exit_on_stdout_error broken_pipe)\<rparr>
        | None \<Rightarrow> m\<lparr>m_writing := None, m_stdout := m_stdout m @ [line], m_free := m_free m + (case credit of None \<Rightarrow> 0 | Some c \<Rightarrow> c)\<rparr>))"

text \<open>The \<open>stalled\<close> loop.\<close>

definition watch_turn :: "meter \<Rightarrow> meter option" where
  "watch_turn m =
     (case m_watch m of
        Look \<Rightarrow> Some (case pk_since (m_park m) of
            None \<Rightarrow> m\<lparr>m_watch := Await\<rparr> | Some since \<Rightarrow> m\<lparr>m_watch := SleepOn (m_park m)\<rparr>)
      | Await \<Rightarrow> if m_notified m then Some (m\<lparr>m_watch := Look, m_notified := False\<rparr>) else None
      | SleepOn pk \<Rightarrow> (case pk_since pk of None \<Rightarrow> None
          | Some since \<Rightarrow>
              if m_now m < since + STALL_GRACE then None
              else Some (if m_park m = pk then m\<lparr>m_watch := Stalled\<rparr>
                else m\<lparr>m_watch := Look, m_notified := False\<rparr>))
      | _ \<Rightarrow> None)"

section \<open>Steps\<close>

datatype meter_event =
    Ticks nat
  | Connects
  | Reads string
  | Notifies
  | Grants
  | Resumes
  | Sends
  | Loses
  | SendsOwn string
  | AsksExit nat
  | WriterTakes
  | WriterWrote "bool option"
  | StartsWatch
  | Watches

definition pump_moves :: "meter_event \<Rightarrow> meter \<Rightarrow> meter option" where
  "pump_moves ev m =
     (case (m_pump m, ev) of
        (MeterOff, Connects) \<Rightarrow> Some (m\<lparr>m_pump := MeterReading\<rparr>)
      | (MeterReading, Reads line) \<Rightarrow> Some (read_line line m)
      | (Parking cost, Notifies) \<Rightarrow> Some (notify_parked cost m)
      | (Parked cost, Grants) \<Rightarrow>
          if cost \<le> m_free m then Some (m\<lparr>m_free := m_free m - cost, m_pump := Given cost\<rparr>) else None
      | (Given cost, Resumes) \<Rightarrow> Some (m\<lparr>m_park := park_end (m_park m), m_pump := Crediting cost\<rparr>)
      | (Crediting cost, Sends) \<Rightarrow> Some (pump_send cost m)
      | _ \<Rightarrow> None)"

definition meter_step :: "meter_event \<Rightarrow> meter \<Rightarrow> meter option" where
  "meter_step ev m =
     (if m_exit m \<noteq> None then None
      else case ev of
        Ticks d \<Rightarrow> Some (m\<lparr>m_now := m_now m + d\<rparr>)
      | Loses \<Rightarrow> meter_loss m
      | SendsOwn line \<Rightarrow> Some (send_line line (m\<lparr>m_own := m_own m @ [line]\<rparr>))
      | AsksExit code \<Rightarrow> Some (m\<lparr>m_queue := m_queue m @ [OutStop code]\<rparr>)
      | WriterTakes \<Rightarrow> writer_take m
      | WriterWrote failed \<Rightarrow> writer_wrote failed m
      | StartsWatch \<Rightarrow> if m_watch m = NoWatch then Some (m\<lparr>m_watch := Look, m_notified := False\<rparr>) else None
      | Watches \<Rightarrow> watch_turn m
      | _ \<Rightarrow> pump_moves ev m)"

inductive meter_reachable :: "meter \<Rightarrow> bool" where
  fresh: "meter_reachable (new_meter now)"
| moves: "meter_reachable m \<Longrightarrow> meter_step ev m = Some n \<Longrightarrow> meter_reachable n"

interpretation meters: machine meter_step "\<lambda>m. \<exists>now. m = new_meter now" meter_reachable
proof
  show "P m" if "meter_reachable m" "\<And>m. \<exists>now. m = new_meter now \<Longrightarrow> P m"
    "\<And>m e n. meter_reachable m \<Longrightarrow> P m \<Longrightarrow> meter_step e m = Some n \<Longrightarrow> P n" for m P
    using that by (induction rule: meter_reachable.induct) blast+
qed (auto intro: meter_reachable.intros)

end
