(* ===== verification/StdoutLaws.thy ===== *)
theory StdoutLaws
  imports Stdout "HOL-Library.Sublist" "HOL-Library.Multiset"
begin

text \<open>
  What the stdout budget promises: the bytes waiting for the client are bounded, a line that pump_waits
  for permits is never stuck behind nothing, and the \<open>stalled\<close> loop ends exactly for a line that
  has waited for the whole grace period, however its wake-ups interleave with the pump.
\<close>

section \<open>Permits\<close>

fun credit_of :: "out_msg \<Rightarrow> (string \<times> nat) list" where
  "credit_of (OutMsg line (Some c)) = [(line, c)]"
| "credit_of _ = []"

definition metered :: "meter \<Rightarrow> (string \<times> nat) list" where
  "metered m =
     (case m_writing m of Some (line, Some c) \<Rightarrow> [(line, c)] | _ \<Rightarrow> []) @ concat (map credit_of (m_queue m))"

fun pump_credit :: "meter_pump \<Rightarrow> nat" where
  "pump_credit (Given c) = c"
| "pump_credit (Crediting c) = c"
| "pump_credit _ = 0"

fun pump_wants :: "meter_pump \<Rightarrow> nat option" where
  "pump_wants (Parking c) = Some c"
| "pump_wants (Parked c) = Some c"
| "pump_wants (Given c) = Some c"
| "pump_wants (Crediting c) = Some c"
| "pump_wants _ = None"

definition permits_ok :: "meter \<Rightarrow> bool" where
  "permits_ok m \<longleftrightarrow>
     m_free m + pump_credit (m_pump m) + sum_list (map snd (metered m)) = STDOUT_BUDGET
     \<and> (\<forall>p \<in> set (metered m). snd p = line_cost (fst p) \<and> fst p \<noteq> [])
     \<and> pump_wants (m_pump m) = map_option line_cost (m_held m) \<and> m_held m \<noteq> Some []"

lemma line_cost_min: "line_cost line = min (length line) STDOUT_BUDGET"
proof -
  have "min (length line) STDOUT_BUDGET < 2 ^ 32" by (simp add: STDOUT_BUDGET_def min_less_iff_disj)
  then show ?thesis by (simp add: line_cost_def Let_def)
qed

lemma permits_new: "permits_ok (new_meter now)"
  by (simp add: permits_ok_def new_meter_def metered_def)

lemmas meter_defs = meter_step_def pump_moves_def read_line_def hold_until_free_def notify_parked_def
  pump_send_def meter_take_held_def meter_loss_def meter_drop_pump_def send_line_def writer_take_def
  writer_wrote_def

lemmas meter_splits = if_splits option.splits prod.splits list.splits meter_pump.splits meter_event.splits out_msg.splits

lemma permits_watch: "watch_turn m = Some n \<Longrightarrow> permits_ok m \<Longrightarrow> permits_ok n"
  by (auto simp: watch_turn_def permits_ok_def metered_def split: stall_watch.splits option.splits if_splits)

lemma permits_pump: "pump_moves ev m = Some n \<Longrightarrow> permits_ok m \<Longrightarrow> permits_ok n"
  by (auto simp: permits_ok_def metered_def pump_moves_def read_line_def hold_until_free_def notify_parked_def
      pump_send_def meter_take_held_def Let_def
      split: if_splits option.splits prod.splits meter_pump.splits meter_event.splits)

lemma permits_writer: "writer_take m = Some n \<or> writer_wrote failed m = Some n \<Longrightarrow> permits_ok m \<Longrightarrow> permits_ok n"
  by (auto simp: permits_ok_def metered_def writer_take_def writer_wrote_def
      split: option.splits prod.splits list.splits out_msg.splits)

lemma permits_loss: "meter_loss m = Some n \<Longrightarrow> permits_ok m \<Longrightarrow> permits_ok n"
  by (auto simp: permits_ok_def metered_def meter_loss_def meter_drop_pump_def meter_take_held_def send_line_def
      split: option.splits prod.splits meter_pump.splits)

lemma permits_rest:
  "permits_ok m \<Longrightarrow> permits_ok (m\<lparr>m_now := t\<rparr>)"
  "permits_ok m \<Longrightarrow> permits_ok (send_line line (m\<lparr>m_own := ls\<rparr>))"
  "permits_ok m \<Longrightarrow> permits_ok (m\<lparr>m_queue := m_queue m @ [OutStop code]\<rparr>)"
  "permits_ok m \<Longrightarrow> permits_ok (m\<lparr>m_watch := w, m_notified := b\<rparr>)"
  by (simp_all add: permits_ok_def metered_def send_line_def)

lemma permits_step: "permits_ok n" if "meter_step ev m = Some n" "permits_ok m"
  using that permits_pump [of ev m n]
  by (cases ev) (auto simp: meter_step_def permits_rest split: if_splits
      dest: permits_loss permits_writer [OF disjI1] permits_writer [OF disjI2] permits_watch)

lemma permits_reachable: "meter_reachable m \<Longrightarrow> permits_ok m"
  by (rule meters.invariant) (auto intro: permits_new permits_step)

section \<open>The bound\<close>

definition waiting_bytes :: "meter \<Rightarrow> nat" where
  "waiting_bytes m = sum_list (map (length \<circ> fst) (metered m))"

lemma costs_are_lengths:
  "\<forall>p\<in>set ps. snd p = line_cost (fst p) \<and> length (fst p) \<le> STDOUT_BUDGET \<Longrightarrow>
     sum_list (map snd ps) = sum_list (map (length \<circ> fst) ps)"
  by (induction ps) (auto simp: line_cost_min)

lemma cost_positive: "line \<noteq> [] \<Longrightarrow> 0 < line_cost line"
  by (simp add: line_cost_min STDOUT_BUDGET_def)

lemma long_line_alone:
  assumes "sum_list (map snd ps) \<le> STDOUT_BUDGET" "\<forall>p\<in>set ps. snd p = line_cost (fst p) \<and> fst p \<noteq> []"
    "p \<in> set ps" "STDOUT_BUDGET < length (fst p)"
  shows "ps = [p]"
proof -
  obtain as bs where ps: "ps = as @ p # bs" using assms(3) by (auto dest: split_list)
  have "snd p = STDOUT_BUDGET" using assms(2-4) by (simp add: line_cost_min)
  with assms(1) ps have none: "q \<in> set (as @ bs) \<Longrightarrow> snd q = 0" for q by auto
  have "as @ bs = []"
  proof (rule ccontr)
    assume "as @ bs \<noteq> []"
    then obtain q where "q \<in> set (as @ bs)" by (metis list.set_sel(1))
    with none assms(2) ps cost_positive show False by (metis Un_iff less_irrefl list.set_intros(2) set_append)
  qed
  with ps show ?thesis by simp
qed

lemma metered_bounded:
  assumes "meter_reachable m"
  shows "waiting_bytes m \<le> STDOUT_BUDGET \<or> (\<exists>line. map fst (metered m) = [line] \<and> STDOUT_BUDGET < length line)"
proof -
  have ok: "sum_list (map snd (metered m)) \<le> STDOUT_BUDGET"
      "\<forall>p\<in>set (metered m). snd p = line_cost (fst p) \<and> fst p \<noteq> []"
    using permits_reachable [OF assms] unfolding permits_ok_def by auto
  show ?thesis
  proof (cases "\<exists>p\<in>set (metered m). STDOUT_BUDGET < length (fst p)")
    case True
    then obtain p where "p \<in> set (metered m)" "STDOUT_BUDGET < length (fst p)" by blast
    with long_line_alone [OF ok, of p] have "metered m = [p]" by blast
    with \<open>STDOUT_BUDGET < length (fst p)\<close> show ?thesis by simp
  next
    case False
    with costs_are_lengths [of "metered m"] ok show ?thesis by (auto simp: waiting_bytes_def not_less)
  qed
qed

text \<open>Everything that waits for the client, and the part of it that holds no share of the budget.\<close>

fun line_of :: "out_msg \<Rightarrow> string list" where
  "line_of (OutMsg line credit) = [line]"
| "line_of (OutStop code) = []"

text \<open>Everything sent towards stdout, in order: written, being written, queued.\<close>

definition sent_lines :: "meter \<Rightarrow> string list" where
  "sent_lines m =
     m_stdout m @ (case m_writing m of Some (line, c) \<Rightarrow> [line] | None \<Rightarrow> []) @ concat (map line_of (m_queue m))"

fun free_line_of :: "out_msg \<Rightarrow> string list" where
  "free_line_of (OutMsg line None) = [line]"
| "free_line_of _ = []"

definition waiting_lines :: "meter \<Rightarrow> string list" where
  "waiting_lines m = (case m_writing m of Some (line, c) \<Rightarrow> [line] | None \<Rightarrow> []) @ concat (map line_of (m_queue m))"

definition unmetered :: "meter \<Rightarrow> string list" where
  "unmetered m = (case m_writing m of Some (line, None) \<Rightarrow> [line] | _ \<Rightarrow> []) @ concat (map free_line_of (m_queue m))"

lemma waiting_queue:
  "mset (concat (map line_of q)) = mset (map fst (concat (map credit_of q))) + mset (concat (map free_line_of q))"
proof (induction q)
  case (Cons msg q)
  show ?case
  proof (cases msg)
    case (OutMsg line credit)
    with Cons show ?thesis by (cases credit) simp_all
  qed (use Cons in simp)
qed simp

lemma waiting_parts: "mset (waiting_lines m) = mset (map fst (metered m)) + mset (unmetered m)"
proof -
  have "mset (case m_writing m of Some (line, c) \<Rightarrow> [line] | None \<Rightarrow> []) =
      mset (map fst (case m_writing m of Some (line, Some c) \<Rightarrow> [(line, c)] | _ \<Rightarrow> []))
      + mset (case m_writing m of Some (line, None) \<Rightarrow> [line] | _ \<Rightarrow> [])"
    by (auto split: option.splits)
  then show ?thesis by (simp add: waiting_lines_def metered_def unmetered_def waiting_queue)
qed

definition held_lines :: "meter \<Rightarrow> string list" where
  "held_lines m = (case m_held m of None \<Rightarrow> [] | Some line \<Rightarrow> [line])"

text \<open>Only a loss queues a daemon's line without a share, and only one; all others are the proxy's.\<close>

definition own_of :: "meter_event \<Rightarrow> string list" where
  "own_of ev = (case ev of SendsOwn line \<Rightarrow> [line] | _ \<Rightarrow> [])"

lemma unmetered_step:
  assumes "meter_step ev m = Some n"
  shows "m_own n = m_own m @ own_of ev
    \<and> mset (unmetered n) \<subseteq># mset (unmetered m) + mset (own_of ev) + mset (if ev = Loses then held_lines m else [])"
proof -
  consider (pump) "ev \<in> {Connects, Notifies, Grants, Resumes, Sends} \<or> (\<exists>l. ev = Reads l)" | (loss) "ev = Loses"
    | (rest) "ev \<in> {WriterTakes, Watches, StartsWatch} \<or> (\<exists>d. ev = Ticks d) \<or> (\<exists>l. ev = SendsOwn l)
        \<or> (\<exists>c. ev = AsksExit c) \<or> (\<exists>f. ev = WriterWrote f)"
    by (cases ev) auto
  then show ?thesis
  proof cases
    case pump
    with assms have "pump_moves ev m = Some n" by (auto simp: meter_step_def split: if_splits)
    then show ?thesis
      by (cases "m_pump m"; cases "m_held m"; cases ev)
        (auto simp: pump_moves_def read_line_def hold_until_free_def notify_parked_def pump_send_def meter_take_held_def
          unmetered_def own_of_def Let_def split: if_splits)
  next
    case loss
    with assms have "meter_loss m = Some n" by (simp add: meter_step_def split: if_splits)
    with loss show ?thesis
      by (cases "m_pump m"; cases "m_held m")
        (auto simp: meter_loss_def meter_drop_pump_def meter_take_held_def send_line_def unmetered_def own_of_def held_lines_def)
  next
    case rest
    with assms show ?thesis
      by (auto simp: meter_step_def send_line_def writer_take_def writer_wrote_def watch_turn_def unmetered_def own_of_def
          split: if_splits option.splits prod.splits list.splits out_msg.splits stall_watch.splits)
  qed
qed

lemma unmetered_run:
  "run_events meter_step es m = Some n \<Longrightarrow>
     \<exists>own lost. m_own n = m_own m @ own \<and> length lost \<le> count_list es Loses
       \<and> mset (unmetered n) \<subseteq># mset (unmetered m) + mset own + mset lost"
proof (induction es arbitrary: m)
  case (Cons ev es)
  then obtain k where k: "meter_step ev m = Some k" "run_events meter_step es k = Some n" by (auto simp: bind_eq_Some_conv)
  from Cons.IH [OF k(2)] obtain own lost where IH: "m_own n = m_own k @ own" "length lost \<le> count_list es Loses"
    "mset (unmetered n) \<subseteq># mset (unmetered k) + mset own + mset lost" by blast
  let ?l = "if ev = Loses then held_lines m else []"
  have "mset (unmetered n) \<subseteq># mset (unmetered m) + mset (own_of ev @ own) + mset (?l @ lost)"
    using subset_mset.order_trans [OF IH(3), of "(mset (unmetered m) + mset (own_of ev) + mset ?l) + mset own + mset lost"]
      unmetered_step [OF k(1)] by (simp add: ac_simps)
  moreover have "length (?l @ lost) \<le> count_list (ev # es) Loses" using IH(2) by (auto simp: held_lines_def split: option.splits)
  ultimately show ?case using IH(1) unmetered_step [OF k(1)] by (metis append_assoc)
qed auto

text \<open>
  C26. What may wait for the client. Whatever the daemons send and however the client reads, the lines
  waiting for stdout are of two kinds. Lines with a share of the budget never hold more than
  \<open>STDOUT_BUDGET\<close> bytes, unless there is only one of them and it is longer than the whole budget.
  Lines without a share are the proxy's own ones, and for each connection that was lost at most one
  more, the line its pump held: without losses no daemon line waits without its share, with them the
  daemon lines that wait are not bounded by the budget.
\<close>

theorem stdout_bounded:
  assumes "run_events meter_step es (new_meter now) = Some m"
  shows "sent_lines m = m_stdout m @ waiting_lines m
    \<and> mset (waiting_lines m) = mset (map fst (metered m)) + mset (unmetered m)
    \<and> (sum_list (map (length \<circ> fst) (metered m)) \<le> STDOUT_BUDGET
       \<or> (\<exists>line. map fst (metered m) = [line] \<and> STDOUT_BUDGET < length line))
    \<and> (\<exists>lost. length lost \<le> count_list es Loses \<and> mset (unmetered m) \<subseteq># mset (m_own m) + mset lost)"
proof -
  have "meter_reachable m" by (rule meters.run_from_start [OF assms]) blast
  note bounded = metered_bounded [OF this]
  have "unmetered (new_meter now) = []" "m_own (new_meter now) = []" by (simp_all add: unmetered_def new_meter_def)
  with unmetered_run [OF assms] have "\<exists>lost. length lost \<le> count_list es Loses \<and> mset (unmetered m) \<subseteq># mset (m_own m) + mset lost"
    by auto
  moreover have "sent_lines m = m_stdout m @ waiting_lines m" by (simp add: sent_lines_def waiting_lines_def)
  ultimately show ?thesis using bounded waiting_parts [of m] by (simp add: waiting_bytes_def)
qed

lemma parked_pump_moves:
  assumes "meter_reachable m" "m_exit m = None" "m_pump m = Parked cost"
  shows "(\<exists>n. meter_step Grants m = Some n) \<or> (\<exists>n. meter_step WriterTakes m = Some n)
    \<or> (\<exists>n. meter_step (WriterWrote None) m = Some n)"
proof (cases "m_queue m = [] \<and> m_writing m = None")
  case True
  from permits_reachable [OF assms(1)] assms(3) obtain line
    where "cost = line_cost line" "m_free m + sum_list (map snd (metered m)) = STDOUT_BUDGET"
    by (cases "m_held m") (auto simp: permits_ok_def)
  with True assms(2,3) have "meter_step Grants m \<noteq> None"
    by (auto simp: metered_def meter_step_def pump_moves_def line_cost_min)
  then show ?thesis by blast
qed (use assms in \<open>auto simp: meter_step_def writer_take_def writer_wrote_def split: option.splits list.splits out_msg.splits\<close>)

section \<open>The stall\<close>

definition pump_waits :: "meter_pump \<Rightarrow> bool" where
  "pump_waits p \<longleftrightarrow> (case p of Parking c \<Rightarrow> True | Parked c \<Rightarrow> True | Given c \<Rightarrow> True | _ \<Rightarrow> False)"

definition unnotified :: "meter_pump \<Rightarrow> bool" where
  "unnotified p \<longleftrightarrow> (case p of Parking c \<Rightarrow> True | _ \<Rightarrow> False)"

definition stall_ok :: "meter \<Rightarrow> bool" where
  "stall_ok m \<longleftrightarrow>
     (pk_since (m_park m) \<noteq> None \<longleftrightarrow> pump_waits (m_pump m))
     \<and> (\<forall>t. pk_since (m_park m) = Some t \<longrightarrow> t \<le> m_now m)
     \<and> (m_watch m = Await \<longrightarrow> m_notified m \<or> pk_since (m_park m) = None \<or> unnotified (m_pump m))
     \<and> (\<forall>pk. m_watch m = SleepOn pk \<longrightarrow> pk_seq pk \<le> pk_seq (m_park m) \<and>
          (\<exists>t. pk_since pk = Some t \<and> t \<le> m_now m \<and> (\<forall>u. pk_since (m_park m) = Some u \<longrightarrow> t \<le> u)))"

lemma stall_new: "stall_ok (new_meter now)"
  by (simp add: stall_ok_def new_meter_def pump_waits_def)

lemma stall_pump: "pump_moves ev m = Some n \<Longrightarrow> stall_ok m \<Longrightarrow> stall_ok n"
  by (cases "m_pump m"; cases ev)
    (auto simp: stall_ok_def pump_waits_def unnotified_def pump_moves_def read_line_def hold_until_free_def
      notify_parked_def pump_send_def meter_take_held_def park_start_def park_end_def Let_def
      split: if_splits option.splits)

lemma stall_by_watch: "watch_turn m = Some n \<Longrightarrow> stall_ok m \<Longrightarrow> stall_ok n"
  by (cases "m_watch m") (auto simp: watch_turn_def stall_ok_def split: option.splits if_splits)

lemma stall_loss: "meter_loss m = Some n \<Longrightarrow> stall_ok m \<Longrightarrow> stall_ok n"
  by (cases "m_pump m")
    (auto simp: stall_ok_def pump_waits_def unnotified_def meter_loss_def meter_drop_pump_def meter_take_held_def
      send_line_def park_end_def split: option.splits)

lemma stall_rest:
  "stall_ok m \<Longrightarrow> stall_ok (m\<lparr>m_now := m_now m + d\<rparr>)"
  "stall_ok m \<Longrightarrow> stall_ok (send_line line (m\<lparr>m_own := ls\<rparr>))"
  "stall_ok m \<Longrightarrow> stall_ok (m\<lparr>m_queue := q\<rparr>)"
  "stall_ok m \<Longrightarrow> stall_ok (m\<lparr>m_watch := Look, m_notified := b\<rparr>)"
  "writer_take m = Some n \<Longrightarrow> stall_ok m \<Longrightarrow> stall_ok n"
  "writer_wrote failed m = Some n \<Longrightarrow> stall_ok m \<Longrightarrow> stall_ok n"
  by (auto simp: stall_ok_def send_line_def writer_take_def writer_wrote_def trans_le_add1
      split: option.splits list.splits out_msg.splits prod.splits)

lemma stall_step: "stall_ok n" if "meter_step ev m = Some n" "stall_ok m"
  using that stall_pump [of ev m n]
  by (cases ev) (auto simp: meter_step_def stall_rest split: if_splits dest: stall_loss stall_by_watch stall_rest(5,6))

lemma stall_reachable: "meter_reachable m \<Longrightarrow> stall_ok m"
  by (rule meters.invariant) (auto intro: stall_new stall_step)

text \<open>A park that has ended, or has been followed by another, never comes back.\<close>

definition gone :: "park \<Rightarrow> park \<Rightarrow> bool" where
  "gone pk now_pk \<longleftrightarrow> pk_seq pk < pk_seq now_pk \<or> pk_seq pk = pk_seq now_pk \<and> pk_since now_pk = None"

lemma watch_fields: "watch_turn m = Some n \<Longrightarrow> m_park n = m_park m \<and> m_held n = m_held m"
  by (auto simp: watch_turn_def split: stall_watch.splits option.splits if_splits)

lemma writer_fields:
  "writer_take m = Some n \<Longrightarrow> m_park n = m_park m \<and> m_held n = m_held m \<and> m_watch n = m_watch m"
  "writer_wrote failed m = Some n \<Longrightarrow> m_park n = m_park m \<and> m_held n = m_held m \<and> m_watch n = m_watch m"
  by (auto simp: writer_take_def writer_wrote_def split: option.splits list.splits out_msg.splits prod.splits)

lemma park_pump:
  "pump_moves ev m = Some n \<Longrightarrow>
     m_park n = m_park m \<or> m_park n = park_end (m_park m) \<or> (\<exists>t. m_park n = park_start t (m_park m))"
  by (cases "m_pump m"; cases ev)
    (auto simp: pump_moves_def read_line_def hold_until_free_def notify_parked_def pump_send_def
      meter_take_held_def Let_def split: if_splits option.splits)

lemma park_loss: "meter_loss m = Some n \<Longrightarrow> m_park n = m_park m \<or> m_park n = park_end (m_park m)"
  by (cases "m_pump m") (auto simp: meter_loss_def meter_drop_pump_def meter_take_held_def send_line_def split: option.splits)

lemma park_step:
  assumes "meter_step ev m = Some n"
  shows "m_park n = m_park m \<or> m_park n = park_end (m_park m) \<or> (\<exists>t. m_park n = park_start t (m_park m))"
  using assms park_pump [of ev m n] park_loss [of m n]
  by (cases ev) (auto simp: meter_step_def send_line_def split: if_splits dest: watch_fields writer_fields)

lemma gone_step: "meter_step ev m = Some n \<Longrightarrow> gone pk (m_park m) \<Longrightarrow> gone pk (m_park n)"
  using park_step [of ev m n] by (auto simp: gone_def park_end_def park_start_def)

lemma held_pump:
  "pump_moves ev m = Some n \<Longrightarrow> pump_waits (m_pump m) \<Longrightarrow> m_held n = m_held m"
  by (cases "m_pump m"; cases ev) (auto simp: pump_waits_def pump_moves_def notify_parked_def split: if_splits)

lemma held_loss:
  "meter_loss m = Some n \<Longrightarrow> pump_waits (m_pump m) \<Longrightarrow> m_park n = park_end (m_park m)"
  by (cases "m_pump m")
    (auto simp: pump_waits_def meter_loss_def meter_drop_pump_def meter_take_held_def send_line_def split: option.splits)

lemma held_step:
  assumes "meter_step ev m = Some n" "pump_waits (m_pump m)" "m_park n = m_park m" "pk_since (m_park m) \<noteq> None"
  shows "m_held n = m_held m"
proof -
  have "m_park m \<noteq> park_end (m_park m)" using assms(4) by (metis park.select_convs(2) park_end_def park.surjective park.update_convs(2))
  then show ?thesis
    using assms held_pump [of ev m n] held_loss [of m n]
    by (cases ev) (auto simp: meter_step_def send_line_def split: if_splits dest: watch_fields writer_fields)
qed

lemma parked_or_gone:
  "meter_step ev m = Some n \<Longrightarrow> pk_since (m_park m) \<noteq> None \<Longrightarrow> m_park n = m_park m \<or> gone (m_park m) (m_park n)"
  using park_step [of ev m n] by (auto simp: gone_def park_end_def park_start_def)

lemma gone_run: "run_events meter_step es m = Some n \<Longrightarrow> gone pk (m_park m) \<Longrightarrow> gone pk (m_park n)"
  by (induction es arbitrary: m) (auto simp: bind_eq_Some_conv dest: gone_step)

lemma not_gone: "pk_since pk \<noteq> None \<Longrightarrow> \<not> gone pk pk"
  by (simp add: gone_def)

lemma waits_all_along:
  assumes "run_events meter_step es m = Some n" "stall_ok m" "m_park m = pk" "pk_since pk \<noteq> None" "m_park n = pk"
    "run_events meter_step (take k es) m = Some c"
  shows "m_park c = pk \<and> m_held c = m_held m"
  using assms
proof (induction es arbitrary: m k)
  case (Cons e es)
  then obtain u where u: "meter_step e m = Some u" "run_events meter_step es u = Some n"
    by (auto simp: bind_eq_Some_conv)
  have same: "m_park u = pk"
    using parked_or_gone [OF u(1)] gone_run [OF u(2)] not_gone Cons.prems(3-5) by auto
  have held: "m_held u = m_held m"
    using held_step [OF u(1)] Cons.prems same by (auto simp: stall_ok_def)
  show ?case
  proof (cases k)
    case (Suc j)
    with Cons.prems(6) u(1) have "run_events meter_step (take j es) u = Some c" by simp
    with Cons.IH [OF u(2) stall_step [OF u(1) Cons.prems(2)] same Cons.prems(4,5)] held show ?thesis by simp
  qed (use Cons.prems in simp)
qed simp

lemma watch_pump: "pump_moves ev m = Some n \<Longrightarrow> m_watch n = m_watch m"
  by (cases "m_pump m"; cases ev)
    (auto simp: pump_moves_def read_line_def hold_until_free_def notify_parked_def pump_send_def
      meter_take_held_def Let_def split: if_splits option.splits)

lemma watch_loss: "meter_loss m = Some n \<Longrightarrow> m_watch n = m_watch m"
  by (cases "m_pump m") (auto simp: meter_loss_def meter_drop_pump_def meter_take_held_def send_line_def split: option.splits)

lemma watch_kept:
  "meter_step ev m = Some n \<Longrightarrow> ev \<noteq> Watches \<Longrightarrow> m_watch m \<noteq> NoWatch \<Longrightarrow> m_watch n = m_watch m"
  by (cases ev) (auto simp: meter_step_def send_line_def split: if_splits dest: writer_fields watch_loss watch_pump)

lemma watch_run:
  "run_events meter_step es m = Some n \<Longrightarrow> Watches \<notin> set es \<Longrightarrow> m_watch m \<noteq> NoWatch \<Longrightarrow> m_watch n = m_watch m"
proof (induction es arbitrary: m)
  case (Cons e es)
  then obtain u where "meter_step e m = Some u" "run_events meter_step es u = Some n" by (auto simp: bind_eq_Some_conv)
  with Cons.IH [of u] Cons.prems(2,3) watch_kept [of e m u] show ?case by force
qed simp

lemma stalled_from_sleep:
  assumes "meter_step Watches m = Some n" "m_watch m = SleepOn pk" "m_watch n = Stalled"
  shows "m_park m = pk \<and> (\<exists>t. pk_since pk = Some t \<and> t + STALL_GRACE \<le> m_now n)"
  using assms by (auto simp: meter_step_def watch_turn_def split: if_splits option.splits)

text \<open>
  C21. A stall is a real one. If the \<open>stalled\<close> loop looks at the park in \<open>a\<close>, sleeps while the
  pump, the writer, the clock and the losses of connections do \<open>es\<close>, and then resolves, then one and
  the same daemon line was held, in one and the same park, at every moment in between, and it has
  waited for at least \<open>STALL_GRACE\<close>. A pump that was aborted, or got its permits and parked again
  for the next line, at whatever instant, does not count.
\<close>

theorem stall_is_real:
  assumes "meter_reachable a" "m_watch a = Look" "run_events meter_step (Watches # es) a = Some b"
    "Watches \<notin> set es" "meter_step Watches b = Some n" "m_watch n = Stalled"
  shows "\<exists>line since. pk_since (m_park a) = Some since \<and> since + STALL_GRACE \<le> m_now n \<and>
    (\<forall>k c. run_events meter_step (take k (Watches # es)) a = Some c \<longrightarrow>
       m_held c = Some line \<and> m_park c = m_park a)"
proof -
  from assms(3) obtain d where d: "meter_step Watches a = Some d" "run_events meter_step es d = Some b"
    by (auto simp: bind_eq_Some_conv)
  have "pk_since (m_park a) \<noteq> None \<and> m_watch d = SleepOn (m_park a)"
  proof (cases "pk_since (m_park a)")
    case None
    with d(1) assms(2) have "m_watch d = Await" by (auto simp: meter_step_def watch_turn_def split: if_splits)
    with watch_run [OF d(2) assms(4)] have "m_watch b = Await" by simp
    with assms(5,6) show ?thesis by (auto simp: meter_step_def watch_turn_def split: if_splits)
  next
    case (Some since)
    with d(1) assms(2) show ?thesis by (auto simp: meter_step_def watch_turn_def split: if_splits)
  qed
  then have since: "pk_since (m_park a) \<noteq> None" and sleep: "m_watch b = SleepOn (m_park a)"
    using watch_run [OF d(2) assms(4)] by auto
  note fin = stalled_from_sleep [OF assms(5) sleep assms(6)]
  have ok: "stall_ok a" by (rule stall_reachable [OF assms(1)])
  obtain line where "m_held a = Some line"
    using permits_reachable [OF assms(1)] ok since
    by (cases "m_held a"; cases "m_pump a") (auto simp: permits_ok_def stall_ok_def pump_waits_def)
  with fin waits_all_along [OF assms(3) ok refl since] show ?thesis by metis
qed

text \<open>
  C22. No stall is missed. Once the \<open>stalled\<close> loop runs and the pump has been parked for
  \<open>STALL_GRACE\<close>, and has told so, the loop resolves by at most three turns of its own, whatever it
  was waiting for: a park that began just before or after the loop last looked is not lost.
\<close>

theorem stall_is_noticed:
  assumes "meter_reachable m" "m_exit m = None" "m_watch m \<noteq> NoWatch" "\<not> unnotified (m_pump m)"
    "pk_since (m_park m) = Some since" "since + STALL_GRACE \<le> m_now m"
  shows "\<exists>k n. k \<le> 3 \<and> run_events meter_step (replicate k Watches) m = Some n \<and> m_watch n = Stalled"
proof -
  have step: "meter_step Watches u = watch_turn u" if "m_exit u = None" for u
    using that by (simp add: meter_step_def)
  have look: "\<exists>n. run_events meter_step [Watches, Watches] u = Some n \<and> m_watch n = Stalled"
    if "m_watch u = Look" "m_exit u = None" "m_park u = m_park m" "m_now u = m_now m" for u
    using that assms(5,6) by (simp add: step watch_turn_def)
  have ok: "stall_ok m" by (rule stall_reachable [OF assms(1)])
  show ?thesis
  proof (cases "m_watch m")
    case Look
    with look [of m] assms(2) show ?thesis by (intro exI [of _ 2]) (simp add: numeral_2_eq_2)
  next
    case Await
    with ok assms(4,5) have "m_notified m" by (auto simp: stall_ok_def)
    with Await look [of "m\<lparr>m_watch := Look, m_notified := False\<rparr>"] assms(2) show ?thesis
      by (intro exI [of _ 3]) (simp add: numeral_3_eq_3 step watch_turn_def)
  next
    case (SleepOn pk)
    with ok assms(5) obtain t where t: "pk_since pk = Some t" "t \<le> since" by (auto simp: stall_ok_def)
    show ?thesis
    proof (cases "m_park m = pk")
      case True
      with SleepOn t assms(2,5,6) show ?thesis by (intro exI [of _ 1]) (simp add: step watch_turn_def)
    next
      case False
      with SleepOn t look [of "m\<lparr>m_watch := Look, m_notified := False\<rparr>"] assms(2,6) show ?thesis
        by (intro exI [of _ 3]) (simp add: numeral_3_eq_3 step watch_turn_def)
    qed
  qed (use assms(3) in \<open>auto intro: exI [of _ 0]\<close>)
qed

section \<open>The order of the output\<close>

definition pipe_ok :: "meter \<Rightarrow> bool" where
  "pipe_ok m \<longleftrightarrow> pump_wants (m_pump m) = map_option line_cost (m_held m) \<and>
     (\<exists>forwarded. m_read m = forwarded @ held_lines m \<and> sent_lines m \<in> shuffles forwarded (m_own m))"

lemma shuffles_last: "ys @ [x] \<in> shuffles [x] ys"
  by (induction ys) (auto intro: Cons_in_shuffles_rightI)

lemma shuffles_snoc: "zs \<in> shuffles xs ys \<Longrightarrow> zs @ [x] \<in> shuffles (xs @ [x]) ys"
  by (induction xs ys arbitrary: zs rule: shuffles.induct) (auto intro: shuffles_last Cons_in_shuffles_leftI Cons_in_shuffles_rightI)

lemma shuffles_snoc_right: "zs \<in> shuffles xs ys \<Longrightarrow> zs @ [y] \<in> shuffles xs (ys @ [y])"
  using shuffles_snoc [of zs ys xs y] by (simp add: shuffles_commutes)

lemma pipe_same:
  "pipe_ok m \<Longrightarrow> m_held n = m_held m \<Longrightarrow> pump_wants (m_pump n) = pump_wants (m_pump m) \<Longrightarrow> m_read n = m_read m \<Longrightarrow>
     m_own n = m_own m \<Longrightarrow> sent_lines n = sent_lines m \<Longrightarrow> pipe_ok n"
  by (simp add: pipe_ok_def held_lines_def)

text \<open>The held line is forwarded, by the pump or after a loss.\<close>

lemma pipe_forward:
  assumes "pipe_ok m" "m_held m = Some line" "m_held n = None" "pump_wants (m_pump n) = None" "m_read n = m_read m"
    "m_own n = m_own m" "sent_lines n = sent_lines m @ [line]"
  shows "pipe_ok n"
  using assms shuffles_snoc [of "sent_lines m" _ "m_own m" line] by (auto simp: pipe_ok_def held_lines_def)

lemma pipe_pump:
  assumes "pump_moves ev m = Some n" "pipe_ok m"
  shows "pipe_ok n"
proof (cases "\<exists>c line. m_pump m = Crediting c \<and> ev = Sends \<and> m_held m = Some line")
  case True
  with assms show ?thesis
    by (auto simp: pump_moves_def pump_send_def meter_take_held_def sent_lines_def intro!: pipe_forward [OF assms(2)])
next
  case False
  with assms show ?thesis
    by (cases "m_pump m"; cases ev)
      (auto simp: pipe_ok_def sent_lines_def held_lines_def pump_moves_def read_line_def hold_until_free_def notify_parked_def
        pump_send_def meter_take_held_def Let_def split: if_splits option.splits)
qed

lemma pipe_loss:
  assumes "meter_loss m = Some n" "pipe_ok m"
  shows "pipe_ok n"
proof (cases "m_held m")
  case None
  with assms show ?thesis
    by (cases "m_pump m") (auto simp: pipe_ok_def meter_loss_def meter_drop_pump_def meter_take_held_def sent_lines_def held_lines_def)
next
  case (Some line)
  with assms(1) have "m_held n = None" "pump_wants (m_pump n) = None" "m_read n = m_read m" "m_own n = m_own m"
    "sent_lines n = sent_lines m @ [line]"
    by (cases "m_pump m"; auto simp: meter_loss_def meter_drop_pump_def meter_take_held_def send_line_def sent_lines_def)+
  with pipe_forward [OF assms(2) Some] show ?thesis by blast
qed

lemma pipe_step:
  assumes "meter_step ev m = Some n" "pipe_ok m"
  shows "pipe_ok n"
proof (cases "\<exists>line. ev = SendsOwn line")
  case True
  with assms show ?thesis
    by (auto simp: meter_step_def pipe_ok_def send_line_def sent_lines_def held_lines_def split: if_splits
        dest: shuffles_snoc_right)
next
  case False
  have watch: "pipe_ok k" if "watch_turn m = Some k" for k
    using that assms(2)
    by (auto simp: watch_turn_def pipe_ok_def sent_lines_def held_lines_def split: stall_watch.splits option.splits if_splits)
  have writer: "pipe_ok k" if "writer_take m = Some k \<or> writer_wrote failed m = Some k" for k failed
    using that assms(2)
    by (auto simp: writer_take_def writer_wrote_def pipe_ok_def sent_lines_def held_lines_def
        split: option.splits prod.splits list.splits out_msg.splits)
  from False assms pipe_pump [of ev m n] show ?thesis
    by (cases ev) (auto simp: meter_step_def split: if_splits intro: pipe_same [OF assms(2)] dest: pipe_loss watch
          writer [OF disjI1] writer [OF disjI2] simp: sent_lines_def)
qed

lemma pipe_reachable: "meter_reachable m \<Longrightarrow> pipe_ok m"
proof (rule meters.invariant)
  show "pipe_ok n" if "pipe_ok m" "meter_step e m = Some n" for m e n using that(2,1) by (rule pipe_step)
qed (auto simp: pipe_ok_def new_meter_def sent_lines_def held_lines_def)

text \<open>
  C7. Stdout is a faithful pipe. However pumps park, are aborted and replaced, the lines that reach
  stdout are whole lines, and together with those on the way they are exactly the daemons' lines in the
  order they were read, none lost and none twice but for a last one that is still held, shuffled
  with the proxy's own lines in their order.
\<close>

theorem stdout_in_order:
  assumes "meter_reachable m"
  shows "\<exists>forwarded. m_read m = forwarded @ held_lines m \<and> sent_lines m \<in> shuffles forwarded (m_own m)
    \<and> prefix (m_stdout m) (sent_lines m)"
  using pipe_reachable [OF assms] by (auto simp: pipe_ok_def sent_lines_def)

section \<open>A client that stops reading\<close>

text \<open>A line longer than the budget is queued; the next one parks, and after a second that is a stall.\<close>

definition long_line :: string where
  "long_line = replicate STDOUT_BUDGET (CHR ''a'') @ [CHR 0x0A]"

definition short_line :: string where
  "short_line = [CHR ''b'', CHR 0x0A]"

definition blocked :: meter where
  "blocked = (new_meter 5)\<lparr>m_free := 0, m_held := Some short_line, m_park := \<lparr> pk_seq = 1, pk_since = Some 5 \<rparr>,
     m_pump := Parked 2, m_queue := [OutMsg long_line (Some STDOUT_BUDGET)], m_watch := Look,
     m_read := [long_line, short_line]\<rparr>"

lemma demo_lines:
  "line_cost long_line = STDOUT_BUDGET" "line_cost short_line = 2" "long_line \<noteq> []" "short_line \<noteq> []"
  "last long_line = CHR 0x0A" "last short_line = CHR 0x0A"
  by (simp_all add: line_cost_min long_line_def short_line_def STDOUT_BUDGET_def)

lemma blocked_reached:
  "run_events meter_step [Connects, Reads long_line, Sends, Reads short_line, Notifies] (new_meter 5)
     = Some (blocked\<lparr>m_watch := NoWatch, m_notified := True\<rparr>)"
  by (simp add: meter_step_def pump_moves_def read_line_def hold_until_free_def notify_parked_def pump_send_def
      meter_take_held_def park_start_def demo_lines new_meter_def blocked_def)

lemma blocked_reachable: "meter_reachable blocked"
proof -
  have "meter_step StartsWatch (blocked\<lparr>m_watch := NoWatch, m_notified := True\<rparr>) = Some blocked"
    by (simp add: meter_step_def blocked_def new_meter_def)
  then show ?thesis using meters.run_from_start [OF blocked_reached] by (blast intro: meter_reachable.moves)
qed

text \<open>
  The budget does not bound what is queued over several losses: every loss queues the held line
  without a share, and the next connection's pump reads another one, while nothing is written.
\<close>

lemma losses_pass_budget:
  "\<exists>m. run_events meter_step [Loses, Connects, Reads long_line, Notifies, Loses] blocked = Some m
     \<and> m_stdout m = [] \<and> sent_lines m = [long_line, short_line, long_line] \<and> waiting_bytes m = length long_line"
  by (simp add: meter_step_def pump_moves_def read_line_def hold_until_free_def notify_parked_def meter_loss_def
      meter_drop_pump_def meter_take_held_def send_line_def sent_lines_def waiting_bytes_def metered_def park_start_def
      demo_lines blocked_def new_meter_def STDOUT_BUDGET_def)

text \<open>With three lines waiting after two losses, two of them have no share.\<close>

theorem stdout_bounded_witness:
  "\<exists>m. run_events meter_step [Connects, Reads long_line, Sends, Reads short_line, Notifies, Loses, Connects, Reads long_line,
      Notifies, Loses] (new_meter 5) = Some m
     \<and> waiting_lines m = [long_line, short_line, long_line] \<and> size (mset (unmetered m)) \<le> 2"
proof -
  let ?es = "[Connects, Reads long_line, Sends, Reads short_line, Notifies, Loses, Connects, Reads long_line, Notifies, Loses]"
  obtain m where m: "run_events meter_step ?es (new_meter 5) = Some m" "m_stdout m = []" "m_own m = []"
      "sent_lines m = [long_line, short_line, long_line]"
    by (simp add: meter_step_def pump_moves_def read_line_def hold_until_free_def notify_parked_def pump_send_def meter_loss_def
      meter_drop_pump_def meter_take_held_def send_line_def sent_lines_def park_start_def park_end_def demo_lines new_meter_def
      STDOUT_BUDGET_def)
  from stdout_bounded [OF m(1)] m obtain lost where lost: "length lost \<le> 2" "mset (unmetered m) \<subseteq># mset lost"
    by (auto simp: numeral_2_eq_2)
  then have "size (mset (unmetered m)) \<le> 2" using size_mset_mono [OF lost(2)] by simp
  with m stdout_bounded [OF m(1)] show ?thesis by (intro exI [of _ m]) simp
qed

theorem stdout_in_order_witness:
  "\<exists>m forwarded. meter_step Loses blocked = Some m \<and> m_read m = [long_line, short_line] \<and> m_read m = forwarded @ held_lines m
     \<and> sent_lines m \<in> shuffles forwarded [] \<and> sent_lines m = [long_line, short_line]"
proof -
  obtain m where m: "meter_step Loses blocked = Some m" "m_read m = [long_line, short_line]" "m_own m = []"
      "sent_lines m = [long_line, short_line]"
    by (simp add: meter_step_def meter_loss_def meter_drop_pump_def meter_take_held_def send_line_def sent_lines_def blocked_def
        new_meter_def)
  from stdout_in_order [OF meter_reachable.moves [OF blocked_reachable m(1)]] m show ?thesis by auto
qed

lemma blocked_stalls:
  "\<exists>b n. run_events meter_step [Watches, Ticks 1000] blocked = Some b \<and> meter_step Watches b = Some n \<and> m_watch n = Stalled"
  by (simp add: meter_step_def watch_turn_def blocked_def new_meter_def STALL_GRACE_def)

lemma stall_is_real_witness:
  "\<exists>line since. pk_since (m_park blocked) = Some since \<and>
     (\<forall>k c. run_events meter_step (take k [Watches, Ticks 1000]) blocked = Some c \<longrightarrow> m_held c = Some line)"
proof -
  obtain b n where run: "run_events meter_step [Watches, Ticks 1000] blocked = Some b"
    "meter_step Watches b = Some n" "m_watch n = Stalled" using blocked_stalls by blast
  show ?thesis using stall_is_real [OF blocked_reachable _ run(1) _ run(2,3)] by (auto simp: blocked_def)
qed

lemma stall_is_noticed_witness:
  "\<exists>k n. k \<le> 3 \<and> run_events meter_step (replicate k Watches) (blocked\<lparr>m_now := 1005\<rparr>) = Some n \<and> m_watch n = Stalled"
proof -
  have "meter_step (Ticks 1000) blocked = Some (blocked\<lparr>m_now := 1005\<rparr>)"
    by (simp add: meter_step_def blocked_def new_meter_def)
  then have "meter_reachable (blocked\<lparr>m_now := 1005\<rparr>)" by (rule meter_reachable.moves [OF blocked_reachable])
  then show ?thesis
    by (rule stall_is_noticed [where since = 5]) (simp_all add: blocked_def new_meter_def unnotified_def STALL_GRACE_def)
qed

end
