(* ===== verification/PumpRefines.thy ===== *)
theory PumpRefines
  imports StdoutLaws ProxyRuns
begin

text \<open>
  Two views of one pump: \<open>ProxyLoop\<close> lets a held line wait as long as it likes, \<open>Stdout\<close> says what it
  waits for. The detailed pump implements the other one, so what \<open>ProxyLaws\<close> and \<open>ProxyRuns\<close> show
  holds with the budget, the parks and the writer in place.
\<close>

definition pump_view :: "meter \<Rightarrow> pump" where
  "pump_view m =
     (case m_pump m of
        MeterOff \<Rightarrow> Stopped
      | MeterReading \<Rightarrow> Reading
      | _ \<Rightarrow> (case m_held m of None \<Rightarrow> Stopped | Some line \<Rightarrow> Holding line))"

text \<open>The events of \<open>ProxyLoop\<close> that a step of the detailed pump amounts to.\<close>

definition pump_events :: "meter_event \<Rightarrow> meter \<Rightarrow> event list" where
  "pump_events ev m =
     (case ev of
        Reads line \<Rightarrow> if line = [] \<or> last line \<noteq> CHR 0x0A then [PumpEof] else [PumpRead line]
      | Sends \<Rightarrow> [PumpTrack, PumpSend]
      | _ \<Rightarrow> [])"

definition handed_on :: "meter_event \<Rightarrow> meter \<Rightarrow> string list" where
  "handed_on ev m = (if ev = Sends \<or> ev = Loses then held_lines m else [])"

text \<open>What a step gives the writer thread: a daemon's line, or one of the proxy itself.\<close>

definition given_out :: "meter_event \<Rightarrow> meter \<Rightarrow> string list" where
  "given_out ev m = (case ev of SendsOwn line \<Rightarrow> [line] | _ \<Rightarrow> handed_on ev m)"

lemma sent_step:
  assumes "meter_step ev m = Some n" and "meter_reachable m"
  shows "sent_lines n = sent_lines m @ given_out ev m"
proof -
  have held: "pump_wants (m_pump m) = map_option line_cost (m_held m)"
    using permits_reachable [OF assms(2)] by (simp add: permits_ok_def)
  consider (pump) "ev \<in> {Connects, Notifies, Grants, Resumes, Sends} \<or> (\<exists>l. ev = Reads l)" | (loss) "ev = Loses"
    | (rest) "ev \<in> {WriterTakes, Watches, StartsWatch} \<or> (\<exists>d. ev = Ticks d) \<or> (\<exists>l. ev = SendsOwn l)
        \<or> (\<exists>c. ev = AsksExit c) \<or> (\<exists>f. ev = WriterWrote f)"
    by (cases ev) auto
  then show ?thesis
  proof cases
    case pump
    with assms(1) have "pump_moves ev m = Some n" by (auto simp: meter_step_def split: if_splits)
    with held show ?thesis
      by (cases "m_pump m"; cases "m_held m"; cases ev)
        (auto simp: pump_moves_def read_line_def hold_until_free_def notify_parked_def pump_send_def meter_take_held_def
          sent_lines_def given_out_def handed_on_def held_lines_def Let_def split: if_splits)
  next
    case loss
    with assms(1) have "meter_loss m = Some n" by (simp add: meter_step_def split: if_splits)
    with loss show ?thesis
      by (cases "m_pump m"; cases "m_held m")
        (auto simp: meter_loss_def meter_drop_pump_def meter_take_held_def send_line_def sent_lines_def given_out_def
          handed_on_def held_lines_def)
  next
    case rest
    with assms(1) show ?thesis
      by (auto simp: meter_step_def send_line_def writer_take_def writer_wrote_def watch_turn_def sent_lines_def given_out_def
          handed_on_def split: if_splits option.splits prod.splits list.splits out_msg.splits stall_watch.splits)
  qed
qed

lemma proxy_pump: "proxy_event x (PumpRead l) p = pump_event x (PumpRead l) p" "proxy_event x PumpEof p = pump_event x PumpEof p"
  "proxy_event x PumpTrack p = pump_event x PumpTrack p" "proxy_event x PumpSend p = pump_event x PumpSend p"
  by simp_all

lemma view_same:
  "meter_step ev m = Some n \<Longrightarrow> ev \<in> {WriterTakes, Watches, StartsWatch} \<or> (\<exists>d. ev = Ticks d) \<or> (\<exists>l. ev = SendsOwn l)
     \<or> (\<exists>c. ev = AsksExit c) \<or> (\<exists>f. ev = WriterWrote f) \<Longrightarrow> m_pump n = m_pump m \<and> m_held n = m_held m"
  by (auto simp: meter_step_def send_line_def writer_take_def writer_wrote_def watch_turn_def
      split: if_splits option.splits prod.splits list.splits out_msg.splits stall_watch.splits)

text \<open>
  C17. The metered pump implements the proxy's pump. Whatever step the pump, the writer, the clock or
  the \<open>stalled\<close> loop makes, the proxy's state machine follows with its own events of the pump: its
  pump ends in the same place, and it queues for stdout what the metered pump hands to the writer
  thread, the same lines in the same step, each of them exactly once and behind everything handed
  over before. At a loss it follows with \<open>take_held\<close>.
\<close>

theorem metered_pump_refines:
  assumes "meter_reachable m" and "p_pump p = pump_view m" and "meter_step ev m = Some n" and "ev \<noteq> Connects"
  shows "\<exists>q. (if ev = Loses then q = take_held x p else proxy_run x (pump_events ev m) p = Some q)
    \<and> p_pump q = pump_view n \<and> p_main q = p_main p \<and> p_out q = p_out p @ map OutLine (handed_on ev m)
    \<and> sent_lines n = sent_lines m @ (case ev of SendsOwn line \<Rightarrow> [line] | _ \<Rightarrow> handed_on ev m)"
proof -
  have sent: "sent_lines n = sent_lines m @ (case ev of SendsOwn line \<Rightarrow> [line] | _ \<Rightarrow> handed_on ev m)"
    using sent_step [OF assms(3,1)] by (simp add: given_out_def)
  have held: "pump_wants (m_pump m) = map_option line_cost (m_held m)"
    using permits_reachable [OF assms(1)] by (simp add: permits_ok_def)
  have "\<exists>q. (if ev = Loses then q = take_held x p else proxy_run x (pump_events ev m) p = Some q)
    \<and> p_pump q = pump_view n \<and> p_main q = p_main p \<and> p_out q = p_out p @ map OutLine (handed_on ev m)"
  proof (cases "ev = Loses")
    case True
    with assms(3) have "meter_loss m = Some n" by (simp add: meter_step_def split: if_splits)
    with True assms(2) held show ?thesis
      by (cases "m_pump m"; cases "m_held m")
        (auto simp: meter_loss_def meter_drop_pump_def meter_take_held_def pump_view_def take_held_def forward_line_def
          send_line_def held_lines_def handed_on_def)
  next
    case False
    show ?thesis
    proof (cases "ev \<in> {Notifies, Grants, Resumes, Sends} \<or> (\<exists>l. ev = Reads l)")
      case True
      with assms(3) have "pump_moves ev m = Some n" by (auto simp: meter_step_def split: if_splits)
      with True False assms(2) held show ?thesis
        by (cases "m_pump m"; cases "m_held m")
          (auto simp: pump_moves_def read_line_def hold_until_free_def notify_parked_def pump_send_def meter_take_held_def
            pump_view_def pump_events_def handed_on_def held_lines_def pump_event_def Let_def split: if_splits)
    next
      case other: False
      with False assms(3,4) view_same [of ev m n] have "m_pump n = m_pump m \<and> m_held n = m_held m" by (cases ev) auto
      then have "pump_view n = pump_view m" by (simp add: pump_view_def split: meter_pump.split)
      with other assms(2) show ?thesis
        by (cases ev) (auto simp: pump_events_def handed_on_def False)
    qed
  qed
  with sent show ?thesis by blast
qed

text \<open>A new connection sets both pumps to reading.\<close>

lemma connects_refines:
  "meter_step Connects m = Some n \<Longrightarrow> p_pump (connected sent p) = pump_view n"
  by (auto simp: meter_step_def pump_moves_def connected_def pump_view_def split: if_splits meter_pump.splits)

text \<open>The client has stopped reading; the parked line is forwarded when the connection is lost.\<close>

theorem metered_pump_refines_witness:
  "\<exists>n. meter_step Loses blocked = Some n \<and> pump_view blocked = Holding short_line \<and> pump_view n = Stopped
     \<and> p_out (take_held demo_wire (initial_proxy\<lparr>p_pump := Holding short_line\<rparr>)) = [OutLine short_line]
     \<and> sent_lines n = [long_line, short_line]"
proof -
  obtain n where n: "meter_step Loses blocked = Some n" "m_pump n = MeterOff"
    by (simp add: meter_step_def meter_loss_def meter_drop_pump_def meter_take_held_def send_line_def blocked_def new_meter_def)
  have view: "pump_view blocked = Holding short_line" "held_lines blocked = [short_line]"
    by (simp_all add: pump_view_def held_lines_def blocked_def new_meter_def)
  from metered_pump_refines [OF blocked_reachable _ n(1), of "initial_proxy\<lparr>p_pump := Holding short_line\<rparr>" demo_wire]
  show ?thesis using n view by (auto simp: pump_view_def initial_proxy_def handed_on_def sent_lines_def blocked_def new_meter_def)
qed

end
