(* ===== verification/Reattach.thy ===== *)
theory Reattach
  imports ProxyLoop
begin

text \<open>
  What an attempt of a round does on a fresh connection once the hello has succeeded
  (\<open>crates/server/src/proxy/reconnect.rs\<close>, from \<open>replay\<close> on): the bytes written to the daemon, the
  lines read from it until the awaited answer, and the errors. The connection is the results of
  the coming reads and writes; with no more reads to come only the time limit is left.
\<close>

section \<open>The connection\<close>

text \<open>\<open>ReadLine\<close> is what \<open>read_until\<close> filled in: at the end of the stream it lacks the newline.\<close>

datatype daemon_read = ReadLine string | ReadError string

record daemon_conn =
  dc_reads :: "daemon_read list"
  dc_writes :: "string option list"
  dc_written :: "string list"

definition write_to_daemon :: "string \<Rightarrow> daemon_conn \<Rightarrow> (attempt_error + unit) \<times> daemon_conn" where
  "write_to_daemon line c =
     (case dc_writes c of
        Some e # rest \<Rightarrow> (Inl (retryable (''write to daemon failed: '' @ e)), c\<lparr>dc_writes := rest\<rparr>)
      | None # rest \<Rightarrow> (Inr (), c\<lparr>dc_writes := rest, dc_written := dc_written c @ [line]\<rparr>)
      | [] \<Rightarrow> (Inr (), c\<lparr>dc_written := dc_written c @ [line]\<rparr>))"

text \<open>\<open>None\<close>: still waiting when the reads are used up.\<close>

fun read_response :: "json_lib \<Rightarrow> json \<Rightarrow> string \<Rightarrow> daemon_read list \<Rightarrow>
    (attempt_error + string \<times> rpc_outcome) option \<times> daemon_read list" where
  "read_response x i what [] = (None, [])"
| "read_response x i what (ReadError e # rest) = (Some (Inl (retryable (''read from daemon failed: '' @ e))), rest)"
| "read_response x i what (ReadLine line # rest) =
     (if line = [] \<or> last line \<noteq> CHR 0x0A
      then (Some (Inl (retryable (''daemon closed the connection before answering the '' @ what))), rest)
      else case response_outcome x line i of
        Some outcome \<Rightarrow> (Some (Inr (line, outcome)), rest)
      | None \<Rightarrow> read_response x i what rest)"

text \<open>A timeout on the still-open connection ends the round.\<close>

definition await_response :: "json_lib \<Rightarrow> json \<Rightarrow> string \<Rightarrow> string \<Rightarrow> daemon_conn \<Rightarrow>
    (attempt_error + string \<times> rpc_outcome) \<times> daemon_conn" where
  "await_response x i timeout what c =
     (case read_response x i what (dc_reads c) of
        (Some r, rest) \<Rightarrow> (r, c\<lparr>dc_reads := rest\<rparr>)
      | (None, rest) \<Rightarrow> (Inl (fatal (''daemon did not answer the '' @ what @ '' within '' @ timeout)), c\<lparr>dc_reads := rest\<rparr>))"

section \<open>After the hello\<close>

definition replay :: "json_lib \<Rightarrow> string \<Rightarrow> daemon_conn \<Rightarrow> tracker \<Rightarrow> (attempt_error + unit) \<times> daemon_conn \<times> tracker" where
  "replay x timeout c t =
     (let t = mark_replay_started t in
      case t_initialize t of None \<Rightarrow> (Inl (fatal ''no cached initialize to replay''), c, t)
      | Some initialize \<Rightarrow>
      case request_id x initialize of None \<Rightarrow> (Inl (fatal ''cached initialize has no id''), c, t)
      | Some i \<Rightarrow>
      case write_to_daemon initialize c of (Inl e, c) \<Rightarrow> (Inl e, c, t)
      | (Inr _, c) \<Rightarrow>
      case await_response x i timeout ''replayed initialize'' c of (Inl e, c) \<Rightarrow> (Inl e, c, t)
      | (Inr (_, outcome), c) \<Rightarrow>
      if outcome = Error
      then (Inl (retryable ''daemon answered the replayed initialize with an error''), c, t)
      else case t_initialized t of None \<Rightarrow> (Inr (), c, t)
      | Some initialized \<Rightarrow> case write_to_daemon initialized c of (r, c) \<Rightarrow> (r, c, t))"

definition kept :: "tracker \<Rightarrow> attempt_error + kept_request" where
  "kept t = (case t_kept_first t of None \<Rightarrow> Inl (fatal ''no kept first request to re-send'') | Some k \<Rightarrow> Inr k)"

definition forward_initialize :: "json_lib \<Rightarrow> string \<Rightarrow> daemon_conn \<Rightarrow> tracker \<Rightarrow> (attempt_error + string) \<times> daemon_conn" where
  "forward_initialize x timeout c t =
     (case kept t of Inl e \<Rightarrow> (Inl e, c)
      | Inr k \<Rightarrow>
      case write_to_daemon (kr_line k) c of (Inl e, c) \<Rightarrow> (Inl e, c)
      | (Inr _, c) \<Rightarrow>
      case await_response x (kr_id k) timeout ''re-sent initialize'' c of (Inl e, c) \<Rightarrow> (Inl e, c)
      | (Inr (response, _), c) \<Rightarrow> (Inr response, c))"

text \<open>The part of an attempt after \<open>connect\<close>: the response is for the client.\<close>

fun after_hello_done :: "json_lib \<Rightarrow> string \<Rightarrow> after_hello \<Rightarrow> daemon_conn \<Rightarrow> tracker \<Rightarrow>
    (attempt_error + string option) \<times> daemon_conn \<times> tracker" where
  "after_hello_done x timeout ReplayDrop c t =
     (case replay x timeout c t of (Inl e, c, t) \<Rightarrow> (Inl e, c, t) | (Inr _, c, t) \<Rightarrow> (Inr None, c, t))"
| "after_hello_done x timeout ReplayForward c t =
     (case forward_initialize x timeout c t of (Inl e, c) \<Rightarrow> (Inl e, c, t) | (Inr r, c) \<Rightarrow> (Inr (Some r), c, t))"
| "after_hello_done x timeout ResendKept c t =
     (case kept t of Inl e \<Rightarrow> (Inl e, c, t)
      | Inr k \<Rightarrow> case write_to_daemon (kr_line k) c of (Inl e, c) \<Rightarrow> (Inl e, c, t) | (Inr _, c) \<Rightarrow> (Inr None, c, t))"
| "after_hello_done x timeout Nothing c t = (Inr None, c, t)"

end
