(* ===== verification/ReattachLaws.thy ===== *)
theory ReattachLaws
  imports Reattach ProxyRuns
begin

text \<open>
  The attempts of \<open>Reattach\<close> are the ones the state machine of the proxy assumes: what they write
  is what \<open>ProxyLoop\<close> records as sent, what they return is an answer to the request that was
  waiting, and they end a round only where the daemon stays silent.
\<close>

section \<open>Laws\<close>

lemma mark_replay_kept: "t_kept_first (mark_replay_started t) = t_kept_first t"
  by (simp add: mark_replay_started_def)

lemma write_written: "write_to_daemon line c = (Inr u, d) \<Longrightarrow> dc_written d = dc_written c @ [line]"
  by (auto simp: write_to_daemon_def split: list.splits option.splits)

lemma await_written: "await_response x i timeout what c = (r, d) \<Longrightarrow> dc_written d = dc_written c"
  by (auto simp: await_response_def split: prod.splits option.splits)

text \<open>The answer is the first line that is a response to the request.\<close>

lemma read_response_found:
  "read_response x i what rs = (Some (Inr (line, out)), rest) \<Longrightarrow>
     \<exists>skipped. rs = map ReadLine skipped @ ReadLine line # rest \<and> response_outcome x line i = Some out
       \<and> (\<forall>l\<in>set skipped. response_outcome x l i = None)"
proof (induction x i what rs rule: read_response.induct)
  case (3 x i what l rs)
  then show ?case
  proof (cases "response_outcome x l i")
    case None
    with 3 obtain sk where "rs = map ReadLine sk @ ReadLine line # rest" "response_outcome x line i = Some out"
      "\<forall>l\<in>set sk. response_outcome x l i = None" by (auto split: if_splits)
    with None show ?thesis by (intro exI [of _ "l # sk"]) simp
  qed (auto split: if_splits intro: exI [of _ "[]"])
qed simp_all


section \<open>Success\<close>

lemma await_found:
  assumes "await_response x i timeout what c = (Inr (line, out), d)"
  shows "response_outcome x line i = Some out"
  using assms read_response_found [of x i what "dc_reads c" line out]
  by (auto simp: await_response_def split: prod.splits option.splits)

lemma replay_done:
  assumes "replay x timeout c t = (Inr u, d, v)"
  shows "v = mark_replay_started t \<and> (\<exists>line i. t_initialize t = Some line \<and> request_id x line = Some i \<and>
    dc_written d = dc_written c @ line # (case t_initialized t of None \<Rightarrow> [] | Some l \<Rightarrow> [l]))"
proof -
  have "t_initialize (mark_replay_started t) = t_initialize t" "t_initialized (mark_replay_started t) = t_initialized t"
    by (simp_all add: mark_replay_started_def)
  with assms show ?thesis
    by (auto simp: replay_def Let_def dest!: write_written await_written split: option.splits prod.splits sum.splits if_splits)
qed

lemma forward_done:
  assumes "forward_initialize x timeout c t = (Inr r, d)"
  shows "\<exists>k. t_kept_first t = Some k \<and> dc_written d = dc_written c @ [kr_line k] \<and> response_outcome x r (kr_id k) \<noteq> None"
  using assms
  by (auto simp: forward_initialize_def kept_def dest!: write_written split: option.splits prod.splits sum.splits)
    (metis await_written await_found option.distinct(1))+

definition reattach_events :: "after_hello \<Rightarrow> string \<Rightarrow> string option \<Rightarrow> event list" where
  "reattach_events after key response =
     (if after = ReplayDrop then [StartReplay] else [])
       @ [AttemptSucceeds key (case response of None \<Rightarrow> [] | Some line \<Rightarrow> line)]"

text \<open>
  C16. The attempts refine the proxy's state machine. When an attempt of a round gets through its
  handshake on a fresh connection, the machine of the proxy can take the same attempt, with the
  replay if there is one, to a state whose connection has received exactly the bytes written here,
  whose tracker has been told of the response and nothing else, and which has put on stdout the
  change of tools, if the key is new, and the response, if the client waits for it.
\<close>

theorem reattach_refines:
  assumes "p_main p = Restoring after n early None"
    and "after_hello_done x timeout after \<lparr> dc_reads = reads, dc_writes = writes, dc_written = [] \<rparr> (p_tracker p) = (Inr response, d, t)"
  shows "\<exists>q. proxy_run x (reattach_events after key response) p = Some q \<and> p_main q = Flushing \<and> p_sent q = dc_written d
    \<and> p_queue q = p_queue p
    \<and> p_tracker q = set_link Up (case response of None \<Rightarrow> t | Some line \<Rightarrow> on_daemon_line x line t)
    \<and> p_out q = p_out (announce_key key p) @ (case response of None \<Rightarrow> [] | Some line \<Rightarrow> [OutLine line])"
proof (cases after)
  case ReplayDrop
  with assms(2) obtain u where "replay x timeout \<lparr> dc_reads = reads, dc_writes = writes, dc_written = [] \<rparr> (p_tracker p) = (Inr u, d, t)"
      "response = None" by (auto split: prod.splits sum.splits)
  with replay_done [OF this(1)] assms(1) ReplayDrop show ?thesis
    by (auto simp: reattach_events_def start_replay_def attempt_succeeded_def connected_def announce_key_def
        mark_replay_started_def Let_def)
next
  case ReplayForward
  with assms(2) obtain r where "forward_initialize x timeout \<lparr> dc_reads = reads, dc_writes = writes, dc_written = [] \<rparr> (p_tracker p) = (Inr r, d)"
      "response = Some r" "t = p_tracker p" by (auto split: prod.splits sum.splits)
  with forward_done [OF this(1)] assms(1) ReplayForward show ?thesis
    by (auto simp: reattach_events_def attempt_succeeded_def connected_def announce_key_def forward_line_def Let_def)
next
  case ResendKept
  with assms show ?thesis
    by (auto simp: reattach_events_def kept_def attempt_succeeded_def connected_def announce_key_def Let_def
        dest!: write_written split: option.splits prod.splits sum.splits)
next
  case Nothing
  with assms show ?thesis
    by (auto simp: reattach_events_def attempt_succeeded_def connected_def announce_key_def Let_def)
qed

section \<open>Failure\<close>

text \<open>The request whose answer the attempt waits for.\<close>

definition awaited :: "json_lib \<Rightarrow> after_hello \<Rightarrow> tracker \<Rightarrow> json option" where
  "awaited x after t =
     (case after of
        ReplayDrop \<Rightarrow> (case t_initialize t of None \<Rightarrow> None | Some line \<Rightarrow> request_id x line)
      | ReplayForward \<Rightarrow> map_option kr_id (t_kept_first t)
      | _ \<Rightarrow> None)"

definition unanswering :: "json_lib \<Rightarrow> json \<Rightarrow> daemon_read \<Rightarrow> bool" where
  "unanswering x i r \<longleftrightarrow>
     (case r of ReadError e \<Rightarrow> False
      | ReadLine line \<Rightarrow> line \<noteq> [] \<and> last line = CHR 0x0A \<and> response_outcome x line i = None)"

text \<open>The daemon took the request, and neither answers it nor closes the connection.\<close>

definition stays_silent :: "json_lib \<Rightarrow> json option \<Rightarrow> daemon_conn \<Rightarrow> bool" where
  "stays_silent x want c \<longleftrightarrow>
     (case want of None \<Rightarrow> False
      | Some i \<Rightarrow> (case dc_writes c of Some e # rest \<Rightarrow> False | _ \<Rightarrow> True) \<and> list_all (unanswering x i) (dc_reads c))"

lemma read_response_silent: "fst (read_response x i what rs) = None \<longleftrightarrow> list_all (unanswering x i) rs"
  by (induction x i what rs rule: read_response.induct) (auto simp: unanswering_def split: option.splits)

lemma read_response_errors: "read_response x i what rs = (Some (Inl e), rest) \<Longrightarrow> ae_retryable e"
  by (induction x i what rs rule: read_response.induct) (auto simp: retryable_def split: option.splits if_splits)

lemma await_error:
  assumes "await_response x i timeout what c = (Inl e, d)"
  shows "ae_retryable e \<longleftrightarrow> \<not> list_all (unanswering x i) (dc_reads c)"
  using assms read_response_silent [of x i what "dc_reads c"] read_response_errors [of x i what "dc_reads c" e]
  by (auto simp: await_response_def fatal_def split: prod.splits option.splits)

lemma await_answer:
  assumes "await_response x i timeout what c = (Inr r, d)"
  shows "\<not> list_all (unanswering x i) (dc_reads c)"
  using assms read_response_silent [of x i what "dc_reads c"]
  by (auto simp: await_response_def split: prod.splits option.splits)

lemma write_error:
  "write_to_daemon line c = (Inl e, d) \<Longrightarrow> ae_retryable e \<and> (\<exists>m rest. dc_writes c = Some m # rest)"
  "write_to_daemon line c = (Inr u, d) \<Longrightarrow> dc_reads d = dc_reads c \<and> \<not> (\<exists>m rest. dc_writes c = Some m # rest)"
  by (auto simp: write_to_daemon_def retryable_def split: list.splits option.splits)

lemma replay_failed:
  assumes "replay x timeout c t = (Inl e, d, v)" "t_initialize t = Some line" "request_id x line = Some i"
  shows "ae_retryable e \<longleftrightarrow> \<not> stays_silent x (Some i) c"
proof -
  have same: "t_initialize (mark_replay_started t) = t_initialize t" by (simp add: mark_replay_started_def)
  show ?thesis
    using assms
    by (auto simp: replay_def same Let_def stays_silent_def retryable_def
        dest!: write_error await_error await_answer split: option.splits prod.splits sum.splits if_splits list.splits)
qed

lemma forward_failed:
  assumes "forward_initialize x timeout c t = (Inl e, d)" "t_kept_first t = Some k"
  shows "ae_retryable e \<longleftrightarrow> \<not> stays_silent x (Some (kr_id k)) c"
  using assms
  by (auto simp: forward_initialize_def kept_def stays_silent_def
      dest!: write_error await_error split: option.splits prod.splits sum.splits list.splits)

text \<open>
  C20. Only silence ends a round. In every reachable state of a round, an attempt that fails after
  its hello may be tried again, unless the daemon took the request and then neither answered it
  nor closed the connection until the time limit; the other fatal errors of the code, a missing
  cached \<open>initialize\<close>, one without an id, a missing kept request, never happen.
\<close>

theorem only_silence_ends_round:
  assumes "wire_laws x" and "proxy_reachable x p" and "p_main p = Restoring after n early None"
    and "after_hello_done x timeout after c (p_tracker p) = (Inl e, d, t)"
  shows "ae_retryable e \<longleftrightarrow> \<not> stays_silent x (awaited x after (p_tracker p)) c"
proof -
  note inv = proxy_invD(1,2) [OF inv_reachable [OF assms(1,2)]]
  show ?thesis
  proof (cases after)
    case ReplayDrop
    with inv assms(3) obtain line i where "t_initialize (p_tracker p) = Some line" "request_id x line = Some i"
      by (auto simp: round_ok_def replays_handshake_def tracker_ok_def)
    with ReplayDrop assms(4) replay_failed show ?thesis
      by (auto simp: awaited_def split: prod.splits sum.splits)
  next
    case ReplayForward
    with inv assms(3) obtain k where "t_kept_first (p_tracker p) = Some k" by (auto simp: round_ok_def)
    with ReplayForward assms(4) forward_failed show ?thesis
      by (auto simp: awaited_def split: prod.splits sum.splits)
  next
    case ResendKept
    with inv assms(3) obtain k where "t_kept_first (p_tracker p) = Some k" by (auto simp: round_ok_def)
    with ResendKept assms(4) show ?thesis
      by (auto simp: awaited_def kept_def stays_silent_def dest: write_error split: prod.splits sum.splits)
  qed (use assms(4) in simp)
qed

section \<open>Examples\<close>

text \<open>A daemon that is lost before it has answered \<open>initialize\<close>.\<close>

definition demo_ini :: string where "demo_ini = demo_line ''{i1''"

definition demo_tracker :: tracker where
  "demo_tracker = \<lparr> t_in_flight = [(''1'', JNum ''1'', INITIALIZE)], t_initialised = False, t_initialize = Some demo_ini,
     t_initialized = None, t_kept_first = Some \<lparr> kr_id = JNum ''1'', kr_line = demo_ini, kr_initialize = True, kr_generation = 1 \<rparr>,
     t_kept_generation = 1, t_link = Reconnecting, t_replay_started = False \<rparr>"

lemma demo_lost:
  "\<exists>p. proxy_run demo_wire (demo_up @ [ClientLine demo_ini True, PumpEof, LossNoticed, HandleLoss]) initial_proxy = Some p
     \<and> p_main p = Restoring ReplayForward 1 False None \<and> p_tracker p = demo_tracker"
  by (simp add: demo_up_def demo_ini_def demo_tracker_def demo_run_simps INITIALIZE_def)

theorem only_silence_ends_round_witness:
  "\<exists>p e d t. proxy_reachable demo_wire p \<and> p_main p = Restoring ReplayForward 1 False None
     \<and> after_hello_done demo_wire ''5s'' ReplayForward \<lparr> dc_reads = [ReadLine (demo_line ''{n'')], dc_writes = [], dc_written = [] \<rparr>
         (p_tracker p) = (Inl e, d, t)
     \<and> (ae_retryable e \<longleftrightarrow> \<not> stays_silent demo_wire (awaited demo_wire ReplayForward (p_tracker p))
         \<lparr> dc_reads = [ReadLine (demo_line ''{n'')], dc_writes = [], dc_written = [] \<rparr>)"
proof -
  obtain p where p: "proxy_run demo_wire (demo_up @ [ClientLine demo_ini True, PumpEof, LossNoticed, HandleLoss]) initial_proxy = Some p"
    "p_main p = Restoring ReplayForward 1 False None" "p_tracker p = demo_tracker" using demo_lost by blast
  note reach = proxies.run_from_start [OF p(1) refl]
  define c where "c = \<lparr> dc_reads = [ReadLine (demo_line ''{n'')], dc_writes = [], dc_written = [] \<rparr>"
  have "\<exists>e d. after_hello_done demo_wire ''5s'' ReplayForward c demo_tracker = (Inl e, d, demo_tracker)"
    by (simp add: c_def demo_tracker_def forward_initialize_def kept_def write_to_daemon_def await_response_def
        response_outcome_def demo_run_simps)
  then obtain e d where fail: "after_hello_done demo_wire ''5s'' ReplayForward c (p_tracker p) = (Inl e, d, demo_tracker)"
    using p(3) by auto
  with only_silence_ends_round [OF demo_wire_laws reach p(2) fail] reach p(2) show ?thesis unfolding c_def by blast
qed

theorem reattach_refines_witness:
  "\<exists>p q. p_main p = Restoring ReplayForward 1 False None
     \<and> proxy_run demo_wire (reattach_events ReplayForward ''k2'' (Some (demo_line ''{p1''))) p = Some q
     \<and> p_main q = Flushing \<and> p_sent q = [demo_ini]"
proof -
  obtain es p where "proxy_run demo_wire es initial_proxy = Some p" and
    p: "p_main p = Restoring ReplayForward 1 False None" "p_tracker p = demo_tracker" using demo_lost by blast
  have "after_hello_done demo_wire ''5s'' ReplayForward \<lparr> dc_reads = [ReadLine (demo_line ''{n''), ReadLine (demo_line ''{p1'')],
      dc_writes = [], dc_written = [] \<rparr> (p_tracker p)
    = (Inr (Some (demo_line ''{p1'')), \<lparr> dc_reads = [], dc_writes = [], dc_written = [demo_ini] \<rparr>, demo_tracker)"
    by (simp add: p(2) demo_tracker_def forward_initialize_def kept_def write_to_daemon_def await_response_def
        response_outcome_def demo_run_simps)
  from reattach_refines [OF p(1) this, of "''k2''"] p(1) show ?thesis by auto
qed

end
