(* ===== verification/HelloLaws.thy ===== *)
theory HelloLaws
  imports Rounds
begin

text \<open>
  The hello as both sides see it: messages survive the wire, and the proxy's reading of the
  daemon's answer agrees with the daemon's decision.
\<close>

section \<open>Round trips\<close>

lemma hello_of_json: "h_version h < 2 ^ 32 \<Longrightarrow> hello_of (hello_json h) = Some h"
  using as_u64_show [of "h_version h"] by (simp add: hello_of_def hello_json_def get_member_def as_string_def)

lemma decode_encode_hello:
  assumes "faithful x (hello_json h)" and "h_version h = PROTOCOL_VERSION"
  shows "decode_hello x (encode_hello x h) = Inr h"
proof -
  have "hello_of (hello_json h) = Some h" using assms(2) by (intro hello_of_json) (simp add: PROTOCOL_VERSION_def)
  moreover have "Option.bind (get_member ''ferrex_hello'' (hello_json h)) as_u64 = Some PROTOCOL_VERSION"
    using as_u64_show [of PROTOCOL_VERSION] assms(2) by (simp add: hello_json_def get_member_def PROTOCOL_VERSION_def)
  ultimately show ?thesis
    using assms(1) by (simp add: decode_hello_def encode_hello_def encode_line_def faithful_def)
qed

lemma kind_of_name [simp]: "kind_of_name (kind_name k) = Some k"
  by (cases k) (simp_all add: kind_of_name_def)

lemma reply_of_json: "reply_of (reply_json r) = Some r"
  by (cases "hr_kind r"; cases "hr_error r")
    (simp_all add: reply_of_def reply_json_def reply_fields_def opt_value_def read_kind_def repeated_def as_string_def)

lemma decode_encode_reply: "faithful x (reply_json r) \<Longrightarrow> decode_reply x (encode_reply x r) = Inr r"
  by (simp add: decode_reply_def encode_reply_def encode_line_def faithful_def reply_of_json)

text \<open>
  Hellos and replies survive the wire: what one side encodes the other decodes to the same
  message, for a hello of the current protocol version and for every reply, with or without a
  refusal's kind and reason.
\<close>

theorem hello_round_trip:
  assumes "faithful x (hello_json (hello_new key ns))" and "faithful x (reply_json r)"
  shows "decode_hello x (encode_hello x (hello_new key ns)) = Inr (hello_new key ns)
    \<and> decode_reply x (encode_reply x r) = Inr r"
  using decode_encode_hello [OF assms(1)] decode_encode_reply [OF assms(2)] by (simp add: hello_new_def)

section \<open>Agreement\<close>

definition answer_of :: "hello_reply + service \<times> string \<Rightarrow> hello_reply" where
  "answer_of ans = (case ans of Inl r \<Rightarrow> r | Inr _ \<Rightarrow> reply_ok)"

lemma hello_new_simps [simp]: "h_key (hello_new key ns) = key" "h_namespace (hello_new key ns) = ns"
  "h_version (hello_new key ns) = PROTOCOL_VERSION"
  by (simp_all add: hello_new_def)

lemma ensure_marks: "ensure_collection ex ns v = (Inr u, v') \<Longrightarrow> \<exists>name. collection_name ns = Inr name \<and> name \<in> set (vs_ensured v')"
  by (auto simp: ensure_collection_def m_bind_def m_then_def split: sum.splits prod.splits if_splits)

lemma send_hello_ok: "faithful x (reply_json r) \<Longrightarrow> hr_ok r \<Longrightarrow> send_hello x timeout key (HelloLine (encode_reply x r)) = Inr key"
  using decode_encode_reply [of x r]
  by (simp add: send_hello_def encode_reply_def encode_line_def newline_def)

lemma send_hello_refused:
  assumes "faithful x (reply_json (refuse kind m))"
  shows "\<exists>e. send_hello x timeout key (HelloLine (encode_reply x (refuse kind m))) = Inl e \<and> ae_kind e = Some kind
    \<and> ae_retryable e = (kind = RefuseKey \<or> kind = RefuseSession)"
  using decode_encode_reply [OF assms]
  by (simp add: send_hello_def encode_reply_def encode_line_def newline_def refuse_def)

text \<open>
  C30. Proxy and daemon agree on a hello. The proxy has a connection exactly when the daemon has a
  session for it, and then the keys are equal, the daemon is initialised and the collection of
  the session's namespace is known to exist. Otherwise the kind of the refusal tells the reason,
  and the proxy tries again exactly when a new attempt can help: for a daemon of another
  configuration and for a collection that could not be prepared, not for a failed start.
\<close>

theorem hello_agreement:
  assumes "faithful x (hello_json (hello_new key ns))"
    and "accept_hello x ex dkey (encode_hello x (hello_new key ns)) init v = (ans, v')"
    and "faithful x (reply_json (answer_of ans))"
  shows "case send_hello x timeout key (HelloLine (encode_reply x (answer_of ans))) of
      Inr k \<Rightarrow> k = key \<and> dkey = key \<and> (\<exists>svc. init = Inr svc \<and> ans = Inr (svc, ns))
        \<and> (\<exists>name. collection_name ns = Inr name \<and> name \<in> set (vs_ensured v'))
    | Inl e \<Rightarrow> (\<exists>r. ans = Inl r) \<and>
        (if \<exists>m. init = Inl m then ae_kind e = Some RefuseInit \<and> \<not> ae_retryable e \<and> v' = v
         else if dkey \<noteq> key then ae_kind e = Some RefuseKey \<and> ae_retryable e \<and> v' = v
         else ae_kind e = Some RefuseSession \<and> ae_retryable e \<and> (\<exists>err. ensure_collection ex ns v = (Inl err, v')))"
proof -
  note dec = decode_encode_hello [OF assms(1) hello_new_simps(3)]
  show ?thesis
  proof (cases init)
    case (Inl m)
    with assms(2) have "ans = Inl (refuse RefuseInit m)" "v' = v" by (simp_all add: accept_hello_def)
    with Inl send_hello_refused [of x RefuseInit m timeout key] assms(3) show ?thesis by (auto simp: answer_of_def)
  next
    case (Inr svc)
    show ?thesis
    proof (cases "dkey = key")
      case False
      with assms(2) Inr dec obtain m where "ans = Inl (refuse RefuseKey m)" "v' = v"
        by (auto simp: accept_hello_def check_key_def split: if_splits)
      with Inr False send_hello_refused [of x RefuseKey m timeout key] assms(3) show ?thesis by (auto simp: answer_of_def)
    next
      case True
      obtain res w where ens: "ensure_collection ex ns v = (res, w)" by (cases "ensure_collection ex ns v")
      show ?thesis
      proof (cases res)
        case (Inl err)
        with assms(2) Inr dec True ens obtain m where "ans = Inl (refuse RefuseSession m)" "v' = w"
          by (auto simp: accept_hello_def check_key_def)
        with Inr Inl True ens send_hello_refused [of x RefuseSession m timeout key] assms(3) show ?thesis
          by (auto simp: answer_of_def)
      next
        case (Inr u)
        with assms(2) \<open>init = Inr svc\<close> dec True ens have "ans = Inr (svc, ns)" "v' = w"
          by (auto simp: accept_hello_def check_key_def)
        with \<open>init = Inr svc\<close> True ensure_marks [of ex ns v u w] ens Inr send_hello_ok [of x reply_ok timeout key] assms(3)
        show ?thesis by (auto simp: answer_of_def reply_ok_def)
      qed
    qed
  qed
qed

section \<open>Examples\<close>

text \<open>A wire that knows one hello and one reply.\<close>

definition two_messages :: "json \<Rightarrow> json \<Rightarrow> json_lib" where
  "two_messages h r = \<lparr> j_parse = (\<lambda>s. if s = ''H'' then Some h else if s = ''R'' then Some r else None),
     j_print = (\<lambda>v. if v = h then ''H'' else if v = r then ''R'' else []), j_error_text = (\<lambda>_. ''expected value''),
     j_drain = id \<rparr>"

lemma two_messages_faithful:
  assumes "h \<noteq> r"
  shows "faithful (two_messages h r) h" "faithful (two_messages h r) r"
  using assms by (simp_all add: faithful_def two_messages_def newline_def trim_def trim_start_def is_ws_def)

lemma hello_not_reply: "hello_json h \<noteq> reply_json r"
  by (simp add: hello_json_def reply_json_def)

theorem hello_round_trip_witness:
  "decode_hello (two_messages (hello_json (hello_new ''k'' ''default'')) (reply_json (refuse RefuseKey ''no'')))
     (encode_hello (two_messages (hello_json (hello_new ''k'' ''default'')) (reply_json (refuse RefuseKey ''no'')))
       (hello_new ''k'' ''default'')) = Inr (hello_new ''k'' ''default'')"
  using hello_round_trip [OF two_messages_faithful [OF hello_not_reply], of "''k''" "''default''" "refuse RefuseKey ''no''"]
  by (rule conjunct1)

theorem hello_agreement_witness:
  "send_hello (two_messages (hello_json (hello_new ''k'' ''default'')) (reply_json reply_ok)) ''1s'' ''k''
     (HelloLine (encode_reply (two_messages (hello_json (hello_new ''k'' ''default'')) (reply_json reply_ok)) reply_ok)) = Inr ''k''
   \<and> (\<exists>name. collection_name ''default'' = Inr name \<and> name \<in> {''ferrex_default''})"
proof -
  let ?h = "hello_json (hello_new ''k'' ''default'')"
  let ?x = "two_messages ?h (reply_json reply_ok)"
  let ?v = "\<lparr> vs_q = [], vs_ensured = [''ferrex_default''] \<rparr> :: demo_q vstore"
  note fa = two_messages_faithful [OF hello_not_reply, of "hello_new ''k'' ''default''" reply_ok]
  have ens: "ensure_collection demo_ext ''default'' ?v = (Inr (), ?v)"
    by (simp add: ensure_collection_def collection_name_def validate_namespace_def is_ascii_alphanumeric_def m_bind_def)
  have acc: "accept_hello ?x demo_ext ''k'' (encode_hello ?x (hello_new ''k'' ''default'')) (Inr demo_service) ?v =
      (Inr (demo_service, ''default''), ?v)"
    using decode_encode_hello [OF fa(1)] ens by (simp add: accept_hello_def check_key_def)
  have ans: "answer_of (Inr (demo_service, ''default'')) = reply_ok" by (simp add: answer_of_def)
  from hello_agreement [OF fa(1) acc, of "''1s''", unfolded ans, OF fa(2)] show ?thesis
    by (simp split: sum.splits)
qed

end
