(* ===== verification/Session.thy ===== *)
theory Session
  imports HelloLaws IdleTimer Machine
begin

text \<open>
  One connection of the daemon (\<open>crates/server/src/daemon/session.rs\<close>): the hello line with its
  limits of size and time, the wait for the initialisation, the decision, the reply, and the guard
  that reports the connection's last phase whenever its task ends. A step is what happens between
  two points where the task can be aborted.
\<close>

section \<open>The hello line\<close>

definition MAX_HELLO_BYTES :: nat where "MAX_HELLO_BYTES = 64 * 1024"

text \<open>Well-formed UTF-8, which \<open>read_line\<close> insists on.\<close>

definition byte_in :: "nat \<Rightarrow> nat \<Rightarrow> char \<Rightarrow> bool" where
  "byte_in lo hi c \<longleftrightarrow> lo \<le> of_char c \<and> of_char c \<le> hi"

text \<open>The second byte allowed after a first one of a sequence of three or four bytes.\<close>

definition second_ok :: "char \<Rightarrow> char \<Rightarrow> bool" where
  "second_ok b c \<longleftrightarrow>
     (if of_char b = (0xE0::nat) then byte_in 0xA0 0xBF c
      else if of_char b = (0xED::nat) then byte_in 0x80 0x9F c
      else if of_char b = (0xF0::nat) then byte_in 0x90 0xBF c
      else if of_char b = (0xF4::nat) then byte_in 0x80 0x8F c
      else byte_in 0x80 0xBF c)"

fun utf8_ok :: "string \<Rightarrow> bool" where
  "utf8_ok [] \<longleftrightarrow> True"
| "utf8_ok (b # rest) \<longleftrightarrow>
     (if byte_in 0 0x7F b then utf8_ok rest
      else if byte_in 0xC2 0xDF b then (case rest of c # r \<Rightarrow> byte_in 0x80 0xBF c \<and> utf8_ok r | _ \<Rightarrow> False)
      else if byte_in 0xE0 0xEF b
        then (case rest of c # d # r \<Rightarrow> second_ok b c \<and> byte_in 0x80 0xBF d \<and> utf8_ok r | _ \<Rightarrow> False)
      else if byte_in 0xF0 0xF4 b
        then (case rest of c # d # e # r \<Rightarrow> second_ok b c \<and> byte_in 0x80 0xBF d \<and> byte_in 0x80 0xBF e \<and> utf8_ok r
              | _ \<Rightarrow> False)
      else False)"

text \<open>What \<open>read_line\<close> takes of the bytes there are, at most \<open>limit\<close>.\<close>

definition take_line :: "nat \<Rightarrow> string \<Rightarrow> string" where
  "take_line limit s =
     (let p = take limit s; l = takeWhile (\<lambda>c. c \<noteq> CHR 0x0A) p in if length l < length p then l @ [CHR 0x0A] else p)"

text \<open>
  \<open>Received s eof\<close>: the bytes that came within the read timeout, and whether the client has
  closed its side after them.
\<close>

datatype hello_input = Received string bool | ReadBroke string

definition read_hello_line :: "hello_input \<Rightarrow> string option" where
  "read_hello_line inp =
     (case inp of ReadBroke e \<Rightarrow> None
      | Received s eof \<Rightarrow>
          let l = take_line MAX_HELLO_BYTES s in
          if l = [] then None
          else if last l = CHR 0x0A \<or> length l = MAX_HELLO_BYTES \<or> eof
          then (if utf8_ok l then Some l else None)
          else None)"

section \<open>The connection\<close>

datatype init_view = ViewPending | ViewReady service | ViewFailed string

definition view_outcome :: "init_view \<Rightarrow> (string + service) option" where
  "view_outcome view =
     (case view of ViewPending \<Rightarrow> None | ViewReady service \<Rightarrow> Some (Inr service) | ViewFailed e \<Rightarrow> Some (Inl e))"

datatype conn_phase = PhaseHello | PhaseActive

datatype session_at =
    AtHello
  | AtInit string
  | AtDecision string "string + service"
  | AtRefusal hello_reply
  | AtReply service string
  | AtMcp string
  | AtEnd

text \<open>\<open>se_events\<close> is what the guard has reported, \<open>se_sent\<close> the replies written.\<close>

record session =
  se_at :: session_at
  se_phase :: conn_phase
  se_events :: "conn_event list"
  se_sent :: "string list"
  se_line :: "string option"

definition new_session :: session where
  "new_session = \<lparr> se_at = AtHello, se_phase = PhaseHello, se_events = [], se_sent = [], se_line = None \<rparr>"

definition activate :: "session \<Rightarrow> session" where
  "activate s = s\<lparr>se_phase := PhaseActive, se_events := se_events s @ [HelloPassed]\<rparr>"

text \<open>The task ends, by a return, a panic or an abort: the guard is dropped.\<close>

definition drop_phase_guard :: "session \<Rightarrow> session" where
  "drop_phase_guard s =
     s\<lparr>se_at := AtEnd, se_events := se_events s @ [case se_phase s of PhaseHello \<Rightarrow> HelloFailed | PhaseActive \<Rightarrow> Ended]\<rparr>"

definition send_reply :: "json_lib \<Rightarrow> hello_reply \<Rightarrow> bool \<Rightarrow> session \<Rightarrow> session" where
  "send_reply x reply written s = (if written then s\<lparr>se_sent := se_sent s @ [encode_reply x reply]\<rparr> else s)"

datatype 'q session_move =
    HelloArrives hello_input
  | InitSeen init_view
  | InitGone
  | Decides "'q vstore"
  | Replies bool
  | McpEnds
  | TaskDropped

definition serve_connection ::
    "json_lib \<Rightarrow> ('q, 'e, 'r) ext \<Rightarrow> string \<Rightarrow> 'q session_move \<Rightarrow> session \<Rightarrow> session option" where
  "serve_connection x ex key ev s =
     (case (se_at s, ev) of
        (AtEnd, _) \<Rightarrow> None
      | (_, TaskDropped) \<Rightarrow> Some (drop_phase_guard s)
      | (AtHello, HelloArrives inp) \<Rightarrow> Some (case read_hello_line inp of
            None \<Rightarrow> drop_phase_guard s | Some line \<Rightarrow> s\<lparr>se_at := AtInit line, se_line := Some line\<rparr>)
      | (AtInit line, InitSeen view) \<Rightarrow> Some (case view_outcome view of
            None \<Rightarrow> s | Some init \<Rightarrow> s\<lparr>se_at := AtDecision line init\<rparr>)
      | (AtInit line, InitGone) \<Rightarrow> Some (drop_phase_guard s)
      | (AtDecision line init, Decides v) \<Rightarrow> Some (case fst (accept_hello x ex key line init v) of
            Inl reply \<Rightarrow> s\<lparr>se_at := AtRefusal reply\<rparr>
          | Inr (service, namespace) \<Rightarrow> s\<lparr>se_at := AtReply service namespace\<rparr>)
      | (AtRefusal reply, Replies written) \<Rightarrow> Some (drop_phase_guard (send_reply x reply written s))
      | (AtReply service namespace, Replies written) \<Rightarrow>
          Some (let t = send_reply x reply_ok written s in
            if written then (activate t)\<lparr>se_at := AtMcp namespace\<rparr> else drop_phase_guard t)
      | (AtMcp namespace, McpEnds) \<Rightarrow> Some (drop_phase_guard s)
      | _ \<Rightarrow> None)"

inductive session_reachable :: "json_lib \<Rightarrow> ('q, 'e, 'r) ext \<Rightarrow> string \<Rightarrow> session \<Rightarrow> bool" for x ex key where
  accepts: "session_reachable x ex key new_session"
| serves: "session_reachable x ex key s \<Longrightarrow> serve_connection x ex key ev s = Some t \<Longrightarrow> session_reachable x ex key t"

interpretation sessions: machine "serve_connection x ex key" "\<lambda>s. s = new_session" "session_reachable x ex key" for x ex key
proof
  show "P s" if "session_reachable x ex key s" "\<And>s. s = new_session \<Longrightarrow> P s"
    "\<And>s e t. session_reachable x ex key s \<Longrightarrow> P s \<Longrightarrow> serve_connection x ex key e s = Some t \<Longrightarrow> P t" for s P
    using that by (induction rule: session_reachable.induct) blast+
qed (auto intro: session_reachable.intros)

section \<open>Laws\<close>

text \<open>A hello that the daemon accepts: of this protocol, for this key.\<close>

definition good_hello :: "json_lib \<Rightarrow> string \<Rightarrow> string \<Rightarrow> string \<Rightarrow> bool" where
  "good_hello x key namespace line \<longleftrightarrow>
     (case decode_hello x line of Inl r \<Rightarrow> False | Inr h \<Rightarrow> h_key h = key \<and> h_namespace h = namespace)"

lemma good_hello_iff:
  "good_hello x key ns line \<longleftrightarrow> (\<exists>h. decode_hello x line = Inr h \<and> h_key h = key \<and> h_namespace h = ns)"
  by (auto simp: good_hello_def split: sum.splits)

definition session_ok :: "json_lib \<Rightarrow> string \<Rightarrow> session \<Rightarrow> bool" where
  "session_ok x key s \<longleftrightarrow>
     (\<forall>line. se_line s = Some line \<longrightarrow> length line \<le> MAX_HELLO_BYTES) \<and>
     (case se_at s of
        AtHello \<Rightarrow> se_phase s = PhaseHello \<and> se_events s = [] \<and> se_sent s = []
      | AtInit line \<Rightarrow> se_phase s = PhaseHello \<and> se_events s = [] \<and> se_sent s = [] \<and> se_line s = Some line
      | AtDecision line init \<Rightarrow> se_phase s = PhaseHello \<and> se_events s = [] \<and> se_sent s = [] \<and> se_line s = Some line
      | AtRefusal r \<Rightarrow> se_phase s = PhaseHello \<and> se_events s = [] \<and> se_sent s = [] \<and> \<not> hr_ok r
      | AtReply svc ns \<Rightarrow> se_phase s = PhaseHello \<and> se_events s = [] \<and> se_sent s = []
          \<and> (\<exists>line. se_line s = Some line \<and> good_hello x key ns line)
      | AtMcp ns \<Rightarrow> se_phase s = PhaseActive \<and> se_events s = [HelloPassed] \<and> se_sent s = [encode_reply x reply_ok]
          \<and> (\<exists>line. se_line s = Some line \<and> good_hello x key ns line)
      | AtEnd \<Rightarrow> se_events s = [HelloFailed] \<and> (\<forall>l\<in>set (se_sent s). \<exists>r. l = encode_reply x r \<and> \<not> hr_ok r)
          \<or> se_events s = [HelloPassed, Ended] \<and> se_sent s = [encode_reply x reply_ok])"

lemma take_line_limit: "length (take_line limit s) \<le> limit"
  by (simp add: take_line_def Let_def)

lemma read_hello_limit: "read_hello_line inp = Some line \<Longrightarrow> length line \<le> MAX_HELLO_BYTES"
  by (auto simp: read_hello_line_def Let_def take_line_limit split: hello_input.splits if_splits)

lemma decode_refuses: "decode_hello x line = Inl r \<Longrightarrow> \<not> hr_ok r"
  by (auto simp: decode_hello_def refuse_def Let_def split: option.splits if_splits)

lemma accept_refused: "fst (accept_hello x ex key line init v) = Inl r \<Longrightarrow> \<not> hr_ok r"
  by (auto simp: accept_hello_def check_key_def refuse_def dest: decode_refuses split: sum.splits prod.splits if_splits)

lemma accept_good: "fst (accept_hello x ex key line init v) = Inr (svc, ns) \<Longrightarrow> good_hello x key ns line"
  by (auto simp: accept_hello_def check_key_def good_hello_def split: sum.splits prod.splits if_splits)

lemma session_step:
  assumes "session_ok x key s" "serve_connection x ex key ev s = Some t"
  shows "session_ok x key t"
proof (cases "se_at s")
  case (AtDecision line init)
  with assms show ?thesis
    using accept_refused [of x ex key line init] accept_good [of x ex key line init]
    by (cases ev) (auto simp: serve_connection_def session_ok_def drop_phase_guard_def split: sum.splits prod.splits)
qed (use assms in \<open>cases ev; auto simp: serve_connection_def session_ok_def drop_phase_guard_def send_reply_def
    activate_def Let_def read_hello_limit split: option.splits if_splits\<close>)+

lemma session_inv: "session_reachable x ex key s \<Longrightarrow> session_ok x key s"
proof (rule sessions.invariant [of x ex key])
  show "session_ok x key t" if "session_ok x key s" "serve_connection x ex key e s = Some t" for s e t
    using that by (rule session_step)
qed (auto simp: session_ok_def new_session_def)

text \<open>
  C31. Every connection is reported once and truly. Wherever its task ends, at a bad hello, a
  refusal, a failed write, a panic or an abort, the daemon's loop hears of a failed hello, or of a
  passed one and then of its end, and nothing else; a session is open only for a client whose hello
  line of at most 64 KiB names this protocol, this daemon's key and the session's namespace, and it
  got the single reply \<open>ok\<close>; who was refused never got that reply.
\<close>

theorem session_reports_once:
  assumes "session_reachable x ex key s"
  shows "(se_at s = AtEnd \<longrightarrow> se_events s = [HelloFailed] \<or> se_events s = [HelloPassed, Ended])
    \<and> (se_at s \<noteq> AtEnd \<longrightarrow> se_events s = (if \<exists>ns. se_at s = AtMcp ns then [HelloPassed] else []))
    \<and> (se_events s = [HelloFailed] \<longrightarrow> (\<forall>l\<in>set (se_sent s). \<exists>r. l = encode_reply x r \<and> \<not> hr_ok r))
    \<and> (\<forall>ns. se_at s = AtMcp ns \<longrightarrow> se_sent s = [encode_reply x reply_ok] \<and>
      (\<exists>line h. se_line s = Some line \<and> length line \<le> MAX_HELLO_BYTES \<and> decode_hello x line = Inr h
        \<and> h_key h = key \<and> h_namespace h = ns))"
  using session_inv [OF assms]
  by (cases "se_at s") (auto simp: session_ok_def good_hello_iff)

definition demo_hello :: hello where "demo_hello = hello_new ''k'' ''default''"

definition demo_hello_wire :: json_lib where
  "demo_hello_wire = two_messages (hello_json demo_hello) (reply_json reply_ok)"

theorem session_reports_once_witness:
  "\<exists>s. session_reachable demo_hello_wire demo_ext ''k'' s \<and> se_at s = AtMcp ''default''
     \<and> se_events s = [HelloPassed] \<and> se_sent s = [encode_reply demo_hello_wire reply_ok]"
proof -
  let ?x = demo_hello_wire
  let ?v = "\<lparr> vs_q = [], vs_ensured = [''ferrex_default''] \<rparr> :: demo_q vstore"
  have line: "encode_hello ?x demo_hello = ''H'' @ newline"
    by (simp add: encode_hello_def encode_line_def demo_hello_wire_def two_messages_def)
  have ens: "ensure_collection demo_ext ''default'' ?v = (Inr (), ?v)"
    by (simp add: ensure_collection_def collection_name_def validate_namespace_def is_ascii_alphanumeric_def m_bind_def)
  have acc: "accept_hello ?x demo_ext ''k'' (''H'' @ newline) (Inr demo_service) ?v = (Inr (demo_service, ''default''), ?v)"
    using decode_encode_hello [of ?x demo_hello] two_messages_faithful [OF hello_not_reply, of demo_hello reply_ok] line ens
    by (simp add: accept_hello_def check_key_def demo_hello_def demo_hello_wire_def)
  have "\<exists>s. run_events (serve_connection ?x demo_ext ''k'')
      [HelloArrives (Received (''H'' @ newline) False), InitSeen ViewPending, InitSeen (ViewReady demo_service), Decides ?v, Replies True]
      new_session = Some s \<and> se_at s = AtMcp ''default''"
    using acc
    by (simp add: serve_connection_def new_session_def read_hello_line_def take_line_def MAX_HELLO_BYTES_def newline_def
        byte_in_def view_outcome_def send_reply_def activate_def Let_def)
  then obtain s where "session_reachable ?x demo_ext ''k'' s" "se_at s = AtMcp ''default''"
    using sessions.run_from_start by blast
  with session_reports_once [OF this(1)] show ?thesis by auto
qed

end
