(* ===== verification/Models.thy ===== *)
theory Models
  imports Prelude Complex_Main "HOL-Library.Multiset"
begin

text \<open>
  The choice of the neural models and what is done with their answers
  (\<open>crates/embed/src/lib.rs\<close>): tiers, their names and dimensions, the first vector of a batch, and
  the ranking of a reranker's scores. The models themselves are a library's; their answers are
  arguments, scores are reals.
\<close>

section \<open>Tiers\<close>

datatype model_tier = Small | Mid | Best
datatype reranker_tier = DefaultRanker | Multilingual

fun dimension :: "model_tier \<Rightarrow> nat" where
  "dimension Small = 384"
| "dimension Mid = 384"
| "dimension Best = 768"

fun model_name :: "model_tier \<Rightarrow> string" where
  "model_name Small = ''all-MiniLM-L6-v2''"
| "model_name Mid = ''bge-small-en-v1.5''"
| "model_name Best = ''bge-base-en-v1.5''"

definition parse_model_tier :: "string \<Rightarrow> string + model_tier" where
  "parse_model_tier s =
     (let t = to_lowercase s in
      if t = ''small'' then Inr Small
      else if t = ''mid'' then Inr Mid
      else if t = ''best'' then Inr Best
      else Inl (''unknown model tier: '' @ s @ '' (expected: small, mid, best)''))"

fun ranker_name :: "reranker_tier \<Rightarrow> string" where
  "ranker_name DefaultRanker = ''bge-reranker-base''"
| "ranker_name Multilingual = ''jina-reranker-v2-base-multilingual''"

definition parse_reranker_tier :: "string \<Rightarrow> string + reranker_tier" where
  "parse_reranker_tier s =
     (let t = to_lowercase s in
      if t = ''default'' then Inr DefaultRanker
      else if t = ''multilingual'' then Inr Multilingual
      else Inl (''unknown reranker tier: '' @ s @ '' (expected: default, multilingual)''))"

section \<open>Calls\<close>

datatype embed_error = EmbedInit string | EmbedFailed string | RerankFailed string

fun embed_error_text :: "embed_error \<Rightarrow> string" where
  "embed_error_text (EmbedInit e) = ''failed to initialize embedding model: '' @ e"
| "embed_error_text (EmbedFailed e) = ''embedding failed: '' @ e"
| "embed_error_text (RerankFailed e) = ''reranking failed: '' @ e"

text \<open>\<open>joined\<close> is what the blocking task came to, \<open>Inl\<close> a panic in it.\<close>

definition embed :: "string + (string + real list list) \<Rightarrow> embed_error + real list" where
  "embed joined =
     (case joined of Inl e \<Rightarrow> Inl (EmbedFailed e)
      | Inr (Inl e) \<Rightarrow> Inl (EmbedFailed e)
      | Inr (Inr []) \<Rightarrow> Inl (EmbedFailed ''no embedding returned'')
      | Inr (Inr (v # vs)) \<Rightarrow> Inr v)"

definition embed_batch :: "string + (string + real list list) \<Rightarrow> embed_error + real list list" where
  "embed_batch joined =
     (case joined of Inl e \<Rightarrow> Inl (EmbedFailed e) | Inr (Inl e) \<Rightarrow> Inl (EmbedFailed e) | Inr (Inr vs) \<Rightarrow> Inr vs)"

text \<open>A stable sort by descending score, cut at \<open>top_n\<close>.\<close>

definition best_first :: "(nat \<times> real) list \<Rightarrow> (nat \<times> real) list" where
  "best_first rs = sort_key (\<lambda>r. - snd r) rs"

definition rerank :: "nat \<Rightarrow> string + (string + (nat \<times> real) list) \<Rightarrow> embed_error + (nat \<times> real) list" where
  "rerank top_n joined =
     (case joined of Inl e \<Rightarrow> Inl (RerankFailed e) | Inr (Inl e) \<Rightarrow> Inl (RerankFailed e)
      | Inr (Inr results) \<Rightarrow> Inr (take top_n (best_first results)))"

section \<open>Laws\<close>

text \<open>The names that \<open>Display\<close> prints are not the names that parse.\<close>

lemma tier_names_do_not_parse:
  "parse_model_tier (model_name t) = Inl (''unknown model tier: '' @ model_name t @ '' (expected: small, mid, best)'')"
  by (cases t) (simp_all add: parse_model_tier_def to_lowercase_def lower_char_def)

lemma best_first_mset: "mset (best_first rs) = mset rs"
  by (simp add: best_first_def)

lemma best_first_sorted: "sorted (map (\<lambda>r. - snd r) (best_first rs))"
  by (simp add: best_first_def)

lemma best_first_stable: "filter (\<lambda>r. snd r = s) (best_first rs) = filter (\<lambda>r. snd r = s) rs"
proof -
  have "(\<lambda>r. snd r = s) = (\<lambda>r::nat \<times> real. - snd r = - s)" by auto
  then show ?thesis using sort_key_stable [of "\<lambda>r. - snd r" "- s" rs] by (simp add: best_first_def)
qed

text \<open>
  The reranker's answer is its \<open>top_n\<close> best: as many results as there are, at most \<open>top_n\<close>,
  best first, each of them one the model gave, none that was left out better than one that was
  kept, and among equal scores the model's order decides.
\<close>

theorem rerank_best:
  assumes "rerank top_n (Inr (Inr results)) = Inr kept"
  shows "\<exists>dropped. mset results = mset kept + mset dropped \<and> length kept = min top_n (length results)
    \<and> sorted (map (\<lambda>r. - snd r) kept) \<and> (\<forall>k\<in>set kept. \<forall>d\<in>set dropped. snd d \<le> snd k)
    \<and> (\<forall>s. filter (\<lambda>r. snd r = s) (kept @ dropped) = filter (\<lambda>r. snd r = s) results)"
proof (intro exI conjI)
  let ?d = "drop top_n (best_first results)"
  have kept: "kept = take top_n (best_first results)" using assms by (simp add: rerank_def)
  have whole: "kept @ ?d = best_first results" by (simp add: kept)
  show "mset results = mset kept + mset ?d" by (metis whole best_first_mset mset_append)
  have "length (best_first results) = length results" by (simp add: best_first_def)
  then show "length kept = min top_n (length results)" by (simp add: kept)
  have sorted: "sorted (map (\<lambda>r. - snd r) (kept @ ?d))" unfolding whole by (rule best_first_sorted)
  then show "sorted (map (\<lambda>r. - snd r) kept)" by (simp add: sorted_append)
  show "\<forall>k\<in>set kept. \<forall>d\<in>set ?d. snd d \<le> snd k" using sorted by (auto simp: sorted_append)
  show "\<forall>s. filter (\<lambda>r. snd r = s) (kept @ ?d) = filter (\<lambda>r. snd r = s) results"
    unfolding whole using best_first_stable by blast
qed

theorem rerank_best_witness:
  "rerank 2 (Inr (Inr [(0, 1), (1, 3), (2, 3)])) = Inr [(1, 3), (2, 3)]
   \<and> (\<exists>dropped. mset [(0::nat, 1::real), (1, 3), (2, 3)] = mset [(1, 3), (2, 3)] + mset dropped)"
proof -
  have run: "rerank 2 (Inr (Inr [(0, 1), (1, 3), (2, 3)])) = Inr [(1, 3), (2, 3)]"
    by (simp add: rerank_def best_first_def sort_key_def)
  from rerank_best [OF run] run show ?thesis by blast
qed

end
