(* ===== verification/Launch.thy ===== *)
theory Launch
  imports Models Commands Config Rounds
begin

text \<open>
  From a command line to what runs (\<open>crates/server/src/cli.rs\<close>, the dispatch of \<open>main.rs\<close>, the
  first checks of \<open>daemon::run\<close>, and how a proxy rebuilds its configuration for every attempt). The
  parser of the arguments is the library's: a command line is the structure it returns.
\<close>

section \<open>The command line\<close>

datatype audit_command = Reconcile bool "nat option" string
datatype journal_command = JournalShow "string option" nat "string option" string
datatype backfill_command = NormalizedPredicates "string option" bool

datatype command =
    AuditCmd audit_command
  | BackfillCmd backfill_command
  | DiagnoseCmd
  | JournalCmd journal_command
  | NukeCmd bool
  | ReEmbedCmd bool
  | BackupCmd "string option"
  | RestoreCmd string
  | DaemonPathsCmd
  | DaemonCmd string

record cli =
  cl_command :: "command option"
  cl_qdrant_url :: "string option"
  cl_qdrant_bin :: string
  cl_qdrant_port :: nat
  cl_model_tier :: model_tier
  cl_reranker_tier :: reranker_tier
  cl_namespace :: string
  cl_db_path :: "string option"
  cl_config_path :: "string option"
  cl_no_daemon :: bool

definition parse_namespace :: "string \<Rightarrow> string + string" where
  "parse_namespace value = (case validate_namespace value of Inl e \<Rightarrow> Inl e | Inr _ \<Rightarrow> Inr value)"

section \<open>The configuration\<close>

text \<open>All of \<open>FerrexConfig\<close>: the fields the service reads, and the rest.\<close>

record full_config = ferrex_config +
  fu_qdrant_bin :: string
  fu_model_tier :: model_tier
  fu_reranker_tier :: reranker_tier
  fu_config_path :: string
  fu_reader_pool_size :: nat

text \<open>
  What the machine says: the home directory, \<open>absolutize\<close> on its file system, \<open>load_or_init\<close> on
  its configuration files, the JSON of a part of the configuration, and the environment of the key.
\<close>

datatype config_part =
    PartModel model_tier
  | PartReranker reranker_tier
  | PartDedup dedup_config
  | PartConflict conflict_config
  | PartPredicates predicates_config
  | PartReconciliation reconciliation_config
  | PartStaleness staleness_config
  | PartCache cache_config

record machine_env =
  me_home :: "string option"
  me_full_path :: "string \<Rightarrow> string + string"
  me_load :: "string \<Rightarrow> config_error + loaded_config"
  me_serialize :: "config_part \<Rightarrow> json"
  me_macos :: bool
  me_key :: key_env
  me_run_dir :: "string + string"
  me_exe :: string

fun config_error_text :: "config_error \<Rightarrow> string" where
  "config_error_text (ConfigIo e) = ''config io: '' @ e"
| "config_error_text (ConfigParse e) = ''config parse: '' @ e"
| "config_error_text (ConfigInvalid e) = ''config invalid: '' @ e"

definition build_config :: "machine_env \<Rightarrow> cli \<Rightarrow> string + full_config" where
  "build_config me c =
     (let db = (case cl_db_path c of Some p \<Rightarrow> p | None \<Rightarrow> path_join (default_dir (me_home me)) ''ferrex.db'');
          cfg = (case cl_config_path c of Some p \<Rightarrow> p | None \<Rightarrow> path_join (default_dir (me_home me)) ''ferrex.toml'')
      in case (if is_memory_path db then Inr db else me_full_path me db) of
        Inl e \<Rightarrow> Inl e
      | Inr db_path \<Rightarrow>
      case me_load me cfg of
        Inl e \<Rightarrow> Inl (''config load: '' @ config_error_text e)
      | Inr loaded \<Rightarrow>
      case me_full_path me cfg of
        Inl e \<Rightarrow> Inl e
      | Inr config_path \<Rightarrow> Inr
        \<lparr> cfg_qdrant_url = cl_qdrant_url c, cfg_qdrant_port = cl_qdrant_port c,
          cfg_model_name = model_name (cl_model_tier c), cfg_namespace = cl_namespace c, cfg_db_path = db_path,
          cfg_deduplication = lc_deduplication loaded, cfg_conflict = lc_conflict loaded,
          cfg_predicates = lc_predicates loaded, cfg_reconciliation = lc_reconciliation loaded,
          cfg_staleness = lc_staleness loaded, cfg_cache = lc_cache loaded,
          fu_qdrant_bin = cl_qdrant_bin c, fu_model_tier = cl_model_tier c, fu_reranker_tier = cl_reranker_tier c,
          fu_config_path = config_path, fu_reader_pool_size = lc_reader_pool_size loaded \<rparr>)"

definition key_config_of :: "machine_env \<Rightarrow> full_config \<Rightarrow> key_config" where
  "key_config_of me c =
     \<lparr> kc_qdrant_url = cfg_qdrant_url c, kc_qdrant_bin = fu_qdrant_bin c, kc_qdrant_port = cfg_qdrant_port c,
       kc_model_tier = me_serialize me (PartModel (fu_model_tier c)),
       kc_reranker_tier = me_serialize me (PartReranker (fu_reranker_tier c)), kc_namespace = cfg_namespace c,
       kc_db_path = cfg_db_path c, kc_config_path = Some (fu_config_path c),
       kc_deduplication = me_serialize me (PartDedup (cfg_deduplication c)),
       kc_conflict = me_serialize me (PartConflict (cfg_conflict c)),
       kc_predicates = me_serialize me (PartPredicates (cfg_predicates c)),
       kc_reconciliation = me_serialize me (PartReconciliation (cfg_reconciliation c)),
       kc_staleness = me_serialize me (PartStaleness (cfg_staleness c)), kc_reader_pool_size = fu_reader_pool_size c,
       kc_cache = me_serialize me (PartCache (cfg_cache c)) \<rparr>"

definition paths_of :: "machine_env \<Rightarrow> full_config \<Rightarrow> string + daemon_paths" where
  "paths_of me c = for_config (me_macos me) (me_key me) (me_run_dir me) (key_config_of me c) (me_exe me)"

section \<open>Dispatch\<close>

datatype action =
    RunReconcile full_config bool "nat option" string
  | RunBackfill full_config "string option" bool
  | RunDiagnose full_config
  | RunNuke full_config bool
  | RunJournal full_config "string option" nat "string option" string
  | NotImplemented string
  | PrintPaths full_config
  | RunDaemon full_config string
  | RunStandalone full_config
  | RunProxy full_config
  | BadConfig string

definition with_config :: "machine_env \<Rightarrow> cli \<Rightarrow> (full_config \<Rightarrow> action) \<Rightarrow> action" where
  "with_config me c k = (case build_config me c of Inl e \<Rightarrow> BadConfig e | Inr config \<Rightarrow> k config)"

definition main_action :: "machine_env \<Rightarrow> cli \<Rightarrow> action" where
  "main_action me c =
     (case cl_command c of
        Some (AuditCmd (Reconcile do_fix sample format)) \<Rightarrow>
          with_config me c (\<lambda>config. RunReconcile config do_fix sample format)
      | Some (BackfillCmd (NormalizedPredicates namespace dry_run)) \<Rightarrow>
          with_config me c (\<lambda>config. RunBackfill config namespace dry_run)
      | Some DiagnoseCmd \<Rightarrow> with_config me c RunDiagnose
      | Some (NukeCmd force) \<Rightarrow> with_config me c (\<lambda>config. RunNuke config force)
      | Some (JournalCmd (JournalShow status limit since format)) \<Rightarrow>
          with_config me c (\<lambda>config. RunJournal config status limit since format)
      | Some (ReEmbedCmd dry_run) \<Rightarrow> NotImplemented ''ferrex re-embed is not yet implemented''
      | Some (BackupCmd out) \<Rightarrow> NotImplemented ''ferrex backup is not yet implemented''
      | Some (RestoreCmd from) \<Rightarrow> NotImplemented ''ferrex restore is not yet implemented''
      | Some DaemonPathsCmd \<Rightarrow> with_config me c PrintPaths
      | Some (DaemonCmd key) \<Rightarrow> with_config me c (\<lambda>config. RunDaemon config key)
      | None \<Rightarrow> with_config me c (\<lambda>config.
          if use_standalone (cl_no_daemon c) (cfg_db_path config) then RunStandalone config else RunProxy config))"

section \<open>Starting the daemon\<close>

text \<open>\<open>daemon::run\<close> up to binding: the configuration and the paths it serves with.\<close>

definition daemon_run :: "machine_env \<Rightarrow> full_config \<Rightarrow> string \<Rightarrow> string + full_config \<times> daemon_paths" where
  "daemon_run me config key =
     (case paths_of me config of Inl e \<Rightarrow> Inl e
      | Inr paths \<Rightarrow>
          if dp_key paths \<noteq> key
          then Inl (''daemon key mismatch: started with --key '' @ key @ '', but this binary and config give '' @ dp_key paths)
          else Inr (config\<lparr>cfg_namespace := ''default''\<rparr>, paths))"

text \<open>The proxy: the first attempt has the configuration \<open>main\<close> built, a later one builds it again.\<close>

definition rebuild_config :: "machine_env \<Rightarrow> string + cli \<Rightarrow> attempt_error + full_config" where
  "rebuild_config me parsed =
     (case parsed of Inl e \<Rightarrow> Inl (retryable (''parse arguments: '' @ e))
      | Inr c \<Rightarrow> (case build_config me c of Inl e \<Rightarrow> Inl (retryable e) | Inr config \<Rightarrow> Inr config))"

definition resolve_attempt ::
    "machine_env \<Rightarrow> full_config option \<Rightarrow> string + cli \<Rightarrow> attempt_error + full_config \<times> daemon_paths" where
  "resolve_attempt me config parsed =
     (case (case config of Some c \<Rightarrow> Inr c | None \<Rightarrow> rebuild_config me parsed) of
        Inl e \<Rightarrow> Inl e
      | Inr c \<Rightarrow> (case paths_of me c of Inl e \<Rightarrow> Inl (retryable e) | Inr paths \<Rightarrow> Inr (c, paths)))"

text \<open>The command line of the child: the proxy's own arguments, then \<open>daemon --key\<close>.\<close>

definition daemon_cli :: "string \<Rightarrow> cli \<Rightarrow> cli" where
  "daemon_cli key c = c\<lparr>cl_command := Some (DaemonCmd key)\<rparr>"

section \<open>Laws\<close>

lemma build_config_daemon [simp]: "build_config me (daemon_cli key c) = build_config me c"
  by (simp add: build_config_def daemon_cli_def Let_def split: sum.splits option.splits)

lemma daemon_cli_simps [simp]:
  "cl_command (daemon_cli key c) = Some (DaemonCmd key)" "with_config me (daemon_cli key c) k = with_config me c k"
  by (simp add: daemon_cli_def) (simp add: with_config_def)

lemma build_config_paths:
  "map_sum id (\<lambda>f. (cfg_db_path f, fu_config_path f)) (build_config me c) =
     config_paths (me_home me) (me_full_path me)
       (\<lambda>p. case me_load me p of Inl e \<Rightarrow> Some (config_error_text e) | Inr _ \<Rightarrow> None) (cl_db_path c) (cl_config_path c)"
  by (simp add: build_config_def config_paths_def Let_def split: sum.splits)

lemma paths_ignore_namespace:
  "paths_of me (config\<lparr>cfg_namespace := ns\<rparr>) = paths_of me config"
proof -
  have "key_members env (key_config_of me (config\<lparr>cfg_namespace := ns\<rparr>)) = key_members env (key_config_of me config)" for env
    unfolding key_members_def key_config_of_def by (simp add: config_members_def Let_def split: option.splits)
  then have "compute_key env (key_config_of me (config\<lparr>cfg_namespace := ns\<rparr>)) exe = compute_key env (key_config_of me config) exe"
    for env exe
    unfolding compute_key_def key_input_def by presburger
  then show ?thesis by (simp add: paths_of_def for_config_def split: sum.split)
qed

text \<open>
  A proxy's child serves that proxy. Every attempt of a proxy, the first or a later one,
  resolves to paths whose key the daemon accepts that is started by the proxy's own command line
  with \<open>daemon --key\<close>: it goes past its check, with the same files and the same configuration but
  for the namespace, which is \<open>default\<close> whoever started it; and the proxy never serves an in-memory
  database this way.
\<close>

theorem spawned_daemon_starts:
  assumes "main_action me c = RunProxy config"
    and "first = Some config \<or> first = None" and "resolve_attempt me first (Inr c) = Inr (config', paths)"
  shows "\<exists>built. main_action me (daemon_cli (dp_key paths) c) = RunDaemon built (dp_key paths)
    \<and> daemon_run me built (dp_key paths) = Inr (config'\<lparr>cfg_namespace := ''default''\<rparr>, paths)
    \<and> \<not> is_memory_path (cfg_db_path built)"
proof -
  have none: "cl_command c = None" and built: "build_config me c = Inr config" and mem: "\<not> is_memory_path (cfg_db_path config)"
    using assms(1) by (auto simp: main_action_def with_config_def use_standalone_def
        split: option.splits command.splits audit_command.splits backfill_command.splits journal_command.splits sum.splits if_splits)
  have same: "config' = config" "paths_of me config = Inr paths"
    using assms(2,3) built by (auto simp: resolve_attempt_def rebuild_config_def split: sum.splits)
  have "main_action me (daemon_cli (dp_key paths) c) = RunDaemon config (dp_key paths)"
    using built by (simp add: main_action_def) (simp add: with_config_def)
  with same mem show ?thesis by (simp add: daemon_run_def)
qed

text \<open>What a daemon serves with is always its own key, whatever it was started with.\<close>

lemma daemon_serves_own_key:
  "daemon_run me config key = Inr (served, paths) \<Longrightarrow>
     paths_of me config = Inr paths \<and> dp_key paths = key \<and> cfg_namespace served = ''default''"
  by (auto simp: daemon_run_def split: sum.splits if_splits)

lemma in_memory_standalone:
  "main_action me c = RunProxy config \<or> main_action me c = RunStandalone config \<Longrightarrow>
     is_memory_path (cfg_db_path config) \<Longrightarrow> main_action me c = RunStandalone config"
  by (auto simp: main_action_def with_config_def use_standalone_def
      split: option.splits command.splits audit_command.splits backfill_command.splits journal_command.splits sum.splits if_splits)

section \<open>Example\<close>

definition demo_loaded :: loaded_config where
  "demo_loaded = \<lparr> lc_deduplication = \<lparr> dc_threshold = 1 \<rparr>, lc_conflict = \<lparr> object_fuzzy_duplicate = 1, object_fuzzy_update = 1 \<rparr>,
     lc_predicates = \<lparr> pc_groups = [], pc_namespaces = [] \<rparr>, lc_reconciliation = default_reconciliation_config,
     lc_staleness = default_staleness_config, lc_reader_pool_size = 4, lc_cache = default_cache_config \<rparr>"

definition demo_env :: machine_env where
  "demo_env = \<lparr> me_home = Some ''/h'', me_full_path = Inr, me_load = (\<lambda>_. Inr demo_loaded),
     me_serialize = (\<lambda>_. JNull), me_macos = False,
     me_key = \<lparr> ke_sha256 = (\<lambda>_. replicate 32 0), ke_print = (\<lambda>_. ''{}''), ke_canonical = Some,
       ke_runs = (\<lambda>_. True), ke_path = None, ke_mtime = (\<lambda>_. Inr 5) \<rparr>, me_run_dir = Inr ''/run'', me_exe = ''/f'' \<rparr>"

definition demo_cli :: cli where
  "demo_cli = \<lparr> cl_command = None, cl_qdrant_url = None, cl_qdrant_bin = ''qdrant'', cl_qdrant_port = 6334,
     cl_model_tier = Best, cl_reranker_tier = DefaultRanker, cl_namespace = ''work'', cl_db_path = Some ''/d.db'',
     cl_config_path = None, cl_no_daemon = False \<rparr>"

theorem spawned_daemon_starts_witness:
  "\<exists>config' paths built. resolve_attempt demo_env None (Inr demo_cli) = Inr (config', paths)
     \<and> main_action demo_env (daemon_cli (dp_key paths) demo_cli) = RunDaemon built (dp_key paths)
     \<and> daemon_run demo_env built (dp_key paths) = Inr (config'\<lparr>cfg_namespace := ''default''\<rparr>, paths)"
proof -
  have mem: "\<not> is_memory_path ''/d.db''" by code_simp
  have "\<exists>config. build_config demo_env demo_cli = Inr config \<and> cfg_db_path config = ''/d.db''"
    using mem by (simp add: build_config_def demo_env_def demo_cli_def)
  then obtain config where built: "build_config demo_env demo_cli = Inr config" "cfg_db_path config = ''/d.db''" by blast
  have run: "main_action demo_env demo_cli = RunProxy config"
    using built mem by (simp add: main_action_def with_config_def use_standalone_def demo_cli_def)
  have key: "hex16 (replicate 32 0) = replicate 16 (CHR ''0'')" by code_simp
  have "\<exists>paths. paths_of demo_env config = Inr paths"
    using key by (simp add: paths_of_def for_config_def compute_key_def demo_env_def path_join_def MAX_SUN_PATH_def
        is_absolute_def)
  then obtain paths where paths: "paths_of demo_env config = Inr paths" by blast
  have res: "resolve_attempt demo_env None (Inr demo_cli) = Inr (config, paths)"
    using built paths by (simp add: resolve_attempt_def rebuild_config_def)
  from spawned_daemon_starts [OF run disjI2 [OF refl] res] res show ?thesis by blast
qed

end
