(* ===== verification/Opening.thy ===== *)
theory Opening
  imports Sidecar
begin

text \<open>
  Waiting for what another process holds, and what is opened afterwards: the retry loops on lock
  files (\<open>crates/store/src/sidecar.rs\<close>) and on SQLite's journal
  mode, the connections of the store (\<open>crates/store/src/metadata.rs\<close>, up to the operations), and
  the handle on the sidecar. Times are nanoseconds; an attempt takes no time of its own, and a
  sleep may last longer than asked for.
\<close>

section \<open>Retry loops\<close>

text \<open>
  \<open>attempt now\<close> decides, or finds the resource busy; \<open>late now\<close> is by how much the sleep at \<open>now\<close>
  overruns. The result comes with the times of the attempts. All uses have a positive \<open>poll\<close>.
\<close>

function retry :: "nat \<Rightarrow> (nat \<Rightarrow> nat) \<Rightarrow> (nat \<Rightarrow> 'a option) \<Rightarrow> nat \<Rightarrow> nat \<Rightarrow> 'a option \<times> nat list" where
  "retry poll late attempt deadline now =
     (case attempt now of Some r \<Rightarrow> (Some r, [now])
      | None \<Rightarrow>
          if deadline \<le> now then (None, [now])
          else (case retry poll late attempt deadline (now + max 1 poll + late now) of (r, ts) \<Rightarrow> (r, now # ts)))"
  by pat_completeness auto

termination by (relation "measure (\<lambda>(poll, late, attempt, deadline, now). deadline - now)") auto

declare retry.simps [simp del]

lemma retry_cases:
  assumes "retry poll late attempt deadline now = (r, ts)"
  obtains (ended) "ts = [now]" "attempt now = r" "r = None \<longrightarrow> deadline \<le> now"
  | (again) ts' where "ts = now # ts'" "attempt now = None" "now < deadline"
      "retry poll late attempt deadline (now + max 1 poll + late now) = (r, ts')"
  using assms retry.simps [of poll late attempt deadline now]
  by (cases "attempt now"; cases "deadline \<le> now"; auto split: prod.splits)

lemma retry_tries: "retry poll late attempt deadline now = (r, ts) \<Longrightarrow> ts \<noteq> []"
  by (erule retry_cases) simp_all

lemma retry_gives_up:
  "retry poll late attempt deadline now = (None, ts) \<Longrightarrow>
     deadline \<le> last ts \<and> (\<forall>t\<in>set ts. attempt t = None) \<and> (\<forall>t\<in>set (butlast ts). t < deadline)"
proof (induction poll late attempt deadline now arbitrary: ts rule: retry.induct)
  case (1 poll late attempt deadline now)
  from "1.prems" show ?case
    by (cases rule: retry_cases) (use "1.IH" in \<open>auto dest: retry_tries\<close>)
qed

lemma retry_decides:
  "retry poll late attempt deadline now = (Some r, ts) \<Longrightarrow>
     attempt (last ts) = Some r \<and> (\<forall>t\<in>set (butlast ts). attempt t = None \<and> t < deadline)"
proof (induction poll late attempt deadline now arbitrary: ts rule: retry.induct)
  case (1 poll late attempt deadline now)
  from "1.prems" show ?case
    by (cases rule: retry_cases) (use "1.IH" in \<open>auto dest: retry_tries\<close>)
qed

lemma retry_steps:
  "retry poll late attempt deadline now = (r, ts) \<Longrightarrow> (length ts - 1) * poll \<le> deadline + poll - now"
proof (induction poll late attempt deadline now arbitrary: r ts rule: retry.induct)
  case (1 poll late attempt deadline now)
  show ?case
  proof (cases "attempt now = None \<and> now < deadline")
    case True
    then obtain ts' where rest: "retry poll late attempt deadline (now + max 1 poll + late now) = (r, ts')" "ts = now # ts'"
      using "1.prems" by (subst (asm) retry.simps) (auto split: prod.splits)
    from True "1.IH" [OF _ _ rest(1)] have "(length ts' - 1) * poll \<le> deadline + poll - (now + max 1 poll + late now)"
      by auto
    moreover have "length ts' * poll \<le> (length ts' - 1) * poll + poll" by (cases ts') auto
    ultimately show ?thesis using True rest(2) by (auto simp: max_def split: if_splits)
  next
    case False
    with "1.prems" show ?thesis by (subst (asm) retry.simps) (auto split: option.splits)
  qed
qed

section \<open>Lock files\<close>

definition ms :: "nat \<Rightarrow> nat" where "ms n = n * 1000000"

definition LOCK_POLL :: nat where "LOCK_POLL = ms 50"
definition LOCK_WAIT :: nat where "LOCK_WAIT = nat HEALTH_CHECK_MAX_TIMEOUT + 15 * ms 1000"
definition REAP_LOCK_WAIT :: nat where "REAP_LOCK_WAIT = 2 * ms 1000"

datatype file_lock = LockTaken | LockBusy | LockOpenFails string | LockError string

definition try_lock_file :: "string \<Rightarrow> file_lock \<Rightarrow> store_error + bool" where
  "try_lock_file path l =
     (case l of
        LockOpenFails e \<Rightarrow> Inl (SidecarErr (''failed to open lock file: '' @ e))
      | LockTaken \<Rightarrow> Inr True
      | LockBusy \<Rightarrow> Inr False
      | LockError e \<Rightarrow> Inl (SidecarErr (''failed to lock '' @ path @ '': '' @ e)))"

definition lock_timeout :: store_error where
  "lock_timeout = SidecarErr ''timed out waiting for sidecar lock file''"

definition lock_decided :: "store_error + bool \<Rightarrow> (store_error + unit) option" where
  "lock_decided r = (case r of Inl e \<Rightarrow> Some (Inl e) | Inr True \<Rightarrow> Some (Inr ()) | Inr False \<Rightarrow> None)"

definition acquire_lock_file_blocking ::
    "string \<Rightarrow> nat \<Rightarrow> (nat \<Rightarrow> nat) \<Rightarrow> (nat \<Rightarrow> file_lock) \<Rightarrow> nat \<Rightarrow> (store_error + unit) \<times> nat list" where
  "acquire_lock_file_blocking path wait late locks now =
     (case retry LOCK_POLL late (\<lambda>t. lock_decided (try_lock_file path (locks t))) (now + wait) now of
        (Some r, ts) \<Rightarrow> (r, ts) | (None, ts) \<Rightarrow> (Inl lock_timeout, ts))"

definition acquire_lock_file ::
    "string \<Rightarrow> (nat \<Rightarrow> nat) \<Rightarrow> (nat \<Rightarrow> file_lock) \<Rightarrow> nat \<Rightarrow> (store_error + unit) \<times> nat list" where
  "acquire_lock_file path late locks now =
     (case retry LOCK_POLL late (\<lambda>t. lock_decided (try_lock_file path (locks t))) (now + LOCK_WAIT) now of
        (Some r, ts) \<Rightarrow> (r, ts) | (None, ts) \<Rightarrow> (Inl lock_timeout, ts))"

text \<open>
  C27. Waiting for the sidecar's lock ends, and ends right. The wait tries at most 902 times. It times
  out only if every try found the lock busy, the last of them no earlier than the deadline of 45 seconds;
  so a lock that is free from any moment up to the deadline on is got by the first try from then on; and
  an error of the file system ends the wait at once.
\<close>

theorem lock_wait_right:
  assumes "acquire_lock_file path late locks now = (r, ts)"
  shows "length ts \<le> 902 \<and> (\<forall>t\<in>set (butlast ts). locks t = LockBusy \<and> t < now + LOCK_WAIT) \<and> ts \<noteq> []
    \<and> (case r of
        Inr u \<Rightarrow> locks (last ts) = LockTaken
      | Inl e \<Rightarrow> (e = lock_timeout \<and> locks (last ts) = LockBusy \<and> now + LOCK_WAIT \<le> last ts)
          \<or> (\<exists>m. locks (last ts) = LockOpenFails m \<or> locks (last ts) = LockError m))"
proof -
  let ?attempt = "\<lambda>t. lock_decided (try_lock_file path (locks t))"
  obtain d where d: "retry LOCK_POLL late ?attempt (now + LOCK_WAIT) now = (d, ts)"
      "r = (case d of Some r \<Rightarrow> r | None \<Rightarrow> Inl lock_timeout)"
    using assms by (auto simp: acquire_lock_file_def split: prod.splits option.splits)
  have "(length ts - 1) * LOCK_POLL \<le> LOCK_WAIT + LOCK_POLL" using retry_steps [OF d(1)] by simp
  then have few: "length ts \<le> 902"
    by (simp add: LOCK_POLL_def LOCK_WAIT_def ms_def HEALTH_CHECK_MAX_TIMEOUT_def nanos_per_second_def)
  have busy: "?attempt t = None \<longleftrightarrow> locks t = LockBusy" for t
    by (cases "locks t") (simp_all add: try_lock_file_def lock_decided_def)
  note some = retry_tries [OF d(1)]
  show ?thesis
  proof (cases d)
    case None
    with d(1) have gives: "now + LOCK_WAIT \<le> last ts" "\<forall>t\<in>set ts. locks t = LockBusy"
      using retry_gives_up [of LOCK_POLL late ?attempt] busy by auto
    have "\<forall>t\<in>set (butlast ts). t < now + LOCK_WAIT"
      using retry_gives_up [of LOCK_POLL late ?attempt] d(1) None by blast
    with None d(2) few gives some show ?thesis by (auto dest: in_set_butlastD)
  next
    case (Some r')
    with d(1) have "?attempt (last ts) = Some r'" "\<forall>t\<in>set (butlast ts). locks t = LockBusy \<and> t < now + LOCK_WAIT"
      using retry_decides [of LOCK_POLL late ?attempt] busy by auto
    with Some d(2) few some show ?thesis
      by (cases "locks (last ts)") (auto simp: try_lock_file_def lock_decided_def)
  qed
qed

theorem lock_wait_right_witness:
  "acquire_lock_file ''l'' (\<lambda>_. 0) (\<lambda>t. if t < ms 60 then LockBusy else LockTaken) 0 = (Inr (), [0, ms 50, ms 100])
   \<and> length [0, ms 50, ms 100] \<le> 902"
proof -
  let ?locks = "\<lambda>t. if t < ms 60 then LockBusy else LockTaken"
  have run: "acquire_lock_file ''l'' (\<lambda>_. 0) ?locks 0 = (Inr (), [0, ms 50, ms 100])"
    by (simp add: acquire_lock_file_def retry.simps lock_decided_def try_lock_file_def ms_def LOCK_POLL_def LOCK_WAIT_def
        HEALTH_CHECK_MAX_TIMEOUT_def nanos_per_second_def)
  from lock_wait_right [OF run] run show ?thesis by blast
qed

section \<open>The database's connections\<close>

definition BUSY_TIMEOUT :: nat where "BUSY_TIMEOUT = 5 * ms 1000"
definition SQLITE_CACHE_SIZE_KB :: nat where "SQLITE_CACHE_SIZE_KB = 20000"
definition SQLITE_MMAP_SIZE :: nat where "SQLITE_MMAP_SIZE = 256 * 1024 * 1024"
definition OPEN_POOL_SIZE :: nat where "OPEN_POOL_SIZE = 4"

datatype connection_source = FileSource string | SharedMemory string

fun source_is_memory :: "connection_source \<Rightarrow> bool" where
  "source_is_memory (FileSource p) = False"
| "source_is_memory (SharedMemory u) = True"

text \<open>What a connection is opened with, and the settings made on it, in order.\<close>

record connection =
  cn_target :: string
  cn_read_only :: bool
  cn_creates :: bool
  cn_pragmas :: "(string \<times> string) list"

definition open_reader :: "connection_source \<Rightarrow> connection" where
  "open_reader src =
     (case src of
        FileSource path \<Rightarrow> \<lparr> cn_target = path, cn_read_only = True, cn_creates = False, cn_pragmas = [] \<rparr>
      | SharedMemory uri \<Rightarrow> \<lparr> cn_target = uri, cn_read_only = False, cn_creates = False, cn_pragmas = [] \<rparr>)"

definition writer_pragmas :: "bool \<Rightarrow> (string \<times> string) list" where
  "writer_pragmas is_memory =
     [(''synchronous'', ''NORMAL''), (''foreign_keys'', ''ON''), (''temp_store'', ''MEMORY'')]
     @ (if is_memory then [] else [(''mmap_size'', show_nat SQLITE_MMAP_SIZE)])
     @ [(''cache_size'', ''-'' @ show_nat SQLITE_CACHE_SIZE_KB)]"

definition apply_reader_pragmas :: "bool \<Rightarrow> string option \<Rightarrow> connection \<Rightarrow> store_error + connection" where
  "apply_reader_pragmas is_memory failed c =
     (case failed of Some e \<Rightarrow> Inl (SqliteErr e)
      | None \<Rightarrow> Inr (c\<lparr>cn_pragmas := cn_pragmas c @ writer_pragmas is_memory @ [(''query_only'', ''1'')]\<rparr>))"

text \<open>A connection of the pool; recycling refuses one whose mutex a panic has poisoned.\<close>

definition create_reader :: "connection_source \<Rightarrow> string option \<Rightarrow> string option \<Rightarrow> store_error + connection" where
  "create_reader src open_fails pragmas_fail =
     (case open_fails of Some e \<Rightarrow> Inl (SqliteErr e)
      | None \<Rightarrow> apply_reader_pragmas (source_is_memory src) pragmas_fail (open_reader src))"

definition recycle_reader :: "bool \<Rightarrow> string + unit" where
  "recycle_reader poisoned = (if poisoned then Inl ''reader connection mutex poisoned'' else Inr ())"

text \<open>
  The switch to WAL: \<open>switch t\<close> is how SQLite answers at \<open>t\<close>, busy or with another error. A switch
  that is still busy after the deadline is an error as any other.
\<close>

datatype wal_answer = WalSet | WalBusy string | WalFails string

definition enable_wal :: "(nat \<Rightarrow> nat) \<Rightarrow> (nat \<Rightarrow> wal_answer) \<Rightarrow> nat \<Rightarrow> store_error + unit" where
  "enable_wal late switch now =
     (case retry (ms 20) late
         (\<lambda>t. case switch t of WalSet \<Rightarrow> Some (Inr ()) | WalFails e \<Rightarrow> Some (Inl (SqliteErr e)) | WalBusy e \<Rightarrow> None)
         (now + BUSY_TIMEOUT) now of
        (Some r, ts) \<Rightarrow> r
      | (None, ts) \<Rightarrow> (case switch (last ts) of WalBusy e \<Rightarrow> Inl (SqliteErr e) | _ \<Rightarrow> Inr ()))"

definition apply_writer_pragmas ::
    "bool \<Rightarrow> store_error + unit \<Rightarrow> string option \<Rightarrow> connection \<Rightarrow> store_error + connection" where
  "apply_writer_pragmas is_memory wal failed c =
     (case (if is_memory then Inr () else wal) of Inl e \<Rightarrow> Inl e
      | Inr _ \<Rightarrow> let d = (if is_memory then c else c\<lparr>cn_pragmas := cn_pragmas c @ [(''journal_mode'', ''WAL'')]\<rparr>) in
          (case failed of Some e \<Rightarrow> Inl (SqliteErr e)
           | None \<Rightarrow> Inr (d\<lparr>cn_pragmas := cn_pragmas d @ writer_pragmas is_memory\<rparr>)))"

record sqlite_connections =
  sq_writer :: connection
  sq_source :: connection_source
  sq_pool_size :: nat
  sq_keepalive :: "string option"

text \<open>
  Opening: the name of a fresh in-memory database, and how each step ends. The steps are the
  opening itself, the connection that keeps a memory database alive, the busy timeout, the
  journal mode, the settings, the migration and the pool.
\<close>

record open_io =
  oi_name :: string
  oi_open :: "string option"
  oi_keepalive :: "string option"
  oi_busy :: "string option"
  oi_wal :: "store_error + unit"
  oi_pragmas :: "string option"
  oi_migrate :: "store_error + unit"
  oi_pool :: "string option"

definition memory_uri :: "string \<Rightarrow> string" where
  "memory_uri name = ''file:memdb_'' @ name @ ''?mode=memory&cache=shared''"

definition open_with_pool_size :: "open_io \<Rightarrow> string \<Rightarrow> nat \<Rightarrow> store_error + sqlite_connections" where
  "open_with_pool_size io path pool_size =
     (let memory = is_memory_path path; target = (if memory then memory_uri (oi_name io) else path) in
      case oi_open io of Some e \<Rightarrow> Inl (SqliteErr e)
      | None \<Rightarrow>
      case (if memory then oi_keepalive io else None) of Some e \<Rightarrow> Inl (SqliteErr e)
      | None \<Rightarrow>
      case oi_busy io of Some e \<Rightarrow> Inl (SqliteErr e)
      | None \<Rightarrow>
      case apply_writer_pragmas memory (oi_wal io) (oi_pragmas io)
          \<lparr> cn_target = target, cn_read_only = False, cn_creates = True, cn_pragmas = [] \<rparr> of Inl e \<Rightarrow> Inl e
      | Inr writer \<Rightarrow>
      case oi_migrate io of Inl e \<Rightarrow> Inl e
      | Inr _ \<Rightarrow>
      case oi_pool io of Some e \<Rightarrow> Inl (PoolErr (''reader pool init: '' @ e))
      | None \<Rightarrow> Inr \<lparr> sq_writer = writer, sq_source = (if memory then SharedMemory target else FileSource target),
          sq_pool_size = max pool_size 1, sq_keepalive = (if memory then Some target else None) \<rparr>)"

definition open_store :: "open_io \<Rightarrow> string \<Rightarrow> store_error + sqlite_connections" where
  "open_store io path = open_with_pool_size io path OPEN_POOL_SIZE"

text \<open>
  Running a closure on a pooled connection or on the writer: \<open>Inl\<close> of \<open>joined\<close> is a panic in it. The
  writer is taken even after a panic, which has rolled its transaction back.
\<close>

definition with_reader :: "string option \<Rightarrow> string + (store_error + 'a) \<Rightarrow> store_error + 'a" where
  "with_reader pool_fails joined =
     (case pool_fails of Some e \<Rightarrow> Inl (PoolErr (''reader pool: '' @ e))
      | None \<Rightarrow> (case joined of Inl e \<Rightarrow> Inl (TaskJoinErr e) | Inr r \<Rightarrow> r))"

definition with_writer :: "string + (store_error + 'a) \<Rightarrow> store_error + 'a" where
  "with_writer joined = (case joined of Inl e \<Rightarrow> Inl (TaskJoinErr e) | Inr r \<Rightarrow> r)"

lemma writer_pragmas_guard: "(''foreign_keys'', ''ON'') \<in> set (writer_pragmas b)"
  by (simp add: writer_pragmas_def)

lemma reader_made:
  assumes "create_reader src a b = Inr r"
  shows "cn_pragmas r = writer_pragmas (source_is_memory src) @ [(''query_only'', ''1'')]
    \<and> cn_target r = cn_target (open_reader src) \<and> cn_read_only r = cn_read_only (open_reader src)"
  using assms by (cases src) (auto simp: create_reader_def apply_reader_pragmas_def open_reader_def split: option.splits)

text \<open>
  An open store guards its database. The writer and every connection of the pool are to the same
  database and enforce foreign keys; a pooled connection cannot write, by its flag on a file and by
  its last setting on both kinds; a file is in WAL mode before anything else is set; an in-memory
  database has a connection of its own that keeps it alive; and the pool has room for a reader
  whatever size the configuration asks for.
\<close>

theorem open_store_guarded:
  assumes "open_with_pool_size io path pool_size = Inr s" and "create_reader (sq_source s) a b = Inr r"
  shows "cn_target r = cn_target (sq_writer s) \<and> (''foreign_keys'', ''ON'') \<in> set (cn_pragmas (sq_writer s))
    \<and> (''foreign_keys'', ''ON'') \<in> set (cn_pragmas r) \<and> last (cn_pragmas r) = (''query_only'', ''1'')
    \<and> (if is_memory_path path then sq_keepalive s = Some (cn_target r)
       else cn_read_only r \<and> hd (cn_pragmas (sq_writer s)) = (''journal_mode'', ''WAL'') \<and> oi_wal io = Inr ())
    \<and> 1 \<le> sq_pool_size s"
  using assms(1) reader_made [OF assms(2)] writer_pragmas_guard
  by (auto simp: open_with_pool_size_def apply_writer_pragmas_def open_reader_def Let_def
      split: option.splits sum.splits if_splits)

theorem open_store_guarded_witness:
  "\<exists>s r. open_with_pool_size \<lparr> oi_name = ''x'', oi_open = None, oi_keepalive = None, oi_busy = None, oi_wal = Inr (),
       oi_pragmas = None, oi_migrate = Inr (), oi_pool = None \<rparr> ''/d.db'' 0 = Inr s \<and> create_reader (sq_source s) None None = Inr r
     \<and> cn_read_only r \<and> sq_pool_size s = 1"
proof -
  have path: "\<not> is_memory_path ''/d.db''" by code_simp
  let ?io = "\<lparr> oi_name = ''x'', oi_open = None, oi_keepalive = None, oi_busy = None, oi_wal = Inr (), oi_pragmas = None,
    oi_migrate = Inr (), oi_pool = None \<rparr>"
  obtain s where s: "open_with_pool_size ?io ''/d.db'' 0 = Inr s" "sq_pool_size s = 1"
    using path by (simp add: open_with_pool_size_def apply_writer_pragmas_def Let_def)
  obtain r where r: "create_reader (sq_source s) None None = Inr r"
    by (simp add: create_reader_def apply_reader_pragmas_def)
  from open_store_guarded [OF s(1) r] path s r show ?thesis by auto
qed

section \<open>The handle on the sidecar\<close>

datatype sidecar_policy = KillOnDrop | LeaveRunning

record sidecar_handle =
  sh_port :: nat
  sh_pid :: nat
  sh_process :: "nat option"
  sh_watched :: bool

definition start_sidecar ::
    "store_error + started \<Rightarrow> sidecar_policy \<Rightarrow> nat \<Rightarrow> string option \<Rightarrow> string option \<Rightarrow> store_error + sidecar_handle" where
  "start_sidecar start policy port no_runtime no_thread =
     (case start of Inl e \<Rightarrow> Inl e
      | Inr st \<Rightarrow> (case policy of
          KillOnDrop \<Rightarrow> Inr \<lparr> sh_port = port, sh_pid = sd_pid st, sh_process = (if sd_child st then Some (sd_pid st) else None),
            sh_watched = False \<rparr>
        | LeaveRunning \<Rightarrow>
          (case no_runtime of Some e \<Rightarrow> Inl (SidecarErr (''no tokio runtime: '' @ e))
           | None \<Rightarrow> (case no_thread of Some e \<Rightarrow> Inl (SidecarErr (''failed to start qdrant watcher: '' @ e))
             | None \<Rightarrow> Inr \<lparr> sh_port = port, sh_pid = sd_pid st, sh_process = None, sh_watched = True \<rparr>))))"

definition sidecar_url :: "sidecar_handle \<Rightarrow> string" where
  "sidecar_url h = ''http://localhost:'' @ show_nat (sh_port h)"

definition reap :: "bool \<Rightarrow> nat \<Rightarrow> nat set \<times> sidecar_files \<Rightarrow> nat set \<times> sidecar_files" where
  "reap locked child s = (fst s - {child}, remove_pid_files_if_ours locked child (snd s))"

text \<open>Also what dropping the handle does.\<close>

definition sidecar_shutdown :: "bool \<Rightarrow> sidecar_handle \<Rightarrow> nat set \<times> sidecar_files \<Rightarrow> sidecar_handle \<times> nat set \<times> sidecar_files" where
  "sidecar_shutdown locked h s =
     (case sh_process h of None \<Rightarrow> (h, s) | Some child \<Rightarrow> (h\<lparr>sh_process := None\<rparr>, reap locked child s))"

lemma shutdown_twice: "sidecar_shutdown l (fst (sidecar_shutdown k h s)) s' = (fst (sidecar_shutdown k h s), s')"
  by (auto simp: sidecar_shutdown_def split: option.splits)

text \<open>Whose sidecar it is: one that was found running, or that is to be left running, survives its handles.\<close>

lemma shutdown_kills_only_own:
  assumes "start_sidecar (Inr st) policy port a b = Inr h"
  shows "fst (snd (sidecar_shutdown locked h (live, fs))) =
    (if policy = KillOnDrop \<and> sd_child st then live - {sd_pid st} else live)"
  using assms by (auto simp: start_sidecar_def sidecar_shutdown_def reap_def split: sidecar_policy.splits option.splits if_splits)

end
