(* ===== verification/Collections.thy ===== *)
theory Collections
  imports VectorStore
begin

text \<open>
  The operations of the Qdrant client layer that take the caller's own collection name
  (\<open>crates/store/src/collections.rs\<close>) and the search that returns payloads (\<open>vector.rs\<close>). The service
  uses none of them; the two server calls no other operation makes are parameters.
\<close>

text \<open>\<open>create_dense\<close> creates a collection with the dense vector only.\<close>

definition create_collection ::
    "('q, 'e, 'r) ext \<Rightarrow> (string \<Rightarrow> nat \<Rightarrow> ('q, string, unit) sm) \<Rightarrow> string \<Rightarrow> nat \<Rightarrow> ('q, unit) vec_op" where
  "create_collection x create_dense name dims =
     m_bind (qcall (x_collection_exists x name)) (\<lambda>exists.
       if exists then m_ret () else qcall (create_dense name dims))"

definition upsert_batch ::
    "('q, 'e, 'r) ext \<Rightarrow> string \<Rightarrow> (string \<times> real list \<times> (string \<times> json) list) list \<Rightarrow> ('q, unit) vec_op" where
  "upsert_batch x collection points =
     (if points = [] then m_ret ()
      else qcall (x_upsert_points x collection
        (map (\<lambda>(i, vector, payload). \<lparr> pt_id = i, pt_dense = vector, pt_text = None, pt_payload = payload \<rparr>) points)))"

definition search_collection ::
    "('q, 'e, 'r) ext \<Rightarrow> string \<Rightarrow> real list \<Rightarrow> nat \<Rightarrow> qfilter option \<Rightarrow> ('q, (string \<times> real) list) vec_op" where
  "search_collection x collection vector limit filt =
     m_bind (qcall (x_query_dense x collection vector limit filt)) (\<lambda>hits. m_ret (List.map_filter hit_of hits))"

record scored_payload =
  sp_id :: string
  sp_score :: real
  sp_payload :: "(string \<times> json) list"

definition scored_payload_of :: "hit \<times> (string \<times> json) list \<Rightarrow> scored_payload option" where
  "scored_payload_of h =
     (case h of (h', payload) \<Rightarrow> map_option (\<lambda>(i, score). \<lparr> sp_id = i, sp_score = score, sp_payload = payload \<rparr>) (hit_of h'))"

definition search_with_payload ::
    "(string \<Rightarrow> hybrid_query \<Rightarrow> ('q, string, (hit \<times> (string \<times> json) list) list) sm) \<Rightarrow>
     string \<Rightarrow> real list \<Rightarrow> string \<Rightarrow> nat \<Rightarrow> qfilter option \<Rightarrow> ('q, scored_payload list) vec_op" where
  "search_with_payload query ns vector query_text limit filt =
     m_bind (m_of (collection_name ns)) (\<lambda>name.
     m_bind (qcall (query name
         \<lparr> hq_dense = vector, hq_text = query_text, hq_prefetch_limit = max limit MIN_PREFETCH_LIMIT,
           hq_filter = filt, hq_limit = limit \<rparr>)) (\<lambda>hits.
     m_ret (List.map_filter scored_payload_of hits)))"

section \<open>Agreement with the operations on namespaces\<close>

lemma payload_hits:
  "map (\<lambda>r. (sp_id r, sp_score r)) (List.map_filter scored_payload_of hs) = List.map_filter hit_of (map fst hs)"
  by (induction hs) (auto simp: List.map_filter_def scored_payload_of_def)

text \<open>
  The search with payloads finds what the plain search finds: where the server answers both
  queries with the same hits, the ids and scores agree, errors and state included.
\<close>

lemma search_with_payload_agrees:
  assumes "\<And>name hq q. x_query_hybrid x name hq q = (case query name hq q of (r, q') \<Rightarrow> (map_sum id (map fst) r, q'))"
  shows "v_search x ns vector text limit filt v =
    (case search_with_payload query ns vector text limit filt v of
       (r, v') \<Rightarrow> (map_sum id (map (\<lambda>r. (sp_id r, sp_score r))) r, v'))"
  by (auto simp: v_search_def search_with_payload_def m_bind_def m_of_def qcall_def m_zoom_def m_ret_def assms payload_hits
      split: sum.splits prod.splits)

lemma search_collection_of_namespace:
  "collection_name ns = Inr name \<Longrightarrow> v_search_dense x ns vector limit filt = search_collection x name vector limit filt"
  by (simp add: v_search_dense_def search_collection_def m_bind_def m_of_def fun_eq_iff)

end
