(* ===== verification/Spec2Isabelle.thy ===== *)
theory Spec2Isabelle
  imports Overlap AdminLaws ReflectLaws ProxyRuns ServerTools RunDirLaws CommandLaws Nuke
    PumpRefines ReattachLaws Session Launch Opening Collections
begin

text \<open>
  A model of ferrex, a memory server for coding agents, with the theorems that make it correct.

  \<^bold>\<open>The program.\<close> An agent speaks MCP (JSON-RPC lines) to a \<^emph>\<open>proxy\<close>. The proxy connects to a
  shared \<^emph>\<open>daemon\<close>, starting one if nobody listens, exchanges a \<^emph>\<open>hello\<close> with it and then copies
  lines both ways, replacing the daemon when it is lost. Each connection is a session of the
  daemon; its tools call the one \<^emph>\<open>memory service\<close>. The service keeps memories as rows of a SQLite
  database and as points of a Qdrant collection per namespace. A store or a forget writes to
  both, under an entry of an operation journal that start-up recovery reads; a recall searches
  Qdrant, joins the rows and answers through a cache that writes invalidate.

  \<^bold>\<open>Shared vocabulary.\<close>
  \<^item> \<open>Prelude\<close>: fallible state passing (\<open>sm\<close>: an async method with \<open>?\<close> is \<open>m_bind\<close>, an error keeps
    the effects made before it), Rust's string functions, time in nanoseconds with chrono's
    truncating divisions, rows as association lists, \<open>chunks\<close>, the collections \<open>keeps_intros\<close>
    and \<open>completes_intros\<close>, and the locale \<open>pk_table\<close> of a table with a primary key. \<open>Machine\<close>: runs and
    invariants of step functions, once for all, in the locale \<open>machine\<close>; it is interpreted on the
    proxy (\<open>proxies\<close>), the daemon (\<open>daemons\<close>), the run directory (\<open>run_dirs\<close>), the sidecar's starters
    (\<open>starters\<close>) and its watcher (\<open>watchers\<close>), the proxy's stdout (\<open>meters\<close>) and a connection of the
    daemon (\<open>sessions\<close>).
  \<^item> \<open>StoreTypes\<close>, \<open>CoreTypes\<close>: the records and enums of \<open>crates/store/src/lib.rs\<close>, \<open>journal.rs\<close>,
    \<open>error.rs\<close> and of \<open>crates/core/src/types.rs\<close>, \<open>error.rs\<close>.
  \<^item> \<open>External\<close>: what is not code of the repository, as one record of functions: the Qdrant
    client, the models, the LRU cache, string similarity, UUIDs, hashing, the clock. \<open>Demo\<close> is a
    small instance of it that only the witnesses use. \<open>Wire\<close> does the same for \<open>serde_json\<close>.

  \<^bold>\<open>The stores.\<close>
  \<^item> \<open>Tables\<close>: the tables of \<open>schema.rs\<close> with their keys as the predicate \<open>db_ok\<close>, the alias
    migration, rows to memories and back. \<open>SqliteStore\<close>: one definition per \<open>MetadataStore\<close>
    operation of \<open>metadata.rs\<close>. \<open>SqliteLaws\<close>: constraints are kept, chunked statements agree with
    single ones, the write transaction is atomic, pruning and timelines.
  \<^item> \<open>Opening\<close>: the connections of \<open>metadata.rs\<close> with their settings, the waits on lock files of
    \<open>sidecar.rs\<close> and on SQLite's journal mode as uses of one retry loop, the handle on the sidecar.
  \<^item> \<open>VectorStore\<close>: \<open>vector.rs\<close> over any Qdrant; \<open>Collections\<close>: \<open>collections.rs\<close> and the search with
    payloads, which the service does not call.

  \<^bold>\<open>The service\<close> (\<open>crates/core/src\<close>).
  \<^item> \<open>Scoring\<close> (\<open>staleness.rs\<close>, \<open>retrieval.rs\<close>; reals for \<open>f64\<close>), \<open>Predicates\<close> (\<open>predicate.rs\<close>), \<open>Config\<close>
    (\<open>config.rs\<close>), \<open>Buffers\<close> (\<open>cache.rs\<close>, \<open>access_tracker.rs\<close>, \<open>ops_buffer.rs\<close>).
  \<^item> \<open>World\<close>: the state of the service (\<open>world\<close>) and the lifting of store operations to it. Its
    locales state what a predicate on the database must survive (\<open>entity_writes\<close>, \<open>db_writes\<close>,
    \<open>db_all_writes\<close>, \<open>row_fact\<close>); interpreting one gives the preservation of that predicate by every
    operation of the service. They are interpreted on the schema's constraints (\<open>ok\<close>), on the
    facts of a row (\<open>fact\<close>, \<open>retired\<close>), on the registry of entities (\<open>known\<close>) and on the tables
    that entity resolution leaves alone (\<open>frame\<close>).
  \<^item> \<open>Entity\<close> (\<open>entity.rs\<close>), \<open>StorePipeline\<close> (\<open>pipeline/*.rs\<close>, \<open>service/store.rs\<close>) and \<open>StoreLaws\<close>: the
    dual write is the list \<open>write_effects\<close>; every prefix of it is described by \<open>write_progress\<close>, from
    which success, failure and, in \<open>RecoverLaws\<close>, a crash at any point follow.
  \<^item> \<open>ForgetRecover\<close> (\<open>service/forget.rs\<close>, \<open>service.rs\<close>), \<open>PointLaws\<close> and \<open>RecoverLaws\<close>: what recovery
    does to any journal, and the outcome of an interrupted store or forget after it, for the rows
    and, on any server that upserts and deletes points by id (\<open>point_server\<close>, whose failed calls may
    have had their effect), for the points. \<open>Overlap\<close>: the same recovery while another process is
    in the middle of a store.
  \<^item> \<open>RecallOp\<close>, \<open>RecallLaws\<close> (\<open>service/recall.rs\<close>); \<open>ReflectOp\<close>, \<open>ReflectLaws\<close> (\<open>reflect.rs\<close>,
    \<open>service/reflect_op.rs\<close>); \<open>AdminOps\<close>, \<open>AdminLaws\<close> (\<open>service/admin.rs\<close>, \<open>timeline.rs\<close>, \<open>taxonomy.rs\<close>,
    \<open>stats.rs\<close>).
  \<^item> \<open>Models\<close> (\<open>crates/embed/src/lib.rs\<close>): tiers, errors and the ranking of scores.

  \<^bold>\<open>The server\<close> (\<open>crates/server/src\<close>).
  \<^item> \<open>Handshake\<close>, \<open>HelloLaws\<close>: messages of \<open>daemon/handshake.rs\<close>, \<open>accept_hello\<close> of \<open>session.rs\<close>;
    round trips and the agreement of both sides. \<open>Session\<close> (\<open>daemon/session.rs\<close>): a connection
    from the limits of its hello line to the guard that reports its end.
  \<^item> \<open>Rounds\<close>, \<open>Spawning\<close> (\<open>daemon/spawn.rs\<close>): attempts and rounds, and \<open>connect_or_spawn\<close> with its
    effects in order, given what each system call returns. \<open>RunDir\<close>, \<open>RunDirLaws\<close>: all proxies and
    daemons of a run directory in any interleaving, with the decisions and effects of the former
    theories; the spawn lock, the socket and the pid file are the shared state, and the invariant
    \<open>owner_ok\<close> (who holds the lock, who may be starting, whose files are there) gives one daemon.
  \<^item> \<open>Addr\<close>, \<open>AddrLaws\<close> (\<open>daemon/addr.rs\<close>, \<open>admin_guard.rs\<close>): run directory, key, paths, pid files, live
    daemons and the guard; the hash and the printer are parameters. Of the configuration the key
    is made from (\<open>key_config\<close>, field by field \<open>FerrexConfig\<close>) the nested sections are in their
    serialised form.
  \<^item> \<open>ProxyTrack\<close> (\<open>proxy/track.rs\<close>) and \<open>ProxyLoop\<close> (\<open>proxy.rs\<close>, \<open>proxy/reconnect.rs\<close>): the proxy as a
    state machine of two tasks, the main loop and the pump; an event is what one of them does
    between two points where the other may run. \<open>ProxyLaws\<close> has the invariant \<open>proxy_inv\<close> and
    \<open>ProxyRuns\<close> the order of lines, the properties and two races. \<open>Reattach\<close>, \<open>ReattachLaws\<close>: what an attempt
    reads and writes on a fresh connection, which refines the events of \<open>ProxyLoop\<close>. \<open>Stdout\<close>,
    \<open>StdoutLaws\<close> (\<open>proxy/budget.rs\<close>, pump and writer of \<open>proxy.rs\<close>): permits, parks, the \<open>stalled\<close> loop
    and the writer thread in any interleaving; invariants \<open>permits_ok\<close>, \<open>stall_ok\<close> and \<open>pipe_ok\<close>;
    \<open>PumpRefines\<close>: this is an implementation of the pump of \<open>ProxyLoop\<close>, line by line. The budget
    bounds the lines that carry a share of it; the line a pump held when its connection was lost
    waits without one.
  \<^item> \<open>IdleTimer\<close> (\<open>daemon/idle.rs\<close>, \<open>env.rs\<close>): the timer and the machine it refines. \<open>Daemon\<close>
    (\<open>daemon.rs\<close>, phases of \<open>session.rs\<close>): clients, sessions and the loop as one state machine;
    its field \<open>d_shut_out\<close>, which the code does not have, counts connections accepted and closed
    by a shutdown.
  \<^item> \<open>ServerTools\<close> (\<open>server.rs\<close>, \<open>params.rs\<close>, \<open>hint.rs\<close>): the tools as functions of their parameters.
  \<^item> \<open>Commands\<close>, \<open>CommandLaws\<close>, \<open>Nuke\<close> (\<open>commands.rs\<close>, \<open>audit.rs\<close>, \<open>backfill.rs\<close>, paths of \<open>cli.rs\<close>): the
    administration commands with their guards, and the deletion of everything with the signals and
    deletions in order. \<open>Launch\<close> (\<open>cli.rs\<close>, \<open>main.rs\<close>, start of \<open>daemon.rs\<close>): command line,
    configuration, dispatch, and why a proxy's child accepts the proxy's key.
  \<^item> \<open>Sidecar\<close>, \<open>SidecarLaws\<close> (\<open>crates/store/src/sidecar.rs\<close>): pid and port files, recognising a process,
    the health check, the watcher with its budget, and all starters as one step relation whose
    invariant \<open>starters_ok\<close> gives one sidecar.

  \<^bold>\<open>Fuel and bounds.\<close> The only loop with fuel is the scroll over a collection (\<open>scroll_loop\<close>, one
  unit per page request): \<open>scroll_ends\<close> shows that one unit for every started page of 1024 points
  is enough, and without enough fuel the result is \<open>None\<close>. A round of connection attempts
  terminates by the measure \<open>MAX_ATTEMPTS\<close> minus the attempts made. Waiting for a spawned daemon
  reads a list of polls and returns by the first one past the deadline. The numbers of stored
  data (\<open>i64\<close>, \<open>u64\<close>, \<open>usize\<close>) are natural numbers or integers where no operation can exceed
  them; the access counter and chrono's ranges, where one can, are bounded explicitly. The cache's
  generations (\<open>u64\<close>, one step per write) are natural numbers and do not wrap.

  \<^bold>\<open>Assumptions of the step relations.\<close> In \<open>RunDir\<close> daemons are started by proxies only, killing a
  child ends it at once, and a live listener refuses a connection at most once its pid file is
  written (Linux: never); \<open>orderly\<close> excludes a proxy killed outright while its child starts, and
  \<open>killed_proxy_two_daemons\<close> shows why. In \<open>Sidecar\<close> no process gets a pid a sidecar has had, and
  \<open>sc_orderly\<close> excludes a starter's death while its child is in no file;
  removing the pid files always succeeds there, while the code goes on when it fails.

  The retry loop of \<open>Opening\<close> terminates by the time left until its deadline. In \<open>Stdout\<close> the
  semaphore serves one waiter, since a new pump starts only after the last one has ended; that a
  waiter collects permits bit by bit is not visible then. A notification reaches a \<open>stalled\<close> loop
  from the creation of its future on, as the runtime documents.

  \<^bold>\<open>Not modelled.\<close> The pool of connections, the models' inference and the system calls of the
  sidecar, with its process information on macOS; argument parsing and tracing
  (\<open>cli.rs\<close>, \<open>main.rs\<close>), the stdio loop of \<open>standalone.rs\<close>; log lines and diagnostics on stderr; the
  \<open>FERREX_TEST_*\<close> hooks. Futures of one service operation are run one after the other, so two
  operations of one service do not interleave, apart from \<open>Overlap\<close>, where two processes do; the
  cache's generations, which exist for that case, are treated on their own in \<open>Buffers\<close>, for any
  order of the steps of recalls and writes: a lookup is two of them, since \<open>get_results\<close> reads the
  generation and looks into the cache under two locks.
\<close>

end
